(* ===== verification/Prelude.thy ===== *)
theory Prelude
  imports Main "HOL-Library.Word" "HOL-Library.Monad_Syntax"
begin

unbundle bit_operations_syntax

text \<open>
  Shared ground of the development: the machine types of the C code (an LP64 target), checked
  array access, the library's fact collections, generic lemmas on lists and bit masks, and the
  interface every stateful component instantiates (a transition system with an invariant).

  Result convention of the whole library: an operation of the C code is a function that returns
  \<open>(result \<times> state) option\<close>. \<open>None\<close> means that the C code has no defined result for that input:
  a NULL or dangling pointer is dereferenced, an array is indexed out of range, an \<open>assert\<close>
  fails, or a loop never ends (loops are \<open>partial_function (option)\<close>, whose \<open>None\<close> is
  divergence). A theorem that an operation returns is therefore a theorem that it is
  \<open>Some\<close>.
\<close>

section \<open>Machine types\<close>

type_synonym uint = "32 word"
type_synonym dword = "64 word"
type_synonym hwnd = "64 word"
type_synonym procptr = "64 word"
type_synonym thread_id = nat

text \<open>A call returns to its caller, or the thread (or the process) ends during the call.\<close>

datatype 'a outcome = Returns 'a | Exits

section \<open>Fact collections\<close>

named_theorems array_simps "checked array access"
named_theorems ring_simps "positions and contents of a ring buffer"
named_theorems list_simps "linked lists on a heap of cells"
named_theorems flag_simps "bits of a flag word"
named_theorems inv_intros "introduction rules of component invariants"

section \<open>Checked arrays\<close>

definition arr_get :: "'a list \<Rightarrow> nat \<Rightarrow> 'a option" where
  "arr_get xs i = (if i < length xs then Some (xs ! i) else None)"

definition arr_set :: "'a list \<Rightarrow> nat \<Rightarrow> 'a \<Rightarrow> 'a list option" where
  "arr_set xs i v = (if i < length xs then Some (xs[i := v]) else None)"

lemma arr_get_in [array_simps]: "i < length xs \<Longrightarrow> arr_get xs i = Some (xs ! i)"
  by (simp add: arr_get_def)

lemma arr_set_in [array_simps]: "i < length xs \<Longrightarrow> arr_set xs i v = Some (xs[i := v])"
  by (simp add: arr_set_def)

lemma arr_get_Some_iff: "arr_get xs i = Some v \<longleftrightarrow> i < length xs \<and> xs ! i = v"
  by (auto simp: arr_get_def)

lemma arr_set_Some_iff: "arr_set xs i v = Some ys \<longleftrightarrow> i < length xs \<and> ys = xs[i := v]"
  by (auto simp: arr_set_def)

section \<open>Lists\<close>

lemma filter_take_drop_Suc:
  "j < length xs \<Longrightarrow>
     filter P (drop j xs) = (if P (xs ! j) then [xs ! j] else []) @ filter P (drop (Suc j) xs)"
  by (subst Cons_nth_drop_Suc [symmetric]) auto

lemma drop_remove_nth:
  "j < length xs \<Longrightarrow> drop j (take j xs @ drop (Suc j) xs) = drop (Suc j) xs"
  by simp

lemma find_append:
  "List.find P (xs @ ys) = (case List.find P xs of None \<Rightarrow> List.find P ys | Some x \<Rightarrow> Some x)"
  by (induction xs) auto

lemma length_filter_Not: "length (filter P xs) + length (filter (\<lambda>x. \<not> P x) xs) = length xs"
  by (rule sum_length_filter_compl)

section \<open>Bits of a mask\<close>

lemma word_nonzero_bit:
  fixes m :: "'a::len word"
  shows "m \<noteq> 0 \<longleftrightarrow> (\<exists>i < LENGTH('a). bit m i)"
  by (auto simp: bit_eq_iff bit_simps dest: bit_imp_le_length)

lemma bit_mask_and [flag_simps]:
  fixes m :: "'a::len word"
  shows "k < LENGTH('a) \<Longrightarrow> (m AND 2 ^ k \<noteq> 0) = bit m k"
  by (subst word_nonzero_bit) (auto simp: bit_simps)

lemma bit_clear_flag [flag_simps]:
  fixes m :: "'a::len word"
  shows "bit (m AND NOT (2 ^ k)) i = (bit m i \<and> i \<noteq> k)"
  by (auto simp: bit_simps dest: bit_imp_le_length)

lemma bit_set_flag [flag_simps]:
  fixes m :: "'a::len word"
  shows "bit (m OR 2 ^ k) i = (bit m i \<or> i = k \<and> k < LENGTH('a))"
  by (auto simp: bit_simps)

section \<open>Loops over a list of steps that may fault\<close>

primrec foldm :: "('a \<Rightarrow> 'd \<Rightarrow> 'd option) \<Rightarrow> 'a list \<Rightarrow> 'd \<Rightarrow> 'd option" where
  "foldm cb [] d = Some d"
| "foldm cb (h # hs) d = do { d' \<leftarrow> cb h d; foldm cb hs d' }"

lemma foldm_append: "foldm cb (xs @ ys) d = do { d' \<leftarrow> foldm cb xs d; foldm cb ys d' }"
  by (induction xs arbitrary: d) simp_all

lemma foldm_invariant:
  assumes "\<And>x d d'. x \<in> set xs \<Longrightarrow> I d \<Longrightarrow> cb x d = Some d' \<Longrightarrow> I d'" "I d" "foldm cb xs d = Some d'"
  shows "I d'"
  using assms by (induction xs arbitrary: d) (auto split: bind_splits)

lemma fold_keep: "(\<And>x k. P k \<Longrightarrow> P (g x k)) \<Longrightarrow> P k \<Longrightarrow> P (fold g xs k)"
  by (induction xs arbitrary: k) auto

section \<open>Transition systems\<close>

text \<open>
  The contract between a component and its users: a predicate of initial states, a step
  relation, and an invariant that holds at the start and is kept by every step. Every component
  with state interprets it; the client's lemma is that every reachable state satisfies the
  invariant.
\<close>

locale transition_system =
  fixes init :: "'s \<Rightarrow> bool"
    and step :: "'s \<Rightarrow> 's \<Rightarrow> bool"
    and inv :: "'s \<Rightarrow> bool"
  assumes init_inv: "init s \<Longrightarrow> inv s"
    and step_inv: "inv s \<Longrightarrow> step s t \<Longrightarrow> inv t"
begin

lemma steps_inv: "step\<^sup>*\<^sup>* s t \<Longrightarrow> inv s \<Longrightarrow> inv t"
  by (induction rule: rtranclp_induct) (auto intro: step_inv)

lemma reachable_inv: "init s \<Longrightarrow> step\<^sup>*\<^sup>* s t \<Longrightarrow> inv t"
  by (blast intro: init_inv steps_inv)

end

text \<open>
  A system whose runs end: each step lowers a rank, and a state that is not final has a step. No
  run is longer than the rank of its first state, none gets stuck, and every one can be completed.
\<close>

locale terminating_system = transition_system +
  fixes final :: "'a \<Rightarrow> bool"
    and rank :: "'a \<Rightarrow> nat"
  assumes step_rank: "inv s \<Longrightarrow> step s t \<Longrightarrow> rank t < rank s"
    and progress: "inv s \<Longrightarrow> \<not> final s \<Longrightarrow> \<exists>t. step s t"
begin

lemma run_bounded: "(step ^^ n) s t \<Longrightarrow> inv s \<Longrightarrow> n + rank t \<le> rank s"
proof (induction n arbitrary: t)
  case (Suc n)
  from Suc.prems(1) obtain u where u: "(step ^^ n) s u" "step u t" by (auto simp: relcompp_apply)
  have "inv u" using steps_inv [OF relpowp_imp_rtranclp [OF u(1)]] Suc.prems(2) by simp
  with Suc.IH [OF u(1) Suc.prems(2)] step_rank [OF _ u(2)] show ?case by simp
qed simp

lemma completes: "inv s \<Longrightarrow> \<exists>t. step\<^sup>*\<^sup>* s t \<and> final t"
proof (induction "rank s" arbitrary: s rule: less_induct)
  case less
  show ?case
  proof (cases "final s")
    case False
    then obtain t where "step s t" using progress less.prems by blast
    with less.hyps [OF step_rank] less.prems step_inv show ?thesis
      by (meson converse_rtranclp_into_rtranclp)
  qed blast
qed

end

end
