(* ===== verification/RingBuffer.thy ===== *)
theory RingBuffer
  imports Prelude
begin

text \<open>
  The circular buffer discipline of the posted messages: an array of \<open>len\<close> slots, a read and a
  write position, \<open>pos++; pos %= len\<close> to advance, empty when the positions agree and full when
  the write position would reach the read position. \<open>seg buf rd n\<close> lists the \<open>n\<close> elements
  starting at \<open>rd\<close>; the lemmas say what each array operation does to that list.
\<close>

definition ring_next :: "nat \<Rightarrow> nat \<Rightarrow> nat" where
  "ring_next len pos = (pos + 1) mod len"

definition ring_count :: "nat \<Rightarrow> nat \<Rightarrow> nat \<Rightarrow> nat" where
  "ring_count len rd wr = (wr + len - rd) mod len"

definition seg :: "'a list \<Rightarrow> nat \<Rightarrow> nat \<Rightarrow> 'a list" where
  "seg buf rd n = map (\<lambda>k. buf ! ((rd + k) mod length buf)) [0..<n]"

lemma length_seg [simp]: "length (seg buf rd n) = n"
  by (simp add: seg_def)

lemma seg_0 [simp]: "seg buf rd 0 = []"
  by (simp add: seg_def)

lemma nth_seg [ring_simps]: "k < n \<Longrightarrow> seg buf rd n ! k = buf ! ((rd + k) mod length buf)"
  by (simp add: seg_def)

lemma ring_next_less [ring_simps]: "0 < len \<Longrightarrow> ring_next len pos < len"
  by (simp add: ring_next_def)

lemma ring_next_mod [ring_simps]: "ring_next len ((rd + k) mod len) = (rd + Suc k) mod len"
  by (simp add: ring_next_def mod_Suc_eq)

lemma ring_count_less [ring_simps]: "0 < len \<Longrightarrow> ring_count len rd wr < len"
  by (simp add: ring_count_def)

lemma ring_write_pos:
  assumes "rd < len" "wr < len"
  shows "wr = (rd + ring_count len rd wr) mod len"
proof (cases "rd \<le> wr")
  case True
  then have "ring_count len rd wr = (wr - rd + len) mod len"
    by (simp add: ring_count_def)
  then have "ring_count len rd wr = wr - rd"
    using assms by (simp only: mod_add_self2) simp
  with True assms show ?thesis by simp
next
  case False
  then have "ring_count len rd wr = wr + len - rd"
    using assms by (simp add: ring_count_def)
  with False assms show ?thesis by simp
qed

lemma ring_count_pos:
  assumes "rd < len" "n < len"
  shows "ring_count len rd ((rd + n) mod len) = n"
proof (cases "rd + n < len")
  case True
  then show ?thesis using assms by (simp add: ring_count_def)
next
  case False
  then have "(rd + n) mod len = rd + n - len"
    using assms by (simp add: mod_if)
  with False assms show ?thesis by (simp add: ring_count_def)
qed

lemma ring_empty_iff [ring_simps]:
  assumes "rd < len" "wr < len"
  shows "ring_count len rd wr = 0 \<longleftrightarrow> rd = wr"
  using ring_write_pos [OF assms] assms ring_count_pos [of rd len 0] by auto

lemma ring_pos_inj:
  fixes rd i j len :: nat
  assumes "i < len" "j < len"
  shows "(rd + i) mod len = (rd + j) mod len \<longleftrightarrow> i = j"
proof
  assume eq: "(rd + i) mod len = (rd + j) mod len"
  have "(rd mod len + i) mod len = (rd mod len + j) mod len"
    by (simp only: mod_add_left_eq eq)
  then have "ring_count len (rd mod len) ((rd mod len + i) mod len)
           = ring_count len (rd mod len) ((rd mod len + j) mod len)"
    by simp
  then show "i = j" using assms by (simp add: ring_count_pos)
qed simp

lemma ring_next_inj: "a < len \<Longrightarrow> b < len \<Longrightarrow> ring_next len a = ring_next len b \<Longrightarrow> a = b"
  using ring_pos_inj [of a len b 1] by (simp add: ring_next_def add.commute)

lemma ring_full_iff:
  assumes "rd < len" "wr < len"
  shows "ring_next len wr = rd \<longleftrightarrow> ring_count len rd wr = len - 1"
proof -
  let ?n = "ring_count len rd wr"
  have n: "?n < len" using assms by (simp add: ring_count_less)
  have "ring_next len wr = (rd + Suc ?n) mod len"
    using ring_write_pos [OF assms] ring_next_mod by metis
  moreover have "(rd + Suc ?n) mod len = rd \<longleftrightarrow> ?n = len - 1"
  proof (cases "Suc ?n < len")
    case True
    then have "(rd + Suc ?n) mod len = (rd + 0) mod len \<longleftrightarrow> Suc ?n = 0"
      by (intro ring_pos_inj) auto
    with True assms show ?thesis by auto
  next
    case False
    with n have "Suc ?n = len" by simp
    with assms show ?thesis by auto
  qed
  ultimately show ?thesis by simp
qed

lemma seg_Suc_head [ring_simps]:
  "rd < length buf \<Longrightarrow> seg buf rd (Suc n) = buf ! rd # seg buf (ring_next (length buf) rd) n"
  by (rule nth_equalityI)
    (auto simp: seg_def ring_next_def mod_add_left_eq nth_Cons' less_Suc_eq_0_disj
      simp del: upt_Suc)

lemma seg_snoc:
  assumes "n < length buf"
  shows "seg (buf[(rd + n) mod length buf := x]) rd (Suc n) = seg buf rd n @ [x]"
proof (rule nth_equalityI)
  fix i
  assume "i < length (seg (buf[(rd + n) mod length buf := x]) rd (Suc n))"
  then have i: "i < Suc n" by simp
  have pos: "(rd + i) mod length buf < length buf" using assms by (cases buf) auto
  show "seg (buf[(rd + n) mod length buf := x]) rd (Suc n) ! i = (seg buf rd n @ [x]) ! i"
  proof (cases "i = n")
    case True
    then show ?thesis using pos by (simp add: nth_seg nth_append)
  next
    case False
    then have "(rd + n) mod length buf \<noteq> (rd + i) mod length buf"
      using i assms ring_pos_inj [of n "length buf" i rd] by auto
    with False i show ?thesis by (simp add: nth_seg nth_append)
  qed
qed simp

lemma seg_update:
  assumes "k < n" "n \<le> length buf"
  shows "seg (buf[(rd + k) mod length buf := x]) rd n = (seg buf rd n)[k := x]"
proof (rule nth_equalityI)
  fix i
  assume "i < length (seg (buf[(rd + k) mod length buf := x]) rd n)"
  then have i: "i < n" by simp
  have pos: "(rd + i) mod length buf < length buf" using assms by (cases buf) auto
  have "(rd + k) mod length buf = (rd + i) mod length buf \<longleftrightarrow> k = i"
    using i assms by (intro ring_pos_inj) auto
  then show "seg (buf[(rd + k) mod length buf := x]) rd n ! i = (seg buf rd n)[k := x] ! i"
    using i pos by (cases "k = i") (simp_all add: nth_seg)
qed simp

lemma seg_update_outside:
  assumes "n \<le> k" "k < length buf"
  shows "seg (buf[(rd + k) mod length buf := x]) rd n = seg buf rd n"
proof (rule nth_equalityI)
  fix i
  assume "i < length (seg (buf[(rd + k) mod length buf := x]) rd n)"
  then have i: "i < n" by simp
  have "(rd + k) mod length buf \<noteq> (rd + i) mod length buf"
    using i assms ring_pos_inj [of k "length buf" i rd] by auto
  then show "seg (buf[(rd + k) mod length buf := x]) rd n ! i = seg buf rd n ! i"
    using i by (simp add: nth_seg)
qed simp

lemma take_seg [ring_simps]: "m \<le> n \<Longrightarrow> take m (seg buf rd n) = seg buf rd m"
  by (simp add: seg_def take_map)

end
