(* ===== verification/CyclicSearch.thy ===== *)
theory CyclicSearch
  imports RingBuffer
begin

text \<open>
  The search pattern that occurs twice in the code: start at a remembered position of a circular
  table, look at one position after the other, and give up when the start is reached again
  (the slot of an expired timer in \<open>PeekMessageEx\<close>, a free slot of the thread table in
  \<open>pthread_create\<close>). The locale states the equation of such a loop over a table of \<open>n\<close> positions;
  both loops interpret it.
\<close>

locale cyclic_search =
  fixes n :: nat
    and P :: "nat \<Rightarrow> bool"
    and f :: "nat \<Rightarrow> nat \<Rightarrow> nat option option"
  assumes loop: "i < n \<Longrightarrow> first < n \<Longrightarrow> f first i =
    (if P i then Some (Some i) else if (i + 1) mod n = first then Some None else f first ((i + 1) mod n))"
begin

lemma pos_less: "first < n \<Longrightarrow> (first + j) mod n < n"
  by (cases n) auto

lemma loop_at:
  assumes "first < n" "Suc j < n" "\<not> P ((first + j) mod n)"
  shows "f first ((first + j) mod n) = f first ((first + Suc j) mod n)"
proof -
  have "(first + Suc j) mod n = (first + 0) mod n \<longleftrightarrow> Suc j = 0"
    using assms by (intro ring_pos_inj) auto
  then have ne: "(first + Suc j) mod n \<noteq> first" using assms(1) by simp
  have "((first + j) mod n + 1) mod n = (first + Suc j) mod n" by (simp add: mod_simps)
  with ne assms(3) show ?thesis
    by (simp only: loop [OF pos_less [OF assms(1)] assms(1)] if_False)
qed

lemma hit_from:
  assumes n: "first < n" "j \<le> d" "d < n"
    and hit: "P ((first + d) mod n)" "\<And>e. e < d \<Longrightarrow> \<not> P ((first + e) mod n)"
  shows "f first ((first + j) mod n) = Some (Some ((first + d) mod n))"
  using n(2)
proof (induction j rule: inc_induct)
  case base
  show ?case using loop [OF pos_less [OF n(1)] n(1), of d] hit(1) by simp
next
  case (step j)
  then show ?case using loop_at [OF n(1), of j] hit(2) n(3) by simp
qed

lemma miss_from:
  assumes n: "first < n" "j < n" and miss: "\<And>k. k < n \<Longrightarrow> \<not> P k"
  shows "f first ((first + j) mod n) = Some None"
proof -
  have "j \<le> n - 1" using n by simp
  then show ?thesis
  proof (induction j rule: inc_induct)
    case base
    have nb: "\<not> P ((first + (n - 1)) mod n)" using n(1) pos_less miss by blast
    have "((first + (n - 1)) mod n + 1) mod n = (first + (n - 1) + 1) mod n" by (rule mod_add_left_eq)
    also have "\<dots> = first" using n by simp
    finally show ?case using loop [OF pos_less [OF n(1)] n(1), of "n - 1"] nb by simp
  next
    case (step j)
    then show ?case using loop_at [OF n(1), of j] miss pos_less [OF n(1)] by simp
  qed
qed

lemma search_first:
  assumes n: "first < n" and ex: "k < n" "P k"
  shows "\<exists>d < n. f first first = Some (Some ((first + d) mod n)) \<and>
    P ((first + d) mod n) \<and> (\<forall>e < d. \<not> P ((first + e) mod n))"
proof -
  let ?Q = "\<lambda>d. d < n \<and> P ((first + d) mod n)"
  define d where "d = (LEAST d. ?Q d)"
  have "k = (first + ring_count n first k) mod n" using n ex by (intro ring_write_pos)
  then have "?Q (ring_count n first k)" using n ex ring_count_less [of n first k] by simp
  then have d: "?Q d" "\<And>e. e < d \<Longrightarrow> \<not> ?Q e"
    unfolding d_def by (rule LeastI, metis not_less_Least)
  have "f first ((first + 0) mod n) = Some (Some ((first + d) mod n))"
    using n d by (intro hit_from) auto
  with n d show ?thesis by (intro exI [of _ d]) auto
qed

lemma search_none:
  assumes "first < n" "\<And>k. k < n \<Longrightarrow> \<not> P k"
  shows "f first first = Some None"
  using miss_from [OF assms(1) _ assms(2), of 0] assms(1) by simp

end

end
