(* ===== verification/MsgTypes.thy ===== *)
theory MsgTypes
  imports CyclicSearch
begin

text \<open>
  The data of the MiniGUI messaging module (lecture-5/minigui-internals.h, minigui-window.h):
  message identifiers, the MSG, QMSG and SYNCMSG structures, timers, window objects, the
  MSGQUEUE of a message thread, and the global store that holds them. The configuration modelled
  is \<open>_MGHAVE_VIRTUAL_WINDOW\<close> (message threads) with \<open>HAVE_SELECT\<close>, on an LP64 target.
  Pointers to MSGQUEUE, QMSG, SYNCMSG and semaphore objects are numbers into one map each of the
  store, with \<open>None\<close> as NULL; an HWND is a 64-bit word whose target, if any, is in \<open>wins\<close>;
  code pointers are 64-bit words with 0 as NULL.
\<close>

section \<open>Message identifiers and constants\<close>

definition MSG_FIRSTMOUSEMSG :: uint where "MSG_FIRSTMOUSEMSG = 0x0001"
definition MSG_MOUSEMOVE :: uint where "MSG_MOUSEMOVE = 0x0004"
definition MSG_NCMOUSEMOVE :: uint where "MSG_NCMOUSEMOVE = 0x000E"
definition MSG_LASTMOUSEMSG :: uint where "MSG_LASTMOUSEMSG = 0x0014"
definition MSG_PAINT :: uint where "MSG_PAINT = 0x00B1"
definition MSG_DT_MOUSEMOVE :: uint where "MSG_DT_MOUSEMOVE = 0x00D4"
definition MSG_COMMAND :: uint where "MSG_COMMAND = 0x0120"
definition MSG_NOTIFICATION :: uint where "MSG_NOTIFICATION = 0x0136"
definition MSG_QUIT :: uint where "MSG_QUIT = 0x0140"
definition MSG_IDLE :: uint where "MSG_IDLE = 0x0142"
definition MSG_TIMEOUT :: uint where "MSG_TIMEOUT = 0x0143"
definition MSG_TIMER :: uint where "MSG_TIMER = 0x0144"
definition MSG_CARETBLINK :: uint where "MSG_CARETBLINK = 0x0145"
definition MSG_MANAGE_MSGTHREAD :: uint where "MSG_MANAGE_MSGTHREAD = 0x014A"
definition MSG_BROADCASTMSG :: uint where "MSG_BROADCASTMSG = 0x0166"

lemmas msg_ids = MSG_FIRSTMOUSEMSG_def MSG_MOUSEMOVE_def MSG_NCMOUSEMOVE_def
  MSG_LASTMOUSEMSG_def MSG_PAINT_def MSG_DT_MOUSEMOVE_def MSG_COMMAND_def MSG_NOTIFICATION_def
  MSG_QUIT_def MSG_IDLE_def MSG_TIMEOUT_def MSG_TIMER_def MSG_CARETBLINK_def
  MSG_MANAGE_MSGTHREAD_def MSG_BROADCASTMSG_def

definition PM_NOREMOVE :: uint where "PM_NOREMOVE = 0"
definition PM_REMOVE :: uint where "PM_REMOVE = 1"

definition HWND_NULL :: hwnd where "HWND_NULL = 0"
definition HWND_INVALID :: hwnd where "HWND_INVALID = -1"

text \<open>
  The status bits of a queue (\<open>dwState\<close>). Each is one bit of the word; the bit numbers are
  those of the hexadecimal constants of the header.
\<close>

definition QS_INPUT :: dword where "QS_INPUT = 0x01000000"
definition QS_PAINT :: dword where "QS_PAINT = 0x02000000"
definition QS_DESKTIMER :: dword where "QS_DESKTIMER = 0x04000000"
definition QS_NOTIFYMSG :: dword where "QS_NOTIFYMSG = 0x10000000"
definition QS_SYNCMSG :: dword where "QS_SYNCMSG = 0x20000000"
definition QS_POSTMSG :: dword where "QS_POSTMSG = 0x40000000"
definition QS_QUIT :: dword where "QS_QUIT = 0x80000000"
definition QS_EMPTY :: dword where "QS_EMPTY = 0"

lemmas qs_defs = QS_INPUT_def QS_PAINT_def QS_DESKTIMER_def QS_NOTIFYMSG_def QS_SYNCMSG_def
  QS_POSTMSG_def QS_QUIT_def QS_EMPTY_def

text \<open>Testing, setting and clearing a status bit, as the code writes it.\<close>

definition has_flag :: "dword \<Rightarrow> dword \<Rightarrow> bool" where
  "has_flag s f \<longleftrightarrow> s AND f \<noteq> 0"

definition set_flag :: "dword \<Rightarrow> dword \<Rightarrow> dword" where
  "set_flag s f = s OR f"

definition clear_flag :: "dword \<Rightarrow> dword \<Rightarrow> dword" where
  "clear_flag s f = s AND NOT f"

lemma qs_bits:
  "QS_INPUT = 2 ^ 24" "QS_PAINT = 2 ^ 25" "QS_DESKTIMER = 2 ^ 26"
  "QS_NOTIFYMSG = 2 ^ 28" "QS_SYNCMSG = 2 ^ 29" "QS_POSTMSG = 2 ^ 30"
  "QS_QUIT = 2 ^ 31"
  by (simp_all add: qs_defs)

lemma has_flag_push: "k < 64 \<Longrightarrow> has_flag s (2 ^ k) = bit s k"
  unfolding has_flag_def by (rule bit_mask_and) simp

lemma set_flag_push: "k < 64 \<Longrightarrow> bit (set_flag s (2 ^ k)) i = (bit s i \<or> i = k)"
  by (auto simp: set_flag_def bit_set_flag)

lemma clear_flag_push: "bit (clear_flag s (2 ^ k)) i = (bit s i \<and> i \<noteq> k)"
  by (auto simp: clear_flag_def bit_clear_flag)

lemma has_flag_bit:
  "has_flag s QS_INPUT = bit s 24" "has_flag s QS_PAINT = bit s 25"
  "has_flag s QS_DESKTIMER = bit s 26" "has_flag s QS_NOTIFYMSG = bit s 28"
  "has_flag s QS_SYNCMSG = bit s 29" "has_flag s QS_POSTMSG = bit s 30"
  "has_flag s QS_QUIT = bit s 31"
  unfolding qs_bits by (rule has_flag_push, simp)+

lemma bit_set_qs:
  "bit (set_flag s QS_INPUT) i = (bit s i \<or> i = 24)" "bit (set_flag s QS_PAINT) i = (bit s i \<or> i = 25)"
  "bit (set_flag s QS_DESKTIMER) i = (bit s i \<or> i = 26)"
  "bit (set_flag s QS_NOTIFYMSG) i = (bit s i \<or> i = 28)"
  "bit (set_flag s QS_SYNCMSG) i = (bit s i \<or> i = 29)"
  "bit (set_flag s QS_POSTMSG) i = (bit s i \<or> i = 30)"
  "bit (set_flag s QS_QUIT) i = (bit s i \<or> i = 31)"
  unfolding qs_bits by (rule set_flag_push, simp)+

lemma bit_clear_qs:
  "bit (clear_flag s QS_PAINT) i = (bit s i \<and> i \<noteq> 25)"
  "bit (clear_flag s QS_DESKTIMER) i = (bit s i \<and> i \<noteq> 26)"
  "bit (clear_flag s QS_NOTIFYMSG) i = (bit s i \<and> i \<noteq> 28)"
  "bit (clear_flag s QS_SYNCMSG) i = (bit s i \<and> i \<noteq> 29)"
  "bit (clear_flag s QS_POSTMSG) i = (bit s i \<and> i \<noteq> 30)"
  "bit (clear_flag s QS_QUIT) i = (bit s i \<and> i \<noteq> 31)"
  unfolding qs_bits by (rule clear_flag_push)+

lemmas qs_flag_simps = has_flag_bit bit_set_qs bit_clear_qs

section \<open>Return codes\<close>

text \<open>
  The numeric values of the return codes are in headers that are not part of the repository; only
  which code is returned matters here. An LRESULT is either a value computed by a window
  procedure or one of the codes.
\<close>

datatype mgerr = ERR_OK | ERR_INV_HWND | ERR_QUEUE_FULL | ERR_MSG_CANCELED

datatype lresult = LRESULT "64 word" | LErr mgerr

section \<open>Structures\<close>

record msg =
  msg_hwnd :: hwnd
  message :: uint
  wParam :: "64 word"
  lParam :: "64 word"
  msg_time :: dword
  pSyncMsg :: "nat option"

definition zero_msg :: msg where
  "zero_msg = \<lparr>msg_hwnd = 0, message = 0, wParam = 0, lParam = 0, msg_time = 0, pSyncMsg = None\<rparr>"

record qmsg =
  Msg :: msg
  next_qmsg :: "nat option"

record syncmsg =
  sMsg :: msg
  retval :: lresult
  sem_handle :: nat
  pNext :: "nat option"

record timer =
  t_hWnd :: hwnd
  t_id :: "64 word"
  ticks_fired :: dword
  t_proc :: procptr

record msgqueue =
  th :: thread_id
  wait_sem :: nat
  dwState :: dword
  pFirstNotifyMsg :: "nat option"
  pLastNotifyMsg :: "nat option"
  pFirstSyncMsg :: "nat option"
  pLastSyncMsg :: "nat option"
  OnIdle :: procptr
  pRootMainWin :: hwnd
  nrWindows :: int
  mq_len :: nat
  mq_msg :: "msg list"
  readpos :: nat
  writepos :: nat
  loop_depth :: int
  idle_counter :: int
  last_ticks_desktop :: dword
  nr_timers :: int
  first_timer_slot :: nat
  timer_slots :: "timer option list"
  old_tick_count :: dword
  expired_timer_mask :: dword
  nr_fd_slots :: int
  maxfd :: int
  nr_rfds :: int
  nr_wfds :: int
  nr_efds :: int

definition TYPE_HWND :: "8 word" where "TYPE_HWND = 0x01"
definition TYPE_MAINWIN :: "8 word" where "TYPE_MAINWIN = 0x11"
definition TYPE_CONTROL :: "8 word" where "TYPE_CONTROL = 0x12"
definition TYPE_VIRTWIN :: "8 word" where "TYPE_VIRTWIN = 0x14"
definition TYPE_WINTODEL :: "8 word" where "TYPE_WINTODEL = 0xF1"

lemmas type_defs = TYPE_HWND_def TYPE_MAINWIN_def TYPE_CONTROL_def TYPE_VIRTWIN_def
  TYPE_WINTODEL_def

text \<open>
  One record serves MAINWIN, VIRTWIN and CONTROL, which the code casts into each other:
  \<open>children\<close> and \<open>next_ctrl\<close> are the control links, \<open>InvRgn_head\<close> says whether the invalid
  region is non-empty (\<open>InvRgn.rgn.head != NULL\<close>).
\<close>

record mainwin =
  DataType :: "8 word"
  WinType :: "8 word"
  pMsgQueue :: "nat option"
  MainWindowProc :: procptr
  NotifProc :: procptr
  pMainWin :: hwnd
  pFirstHosted :: hwnd
  pNextHosted :: hwnd
  InvRgn_head :: bool
  children :: hwnd
  next_ctrl :: hwnd

record world =
  wins :: "hwnd \<Rightarrow> mainwin option"
  queues :: "nat \<Rightarrow> msgqueue option"
  qmsgs :: "nat \<Rightarrow> qmsg option"
  syncmsgs :: "nat \<Rightarrow> syncmsg option"
  sems :: "nat \<Rightarrow> nat option"
  threadinfo :: "thread_id \<Rightarrow> nat option"
  tick_counter :: dword
  captured_wnd :: hwnd
  hwnd_desktop :: hwnd
  dsk_win :: hwnd
  dsk_msg_queue :: "nat option"

definition set_queue :: "nat \<Rightarrow> msgqueue \<Rightarrow> world \<Rightarrow> world" where
  "set_queue q Q w = w\<lparr>queues := (queues w)(q := Some Q)\<rparr>"

lemma queues_set_queue [simp]: "queues (set_queue q Q w) = (queues w)(q := Some Q)"
  by (simp add: set_queue_def)

lemma set_queue_frame [simp]:
  "wins (set_queue q Q w) = wins w" "qmsgs (set_queue q Q w) = qmsgs w"
  "syncmsgs (set_queue q Q w) = syncmsgs w" "sems (set_queue q Q w) = sems w"
  "threadinfo (set_queue q Q w) = threadinfo w" "tick_counter (set_queue q Q w) = tick_counter w"
  "captured_wnd (set_queue q Q w) = captured_wnd w" "hwnd_desktop (set_queue q Q w) = hwnd_desktop w"
  "dsk_win (set_queue q Q w) = dsk_win w" "dsk_msg_queue (set_queue q Q w) = dsk_msg_queue w"
  by (simp_all add: set_queue_def)

lemma set_queue_set_queue [simp]: "set_queue q Q (set_queue q Q' w) = set_queue q Q w"
  by (simp add: set_queue_def)

section \<open>Window checks and queue lookup (inline functions of minigui-internals.h)\<close>

definition MG_IS_WINDOW :: "world \<Rightarrow> hwnd \<Rightarrow> bool option" where
  "MG_IS_WINDOW w h =
     (if h = HWND_NULL \<or> h = HWND_INVALID then Some False
      else do { p \<leftarrow> wins w h; Some (DataType p = TYPE_HWND) })"

definition MG_IS_MAIN_VIRT_WINDOW :: "world \<Rightarrow> hwnd \<Rightarrow> bool option" where
  "MG_IS_MAIN_VIRT_WINDOW w h = do {
     b \<leftarrow> MG_IS_WINDOW w h;
     if b then do { p \<leftarrow> wins w h; Some (WinType p = TYPE_MAINWIN \<or> WinType p = TYPE_VIRTWIN) }
     else Some False }"

definition MG_IS_CONTROL_WINDOW :: "world \<Rightarrow> hwnd \<Rightarrow> bool option" where
  "MG_IS_CONTROL_WINDOW w h = do {
     b \<leftarrow> MG_IS_WINDOW w h;
     if b then do { p \<leftarrow> wins w h; Some (WinType p = TYPE_CONTROL) }
     else Some False }"

definition checkAndGetMainWindowIfControl :: "world \<Rightarrow> hwnd \<Rightarrow> hwnd option" where
  "checkAndGetMainWindowIfControl w h = do {
     b \<leftarrow> MG_IS_CONTROL_WINDOW w h;
     if b then do { p \<leftarrow> wins w h; Some (pMainWin p) } else Some 0 }"

definition getMainWindowPtr :: "world \<Rightarrow> hwnd \<Rightarrow> hwnd option" where
  "getMainWindowPtr w h = do {
     b \<leftarrow> MG_IS_WINDOW w h;
     if b then do { p \<leftarrow> wins w h; Some (pMainWin p) } else Some 0 }"

definition getMsgQueue :: "world \<Rightarrow> hwnd \<Rightarrow> nat option option" where
  "getMsgQueue w h = do {
     m \<leftarrow> getMainWindowPtr w h;
     if m = 0 then Some None else do { p \<leftarrow> wins w m; Some (pMsgQueue p) } }"

definition getMsgQueueForThisThread :: "thread_id \<Rightarrow> world \<Rightarrow> nat option" where
  "getMsgQueueForThisThread self w = threadinfo w self"

definition getMainWinIfWindowInThisThread :: "thread_id \<Rightarrow> world \<Rightarrow> hwnd \<Rightarrow> hwnd option" where
  "getMainWinIfWindowInThisThread self w h = do {
     m \<leftarrow> getMainWindowPtr w h;
     if m = 0 then Some 0
     else do { p \<leftarrow> wins w m; q \<leftarrow> pMsgQueue p; Q \<leftarrow> queues w q;
               Some (if th Q = self then m else 0) } }"

definition getMsgQueueIfWindowInThisThread ::
    "thread_id \<Rightarrow> world \<Rightarrow> hwnd \<Rightarrow> nat option option" where
  "getMsgQueueIfWindowInThisThread self w h = do {
     m \<leftarrow> getMainWindowPtr w h;
     if m = 0 then Some None
     else do { p \<leftarrow> wins w m; q \<leftarrow> pMsgQueue p; Q \<leftarrow> queues w q;
               Some (if th Q = self then Some q else None) } }"

text \<open>
  \<open>POST_MSGQ\<close>: wake the queue's thread, without letting the semaphore count up when it is
  already positive.
\<close>

definition POST_MSGQ :: "msgqueue \<Rightarrow> msgqueue" where
  "POST_MSGQ Q = (if wait_sem Q \<le> 0 then Q\<lparr>wait_sem := wait_sem Q + 1\<rparr> else Q)"

text \<open>
  What the code ends most senders with: post the semaphore when the target window does not
  belong to the calling thread.
\<close>

definition wake_owner :: "thread_id \<Rightarrow> hwnd \<Rightarrow> nat \<Rightarrow> world \<Rightarrow> world option" where
  "wake_owner self h q w = do {
     m \<leftarrow> getMainWinIfWindowInThisThread self w h;
     if m = 0 then do { Q \<leftarrow> queues w q; Some (set_queue q (POST_MSGQ Q) w) } else Some w }"

section \<open>Well-formed stores\<close>

text \<open>
  A window handle is sane when it is NULL, invalid, or the address of a window object whose main
  window object exists and names an existing queue: what \<open>CreateMainWindow\<close> and the control
  code establish (outside this module) and what lets the inline checks run.
\<close>

definition hwnd_ok :: "world \<Rightarrow> hwnd \<Rightarrow> bool" where
  "hwnd_ok w h \<longleftrightarrow> h = HWND_NULL \<or> h = HWND_INVALID \<or>
     (case wins w h of None \<Rightarrow> False
      | Some p \<Rightarrow> DataType p = TYPE_HWND \<longrightarrow>
          (case wins w (pMainWin p) of None \<Rightarrow> False
           | Some m \<Rightarrow> pMainWin p \<noteq> 0 \<and>
               (case pMsgQueue m of None \<Rightarrow> False | Some q \<Rightarrow> queues w q \<noteq> None)))"

lemma MG_IS_WINDOW_ok: "hwnd_ok w h \<Longrightarrow> \<exists>b. MG_IS_WINDOW w h = Some b"
  by (auto simp: hwnd_ok_def MG_IS_WINDOW_def split: option.splits)

lemma getMainWindowPtr_ok:
  assumes "hwnd_ok w h"
  shows "getMainWindowPtr w h = Some 0 \<or>
    (\<exists>m p q Q. getMainWindowPtr w h = Some m \<and> m \<noteq> 0 \<and> wins w m = Some p \<and> pMsgQueue p = Some q
       \<and> queues w q = Some Q)"
  using assms
  by (auto simp: hwnd_ok_def MG_IS_WINDOW_def getMainWindowPtr_def split: option.splits)

lemma getMainWinIfWindowInThisThread_ok:
  "hwnd_ok w h \<Longrightarrow> \<exists>m. getMainWinIfWindowInThisThread self w h = Some m"
  by (drule getMainWindowPtr_ok) (auto simp: getMainWinIfWindowInThisThread_def)

lemma wake_owner_ok:
  assumes "hwnd_ok w h" "queues w q = Some Q"
  shows "wake_owner self h q w = Some w \<or> wake_owner self h q w = Some (set_queue q (POST_MSGQ Q) w)"
proof -
  obtain m where "getMainWinIfWindowInThisThread self w h = Some m"
    using getMainWinIfWindowInThisThread_ok [OF assms(1)] by blast
  with assms(2) show ?thesis by (simp add: wake_owner_def)
qed

text \<open>Two stores with the same windows, whose queues belong to the same threads.\<close>

definition same_windows :: "world \<Rightarrow> world \<Rightarrow> bool" where
  "same_windows w w' \<longleftrightarrow> wins w' = wins w \<and>
     (\<forall>q. map_option th (queues w' q) = map_option th (queues w q))"

lemma same_windows_refl [simp]: "same_windows w w"
  by (simp add: same_windows_def)

lemma same_windows_trans [trans]: "same_windows w w' \<Longrightarrow> same_windows w' w'' \<Longrightarrow> same_windows w w''"
  by (simp add: same_windows_def)

lemma same_windows_set_queue:
  "queues w q = Some Q \<Longrightarrow> th Q' = th Q \<Longrightarrow> wins w' = wins w \<Longrightarrow>
     queues w' = (queues w)(q := Some Q') \<Longrightarrow> same_windows w w'"
  by (simp add: same_windows_def)

lemma same_windows_wins: "same_windows w w' \<Longrightarrow> wins w' = wins w"
  by (simp add: same_windows_def)

lemma MG_IS_WINDOW_cong: "same_windows w w' \<Longrightarrow> MG_IS_WINDOW w' h = MG_IS_WINDOW w h"
  by (simp add: same_windows_def MG_IS_WINDOW_def)

lemma getMainWindowPtr_cong: "same_windows w w' \<Longrightarrow> getMainWindowPtr w' h = getMainWindowPtr w h"
  unfolding getMainWindowPtr_def by (simp only: MG_IS_WINDOW_cong same_windows_wins)

lemma getMsgQueue_cong: "same_windows w w' \<Longrightarrow> getMsgQueue w' h = getMsgQueue w h"
  unfolding getMsgQueue_def by (simp only: getMainWindowPtr_cong same_windows_wins)

lemma same_windows_None: "same_windows w w' \<Longrightarrow> queues w' q = None \<longleftrightarrow> queues w q = None"
  unfolding same_windows_def by (metis map_option_is_None)

lemma same_windows_th:
  "same_windows w w' \<Longrightarrow> queues w q = Some Q \<Longrightarrow> \<exists>Q'. queues w' q = Some Q' \<and> th Q' = th Q"
  unfolding same_windows_def by (metis map_option_eq_Some)

lemma getMainWinIfWindowInThisThread_cong:
  assumes sw: "same_windows w w'"
  shows "getMainWinIfWindowInThisThread self w' h = getMainWinIfWindowInThisThread self w h"
proof -
  have "(queues w' q \<bind> (\<lambda>Q. Some (if th Q = self then m else 0))) =
        (queues w q \<bind> (\<lambda>Q. Some (if th Q = self then m else 0)))" for q and m :: hwnd
    using same_windows_None [OF sw, of q] same_windows_th [OF sw, of q]
    by (cases "queues w q") auto
  then show ?thesis
    unfolding getMainWinIfWindowInThisThread_def getMainWindowPtr_cong [OF sw]
      same_windows_wins [OF sw] by (simp only:)
qed

lemma hwnd_ok_cong:
  assumes "same_windows w w'"
  shows "hwnd_ok w' h = hwnd_ok w h"
proof -
  have "wins w' = wins w" using assms by (simp add: same_windows_def)
  then show ?thesis
    by (simp add: hwnd_ok_def same_windows_None [OF assms] cong: option.case_cong)
qed

lemma POST_MSGQ_idem [simp]: "POST_MSGQ (POST_MSGQ Q) = POST_MSGQ Q"
  by (simp add: POST_MSGQ_def)

lemma POST_MSGQ_wakes: "0 < wait_sem (POST_MSGQ Q)"
  by (simp add: POST_MSGQ_def)

lemma POST_MSGQ_frame [simp]:
  "th (POST_MSGQ Q) = th Q" "dwState (POST_MSGQ Q) = dwState Q"
  "pFirstNotifyMsg (POST_MSGQ Q) = pFirstNotifyMsg Q" "pLastNotifyMsg (POST_MSGQ Q) = pLastNotifyMsg Q"
  "pFirstSyncMsg (POST_MSGQ Q) = pFirstSyncMsg Q" "pLastSyncMsg (POST_MSGQ Q) = pLastSyncMsg Q"
  "mq_len (POST_MSGQ Q) = mq_len Q" "mq_msg (POST_MSGQ Q) = mq_msg Q"
  "readpos (POST_MSGQ Q) = readpos Q" "writepos (POST_MSGQ Q) = writepos Q"
  "loop_depth (POST_MSGQ Q) = loop_depth Q" "expired_timer_mask (POST_MSGQ Q) = expired_timer_mask Q"
  "timer_slots (POST_MSGQ Q) = timer_slots Q" "first_timer_slot (POST_MSGQ Q) = first_timer_slot Q"
  by (simp_all add: POST_MSGQ_def)

end
