(* ===== verification/MsgQueue.thy ===== *)
theory MsgQueue
  imports MsgTypes
begin

text \<open>
  The posted-message buffer of a MSGQUEUE (minigui-message.c): initialisation
  (\<open>mg_InitMsgQueue\<close>), posting with coalescing of duplicates (\<open>kernel_QueueMessage\<close>), and the
  abstract view of the buffer as a bounded list of messages. \<open>posted\<close> is the abstraction
  function, \<open>ring_ok\<close> the well-formedness invariant, \<open>post_spec\<close> the abstract operation that
  \<open>queue_message\<close> is proved to implement.
\<close>

section \<open>Parameters: the constants and services defined outside the repository\<close>

record mgenv =
  DEF_MSGQUEUE_LEN :: nat
  MAX_IDLE_COUNTER :: int
  DEF_NR_TIMERS :: nat
  std_idle_handler_ptr :: procptr
  malloc_msgs :: "nat \<Rightarrow> msg list option"
  blk_alloc :: "(nat \<Rightarrow> qmsg option) \<Rightarrow> nat option"
  stack_sync :: "world \<Rightarrow> nat \<times> nat"
  alloc_queue :: "world \<Rightarrow> nat option"
  junk_sync :: "nat option"
  junk_time :: dword
  TranslateMessage :: "msg \<Rightarrow> world \<Rightarrow> (msg \<times> world) option"
  call_wndproc :: "procptr \<Rightarrow> hwnd \<Rightarrow> uint \<Rightarrow> 64 word \<Rightarrow> 64 word \<Rightarrow> world \<Rightarrow> (64 word \<times> world) option"
  call_notifproc :: "procptr \<Rightarrow> hwnd \<Rightarrow> 64 word \<Rightarrow> uint \<Rightarrow> dword \<Rightarrow> world \<Rightarrow> world option"
  MAKELONG :: "64 word \<Rightarrow> 64 word \<Rightarrow> 64 word"
  KS_CAPTURED :: "64 word"
  LOSWORD :: "64 word \<Rightarrow> int"
  HISWORD :: "64 word \<Rightarrow> int"
  ClientToScreen :: "hwnd \<Rightarrow> int \<Rightarrow> int \<Rightarrow> (hwnd \<Rightarrow> mainwin option) \<Rightarrow> int \<times> int"
  rgn_address :: "hwnd \<Rightarrow> 64 word"
  call_timerproc :: "procptr \<Rightarrow> hwnd \<Rightarrow> 64 word \<Rightarrow> dword \<Rightarrow> world \<Rightarrow> (bool \<times> world) option"
  call_idle :: "procptr \<Rightarrow> nat \<Rightarrow> bool \<Rightarrow> world \<Rightarrow> (bool \<times> world) option"
  select_ret :: "world \<Rightarrow> bool \<Rightarrow> int"
  check_expired_timers :: "nat \<Rightarrow> dword \<Rightarrow> world \<Rightarrow> (int \<times> world) option"
  kernel_check_listen_fds :: "nat \<Rightarrow> world \<Rightarrow> (int \<times> world) option"
  remove_timer :: "nat \<Rightarrow> nat \<Rightarrow> world \<Rightarrow> world option"
  wait_queue :: "nat \<Rightarrow> world \<Rightarrow> world option"
  remove_timers_by_msg_queue :: "nat \<Rightarrow> world \<Rightarrow> world option"
  run_others :: "nat \<Rightarrow> world \<Rightarrow> (bool \<times> world) option"

text \<open>
  \<open>stack_sync w\<close> gives the addresses of the SYNCMSG and of the semaphore that a call of
  \<open>SendSyncMessage\<close> has in its frame, \<open>junk_sync\<close> and \<open>junk_time\<close> the content of fields that are
  not initialised, \<open>run_others s w\<close> what the other threads do to the store while the caller is
  blocked in \<open>sem_wait\<close> on \<open>s\<close> (\<open>None\<close> when it never returns), with \<open>True\<close> when the semaphore
  became positive and \<open>False\<close> when the wait was interrupted, \<open>wait_queue q w\<close> the same for the
  semaphore of a message queue. \<open>call_wndproc\<close>, \<open>call_notifproc\<close>, \<open>call_timerproc\<close> and
  \<open>call_idle\<close> run the code a pointer names; \<open>select_ret\<close>, \<open>check_expired_timers\<close>,
  \<open>kernel_check_listen_fds\<close>, \<open>remove_timer\<close>, \<open>remove_timers_by_msg_queue\<close>, \<open>ClientToScreen\<close>
  and \<open>TranslateMessage\<close> are functions of modules that are not in the repository. What the module relies on: a usable default length, a timer
  count that fits the mask word, a \<open>malloc\<close> that returns a block of the requested number of
  elements, and a block heap (\<open>BlockDataAlloc\<close>) that hands out cells that are not in use, or NULL.
\<close>

definition mgenv_ok :: "mgenv \<Rightarrow> bool" where
  "mgenv_ok E \<longleftrightarrow> 0 < DEF_MSGQUEUE_LEN E \<and> 0 < DEF_NR_TIMERS E \<and> DEF_NR_TIMERS E \<le> 64 \<and>
     (\<forall>n b. malloc_msgs E n = Some b \<longrightarrow> length b = n) \<and>
     (\<forall>h a. blk_alloc E h = Some a \<longrightarrow> h a = None)"

section \<open>Initialisation\<close>

definition zero_queue :: "nat \<Rightarrow> msgqueue" where
  "zero_queue slots = \<lparr>th = 0, wait_sem = 0, dwState = 0, pFirstNotifyMsg = None,
     pLastNotifyMsg = None, pFirstSyncMsg = None, pLastSyncMsg = None, OnIdle = 0,
     pRootMainWin = 0, nrWindows = 0, mq_len = 0, mq_msg = [], readpos = 0, writepos = 0,
     loop_depth = 0, idle_counter = 0, last_ticks_desktop = 0, nr_timers = 0,
     first_timer_slot = 0, timer_slots = replicate slots None, old_tick_count = 0, expired_timer_mask = 0,
     nr_fd_slots = 0, maxfd = 0, nr_rfds = 0, nr_wfds = 0, nr_efds = 0\<rparr>"

text \<open>
  \<open>rets\<close> are the return values of the five pthread calls of the lock and semaphore set-up, in
  call order; any non-zero one ends the function with FALSE.
\<close>

definition mg_InitMsgQueue :: "mgenv \<Rightarrow> int list \<Rightarrow> dword \<Rightarrow> int \<Rightarrow> bool \<times> msgqueue" where
  "mg_InitMsgQueue E rets tick iBufferLen =
     (let q = (zero_queue (DEF_NR_TIMERS E))\<lparr>dwState := QS_EMPTY\<rparr> in
      if \<exists>r \<in> set rets. r \<noteq> 0 then (False, q)
      else
        let n = (if iBufferLen \<le> 0 then DEF_MSGQUEUE_LEN E else nat iBufferLen) in
        case malloc_msgs E n of
          None \<Rightarrow> (False, q)
        | Some buf \<Rightarrow> (True, q\<lparr>mq_msg := buf, mq_len := n, OnIdle := std_idle_handler_ptr E,
                                old_tick_count := tick\<rparr>))"

section \<open>The buffer as a list\<close>

definition ring_ok :: "msgqueue \<Rightarrow> bool" where
  "ring_ok q \<longleftrightarrow> 0 < mq_len q \<and> length (mq_msg q) = mq_len q \<and>
     readpos q < mq_len q \<and> writepos q < mq_len q"

definition nr_posted :: "msgqueue \<Rightarrow> nat" where
  "nr_posted q = ring_count (mq_len q) (readpos q) (writepos q)"

definition posted :: "msgqueue \<Rightarrow> msg list" where
  "posted q = seg (mq_msg q) (readpos q) (nr_posted q)"

lemma length_posted [simp]: "length (posted q) = nr_posted q"
  by (simp add: posted_def)

lemma nr_posted_less: "ring_ok q \<Longrightarrow> nr_posted q < mq_len q"
  by (simp add: nr_posted_def ring_ok_def ring_count_less)

lemma posted_empty_iff: "ring_ok q \<Longrightarrow> posted q = [] \<longleftrightarrow> readpos q = writepos q"
  by (metis length_0_conv length_posted nr_posted_def ring_empty_iff ring_ok_def)

lemma posted_none: "readpos q = writepos q \<Longrightarrow> posted q = []"
  by (simp add: posted_def nr_posted_def ring_count_def)

lemma posted_nth:
  "ring_ok q \<Longrightarrow> k < nr_posted q \<Longrightarrow>
     posted q ! k = mq_msg q ! ((readpos q + k) mod mq_len q)"
  by (simp add: posted_def nth_seg ring_ok_def)

lemma posted_Cons:
  assumes "ring_ok q" "readpos q \<noteq> writepos q"
  shows "posted q = mq_msg q ! readpos q #
           posted (q\<lparr>readpos := ring_next (mq_len q) (readpos q)\<rparr>)"
proof -
  have "ring_count (mq_len q) (readpos q) (writepos q) \<noteq> 0"
    using assms ring_empty_iff [of "readpos q" "mq_len q" "writepos q"] by (simp add: ring_ok_def)
  then have n: "nr_posted q < mq_len q" "nr_posted q \<noteq> 0"
    using assms by (simp_all add: nr_posted_less) (simp add: nr_posted_def)
  then obtain n where n': "nr_posted q = Suc n" by (cases "nr_posted q") auto
  have wr: "writepos q = (readpos q + nr_posted q) mod mq_len q"
    using assms unfolding nr_posted_def by (intro ring_write_pos) (auto simp: ring_ok_def)
  have "writepos q = (ring_next (mq_len q) (readpos q) + n) mod mq_len q"
    using wr n' by (simp add: ring_next_def mod_simps)
  then have "ring_count (mq_len q) (ring_next (mq_len q) (readpos q)) (writepos q) = n"
    using assms n n' by (simp add: ring_count_pos ring_next_less ring_ok_def)
  with n' assms show ?thesis
    by (simp add: posted_def nr_posted_def ring_ok_def seg_Suc_head)
qed

lemma posted_frame [simp]:
  "posted (q\<lparr>dwState := v0\<rparr>) = posted q"
  "posted (q\<lparr>wait_sem := v1\<rparr>) = posted q"
  "posted (q\<lparr>loop_depth := v2\<rparr>) = posted q"
  "posted (q\<lparr>idle_counter := v3\<rparr>) = posted q"
  "posted (q\<lparr>pFirstNotifyMsg := v4\<rparr>) = posted q"
  "posted (q\<lparr>pLastNotifyMsg := v5\<rparr>) = posted q"
  "posted (q\<lparr>pFirstSyncMsg := v6\<rparr>) = posted q"
  "posted (q\<lparr>pLastSyncMsg := v7\<rparr>) = posted q"
  "posted (q\<lparr>expired_timer_mask := v8\<rparr>) = posted q"
  "posted (q\<lparr>first_timer_slot := v9\<rparr>) = posted q"
  "posted (q\<lparr>timer_slots := v10\<rparr>) = posted q"
  "posted (q\<lparr>old_tick_count := v11\<rparr>) = posted q"
  by (simp_all add: posted_def nr_posted_def)

lemma ring_ok_frame [simp]:
  "ring_ok (q\<lparr>dwState := v0\<rparr>) = ring_ok q"
  "ring_ok (q\<lparr>wait_sem := v1\<rparr>) = ring_ok q"
  "ring_ok (q\<lparr>loop_depth := v2\<rparr>) = ring_ok q"
  "ring_ok (q\<lparr>idle_counter := v3\<rparr>) = ring_ok q"
  "ring_ok (q\<lparr>pFirstNotifyMsg := v4\<rparr>) = ring_ok q"
  "ring_ok (q\<lparr>pLastNotifyMsg := v5\<rparr>) = ring_ok q"
  "ring_ok (q\<lparr>pFirstSyncMsg := v6\<rparr>) = ring_ok q"
  "ring_ok (q\<lparr>pLastSyncMsg := v7\<rparr>) = ring_ok q"
  "ring_ok (q\<lparr>expired_timer_mask := v8\<rparr>) = ring_ok q"
  "ring_ok (q\<lparr>first_timer_slot := v9\<rparr>) = ring_ok q"
  "ring_ok (q\<lparr>timer_slots := v10\<rparr>) = ring_ok q"
  "ring_ok (q\<lparr>old_tick_count := v11\<rparr>) = ring_ok q"
  by (simp_all add: ring_ok_def)

section \<open>Posting a message\<close>

text \<open>
  The two search loops of \<open>kernel_QueueMessage\<close>. The first runs to the write position and keeps
  the last match (mouse moves), the second stops at the first match.
\<close>

definition same_move :: "msg \<Rightarrow> msg \<Rightarrow> bool" where
  "same_move m a \<longleftrightarrow> message a = message m \<and> wParam a = wParam m \<and> msg_hwnd a = msg_hwnd m"

definition same_target :: "msg \<Rightarrow> msg \<Rightarrow> bool" where
  "same_target m a \<longleftrightarrow> message a = message m \<and> msg_hwnd a = msg_hwnd m"

partial_function (option) find_last_dup ::
    "msgqueue \<Rightarrow> msg \<Rightarrow> nat \<Rightarrow> nat option \<Rightarrow> nat option option" where
  "find_last_dup q m rp acc =
     (if rp = writepos q then Some acc
      else do {
        a \<leftarrow> arr_get (mq_msg q) rp;
        find_last_dup q m (ring_next (mq_len q) rp) (if same_move m a then Some rp else acc) })"

partial_function (option) find_first_dup :: "msgqueue \<Rightarrow> msg \<Rightarrow> nat \<Rightarrow> nat option option" where
  "find_first_dup q m rp =
     (if rp = writepos q then Some None
      else do {
        a \<leftarrow> arr_get (mq_msg q) rp;
        if same_target m a then Some (Some rp)
        else find_first_dup q m (ring_next (mq_len q) rp) })"

definition is_mouse_move :: "uint \<Rightarrow> bool" where
  "is_mouse_move i \<longleftrightarrow> i = MSG_MOUSEMOVE \<or> i = MSG_NCMOUSEMOVE \<or> i = MSG_DT_MOUSEMOVE"

definition is_single :: "uint \<Rightarrow> bool" where
  "is_single i \<longleftrightarrow> i = MSG_TIMEOUT \<or> i = MSG_IDLE \<or> i = MSG_CARETBLINK"

text \<open>
  The part of \<open>kernel_QueueMessage\<close> under the queue lock. The caller's message is stamped with
  the tick counter and handed back, since the code writes through the caller's pointer.
\<close>

definition queue_message :: "dword \<Rightarrow> msg \<Rightarrow> msgqueue \<Rightarrow> (bool \<times> msg \<times> msgqueue) option" where
  "queue_message tick m0 q =
     (let m = m0\<lparr>msg_time := tick\<rparr> in do {
        dup \<leftarrow> (if is_mouse_move (message m) then find_last_dup q m (readpos q) None
                else if is_single (message m) then find_first_dup q m (readpos q)
                else Some None);
        case dup of
          Some i \<Rightarrow> do {
            a \<leftarrow> arr_get (mq_msg q) i;
            buf \<leftarrow> arr_set (mq_msg q) i
              (if is_mouse_move (message m)
               then a\<lparr>lParam := lParam m, msg_time := msg_time m\<rparr>
               else a\<lparr>wParam := wParam m, lParam := lParam m, msg_time := msg_time m\<rparr>);
            Some (True, m, q\<lparr>mq_msg := buf, dwState := set_flag (dwState q) QS_POSTMSG\<rparr>) }
        | None \<Rightarrow>
            if ring_next (mq_len q) (writepos q) = readpos q then Some (False, m, q)
            else do {
              buf \<leftarrow> arr_set (mq_msg q) (writepos q) m;
              Some (True, m, q\<lparr>mq_msg := buf, writepos := ring_next (mq_len q) (writepos q),
                               dwState := set_flag (dwState q) QS_POSTMSG\<rparr>) } })"

definition kernel_QueueMessage ::
    "thread_id \<Rightarrow> nat option \<Rightarrow> msg option \<Rightarrow> world \<Rightarrow> (bool \<times> msg option \<times> world) option" where
  "kernel_QueueMessage self mq mp w =
     (case (mq, mp) of
        (Some q, Some m0) \<Rightarrow> do {
          Q \<leftarrow> queues w q;
          (ok, m, Q') \<leftarrow> queue_message (tick_counter w) m0 Q;
          if ok then do {
            w' \<leftarrow> wake_owner self (msg_hwnd m) q (set_queue q Q' w);
            Some (True, Some m, w') }
          else Some (False, Some m, set_queue q Q' w) }
      | _ \<Rightarrow> Some (False, mp, w))"

section \<open>The abstract operation\<close>

definition first_ix :: "('a \<Rightarrow> bool) \<Rightarrow> 'a list \<Rightarrow> nat option" where
  "first_ix P xs = List.find (\<lambda>k. P (xs ! k)) [0..<length xs]"

definition last_ix :: "('a \<Rightarrow> bool) \<Rightarrow> 'a list \<Rightarrow> nat option" where
  "last_ix P xs = List.find (\<lambda>k. P (xs ! k)) (rev [0..<length xs])"

definition dup_ix :: "msg \<Rightarrow> msg list \<Rightarrow> nat option" where
  "dup_ix m ms =
     (if is_mouse_move (message m) then last_ix (same_move m) ms
      else if is_single (message m) then first_ix (same_target m) ms else None)"

text \<open>
  Posting \<open>m\<close> to a buffer that holds at most \<open>cap\<close> messages: a duplicate takes the new
  parameters and time in place; otherwise the message goes to the end, unless the buffer is full.
\<close>

definition post_spec :: "nat \<Rightarrow> msg \<Rightarrow> msg list \<Rightarrow> bool \<times> msg list" where
  "post_spec cap m ms =
     (case dup_ix m ms of
        Some k \<Rightarrow> (True, ms[k := (ms ! k)\<lparr>wParam := wParam m, lParam := lParam m,
                                           msg_time := msg_time m\<rparr>])
      | None \<Rightarrow> if length ms < cap then (True, ms @ [m]) else (False, ms))"

lemma first_ix_Some: "first_ix P xs = Some k \<Longrightarrow> k < length xs \<and> P (xs ! k)"
  by (auto simp: first_ix_def find_Some_iff)

lemma last_ix_Some: "last_ix P xs = Some k \<Longrightarrow> k < length xs \<and> P (xs ! k)"
  by (auto simp: last_ix_def find_Some_iff rev_nth)

lemma first_ix_None: "first_ix P xs = None \<longleftrightarrow> (\<forall>x \<in> set xs. \<not> P x)"
  by (auto simp: first_ix_def find_None_iff all_set_conv_all_nth)

lemma dup_ix_Some:
  "dup_ix m ms = Some k \<Longrightarrow> k < length ms \<and> message (ms ! k) = message m \<and>
     msg_hwnd (ms ! k) = msg_hwnd m \<and> (is_mouse_move (message m) \<longrightarrow> wParam (ms ! k) = wParam m)"
  by (auto simp: dup_ix_def same_move_def same_target_def split: if_splits
      dest!: first_ix_Some last_ix_Some)

section \<open>The loops compute the abstract search\<close>

lemma ring_walk_step:
  assumes "ring_ok q" "j < nr_posted q"
  shows "(readpos q + j) mod mq_len q \<noteq> writepos q"
    and "arr_get (mq_msg q) ((readpos q + j) mod mq_len q) = Some (posted q ! j)"
    and "ring_next (mq_len q) ((readpos q + j) mod mq_len q) = (readpos q + Suc j) mod mq_len q"
proof -
  have wr: "writepos q = (readpos q + nr_posted q) mod mq_len q"
    using assms(1) unfolding nr_posted_def by (intro ring_write_pos) (auto simp: ring_ok_def)
  show "(readpos q + j) mod mq_len q \<noteq> writepos q"
    using ring_pos_inj [of j "mq_len q" "nr_posted q" "readpos q"] assms
      nr_posted_less [OF assms(1)] wr by auto
  show "arr_get (mq_msg q) ((readpos q + j) mod mq_len q) = Some (posted q ! j)"
    using assms by (simp add: posted_nth arr_get_def ring_ok_def)
qed (rule ring_next_mod)

lemma ring_walk_end:
  "ring_ok q \<Longrightarrow> (readpos q + nr_posted q) mod mq_len q = writepos q"
  unfolding nr_posted_def by (rule ring_write_pos [symmetric]) (auto simp: ring_ok_def)

lemma find_first_dup_from:
  assumes "ring_ok q" "j \<le> nr_posted q"
  shows "find_first_dup q m ((readpos q + j) mod mq_len q) =
    Some (map_option (\<lambda>k. (readpos q + k) mod mq_len q)
      (List.find (\<lambda>k. same_target m (posted q ! k)) [j..<nr_posted q]))"
  using assms(2)
proof (induction j rule: inc_induct)
  case base
  show ?case
    by (subst find_first_dup.simps) (simp add: ring_walk_end assms(1))
next
  case (step j)
  have "find_first_dup q m ((readpos q + j) mod mq_len q) =
    (if same_target m (posted q ! j) then Some (Some ((readpos q + j) mod mq_len q))
     else find_first_dup q m ((readpos q + Suc j) mod mq_len q))"
    by (subst find_first_dup.simps) (simp add: ring_walk_step [OF assms(1) step.hyps(2)])
  with step show ?case by (simp add: upt_conv_Cons)
qed

lemma find_last_dup_from:
  assumes "ring_ok q" "j \<le> nr_posted q"
  shows "find_last_dup q m ((readpos q + j) mod mq_len q) acc =
    Some (case List.find (\<lambda>k. same_move m (posted q ! k)) (rev [j..<nr_posted q]) of
            None \<Rightarrow> acc | Some k \<Rightarrow> Some ((readpos q + k) mod mq_len q))"
  using assms(2)
proof (induction j arbitrary: acc rule: inc_induct)
  case base
  show ?case
    by (subst find_last_dup.simps) (simp add: ring_walk_end assms(1))
next
  case (step j)
  have unfold: "find_last_dup q m ((readpos q + j) mod mq_len q) acc =
    find_last_dup q m ((readpos q + Suc j) mod mq_len q)
      (if same_move m (posted q ! j) then Some ((readpos q + j) mod mq_len q) else acc)"
    by (subst find_last_dup.simps) (simp add: ring_walk_step [OF assms(1) step.hyps(2)])
  have "[j..<nr_posted q] = j # [Suc j..<nr_posted q]"
    using step.hyps by (simp add: upt_conv_Cons)
  then have split: "rev [j..<nr_posted q] = rev [Suc j..<nr_posted q] @ [j]" by simp
  show ?case
    unfolding unfold step.IH split by (simp add: find_append split: option.split)
qed

section \<open>Refinement\<close>

lemma dup_search:
  assumes "ring_ok q"
  shows "(if is_mouse_move (message m) then find_last_dup q m (readpos q) None
          else if is_single (message m) then find_first_dup q m (readpos q) else Some None)
       = Some (map_option (\<lambda>k. (readpos q + k) mod mq_len q) (dup_ix m (posted q)))"
proof -
  have rd: "readpos q = (readpos q + 0) mod mq_len q"
    using assms by (simp add: ring_ok_def)
  have "find_last_dup q m (readpos q) None =
    Some (map_option (\<lambda>k. (readpos q + k) mod mq_len q) (last_ix (same_move m) (posted q)))"
    by (subst rd, subst find_last_dup_from [OF assms]) (simp_all add: last_ix_def split: option.split)
  moreover have "find_first_dup q m (readpos q) =
    Some (map_option (\<lambda>k. (readpos q + k) mod mq_len q) (first_ix (same_target m) (posted q)))"
    by (subst rd, subst find_first_dup_from [OF assms]) (simp_all add: first_ix_def)
  ultimately show ?thesis by (simp add: dup_ix_def)
qed

lemma nr_posted_cong:
  "mq_len q' = mq_len q \<Longrightarrow> readpos q' = readpos q \<Longrightarrow> writepos q' = writepos q \<Longrightarrow>
     nr_posted q' = nr_posted q"
  by (simp add: nr_posted_def)

lemma posted_cong:
  "mq_len q' = mq_len q \<Longrightarrow> readpos q' = readpos q \<Longrightarrow> writepos q' = writepos q \<Longrightarrow>
     mq_msg q' = mq_msg q \<Longrightarrow> posted q' = posted q"
  by (simp add: posted_def nr_posted_def)

lemma ring_ok_cong:
  "mq_len q' = mq_len q \<Longrightarrow> readpos q' = readpos q \<Longrightarrow> writepos q' = writepos q \<Longrightarrow>
     mq_msg q' = mq_msg q \<Longrightarrow> ring_ok q' = ring_ok q"
  by (simp add: ring_ok_def)

lemma ring_write:
  assumes "ring_ok q" "k < nr_posted q" and i: "i = (readpos q + k) mod mq_len q"
  shows "arr_get (mq_msg q) i = Some (posted q ! k)"
    and "arr_set (mq_msg q) i x = Some ((mq_msg q)[i := x])"
    and "ring_ok (q\<lparr>mq_msg := (mq_msg q)[i := x]\<rparr>)"
    and "posted (q\<lparr>mq_msg := (mq_msg q)[i := x]\<rparr>) = (posted q)[k := x]"
proof -
  have len: "length (mq_msg q) = mq_len q" "i < mq_len q" "nr_posted q < mq_len q"
    using assms by (auto simp: ring_ok_def nr_posted_less)
  show "arr_get (mq_msg q) i = Some (posted q ! k)"
    using assms ring_walk_step(2) by simp
  show "arr_set (mq_msg q) i x = Some ((mq_msg q)[i := x])"
    using len by (simp add: arr_set_def)
  show "ring_ok (q\<lparr>mq_msg := (mq_msg q)[i := x]\<rparr>)"
    using assms(1) by (simp add: ring_ok_def)
  have "nr_posted (q\<lparr>mq_msg := (mq_msg q)[i := x]\<rparr>) = nr_posted q"
    by (simp add: nr_posted_def)
  then show "posted (q\<lparr>mq_msg := (mq_msg q)[i := x]\<rparr>) = (posted q)[k := x]"
    using assms(2) len seg_update [of k "nr_posted q" "mq_msg q" "readpos q" x]
    by (simp add: posted_def i)
qed

lemma ring_append:
  fixes x :: msg
  assumes "ring_ok q" "ring_next (mq_len q) (writepos q) \<noteq> readpos q"
  defines "q' \<equiv> q\<lparr>mq_msg := (mq_msg q)[writepos q := x],
                    writepos := ring_next (mq_len q) (writepos q)\<rparr>"
  shows "arr_set (mq_msg q) (writepos q) x = Some ((mq_msg q)[writepos q := x])"
    and "ring_ok q'" and "posted q' = posted q @ [x]"
proof -
  let ?n = "nr_posted q"
  have ok: "length (mq_msg q) = mq_len q" "writepos q < mq_len q" "readpos q < mq_len q"
    using assms by (auto simp: ring_ok_def)
  show "arr_set (mq_msg q) (writepos q) x = Some ((mq_msg q)[writepos q := x])"
    using ok by (simp add: arr_set_def)
  show "ring_ok q'"
    using ok by (simp add: q'_def ring_ok_def ring_next_less)
  have notfull: "Suc ?n < mq_len q"
    using assms(1,2) ok nr_posted_less [OF assms(1)] ring_full_iff [of "readpos q" "mq_len q" "writepos q"]
    by (simp add: nr_posted_def)
  have wr: "writepos q = (readpos q + ?n) mod mq_len q"
    using ring_walk_end [OF assms(1)] by simp
  then have "writepos q' = (readpos q' + Suc ?n) mod mq_len q'"
    by (simp add: q'_def ring_next_mod)
  then have "nr_posted q' = Suc ?n"
    using notfull ok ring_count_pos [of "readpos q" "mq_len q" "Suc ?n"]
    by (simp add: nr_posted_def q'_def)
  then have "posted q' = seg ((mq_msg q)[(readpos q + ?n) mod mq_len q := x]) (readpos q) (Suc ?n)"
    using wr by (simp add: posted_def q'_def)
  then show "posted q' = posted q @ [x]"
    using notfull ok seg_snoc [of ?n "mq_msg q" "readpos q" x] by (simp add: posted_def)
qed

lemma post_spec_full_iff:
  "ring_ok q \<Longrightarrow>
     ring_next (mq_len q) (writepos q) = readpos q \<longleftrightarrow> \<not> length (posted q) < mq_len q - 1"
  using nr_posted_less [of q] ring_full_iff [of "readpos q" "mq_len q" "writepos q"]
  by (auto simp: ring_ok_def nr_posted_def)

lemma queue_message_correct:
  assumes "ring_ok q"
  shows "\<exists>ok buf wr st. queue_message tick m q =
      Some (ok, m\<lparr>msg_time := tick\<rparr>, q\<lparr>mq_msg := buf, writepos := wr, dwState := st\<rparr>) \<and>
    ring_ok (q\<lparr>mq_msg := buf, writepos := wr, dwState := st\<rparr>) \<and>
    (ok, posted (q\<lparr>mq_msg := buf, writepos := wr, dwState := st\<rparr>)) =
      post_spec (mq_len q - 1) (m\<lparr>msg_time := tick\<rparr>) (posted q) \<and>
    st = (if ok then set_flag (dwState q) QS_POSTMSG else dwState q)"
proof (cases "dup_ix (m\<lparr>msg_time := tick\<rparr>) (posted q)")
  case (Some k)
  let ?m = "m\<lparr>msg_time := tick\<rparr>" and ?i = "(readpos q + k) mod mq_len q"
  let ?a = "(posted q ! k)\<lparr>wParam := wParam m, lParam := lParam m, msg_time := tick\<rparr>"
  have k: "k < nr_posted q" "is_mouse_move (message m) \<Longrightarrow> wParam (posted q ! k) = wParam m"
    using dup_ix_Some [OF Some] by auto
  have a: "(if is_mouse_move (message m)
            then (posted q ! k)\<lparr>lParam := lParam m, msg_time := tick\<rparr> else ?a) = ?a"
    using k(2) by (cases "posted q ! k") auto
  note w = ring_write(2-4) [OF assms k(1) refl, of ?a]
  have "queue_message tick m q = Some (True, ?m, q\<lparr>mq_msg := (mq_msg q)[?i := ?a],
      dwState := set_flag (dwState q) QS_POSTMSG\<rparr>)"
    using dup_search [OF assms, of ?m] Some a
    by (cases "is_mouse_move (message m)")
      (simp_all add: queue_message_def Let_def ring_write(1) [OF assms k(1) refl] w(1))
  moreover have "post_spec (mq_len q - 1) ?m (posted q) = (True, (posted q)[k := ?a])"
    by (simp add: post_spec_def Some)
  ultimately show ?thesis
    using w(2,3)
    by (intro exI [of _ True] exI [of _ "(mq_msg q)[?i := ?a]"] exI [of _ "writepos q"]
        exI [of _ "set_flag (dwState q) QS_POSTMSG"]) simp
next
  case None
  let ?m = "m\<lparr>msg_time := tick\<rparr>"
  show ?thesis
  proof (cases "ring_next (mq_len q) (writepos q) = readpos q")
    case True
    then have "queue_message tick m q = Some (False, ?m, q)"
      using dup_search [OF assms, of ?m] None by (simp add: queue_message_def Let_def)
    moreover have "post_spec (mq_len q - 1) ?m (posted q) = (False, posted q)"
      using post_spec_full_iff [OF assms] True None by (simp add: post_spec_def)
    ultimately show ?thesis
      using assms by (intro exI [of _ False] exI [of _ "mq_msg q"] exI [of _ "writepos q"]
          exI [of _ "dwState q"]) simp
  next
    case False
    note app = ring_append [OF assms False, of ?m]
    have "post_spec (mq_len q - 1) ?m (posted q) = (True, posted q @ [?m])"
      using post_spec_full_iff [OF assms] False None by (simp add: post_spec_def)
    moreover have "queue_message tick m q = Some (True, ?m,
        q\<lparr>mq_msg := (mq_msg q)[writepos q := ?m],
          writepos := ring_next (mq_len q) (writepos q),
          dwState := set_flag (dwState q) QS_POSTMSG\<rparr>)"
      using dup_search [OF assms, of ?m] None False app(1)
      by (simp add: queue_message_def Let_def)
    ultimately show ?thesis
      using app(2,3)
      by (intro exI [of _ True] exI [of _ "(mq_msg q)[writepos q := ?m]"]
          exI [of _ "ring_next (mq_len q) (writepos q)"]
          exI [of _ "set_flag (dwState q) QS_POSTMSG"]) simp
  qed
qed

end
