(* ===== verification/LinkedList.thy ===== *)
theory LinkedList
  imports Prelude
begin

text \<open>
  Singly linked lists on a heap of cells (a map from addresses to cells), the shape of the notify
  and sync message queues and of the thread pool's task queue. \<open>lseg nxt h p as r\<close> says that
  following the \<open>nxt\<close> field from \<open>p\<close> visits the addresses \<open>as\<close> and arrives at \<open>r\<close>. The
  locale states what a cell type has to provide (a next field with its update and a payload the
  update keeps); its lemmas are the facts every queue operation rests on.
\<close>

fun lseg :: "('c \<Rightarrow> nat option) \<Rightarrow> (nat \<Rightarrow> 'c option) \<Rightarrow> nat option \<Rightarrow> nat list \<Rightarrow> nat option \<Rightarrow> bool" where
  "lseg nxt h p [] r = (p = r)"
| "lseg nxt h p (a # as) r =
     (p = Some a \<and> (case h a of None \<Rightarrow> False | Some c \<Rightarrow> lseg nxt h (nxt c) as r))"

text \<open>
  A queue: a chain from \<open>first\<close> to NULL whose last cell is \<open>last\<close>. An empty queue is one whose
  \<open>first\<close> is NULL; the code leaves \<open>last\<close> stale then.
\<close>

definition lqueue ::
    "('c \<Rightarrow> nat option) \<Rightarrow> (nat \<Rightarrow> 'c option) \<Rightarrow> nat option \<Rightarrow> nat option \<Rightarrow> nat list \<Rightarrow> bool" where
  "lqueue nxt h f l as \<longleftrightarrow> lseg nxt h f as None \<and> distinct as \<and>
     (as \<noteq> [] \<longrightarrow> l = Some (last as))"

definition payload :: "('c \<Rightarrow> 'd) \<Rightarrow> (nat \<Rightarrow> 'c option) \<Rightarrow> nat list \<Rightarrow> 'd list" where
  "payload dat h as = map (\<lambda>a. dat (the (h a))) as"

lemma lseg_append [list_simps]:
  "lseg nxt h p (as @ bs) r \<longleftrightarrow> (\<exists>m. lseg nxt h p as m \<and> lseg nxt h m bs r)"
  by (induction as arbitrary: p) (auto split: option.splits)

lemma lseg_upd [list_simps]:
  "a \<notin> set as \<Longrightarrow> lseg nxt (h(a := x)) p as r = lseg nxt h p as r"
  by (induction as arbitrary: p) (auto split: option.splits)

lemma lseg_mem: "lseg nxt h p as r \<Longrightarrow> a \<in> set as \<Longrightarrow> \<exists>c. h a = Some c"
  by (induction as arbitrary: p) (auto split: option.splits)

lemma lseg_fresh: "lseg nxt h p as r \<Longrightarrow> h a = None \<Longrightarrow> a \<notin> set as"
  by (auto dest: lseg_mem)

lemma lseg_unique:
  "lseg nxt h p as None \<Longrightarrow> lseg nxt h p bs None \<Longrightarrow> as = bs"
proof (induction as arbitrary: p bs)
  case Nil
  then show ?case by (cases bs) auto
next
  case (Cons a as)
  then show ?case by (cases bs) (auto split: option.splits)
qed

lemma lseg_NULL_iff: "lseg nxt h p as None \<Longrightarrow> p = None \<longleftrightarrow> as = []"
  by (cases as) auto

lemma lseg_cong:
  "(\<And>a. a \<in> set as \<Longrightarrow> h' a = h a) \<Longrightarrow> lseg nxt h' p as r = lseg nxt h p as r"
  by (induction as arbitrary: p) (auto split: option.splits)

lemma lqueue_cong:
  "(\<And>a. a \<in> set as \<Longrightarrow> h' a = h a) \<Longrightarrow> lqueue nxt h' f l as = lqueue nxt h f l as"
  unfolding lqueue_def by (auto simp: lseg_cong [of as h' h])

lemma payload_Nil [simp]: "payload dat h [] = []"
  by (simp add: payload_def)

lemma payload_Cons [simp]: "payload dat h (a # as) = dat (the (h a)) # payload dat h as"
  by (simp add: payload_def)

lemma payload_append [simp]: "payload dat h (as @ bs) = payload dat h as @ payload dat h bs"
  by (simp add: payload_def)

lemma payload_upd [simp]: "a \<notin> set as \<Longrightarrow> payload dat (h(a := x)) as = payload dat h as"
  by (auto simp: payload_def)

lemma payload_cong:
  "(\<And>a. a \<in> set as \<Longrightarrow> h' a = h a) \<Longrightarrow> payload dat h' as = payload dat h as"
  by (simp add: payload_def)

lemma length_payload [simp]: "length (payload dat h as) = length as"
  by (simp add: payload_def)

lemma lqueue_Nil [simp]: "lqueue nxt h f l [] \<longleftrightarrow> f = None"
  by (auto simp: lqueue_def)

lemma lqueue_first: "lqueue nxt h f l as \<Longrightarrow> f = (if as = [] then None else Some (hd as))"
  by (cases as) (auto simp: lqueue_def)

locale linked_cells =
  fixes nxt :: "'c \<Rightarrow> nat option"
    and set_nxt :: "nat option \<Rightarrow> 'c \<Rightarrow> 'c"
    and dat :: "'c \<Rightarrow> 'd"
  assumes nxt_set: "nxt (set_nxt v c) = v"
    and dat_set: "dat (set_nxt v c) = dat c"
begin

lemma push_empty:
  "nxt c = None \<Longrightarrow> lqueue nxt (h(a := Some c)) (Some a) (Some a) [a]"
  by (simp add: lqueue_def)

lemma push_front:
  assumes "lqueue nxt h f l as" "as \<noteq> []" "h a = None" "nxt c = f"
  shows "lqueue nxt (h(a := Some c)) (Some a) l (a # as)"
proof -
  from assms have "a \<notin> set as" by (auto simp: lqueue_def dest: lseg_fresh)
  with assms show ?thesis by (auto simp: lqueue_def lseg_upd)
qed

lemma push_back:
  assumes q: "lqueue nxt h f (Some l) as" and ne: "as \<noteq> []" and fresh: "h a = None" and c: "nxt c = None"
  shows "\<exists>d. (h(a := Some c)) l = Some d \<and>
    lqueue nxt ((h(a := Some c))(l := Some (set_nxt (Some a) d))) f (Some a) (as @ [a]) \<and>
    payload dat ((h(a := Some c))(l := Some (set_nxt (Some a) d))) (as @ [a]) =
      payload dat h as @ [dat c]"
proof -
  from q ne have l: "l = last as" by (simp add: lqueue_def)
  with ne obtain bs where as: "as = bs @ [l]" by (metis append_butlast_last_id)
  from q as have dist: "l \<notin> set bs" "distinct bs"
    and ch: "lseg nxt h f bs (Some l)" and hl: "\<exists>d. h l = Some d"
    by (auto simp: lqueue_def lseg_append split: option.splits)
  then obtain d where d: "h l = Some d" by blast
  from q fresh have a: "a \<notin> set as" by (auto simp: lqueue_def dest: lseg_fresh)
  let ?h = "(h(a := Some c))(l := Some (set_nxt (Some a) d))"
  have "lseg nxt ?h f bs (Some l)" using ch dist a as by (simp add: lseg_upd)
  then have "lseg nxt ?h f (as @ [a]) None"
    using a as c by (auto simp: lseg_append nxt_set)
  moreover have "payload dat ?h (as @ [a]) = payload dat h as @ [dat c]"
    using a as dist d by (simp add: dat_set)
  moreover have "(h(a := Some c)) l = Some d" using a as d by auto
  ultimately show ?thesis using q a by (auto simp: lqueue_def)
qed

lemma pop_front:
  assumes "lqueue nxt h (Some a) l (a # as)"
  shows "\<exists>c. h a = Some c \<and>
    lqueue nxt (h(a := None)) (nxt c) l as \<and> lqueue nxt h (nxt c) l as"
proof -
  from assms obtain c where c: "h a = Some c" "lseg nxt h (nxt c) as None" and
    d: "a \<notin> set as" "distinct as" "l = Some (last (a # as))"
    by (auto simp: lqueue_def split: option.splits)
  then have "lseg nxt (h(a := None)) (nxt c) as None" by (simp add: lseg_upd)
  with c d show ?thesis by (simp add: lqueue_def)
qed

text \<open>Removing a cell from the middle: its predecessor, if any, takes over its link, and the last
  pointer moves back when it named the cell.\<close>

lemma delete_first:
  assumes q: "lqueue nxt h f l (a # as)" and c: "h a = Some c"
  shows "lqueue nxt (h(a := None)) (nxt c) (if l = Some a then nxt c else l) as"
proof -
  from q c have ch: "lseg nxt h (nxt c) as None" and d: "a \<notin> set as" "distinct as" "l = Some (last (a # as))"
    by (auto simp: lqueue_def)
  show ?thesis
  proof (cases "as = []")
    case True
    with ch show ?thesis by (simp add: lqueue_def)
  next
    case False
    then have "l \<noteq> Some a" using d by auto
    with ch d False show ?thesis by (simp add: lqueue_def lseg_upd)
  qed
qed

lemma delete_after:
  assumes q: "lqueue nxt h f l ((bs @ [b]) @ a # as)" and c: "h a = Some c" and d: "h b = Some d"
  defines "h' \<equiv> (h(b := Some (set_nxt (nxt c) d)))(a := None)"
  shows "lqueue nxt h' f (if l = Some a then Some b else l) ((bs @ [b]) @ as)"
    and "payload dat h' ((bs @ [b]) @ as) = payload dat h ((bs @ [b]) @ as)"
proof -
  from q c d have ch: "lseg nxt h f bs (Some b)" "lseg nxt h (nxt c) as None"
    and dist: "distinct ((bs @ [b]) @ a # as)" and l: "l = Some (last (a # as))"
    by (auto simp: lqueue_def lseg_append split: option.splits)
  have "lseg nxt h' f bs (Some b)" "lseg nxt h' (nxt c) as None" "h' b = Some (set_nxt (nxt c) d)"
    using ch dist by (simp_all add: h'_def lseg_upd del: fun_upd_apply) (auto simp: h'_def)
  then have "lseg nxt h' f ((bs @ [b]) @ as) None" by (auto simp: lseg_append nxt_set)
  moreover have "(if l = Some a then Some b else l) = Some (last ((bs @ [b]) @ as))"
    using l dist by (cases "as = []") auto
  ultimately show "lqueue nxt h' f (if l = Some a then Some b else l) ((bs @ [b]) @ as)"
    using dist by (simp add: lqueue_def)
  have "b \<notin> set bs" "a \<notin> set bs" "b \<notin> set as" "a \<notin> set as" using dist by auto
  then have "payload dat h' bs = payload dat h bs" "payload dat h' as = payload dat h as"
    by (simp_all add: h'_def del: fun_upd_apply)
  moreover have "dat (the (h' b)) = dat (the (h b))" using dist d by (simp add: h'_def dat_set)
  ultimately show "payload dat h' ((bs @ [b]) @ as) = payload dat h ((bs @ [b]) @ as)" by simp
qed

end

end
