(* ===== verification/MsgInv.thy ===== *)
theory MsgInv
  imports MsgQueue LinkedList
begin

text \<open>
  The invariant of the message store and its abstract view. \<open>msg_wf N w\<close>: every queue's ring is
  sane, its notify chain visits the cells \<open>N q\<close>, the chains of different queues share no cell,
  and a queue that holds messages has the status bit that makes a receiver look for them.
  \<open>view N w\<close> maps a queue to the lists of messages it holds; the operations are specified as
  updates of this map.
\<close>

section \<open>Linked cells of this module\<close>

interpretation nq: linked_cells next_qmsg "\<lambda>v c. c\<lparr>next_qmsg := v\<rparr>" Msg
  by unfold_locales simp_all

interpretation sq: linked_cells pNext "\<lambda>v c. c\<lparr>pNext := v\<rparr>" sMsg
  by unfold_locales simp_all

section \<open>The invariant\<close>

definition nq_wf :: "(nat \<Rightarrow> qmsg option) \<Rightarrow> nat list \<Rightarrow> msgqueue \<Rightarrow> bool" where
  "nq_wf h as Q \<longleftrightarrow> ring_ok Q \<and>
     lqueue next_qmsg h (pFirstNotifyMsg Q) (pLastNotifyMsg Q) as \<and>
     (as \<noteq> [] \<longrightarrow> has_flag (dwState Q) QS_NOTIFYMSG) \<and>
     (posted Q \<noteq> [] \<longrightarrow> has_flag (dwState Q) QS_POSTMSG)"

definition msg_wf :: "(nat \<Rightarrow> nat list) \<Rightarrow> world \<Rightarrow> bool" where
  "msg_wf N w \<longleftrightarrow>
     (\<forall>q. case queues w q of None \<Rightarrow> N q = [] | Some Q \<Rightarrow> nq_wf (qmsgs w) (N q) Q) \<and>
     (\<forall>q r. q \<noteq> r \<longrightarrow> set (N q) \<inter> set (N r) = {})"

record qview =
  v_posted :: "msg list"
  v_notify :: "msg list"
  v_state :: dword
  v_depth :: int
  v_cap :: nat

definition qview_of :: "(nat \<Rightarrow> qmsg option) \<Rightarrow> nat list \<Rightarrow> msgqueue \<Rightarrow> qview" where
  "qview_of h as Q = \<lparr>v_posted = posted Q, v_notify = payload Msg h as, v_state = dwState Q,
     v_depth = loop_depth Q, v_cap = mq_len Q - 1\<rparr>"

definition view :: "(nat \<Rightarrow> nat list) \<Rightarrow> world \<Rightarrow> nat \<Rightarrow> qview option" where
  "view N w q = (case queues w q of None \<Rightarrow> None
     | Some Q \<Rightarrow> Some (qview_of (qmsgs w) (N q) Q))"

lemma msg_wf_queue: "msg_wf N w \<Longrightarrow> queues w q = Some Q \<Longrightarrow> nq_wf (qmsgs w) (N q) Q"
  by (auto simp: msg_wf_def dest: spec [of _ q])

lemma msg_wf_disjoint: "msg_wf N w \<Longrightarrow> q \<noteq> r \<Longrightarrow> a \<in> set (N q) \<Longrightarrow> a \<notin> set (N r)"
  unfolding msg_wf_def by blast

lemma msg_wf_live:
  assumes "msg_wf N w" "a \<in> set (N q)"
  shows "\<exists>c. qmsgs w a = Some c"
proof (cases "queues w q")
  case None
  then have "N q = []" using assms(1) by (auto simp: msg_wf_def dest: spec [of _ q])
  with assms(2) show ?thesis by simp
next
  case (Some Q)
  then have "nq_wf (qmsgs w) (N q) Q" using assms(1) by (rule msg_wf_queue [rotated])
  with assms(2) show ?thesis by (auto simp: nq_wf_def lqueue_def dest: lseg_mem)
qed

text \<open>Replacing one queue, with heap changes outside the chains of the others.\<close>

lemma msg_wf_upd:
  assumes wf: "msg_wf N w"
    and qs: "queues w' = (queues w)(q := Some Q')"
    and fr: "\<And>r a. r \<noteq> q \<Longrightarrow> a \<in> set (N r) \<Longrightarrow> qmsgs w' a = qmsgs w a"
    and new: "nq_wf (qmsgs w') as Q'"
    and dj: "\<And>r a. r \<noteq> q \<Longrightarrow> a \<in> set as \<Longrightarrow> a \<notin> set (N r)"
  shows "msg_wf (N(q := as)) w'"
    and "view (N(q := as)) w' = (view N w)(q := Some (qview_of (qmsgs w') as Q'))"
proof -
  have other: "nq_wf (qmsgs w') (N r) Q" if "r \<noteq> q" "queues w r = Some Q" for r Q
  proof -
    have "nq_wf (qmsgs w) (N r) Q" using wf that(2) by (rule msg_wf_queue)
    then show ?thesis
      using lqueue_cong [of "N r" "qmsgs w'" "qmsgs w"] fr [OF that(1)] by (simp add: nq_wf_def)
  qed
  have none: "N r = []" if "queues w r = None" for r
    using wf that by (auto simp: msg_wf_def dest: spec [of _ r])
  have "case queues w' r of None \<Rightarrow> (N(q := as)) r = []
        | Some Q \<Rightarrow> nq_wf (qmsgs w') ((N(q := as)) r) Q" for r
  proof (cases "r = q")
    case True
    then show ?thesis using new by (simp add: qs)
  next
    case False
    then show ?thesis using other [OF False] none [of r]
      by (simp add: qs split: option.split)
  qed
  moreover have "set ((N(q := as)) r) \<inter> set ((N(q := as)) s) = {}" if "r \<noteq> s" for r s
    using dj [of s] dj [of r] that msg_wf_disjoint [OF wf that] by (auto split: if_splits)
  ultimately show "msg_wf (N(q := as)) w'" unfolding msg_wf_def by blast
  show "view (N(q := as)) w' = (view N w)(q := Some (qview_of (qmsgs w') as Q'))"
  proof
    fix r
    show "view (N(q := as)) w' r = ((view N w)(q := Some (qview_of (qmsgs w') as Q'))) r"
      using fr [of r] payload_cong [of "N r" "qmsgs w'" "qmsgs w" Msg]
      by (cases "r = q") (simp_all add: view_def qview_of_def qs split: option.split)
  qed
qed

text \<open>The frame case: a queue changes in fields the invariant reads nothing from.\<close>

lemma msg_wf_frame:
  assumes wf: "msg_wf N w" and q: "queues w q = Some Q"
    and qs: "queues w' = (queues w)(q := Some Q')" "qmsgs w' = qmsgs w"
    and wfq: "ring_ok Q \<Longrightarrow> ring_ok Q'"
    and ps: "posted Q' = posted Q" "mq_len Q' = mq_len Q" "pFirstNotifyMsg Q' = pFirstNotifyMsg Q"
      "pLastNotifyMsg Q' = pLastNotifyMsg Q"
    and fl: "has_flag (dwState Q) QS_NOTIFYMSG \<Longrightarrow> has_flag (dwState Q') QS_NOTIFYMSG"
      "has_flag (dwState Q) QS_POSTMSG \<Longrightarrow> has_flag (dwState Q') QS_POSTMSG"
  shows "msg_wf N w'"
    and "view N w' = (view N w)(q := Some ((qview_of (qmsgs w) (N q) Q)\<lparr>v_state := dwState Q', v_depth := loop_depth Q'\<rparr>))"
proof -
  have new: "nq_wf (qmsgs w') (N q) Q'"
    using msg_wf_queue [OF wf q] wfq ps fl by (auto simp: nq_wf_def qs(2))
  have dj: "a \<notin> set (N r)" if "r \<noteq> q" "a \<in> set (N q)" for r a
    using msg_wf_disjoint [OF wf, of q r a] that by auto
  have fr: "qmsgs w' a = qmsgs w a" for a by (simp add: qs(2))
  note upd = msg_wf_upd [OF wf qs(1) fr new dj]
  show "msg_wf N w'"
    "view N w' = (view N w)(q := Some ((qview_of (qmsgs w) (N q) Q)\<lparr>v_state := dwState Q', v_depth := loop_depth Q'\<rparr>))"
    using upd by (simp_all add: ps qs(2) qview_of_def)
qed

lemma view_Some: "queues w q = Some Q \<Longrightarrow> view N w q = Some (qview_of (qmsgs w) (N q) Q)"
  by (simp add: view_def)

section \<open>Waking the owner changes nothing of the view\<close>

lemma POST_MSGQ_posted [simp]: "posted (POST_MSGQ Q) = posted Q"
  by (simp add: POST_MSGQ_def)

lemma POST_MSGQ_ring_ok [simp]: "ring_ok (POST_MSGQ Q) = ring_ok Q"
  by (simp add: POST_MSGQ_def)

lemma wake_owner_wf:
  assumes wf: "msg_wf N w" and h: "hwnd_ok w h" and q: "queues w q = Some Q"
  shows "\<exists>w'. wake_owner self h q w = Some w' \<and> msg_wf N w' \<and> view N w' = view N w \<and>
    same_windows w w' \<and> qmsgs w' = qmsgs w \<and> syncmsgs w' = syncmsgs w \<and> sems w' = sems w \<and>
    tick_counter w' = tick_counter w \<and>
    (getMainWinIfWindowInThisThread self w h = Some 0 \<longrightarrow>
       (\<exists>Q'. queues w' q = Some Q' \<and> 0 < wait_sem Q'))"
proof -
  obtain m where m: "getMainWinIfWindowInThisThread self w h = Some m"
    using getMainWinIfWindowInThisThread_ok [OF h] by blast
  show ?thesis
  proof (cases "m = 0")
    case False
    with m wf show ?thesis by (simp add: wake_owner_def)
  next
    case True
    let ?w = "set_queue q (POST_MSGQ Q) w"
    have "msg_wf N ?w" "view N ?w = view N w"
      using msg_wf_frame [OF wf q, of ?w "POST_MSGQ Q"] q by (auto simp: view_Some fun_upd_idem qview_of_def)
    moreover have "same_windows w ?w"
      using q by (rule same_windows_set_queue [where Q' = "POST_MSGQ Q"]) simp_all
    ultimately show ?thesis using True m q
      by (intro exI [of _ ?w]) (simp add: wake_owner_def POST_MSGQ_wakes)
  qed
qed

end
