(* ===== verification/MsgSend.thy ===== *)
theory MsgSend
  imports MsgInv
begin

text \<open>
  The senders of minigui-message.c: notification messages (\<open>SendNotifyMessage\<close>,
  \<open>SendPriorNotifyMessage\<close>, \<open>NotifyWindow\<close>) and posted messages (\<open>PostMessage\<close>,
  \<open>PostQuitMessage\<close>). The locale \<open>notify_enqueue\<close> is the contract of a linking step; its client
  lemma is what a notification sender does to the view. The last section specifies every sender
  as an update of the view.
\<close>

section \<open>Queueing a notification\<close>

text \<open>The two linking steps: at the end of the chain, and at its front.\<close>

definition enqueue_notify_tail :: "nat \<Rightarrow> nat \<Rightarrow> msg \<Rightarrow> world \<Rightarrow> world option" where
  "enqueue_notify_tail q a m w = do {
     Q \<leftarrow> queues w q;
     let w1 = w\<lparr>qmsgs := (qmsgs w)(a := Some \<lparr>Msg = m, next_qmsg = None\<rparr>)\<rparr>;
     case pFirstNotifyMsg Q of
       None \<Rightarrow> Some (set_queue q (Q\<lparr>pFirstNotifyMsg := Some a, pLastNotifyMsg := Some a,
                                   dwState := set_flag (dwState Q) QS_NOTIFYMSG\<rparr>) w1)
     | Some f \<Rightarrow> do {
         l \<leftarrow> pLastNotifyMsg Q;
         c \<leftarrow> qmsgs w1 l;
         Some (set_queue q (Q\<lparr>pLastNotifyMsg := Some a,
                              dwState := set_flag (dwState Q) QS_NOTIFYMSG\<rparr>)
                (w1\<lparr>qmsgs := (qmsgs w1)(l := Some (c\<lparr>next_qmsg := Some a\<rparr>))\<rparr>)) } }"

definition enqueue_notify_head :: "nat \<Rightarrow> nat \<Rightarrow> msg \<Rightarrow> world \<Rightarrow> world option" where
  "enqueue_notify_head q a m w = do {
     Q \<leftarrow> queues w q;
     case pFirstNotifyMsg Q of
       None \<Rightarrow> Some (set_queue q (Q\<lparr>pFirstNotifyMsg := Some a, pLastNotifyMsg := Some a,
                                   dwState := set_flag (dwState Q) QS_NOTIFYMSG\<rparr>)
                (w\<lparr>qmsgs := (qmsgs w)(a := Some \<lparr>Msg = m, next_qmsg = None\<rparr>)\<rparr>))
     | Some f \<Rightarrow> Some (set_queue q (Q\<lparr>pFirstNotifyMsg := Some a,
                                   dwState := set_flag (dwState Q) QS_NOTIFYMSG\<rparr>)
                (w\<lparr>qmsgs := (qmsgs w)(a := Some \<lparr>Msg = m, next_qmsg = Some f\<rparr>)\<rparr>)) }"

text \<open>
  What the three notification senders share: the checks on the window, the allocation of the
  cell (a NULL cell is dereferenced), the linking step, and the wake-up of the owner.
\<close>

definition queue_notification ::
    "mgenv \<Rightarrow> thread_id \<Rightarrow> (nat \<Rightarrow> nat \<Rightarrow> msg \<Rightarrow> world \<Rightarrow> world option) \<Rightarrow> msg \<Rightarrow> world \<Rightarrow>
       (mgerr \<times> world) option" where
  "queue_notification E self enq m w = do {
     b \<leftarrow> MG_IS_WINDOW w (msg_hwnd m);
     if \<not> b then Some (ERR_INV_HWND, w)
     else do {
       mq \<leftarrow> getMsgQueue w (msg_hwnd m);
       case mq of
         None \<Rightarrow> Some (ERR_INV_HWND, w)
       | Some q \<Rightarrow> do {
           a \<leftarrow> blk_alloc E (qmsgs w);
           w1 \<leftarrow> enq q a m w;
           w2 \<leftarrow> wake_owner self (msg_hwnd m) q w1;
           Some (ERR_OK, w2) } } }"

definition SendNotifyMessage ::
    "mgenv \<Rightarrow> thread_id \<Rightarrow> hwnd \<Rightarrow> uint \<Rightarrow> 64 word \<Rightarrow> 64 word \<Rightarrow> world \<Rightarrow> (mgerr \<times> world) option" where
  "SendNotifyMessage E self hWnd nMsg wp lp w =
     queue_notification E self enqueue_notify_tail
       \<lparr>msg_hwnd = hWnd, message = nMsg, wParam = wp, lParam = lp, msg_time = tick_counter w,
        pSyncMsg = junk_sync E\<rparr> w"

definition SendPriorNotifyMessage ::
    "mgenv \<Rightarrow> thread_id \<Rightarrow> hwnd \<Rightarrow> uint \<Rightarrow> 64 word \<Rightarrow> 64 word \<Rightarrow> world \<Rightarrow> (mgerr \<times> world) option" where
  "SendPriorNotifyMessage E self hWnd nMsg wp lp w =
     queue_notification E self enqueue_notify_head
       \<lparr>msg_hwnd = hWnd, message = nMsg, wParam = wp, lParam = lp, msg_time = tick_counter w,
        pSyncMsg = junk_sync E\<rparr> w"

text \<open>The code of a notification is a C \<open>int\<close>, sign-extended into the message.\<close>

definition NotifyWindow ::
    "mgenv \<Rightarrow> thread_id \<Rightarrow> hwnd \<Rightarrow> 64 word \<Rightarrow> uint \<Rightarrow> dword \<Rightarrow> world \<Rightarrow> (mgerr \<times> world) option" where
  "NotifyWindow E self hWnd nid ncode dwAddData w =
     queue_notification E self enqueue_notify_tail
       \<lparr>msg_hwnd = hWnd, message = MSG_NOTIFICATION, wParam = nid, lParam = scast ncode,
        msg_time = dwAddData, pSyncMsg = junk_sync E\<rparr> w"

section \<open>Posting\<close>

definition PostMessage ::
    "mgenv \<Rightarrow> thread_id \<Rightarrow> hwnd \<Rightarrow> uint \<Rightarrow> 64 word \<Rightarrow> 64 word \<Rightarrow> world \<Rightarrow> (mgerr \<times> world) option" where
  "PostMessage E self hWnd nMsg wp lp w = do {
     mq \<leftarrow> getMsgQueue w hWnd;
     case mq of
       None \<Rightarrow> Some (ERR_INV_HWND, w)
     | Some q \<Rightarrow>
         if nMsg = MSG_PAINT then do {
           Q \<leftarrow> queues w q;
           w' \<leftarrow> wake_owner self hWnd q (set_queue q (Q\<lparr>dwState := set_flag (dwState Q) QS_PAINT\<rparr>) w);
           Some (ERR_OK, w') }
         else do {
           (ok, _, w') \<leftarrow> kernel_QueueMessage self (Some q)
             (Some \<lparr>msg_hwnd = hWnd, message = nMsg, wParam = wp, lParam = lp, msg_time = 0,
                    pSyncMsg = junk_sync E\<rparr>) w;
           Some (if ok then ERR_OK else ERR_QUEUE_FULL, w') } }"

definition PostQuitMessage :: "thread_id \<Rightarrow> hwnd \<Rightarrow> world \<Rightarrow> (mgerr \<times> world) option" where
  "PostQuitMessage self hWnd w = do {
     mq \<leftarrow> (if hWnd \<noteq> 0 \<and> hWnd \<noteq> HWND_INVALID then do {
              p \<leftarrow> wins w hWnd;
              if DataType p = TYPE_HWND \<or> DataType p = TYPE_WINTODEL
              then do { m \<leftarrow> wins w (pMainWin p); Some (pMsgQueue m) } else Some None }
            else Some None);
     case mq of
       None \<Rightarrow> Some (ERR_INV_HWND, w)
     | Some q \<Rightarrow> do {
         Q \<leftarrow> queues w q;
         let Q' = (if \<not> has_flag (dwState Q) QS_QUIT
                   then Q\<lparr>loop_depth := loop_depth Q + 1, dwState := set_flag (dwState Q) QS_QUIT\<rparr>
                   else Q);
         w' \<leftarrow> wake_owner self hWnd q (set_queue q Q' w);
         Some (ERR_OK, w') } }"

section \<open>What the senders do to the view\<close>

definition notify_eff :: "msg \<Rightarrow> qview \<Rightarrow> qview" where
  "notify_eff m v = v\<lparr>v_notify := v_notify v @ [m], v_state := set_flag (v_state v) QS_NOTIFYMSG\<rparr>"

definition prior_eff :: "msg \<Rightarrow> qview \<Rightarrow> qview" where
  "prior_eff m v = v\<lparr>v_notify := m # v_notify v, v_state := set_flag (v_state v) QS_NOTIFYMSG\<rparr>"

definition post_eff :: "msg \<Rightarrow> qview \<Rightarrow> qview" where
  "post_eff m v =
     (case post_spec (v_cap v) m (v_posted v) of
        (ok, ms) \<Rightarrow> v\<lparr>v_posted := ms,
                        v_state := (if ok then set_flag (v_state v) QS_POSTMSG else v_state v)\<rparr>)"

definition paint_eff :: "qview \<Rightarrow> qview" where
  "paint_eff v = v\<lparr>v_state := set_flag (v_state v) QS_PAINT\<rparr>"

definition quit_eff :: "qview \<Rightarrow> qview" where
  "quit_eff v = (if has_flag (v_state v) QS_QUIT then v
     else v\<lparr>v_depth := v_depth v + 1, v_state := set_flag (v_state v) QS_QUIT\<rparr>)"

locale notify_enqueue =
  fixes enq :: "nat \<Rightarrow> nat \<Rightarrow> msg \<Rightarrow> world \<Rightarrow> world option"
    and ins :: "nat \<Rightarrow> nat list \<Rightarrow> nat list"
    and eff :: "msg \<Rightarrow> qview \<Rightarrow> qview"
  assumes enq_ok: "msg_wf N w \<Longrightarrow> queues w q = Some Q \<Longrightarrow> qmsgs w a = None \<Longrightarrow>
    \<exists>w'. enq q a m w = Some w' \<and> msg_wf (N(q := ins a (N q))) w' \<and>
      view (N(q := ins a (N q))) w' = (view N w)(q := map_option (eff m) (view N w q)) \<and>
      same_windows w w'"
begin

lemma queue_notification_ok:
  assumes E: "blk_alloc E (qmsgs w) = Some a" "qmsgs w a = None"
    and wf: "msg_wf N w" and h: "hwnd_ok w (msg_hwnd m)"
    and win: "MG_IS_WINDOW w (msg_hwnd m) = Some True"
    and mq: "getMsgQueue w (msg_hwnd m) = Some (Some q)" "queues w q = Some Q"
  shows "\<exists>w'. queue_notification E self enq m w = Some (ERR_OK, w') \<and>
    msg_wf (N(q := ins a (N q))) w' \<and>
    view (N(q := ins a (N q))) w' = (view N w)(q := map_option (eff m) (view N w q)) \<and>
    (getMainWinIfWindowInThisThread self w (msg_hwnd m) = Some 0 \<longrightarrow>
       (\<exists>Q'. queues w' q = Some Q' \<and> 0 < wait_sem Q'))"
proof -
  obtain w1 where w1: "enq q a m w = Some w1" "msg_wf (N(q := ins a (N q))) w1"
      "view (N(q := ins a (N q))) w1 = (view N w)(q := map_option (eff m) (view N w q))"
      "same_windows w w1"
    using enq_ok [OF wf mq(2) E(2), of m] by blast
  obtain Q1 where Q1: "queues w1 q = Some Q1" using same_windows_th [OF w1(4) mq(2)] by blast
  have h1: "hwnd_ok w1 (msg_hwnd m)" using h w1(4) by (simp add: hwnd_ok_cong)
  from wake_owner_wf [OF w1(2) h1 Q1, of self] E win mq w1 show ?thesis
    by (auto simp: queue_notification_def getMainWinIfWindowInThisThread_cong)
qed

end

text \<open>Both linking steps keep the contract.\<close>

lemma enqueue_notify_tail_ok:
  assumes wf: "msg_wf N w" and q: "queues w q = Some Q" and a: "qmsgs w a = None"
  shows "\<exists>w'. enqueue_notify_tail q a m w = Some w' \<and> msg_wf (N(q := N q @ [a])) w' \<and>
    view (N(q := N q @ [a])) w' = (view N w)(q := map_option (notify_eff m) (view N w q)) \<and>
    same_windows w w'"
proof -
  let ?c = "\<lparr>Msg = m, next_qmsg = None\<rparr>"
  have nq: "nq_wf (qmsgs w) (N q) Q" using wf q by (rule msg_wf_queue)
  have fresh: "a \<notin> set (N r)" for r using msg_wf_live [OF wf] a by fastforce
  have others: "b \<notin> set (N q)" if "r \<noteq> q" "b \<in> set (N r)" for r b
    using msg_wf_disjoint [OF wf that] .
  obtain w' Q' where w': "enqueue_notify_tail q a m w = Some w'" "wins w' = wins w"
      "queues w' = (queues w)(q := Some Q')" "nq_wf (qmsgs w') (N q @ [a]) Q'"
      "\<And>b. b \<noteq> a \<Longrightarrow> b \<notin> set (N q) \<Longrightarrow> qmsgs w' b = qmsgs w b"
      "payload Msg (qmsgs w') (N q @ [a]) = payload Msg (qmsgs w) (N q) @ [m]"
      "posted Q' = posted Q" "dwState Q' = set_flag (dwState Q) QS_NOTIFYMSG"
      "loop_depth Q' = loop_depth Q" "th Q' = th Q" "mq_len Q' = mq_len Q"
  proof (cases "N q = []")
    case True
    then have f: "pFirstNotifyMsg Q = None" using nq by (simp add: nq_wf_def)
    show thesis
      by (rule that [of "set_queue q (Q\<lparr>pFirstNotifyMsg := Some a, pLastNotifyMsg := Some a,
              dwState := set_flag (dwState Q) QS_NOTIFYMSG\<rparr>)
            (w\<lparr>qmsgs := (qmsgs w)(a := Some ?c)\<rparr>)"
            "Q\<lparr>pFirstNotifyMsg := Some a, pLastNotifyMsg := Some a,
              dwState := set_flag (dwState Q) QS_NOTIFYMSG\<rparr>"])
        (use True f q nq in \<open>simp_all add: enqueue_notify_tail_def nq_wf_def nq.push_empty qs_flag_simps\<close>)
  next
    case False
    then have l: "pLastNotifyMsg Q = Some (last (N q))" and
      f: "pFirstNotifyMsg Q = Some (hd (N q))" and
      lq: "lqueue next_qmsg (qmsgs w) (pFirstNotifyMsg Q) (Some (last (N q))) (N q)"
      using nq lqueue_first [of next_qmsg "qmsgs w" "pFirstNotifyMsg Q" "pLastNotifyMsg Q" "N q"]
      by (auto simp: nq_wf_def lqueue_def)
    obtain d where d: "((qmsgs w)(a := Some ?c)) (last (N q)) = Some d"
      "lqueue next_qmsg (((qmsgs w)(a := Some ?c))(last (N q) := Some (d\<lparr>next_qmsg := Some a\<rparr>)))
         (pFirstNotifyMsg Q) (Some a) (N q @ [a])"
      "payload Msg (((qmsgs w)(a := Some ?c))(last (N q) := Some (d\<lparr>next_qmsg := Some a\<rparr>))) (N q @ [a])
         = payload Msg (qmsgs w) (N q) @ [m]"
      using nq.push_back [OF lq False a, of ?c] by auto
    let ?h = "((qmsgs w)(a := Some ?c))(last (N q) := Some (d\<lparr>next_qmsg := Some a\<rparr>))"
    let ?Q = "Q\<lparr>pLastNotifyMsg := Some a, dwState := set_flag (dwState Q) QS_NOTIFYMSG\<rparr>"
    have ne: "last (N q) \<in> set (N q)" using False by simp
    then have hd: "?h b = qmsgs w b" if "b \<noteq> a" "b \<notin> set (N q)" for b using that by auto
    have run: "enqueue_notify_tail q a m w = Some (set_queue q ?Q (w\<lparr>qmsgs := ?h\<rparr>))"
      using d(1) fresh [of q] ne by (auto simp: enqueue_notify_tail_def f l q)
    have wfq: "nq_wf ?h (N q @ [a]) ?Q"
      using nq d(2) by (simp add: nq_wf_def qs_flag_simps del: fun_upd_apply)
    show thesis
      by (rule that [OF run, of ?Q]) (use wfq d(3) hd in \<open>simp_all del: fun_upd_apply\<close>)
  qed
  have fr: "qmsgs w' b = qmsgs w b" if "r \<noteq> q" "b \<in> set (N r)" for r b
    using w'(5) [of b] others [OF that] fresh [of r] that by auto
  have dj: "b \<notin> set (N r)" if "r \<noteq> q" "b \<in> set (N q @ [a])" for r b
    using others [of r b] fresh [of r] that by auto
  note upd = msg_wf_upd [OF wf w'(3) fr w'(4) dj]
  have "same_windows w w'"
    using q w'(10) w'(2) w'(3) by (rule same_windows_set_queue)
  with w' upd q show ?thesis
    by (intro exI [of _ w']) (simp add: view_Some qview_of_def notify_eff_def)
qed

lemma enqueue_notify_head_ok:
  assumes wf: "msg_wf N w" and q: "queues w q = Some Q" and a: "qmsgs w a = None"
  shows "\<exists>w'. enqueue_notify_head q a m w = Some w' \<and> msg_wf (N(q := a # N q)) w' \<and>
    view (N(q := a # N q)) w' = (view N w)(q := map_option (prior_eff m) (view N w q)) \<and>
    same_windows w w'"
proof -
  let ?c = "\<lparr>Msg = m, next_qmsg = pFirstNotifyMsg Q\<rparr>"
  let ?h = "(qmsgs w)(a := Some ?c)"
  let ?l = "if N q = [] then Some a else pLastNotifyMsg Q"
  let ?Q = "Q\<lparr>pFirstNotifyMsg := Some a, pLastNotifyMsg := ?l,
              dwState := set_flag (dwState Q) QS_NOTIFYMSG\<rparr>"
  let ?w = "set_queue q ?Q (w\<lparr>qmsgs := ?h\<rparr>)"
  have nq: "nq_wf (qmsgs w) (N q) Q" using wf q by (rule msg_wf_queue)
  then have lq: "lqueue next_qmsg (qmsgs w) (pFirstNotifyMsg Q) (pLastNotifyMsg Q) (N q)"
    and f: "pFirstNotifyMsg Q = (if N q = [] then None else Some (hd (N q)))"
    using lqueue_first by (auto simp: nq_wf_def dest: lqueue_first)
  have fresh: "a \<notin> set (N r)" for r using msg_wf_live [OF wf] a by fastforce
  have run: "enqueue_notify_head q a m w = Some ?w"
    by (cases "N q = []") (simp_all add: enqueue_notify_head_def q f)
  have "lqueue next_qmsg ?h (Some a) ?l (a # N q)"
    using nq.push_front [OF lq _ a, of ?c] nq.push_empty [of ?c ?h a] f
    by (cases "N q = []") (simp_all add: nq.push_empty)
  then have wfq: "nq_wf ?h (a # N q) ?Q"
    using nq by (simp add: nq_wf_def qs_flag_simps del: fun_upd_apply)
  have qs: "queues ?w = (queues w)(q := Some ?Q)" and qm: "qmsgs ?w = ?h" by simp_all
  have fr: "qmsgs ?w b = qmsgs w b" if "r \<noteq> q" "b \<in> set (N r)" for r b
    using fresh [of r] that by auto
  have dj: "b \<notin> set (N r)" if "r \<noteq> q" "b \<in> set (a # N q)" for r b
    using msg_wf_disjoint [OF wf, of r q b] fresh [of r] that by auto
  have new: "nq_wf (qmsgs ?w) (a # N q) ?Q" using wfq unfolding qm .
  note upd = msg_wf_upd [OF wf qs fr new dj]
  have "same_windows w ?w" by (rule same_windows_set_queue [OF q _ _ qs]) simp_all
  then show ?thesis using run upd q fresh [of q]
    by (intro exI [of _ ?w] conjI) (simp_all add: view_Some qview_of_def prior_eff_def)
qed

interpretation tail: notify_enqueue enqueue_notify_tail "\<lambda>a as. as @ [a]" notify_eff
  by unfold_locales (rule enqueue_notify_tail_ok)

interpretation head: notify_enqueue enqueue_notify_head Cons prior_eff
  by unfold_locales (rule enqueue_notify_head_ok)

text \<open>Posting.\<close>

lemma kernel_QueueMessage_ok:
  assumes wf: "msg_wf N w" and h: "hwnd_ok w (msg_hwnd m)" and q: "queues w q = Some Q"
  defines "m' \<equiv> m\<lparr>msg_time := tick_counter w\<rparr>"
  shows "\<exists>w'. kernel_QueueMessage self (Some q) (Some m) w =
      Some (fst (post_spec (mq_len Q - 1) m' (posted Q)), Some m', w') \<and> msg_wf N w' \<and>
    view N w' = (view N w)(q := map_option (post_eff m') (view N w q)) \<and>
    same_windows w w' \<and> tick_counter w' = tick_counter w \<and>
    (fst (post_spec (mq_len Q - 1) m' (posted Q)) \<longrightarrow>
      getMainWinIfWindowInThisThread self w (msg_hwnd m) = Some 0 \<longrightarrow>
       (\<exists>Q'. queues w' q = Some Q' \<and> 0 < wait_sem Q'))"
proof -
  have nq: "nq_wf (qmsgs w) (N q) Q" using wf q by (rule msg_wf_queue)
  then have ring: "ring_ok Q" by (simp add: nq_wf_def)
  from queue_message_correct [OF ring, of "tick_counter w" m, folded m'_def]
  obtain ok buf wr st where
    run: "queue_message (tick_counter w) m Q =
      Some (ok, m', Q\<lparr>mq_msg := buf, writepos := wr, dwState := st\<rparr>)"
    and ring': "ring_ok (Q\<lparr>mq_msg := buf, writepos := wr, dwState := st\<rparr>)"
    and spec: "(ok, posted (Q\<lparr>mq_msg := buf, writepos := wr, dwState := st\<rparr>)) =
      post_spec (mq_len Q - 1) m' (posted Q)"
    and st: "st = (if ok then set_flag (dwState Q) QS_POSTMSG else dwState Q)" by blast
  let ?Q = "Q\<lparr>mq_msg := buf, writepos := wr, dwState := st\<rparr>"
  let ?w = "set_queue q ?Q w"
  have ps: "posted ?Q = snd (post_spec (mq_len Q - 1) m' (posted Q))"
    and ok: "ok = fst (post_spec (mq_len Q - 1) m' (posted Q))"
    using spec by (metis snd_conv, metis fst_conv)
  have full: "\<not> ok \<Longrightarrow> posted ?Q = posted Q"
    using spec by (auto simp: post_spec_def split: option.splits if_splits)
  have qs: "queues ?w = (queues w)(q := Some ?Q)" by simp
  have fr: "qmsgs ?w b = qmsgs w b" for b by simp
  have new: "nq_wf (qmsgs ?w) (N q) ?Q"
    using nq ring' st full by (cases ok) (auto simp: nq_wf_def qs_flag_simps)
  have dj: "b \<notin> set (N r)" if "r \<noteq> q" "b \<in> set (N q)" for r b
    using msg_wf_disjoint [OF wf, of q r b] that by auto
  have vw: "msg_wf N ?w"
    "view N ?w = (view N w)(q := map_option (post_eff m') (view N w q))"
    using msg_wf_upd [OF wf qs fr new dj] q ps ok st
    by (simp_all add: view_Some qview_of_def post_eff_def case_prod_beta)
  have sw: "same_windows w ?w" by (rule same_windows_set_queue [OF q _ _ qs]) simp_all
  have h1: "hwnd_ok ?w (msg_hwnd m)" using h sw by (simp add: hwnd_ok_cong)
  have m': "msg_hwnd m' = msg_hwnd m" by (simp add: m'_def)
  obtain w' where w': "wake_owner self (msg_hwnd m) q ?w = Some w'" "msg_wf N w'"
      "view N w' = view N ?w" "same_windows w w'" "tick_counter w' = tick_counter w"
      "getMainWinIfWindowInThisThread self w (msg_hwnd m) = Some 0 \<longrightarrow>
        (\<exists>Q'. queues w' q = Some Q' \<and> 0 < wait_sem Q')"
    using wake_owner_wf [OF vw(1) h1, of q ?Q self] sw
    by (auto simp: getMainWinIfWindowInThisThread_cong intro: same_windows_trans)
  show ?thesis
  proof (cases ok)
    case True
    have "kernel_QueueMessage self (Some q) (Some m) w = Some (True, Some m', w')"
      using True by (simp add: kernel_QueueMessage_def q run m' w'(1))
    with w' vw(2) ok True show ?thesis by simp
  next
    case False
    have "kernel_QueueMessage self (Some q) (Some m) w = Some (False, Some m', ?w)"
      using False by (simp add: kernel_QueueMessage_def q run)
    with vw ok False sw show ?thesis by simp
  qed
qed

lemma flag_step_ok:
  assumes wf: "msg_wf N w" and h: "hwnd_ok w h" and q: "queues w q = Some Q"
    and Q': "ring_ok Q \<Longrightarrow> ring_ok Q'" "posted Q' = posted Q" "mq_len Q' = mq_len Q" "th Q' = th Q"
      "pFirstNotifyMsg Q' = pFirstNotifyMsg Q" "pLastNotifyMsg Q' = pLastNotifyMsg Q"
      "has_flag (dwState Q) QS_NOTIFYMSG \<Longrightarrow> has_flag (dwState Q') QS_NOTIFYMSG"
      "has_flag (dwState Q) QS_POSTMSG \<Longrightarrow> has_flag (dwState Q') QS_POSTMSG"
  shows "\<exists>w'. wake_owner self h q (set_queue q Q' w) = Some w' \<and> msg_wf N w' \<and>
    view N w' = (view N w)(q := map_option
      (\<lambda>v. v\<lparr>v_state := dwState Q', v_depth := loop_depth Q'\<rparr>) (view N w q)) \<and>
    (getMainWinIfWindowInThisThread self w h = Some 0 \<longrightarrow>
      (\<exists>Q'. queues w' q = Some Q' \<and> 0 < wait_sem Q'))"
proof -
  let ?w = "set_queue q Q' w"
  have qs: "queues ?w = (queues w)(q := Some Q')" "qmsgs ?w = qmsgs w" by simp_all
  have v: "msg_wf N ?w" "view N ?w = (view N w)(q := map_option
      (\<lambda>v. v\<lparr>v_state := dwState Q', v_depth := loop_depth Q'\<rparr>) (view N w q))"
    using msg_wf_frame [OF wf q qs Q'(1,2,3,5-8)] q by (simp_all add: view_Some)
  have sw: "same_windows w ?w" by (rule same_windows_set_queue [OF q Q'(4) _ qs(1)]) simp
  then have h1: "hwnd_ok ?w h" using h by (simp add: hwnd_ok_cong)
  from wake_owner_wf [OF v(1) h1, of q Q' self] v(2) sw show ?thesis
    by (auto simp: getMainWinIfWindowInThisThread_cong)
qed

definition user_msg :: "mgenv \<Rightarrow> dword \<Rightarrow> hwnd \<Rightarrow> uint \<Rightarrow> 64 word \<Rightarrow> 64 word \<Rightarrow> msg" where
  "user_msg E t h n wp lp = \<lparr>msg_hwnd = h, message = n, wParam = wp, lParam = lp, msg_time = t,
                pSyncMsg = junk_sync E\<rparr>"

lemma PostMessage_ok:
  fixes E h n wp lp
  assumes wf: "msg_wf N w" and h: "hwnd_ok w h"
    and mq: "getMsgQueue w h = Some (Some q)" and q: "queues w q = Some Q"
  defines "m \<equiv> user_msg E (tick_counter w) h n wp lp"
  shows "\<exists>w'. PostMessage E self h n wp lp w =
      Some (if n = MSG_PAINT \<or> fst (post_spec (mq_len Q - 1) m (posted Q))
            then ERR_OK else ERR_QUEUE_FULL, w') \<and> msg_wf N w' \<and>
    view N w' = (view N w)(q := map_option
      (if n = MSG_PAINT then paint_eff else post_eff m) (view N w q))"
proof (cases "n = MSG_PAINT")
  case True
  let ?Q = "Q\<lparr>dwState := set_flag (dwState Q) QS_PAINT\<rparr>"
  have fl: "has_flag (dwState Q) QS_NOTIFYMSG \<Longrightarrow> has_flag (dwState ?Q) QS_NOTIFYMSG"
    "has_flag (dwState Q) QS_POSTMSG \<Longrightarrow> has_flag (dwState ?Q) QS_POSTMSG"
    by (simp_all add: qs_flag_simps)
  obtain w' where "wake_owner self h q (set_queue q ?Q w) = Some w'" "msg_wf N w'"
    "view N w' = (view N w)(q := map_option
      (\<lambda>v. v\<lparr>v_state := dwState ?Q, v_depth := loop_depth ?Q\<rparr>) (view N w q))"
    using flag_step_ok [OF wf h q, of ?Q self] fl by auto
  then show ?thesis using True mq q
    by (simp add: PostMessage_def view_Some qview_of_def paint_eff_def)
next
  case False
  let ?m = "m\<lparr>msg_time := 0\<rparr>"
  have m: "?m\<lparr>msg_time := tick_counter w\<rparr> = m" "msg_hwnd ?m = h" by (simp_all add: m_def user_msg_def)
  have "hwnd_ok w (msg_hwnd ?m)" using h m by simp
  from kernel_QueueMessage_ok [OF wf this q, of self, unfolded m(1)]
  obtain w' where "kernel_QueueMessage self (Some q) (Some ?m) w =
      Some (fst (post_spec (mq_len Q - 1) m (posted Q)), Some m, w')" "msg_wf N w'"
    "view N w' = (view N w)(q := map_option (post_eff m) (view N w q))" by auto
  with False mq show ?thesis by (simp add: PostMessage_def m_def user_msg_def)
qed

lemma PostQuitMessage_ok:
  assumes wf: "msg_wf N w" and h: "hwnd_ok w h" and nz: "h \<noteq> 0" "h \<noteq> HWND_INVALID"
    and p: "wins w h = Some p" "DataType p = TYPE_HWND \<or> DataType p = TYPE_WINTODEL"
    and mw: "wins w (pMainWin p) = Some mw" "pMsgQueue mw = Some q" and q: "queues w q = Some Q"
  shows "\<exists>w'. PostQuitMessage self h w = Some (ERR_OK, w') \<and> msg_wf N w' \<and>
    view N w' = (view N w)(q := map_option quit_eff (view N w q))"
proof -
  let ?Q = "if \<not> has_flag (dwState Q) QS_QUIT
    then Q\<lparr>loop_depth := loop_depth Q + 1, dwState := set_flag (dwState Q) QS_QUIT\<rparr> else Q"
  have fl: "has_flag (dwState Q) QS_NOTIFYMSG \<Longrightarrow> has_flag (dwState ?Q) QS_NOTIFYMSG"
    "has_flag (dwState Q) QS_POSTMSG \<Longrightarrow> has_flag (dwState ?Q) QS_POSTMSG"
    by (simp_all add: qs_flag_simps)
  have ps: "posted ?Q = posted Q" "mq_len ?Q = mq_len Q" "ring_ok ?Q = ring_ok Q"
    "th ?Q = th Q" "pFirstNotifyMsg ?Q = pFirstNotifyMsg Q" "pLastNotifyMsg ?Q = pLastNotifyMsg Q"
    by simp_all
  obtain w' where "wake_owner self h q (set_queue q ?Q w) = Some w'" "msg_wf N w'"
    "view N w' = (view N w)(q := map_option
      (\<lambda>v. v\<lparr>v_state := dwState ?Q, v_depth := loop_depth ?Q\<rparr>) (view N w q))"
    using flag_step_ok [OF wf h q, of ?Q self] fl ps by blast
  then show ?thesis using nz p mw q
    by (simp add: PostQuitMessage_def Let_def view_Some qview_of_def quit_eff_def)
qed

end
