(* ===== verification/MsgSync.thy ===== *)
theory MsgSync
  imports MsgSend
begin

text \<open>
  Synchronous messages and dispatching (minigui-message.c): \<open>DispatchMessage\<close>,
  \<open>SendSyncMessage\<close> with the loop that answers the caller's own pending sync messages,
  \<open>SendMessage\<close>, \<open>PostSyncMessage\<close>, \<open>SendAsyncMessage\<close>, and the creation and destruction of a
  thread's queue. A SYNCMSG and its semaphore live in the sender's stack frame: the model adds
  the two cells on entry of \<open>SendSyncMessage\<close> and takes them away on return, so that a later
  use of their addresses is a fault.
\<close>

section \<open>Dispatching\<close>

definition sem_post :: "nat \<Rightarrow> world \<Rightarrow> world option" where
  "sem_post s w = do { n \<leftarrow> sems w s; Some (w\<lparr>sems := (sems w)(s := Some (n + 1))\<rparr>) }"

text \<open>Storing the answer of a sync message and releasing its sender.\<close>

definition answer_sync :: "nat option \<Rightarrow> lresult \<Rightarrow> world \<Rightarrow> world option" where
  "answer_sync ps r w =
     (case ps of
        None \<Rightarrow> Some w
      | Some a \<Rightarrow> do {
          c \<leftarrow> syncmsgs w a;
          sem_post (sem_handle c) (w\<lparr>syncmsgs := (syncmsgs w)(a := Some (c\<lparr>retval := r\<rparr>))\<rparr>) })"

definition DispatchMessage :: "mgenv \<Rightarrow> msg \<Rightarrow> world \<Rightarrow> (lresult \<times> world) option" where
  "DispatchMessage E m w =
     (if msg_hwnd m = HWND_INVALID then do {
        w' \<leftarrow> answer_sync (pSyncMsg m) (LErr ERR_MSG_CANCELED) w;
        Some (LRESULT (-1), w') }
      else if msg_hwnd m = 0 then Some (LRESULT (-1), w)
      else do {
        p \<leftarrow> wins w (msg_hwnd m);
        if MainWindowProc p = 0 then Some (LRESULT (-1), w)
        else do {
          (r, w1) \<leftarrow>
            (if message m = MSG_NOTIFICATION then
               if NotifProc p \<noteq> 0 then do {
                 w1 \<leftarrow> call_notifproc E (NotifProc p) (msg_hwnd m) (wParam m) (ucast (lParam m))
                         (msg_time m) w;
                 Some (0, w1) }
               else call_wndproc E (MainWindowProc p) (msg_hwnd m) MSG_COMMAND
                      (MAKELONG E (wParam m) (lParam m)) (msg_time m) w
             else call_wndproc E (MainWindowProc p) (msg_hwnd m) (message m) (wParam m) (lParam m) w);
          w2 \<leftarrow> answer_sync (pSyncMsg m) (LRESULT r) w1;
          Some (LRESULT r, w2) } })"

section \<open>Sending and waiting\<close>

text \<open>The loop that answers the pending sync messages of the calling thread.\<close>

partial_function (option) drain_sync :: "mgenv \<Rightarrow> nat \<Rightarrow> world \<Rightarrow> world option" where
  "drain_sync E q w = do {
     Q \<leftarrow> queues w q;
     if \<not> has_flag (dwState Q) QS_SYNCMSG then Some w
     else case pFirstSyncMsg Q of
       None \<Rightarrow> drain_sync E q (set_queue q (Q\<lparr>dwState := clear_flag (dwState Q) QS_SYNCMSG\<rparr>) w)
     | Some a \<Rightarrow> do {
         c \<leftarrow> syncmsgs w a;
         (m, w1) \<leftarrow> TranslateMessage E ((sMsg c)\<lparr>pSyncMsg := Some a\<rparr>)
                      (set_queue q (Q\<lparr>pFirstSyncMsg := pNext c\<rparr>) w);
         (_, w2) \<leftarrow> DispatchMessage E m w1;
         drain_sync E q w2 } }"

definition link_sync :: "nat \<Rightarrow> nat \<Rightarrow> world \<Rightarrow> world option" where
  "link_sync q a w = do {
     Q \<leftarrow> queues w q;
     case pFirstSyncMsg Q of
       None \<Rightarrow> Some (set_queue q (POST_MSGQ (Q\<lparr>pFirstSyncMsg := Some a, pLastSyncMsg := Some a,
                 dwState := set_flag (dwState Q) QS_SYNCMSG\<rparr>)) w)
     | Some f \<Rightarrow> do {
         l \<leftarrow> pLastSyncMsg Q;
         c \<leftarrow> syncmsgs w l;
         Some (set_queue q (POST_MSGQ (Q\<lparr>pLastSyncMsg := Some a,
                 dwState := set_flag (dwState Q) QS_SYNCMSG\<rparr>))
               (w\<lparr>syncmsgs := (syncmsgs w)(l := Some (c\<lparr>pNext := Some a\<rparr>))\<rparr>)) } }"

definition new_sync :: "mgenv \<Rightarrow> hwnd \<Rightarrow> uint \<Rightarrow> 64 word \<Rightarrow> 64 word \<Rightarrow> nat \<Rightarrow> syncmsg" where
  "new_sync E h n wp lp s =
     \<lparr>sMsg = \<lparr>msg_hwnd = h, message = n, wParam = wp, lParam = lp, msg_time = junk_time E,
              pSyncMsg = junk_sync E\<rparr>,
      retval = LErr ERR_MSG_CANCELED, sem_handle = s, pNext = None\<rparr>"

definition SendSyncMessage ::
    "mgenv \<Rightarrow> thread_id \<Rightarrow> hwnd \<Rightarrow> uint \<Rightarrow> 64 word \<Rightarrow> 64 word \<Rightarrow> world \<Rightarrow> (lresult \<times> world) option" where
  "SendSyncMessage E self h n wp lp w = do {
     mq \<leftarrow> getMsgQueue w h;
     case mq of
       None \<Rightarrow> Some (LErr ERR_INV_HWND, w)
     | Some q \<Rightarrow>
         (case stack_sync E w of (a, s) \<Rightarrow> do {
            let w1 = w\<lparr>syncmsgs := (syncmsgs w)(a := Some (new_sync E h n wp lp s)),
                       sems := (sems w)(s := Some 0)\<rparr>;
            w2 \<leftarrow> (case getMsgQueueForThisThread self w1 of
                     None \<Rightarrow> Some w1 | Some t \<Rightarrow> drain_sync E t w1);
            w3 \<leftarrow> link_sync q a w2;
            (_, w4) \<leftarrow> run_others E s w3;
            c \<leftarrow> syncmsgs w4 a;
            Some (retval c, w4\<lparr>syncmsgs := (syncmsgs w4)(a := None),
                               sems := (sems w4)(s := None)\<rparr>) }) }"

definition SendMessage ::
    "mgenv \<Rightarrow> thread_id \<Rightarrow> hwnd \<Rightarrow> uint \<Rightarrow> 64 word \<Rightarrow> 64 word \<Rightarrow> world \<Rightarrow> (lresult \<times> world) option" where
  "SendMessage E self h n wp lp w = do {
     b \<leftarrow> MG_IS_WINDOW w h;
     if \<not> b then Some (LErr ERR_INV_HWND, w)
     else do {
       mw \<leftarrow> getMainWinIfWindowInThisThread self w h;
       if mw = 0 then SendSyncMessage E self h n wp lp w
       else do {
         p \<leftarrow> wins w h;
         if MainWindowProc p = 0 then Some (LErr ERR_INV_HWND, w)
         else do { (r, w') \<leftarrow> call_wndproc E (MainWindowProc p) h n wp lp w;
                   Some (LRESULT r, w') } } } }"

definition PostSyncMessage ::
    "mgenv \<Rightarrow> thread_id \<Rightarrow> hwnd \<Rightarrow> uint \<Rightarrow> 64 word \<Rightarrow> 64 word \<Rightarrow> world \<Rightarrow> (lresult \<times> world) option" where
  "PostSyncMessage E self h n wp lp w = do {
     b \<leftarrow> MG_IS_WINDOW w h;
     if \<not> b then Some (LRESULT (-1), w)
     else do {
       mw \<leftarrow> getMainWinIfWindowInThisThread self w h;
       if mw \<noteq> 0 then Some (LRESULT (-1), w) else SendSyncMessage E self h n wp lp w } }"

definition SendAsyncMessage ::
    "mgenv \<Rightarrow> hwnd \<Rightarrow> uint \<Rightarrow> 64 word \<Rightarrow> 64 word \<Rightarrow> world \<Rightarrow> (lresult \<times> world) option" where
  "SendAsyncMessage E h n wp lp w = do {
     b \<leftarrow> MG_IS_WINDOW w h;
     if \<not> b then Some (LRESULT (-1), w)
     else do {
       p \<leftarrow> wins w h;
       if MainWindowProc p = 0 then Some (LRESULT (-1), w)
       else do { (r, w') \<leftarrow> call_wndproc E (MainWindowProc p) h n wp lp w; Some (LRESULT r, w') } } }"

section \<open>The life of a queue\<close>

partial_function (option) free_qmsgs ::
    "nat option \<Rightarrow> (nat \<Rightarrow> qmsg option) \<Rightarrow> (nat \<Rightarrow> qmsg option) option" where
  "free_qmsgs p h =
     (case p of
        None \<Rightarrow> Some h
      | Some a \<Rightarrow> do { c \<leftarrow> h a; free_qmsgs (next_qmsg c) (h(a := None)) })"

definition mg_DestroyMsgQueue :: "mgenv \<Rightarrow> nat \<Rightarrow> world \<Rightarrow> world option" where
  "mg_DestroyMsgQueue E q w = do {
     Q \<leftarrow> queues w q;
     h \<leftarrow> free_qmsgs (pFirstNotifyMsg Q) (qmsgs w);
     w1 \<leftarrow> remove_timers_by_msg_queue E q (w\<lparr>qmsgs := h\<rparr>);
     Q1 \<leftarrow> queues w1 q;
     Some (set_queue q (Q1\<lparr>mq_msg := []\<rparr>) w1) }"

definition mg_AllocMsgQueueForThisThread ::
    "mgenv \<Rightarrow> int list \<Rightarrow> thread_id \<Rightarrow> bool \<Rightarrow> world \<Rightarrow> (nat option \<times> world) option" where
  "mg_AllocMsgQueueForThisThread E rets self sign_in w =
     (case alloc_queue E w of
        None \<Rightarrow> Some (None, w)
      | Some q \<Rightarrow>
          (case mg_InitMsgQueue E rets (tick_counter w) 0 of
             (ok, Q) \<Rightarrow>
               if \<not> ok then Some (None, w)
               else do {
                 let w1 = (set_queue q (Q\<lparr>th := self\<rparr>) w)
                            \<lparr>threadinfo := (threadinfo w)(self := Some q)\<rparr>;
                 if sign_in then do {
                   (_, w2) \<leftarrow> SendMessage E self (hwnd_desktop w1) MSG_MANAGE_MSGTHREAD 0
                                (word_of_nat q) w1;
                   Some (Some q, w2) }
                 else Some (Some q, w1) }))"

definition mg_FreeMsgQueueForThisThread ::
    "mgenv \<Rightarrow> thread_id \<Rightarrow> bool \<Rightarrow> world \<Rightarrow> world option" where
  "mg_FreeMsgQueueForThisThread E self sign_off w =
     (case getMsgQueueForThisThread self w of
        None \<Rightarrow> Some w
      | Some q \<Rightarrow> do {
          w1 \<leftarrow> (if sign_off then do {
                   (_, w1) \<leftarrow> SendMessage E self (hwnd_desktop w) MSG_MANAGE_MSGTHREAD 1
                                (word_of_nat q) w;
                   Some w1 }
                 else Some w);
          w2 \<leftarrow> mg_DestroyMsgQueue E q w1;
          Some (w2\<lparr>queues := (queues w2)(q := None),
                   threadinfo := (threadinfo w2)(self := None)\<rparr>) })"

section \<open>Answering the pending sync messages\<close>

text \<open>
  Window procedures that compute a value and leave the store alone: the hypothesis under which
  the answer of a message is a function of the message.
\<close>

definition pure_procs ::
    "mgenv \<Rightarrow> (hwnd \<Rightarrow> uint \<Rightarrow> 64 word \<Rightarrow> 64 word \<Rightarrow> 64 word) \<Rightarrow> bool" where
  "pure_procs E f \<longleftrightarrow> (\<forall>m w. TranslateMessage E m w = Some (m, w)) \<and>
     (\<forall>p h n wp lp w. call_wndproc E p h n wp lp w = Some (f h n wp lp, w)) \<and>
     (\<forall>p h nid ncode d w. call_notifproc E p h nid ncode d w = Some w)"

definition proc_value ::
    "mgenv \<Rightarrow> (hwnd \<Rightarrow> uint \<Rightarrow> 64 word \<Rightarrow> 64 word \<Rightarrow> 64 word) \<Rightarrow> mainwin \<Rightarrow> msg \<Rightarrow> 64 word" where
  "proc_value E f p m =
     (if message m = MSG_NOTIFICATION then
        if NotifProc p \<noteq> 0 then 0
        else f (msg_hwnd m) MSG_COMMAND (MAKELONG E (wParam m) (lParam m)) (msg_time m)
      else f (msg_hwnd m) (message m) (wParam m) (lParam m))"

definition has_proc :: "world \<Rightarrow> hwnd \<Rightarrow> bool" where
  "has_proc w h \<longleftrightarrow> h \<noteq> 0 \<and> h \<noteq> HWND_INVALID \<and>
     (case wins w h of None \<Rightarrow> False | Some p \<Rightarrow> MainWindowProc p \<noteq> 0)"

definition answered ::
    "mgenv \<Rightarrow> (hwnd \<Rightarrow> uint \<Rightarrow> 64 word \<Rightarrow> 64 word \<Rightarrow> 64 word) \<Rightarrow> nat \<Rightarrow> world \<Rightarrow> world" where
  "answered E f a w =
     (let c = the (syncmsgs w a);
          r = LRESULT (proc_value E f (the (wins w (msg_hwnd (sMsg c)))) (sMsg c)) in
      w\<lparr>syncmsgs := (syncmsgs w)(a := Some (c\<lparr>retval := r\<rparr>)),
        sems := (sems w)(sem_handle c := map_option Suc (sems w (sem_handle c)))\<rparr>)"

lemma answered_frame [simp]:
  "wins (answered E f a w) = wins w" "queues (answered E f a w) = queues w"
  "qmsgs (answered E f a w) = qmsgs w" "threadinfo (answered E f a w) = threadinfo w"
  by (simp_all add: answered_def Let_def)

lemma answered_set_queue: "answered E f a (set_queue q Q w) = set_queue q Q (answered E f a w)"
  by (simp add: answered_def Let_def set_queue_def)

lemma fold_answered_frame [simp]:
  "wins (fold (answered E f) as w) = wins w" "queues (fold (answered E f) as w) = queues w"
  "qmsgs (fold (answered E f) as w) = qmsgs w"
  by (induction as arbitrary: w) simp_all

lemma fold_answered_set_queue:
  "fold (answered E f) as (set_queue q Q w) = set_queue q Q (fold (answered E f) as w)"
  by (induction as arbitrary: w) (simp_all add: answered_set_queue)

lemma fold_answered_other:
  "a \<notin> set as \<Longrightarrow> syncmsgs (fold (answered E f) as w) a = syncmsgs w a"
  by (induction as arbitrary: w) (simp_all add: answered_def Let_def)

lemma fold_answered_cell:
  "distinct as \<Longrightarrow> a \<in> set as \<Longrightarrow> syncmsgs w a = Some c \<Longrightarrow>
     syncmsgs (fold (answered E f) as w) a =
       Some (c\<lparr>retval := LRESULT (proc_value E f (the (wins w (msg_hwnd (sMsg c)))) (sMsg c))\<rparr>)"
proof (induction as arbitrary: w)
  case (Cons b as)
  then show ?case
    by (cases "a = b") (simp_all add: fold_answered_other, simp_all add: answered_def Let_def)
qed simp

lemma fold_answered_sems:
  "distinct as \<Longrightarrow> (\<And>a. a \<in> set as \<Longrightarrow> syncmsgs w a \<noteq> None) \<Longrightarrow>
     sems (fold (answered E f) as w) s =
       map_option (\<lambda>n. n + length (filter (\<lambda>a. sem_handle (the (syncmsgs w a)) = s) as)) (sems w s)"
proof (induction as arbitrary: w)
  case Nil
  then show ?case by (cases "sems w s") simp_all
next
  case (Cons b as)
  then have b: "syncmsgs (answered E f b w) a = syncmsgs w a" if "a \<in> set as" for a
    using that by (auto simp: answered_def Let_def)
  have "sems (fold (answered E f) as (answered E f b w)) s =
    map_option (\<lambda>n. n + length (filter (\<lambda>a. sem_handle (the (syncmsgs (answered E f b w) a)) = s) as))
      (sems (answered E f b w) s)"
    using Cons.prems b by (intro Cons.IH) auto
  also have "filter (\<lambda>a. sem_handle (the (syncmsgs (answered E f b w) a)) = s) as =
      filter (\<lambda>a. sem_handle (the (syncmsgs w a)) = s) as"
    using b by (intro filter_cong) auto
  finally show ?case
    by (cases "sems w s") (auto simp: answered_def Let_def)
qed

lemma DispatchMessage_pure:
  assumes pure: "pure_procs E f" and proc: "has_proc w (msg_hwnd m)"
  shows "DispatchMessage E m w = do {
     w' \<leftarrow> answer_sync (pSyncMsg m) (LRESULT (proc_value E f (the (wins w (msg_hwnd m))) m)) w;
     Some (LRESULT (proc_value E f (the (wins w (msg_hwnd m))) m), w') }"
  using assms
  by (auto simp: DispatchMessage_def pure_procs_def has_proc_def proc_value_def
      split: option.splits)

lemma dispatch_sync_cell:
  assumes pure: "pure_procs E f" and c: "syncmsgs w a = Some c"
    and proc: "has_proc w (msg_hwnd (sMsg c))" and sem: "sems w (sem_handle c) \<noteq> None"
  shows "DispatchMessage E ((sMsg c)\<lparr>pSyncMsg := Some a\<rparr>) w =
    Some (LRESULT (proc_value E f (the (wins w (msg_hwnd (sMsg c)))) (sMsg c)), answered E f a w)"
proof -
  have v: "proc_value E f p ((sMsg c)\<lparr>pSyncMsg := Some a\<rparr>) = proc_value E f p (sMsg c)" for p
    by (simp add: proc_value_def)
  show ?thesis
    using sem c proc by (auto simp: DispatchMessage_pure [OF pure] answer_sync_def sem_post_def
        answered_def Let_def v)
qed

theorem drain_sync_pure:
  assumes pure: "pure_procs E f" and q: "queues w q = Some Q"
    and fl: "has_flag (dwState Q) QS_SYNCMSG"
    and ch: "lseg pNext (syncmsgs w) (pFirstSyncMsg Q) as None" "distinct as"
    and live: "\<And>a. a \<in> set as \<Longrightarrow> \<exists>c. syncmsgs w a = Some c \<and>
      has_proc w (msg_hwnd (sMsg c)) \<and> sems w (sem_handle c) \<noteq> None"
  shows "drain_sync E q w = Some (set_queue q
    (Q\<lparr>pFirstSyncMsg := None, dwState := clear_flag (dwState Q) QS_SYNCMSG\<rparr>)
    (fold (answered E f) as w))"
  using q fl ch live
proof (induction as arbitrary: w Q)
  case Nil
  then have e: "Q\<lparr>pFirstSyncMsg := None, dwState := x\<rparr> = Q\<lparr>dwState := x\<rparr>" for x
    by (cases Q) simp
  from Nil show ?case
    unfolding e by (subst drain_sync.simps) (simp, subst drain_sync.simps, simp add: qs_flag_simps)
next
  case (Cons a as)
  obtain c where c: "syncmsgs w a = Some c" "has_proc w (msg_hwnd (sMsg c))"
      "sems w (sem_handle c) \<noteq> None"
    using Cons.prems(5) [of a] by auto
  let ?Q = "Q\<lparr>pFirstSyncMsg := pNext c\<rparr>"
  let ?w = "set_queue q ?Q w"
  have hp: "has_proc ?w h = has_proc w h" for h by (simp add: has_proc_def)
  have d: "DispatchMessage E ((sMsg c)\<lparr>pSyncMsg := Some a\<rparr>) ?w =
    Some (LRESULT (proc_value E f (the (wins ?w (msg_hwnd (sMsg c)))) (sMsg c)), answered E f a ?w)"
    by (rule dispatch_sync_cell [OF pure]) (use c in \<open>simp_all add: hp\<close>)
  have tr: "TranslateMessage E m u = Some (m, u)" for m u using pure by (simp add: pure_procs_def)
  have first: "pFirstSyncMsg Q = Some a" and rest: "lseg pNext (syncmsgs w) (pNext c) as None"
    and na: "a \<notin> set as" "distinct as"
    using Cons.prems(3,4) c by auto
  have "drain_sync E q w = drain_sync E q (answered E f a ?w)"
    by (subst drain_sync.simps) (simp add: Cons.prems(1,2) first c(1) tr d)
  also have "\<dots> = Some (set_queue q (?Q\<lparr>pFirstSyncMsg := None,
      dwState := clear_flag (dwState ?Q) QS_SYNCMSG\<rparr>) (fold (answered E f) as (answered E f a ?w)))"
  proof (rule Cons.IH)
    show "queues (answered E f a ?w) q = Some ?Q" by simp
    show "has_flag (dwState ?Q) QS_SYNCMSG" using Cons.prems(2) by simp
    show "distinct as" using na by simp
    have "lseg pNext ((syncmsgs w)(a := x)) (pNext c) as None" for x
      using rest na by (simp add: lseg_upd)
    then show "lseg pNext (syncmsgs (answered E f a ?w)) (pFirstSyncMsg ?Q) as None"
      by (simp add: answered_def Let_def)
    fix b assume b: "b \<in> set as"
    then obtain d where "syncmsgs w b = Some d" "has_proc w (msg_hwnd (sMsg d))"
        "sems w (sem_handle d) \<noteq> None"
      using Cons.prems(5) [of b] by auto
    then show "\<exists>c. syncmsgs (answered E f a ?w) b = Some c \<and>
        has_proc (answered E f a ?w) (msg_hwnd (sMsg c)) \<and>
        sems (answered E f a ?w) (sem_handle c) \<noteq> None"
      using b na by (intro exI [of _ d]) (auto simp: answered_def Let_def has_proc_def)
  qed
  finally show ?case
    by (simp add: answered_set_queue fold_answered_set_queue)
qed

section \<open>The rendezvous of a sync message\<close>

definition sync_cells_ok :: "world \<Rightarrow> nat list \<Rightarrow> bool" where
  "sync_cells_ok w as \<longleftrightarrow> (\<forall>a \<in> set as. case syncmsgs w a of None \<Rightarrow> False
     | Some c \<Rightarrow> has_proc w (msg_hwnd (sMsg c)) \<and> sems w (sem_handle c) \<noteq> None)"

lemma link_sync_ok:
  assumes q: "queues w q = Some Q" and a: "syncmsgs w a = None" "pNext c = None"
    and ch: "lqueue pNext (syncmsgs w) (pFirstSyncMsg Q) (pLastSyncMsg Q) as"
  shows "\<exists>w' Q'. link_sync q a (w\<lparr>syncmsgs := (syncmsgs w)(a := Some c)\<rparr>) = Some w' \<and>
    queues w' = (queues w)(q := Some Q') \<and>
    lqueue pNext (syncmsgs w') (pFirstSyncMsg Q') (pLastSyncMsg Q') (as @ [a]) \<and>
    has_flag (dwState Q') QS_SYNCMSG \<and> 0 < wait_sem Q' \<and>
    (\<forall>b. b \<noteq> a \<longrightarrow> map_option (\<lambda>d. d\<lparr>pNext := None\<rparr>) (syncmsgs w' b) =
                 map_option (\<lambda>d. d\<lparr>pNext := None\<rparr>) (syncmsgs w b)) \<and>
    (\<exists>n. syncmsgs w' a = Some (c\<lparr>pNext := n\<rparr>)) \<and>
    wins w' = wins w \<and> sems w' = sems w \<and> qmsgs w' = qmsgs w \<and> posted Q' = posted Q"
proof (cases "as = []")
  case True
  let ?Q = "POST_MSGQ (Q\<lparr>pFirstSyncMsg := Some a, pLastSyncMsg := Some a,
              dwState := set_flag (dwState Q) QS_SYNCMSG\<rparr>)"
  have e: "\<exists>n. c = c\<lparr>pNext := n\<rparr>" by (rule exI [of _ "pNext c"]) (cases c, simp)
  have "pFirstSyncMsg Q = None" using ch True by simp
  with e show ?thesis using True q a
    by (intro exI [of _ "set_queue q ?Q (w\<lparr>syncmsgs := (syncmsgs w)(a := Some c)\<rparr>)"] exI [of _ ?Q])
      (auto simp: link_sync_def sq.push_empty qs_flag_simps POST_MSGQ_wakes)
next
  case False
  let ?Q = "POST_MSGQ (Q\<lparr>pLastSyncMsg := Some a, dwState := set_flag (dwState Q) QS_SYNCMSG\<rparr>)"
  have l: "pLastSyncMsg Q = Some (last as)" and f: "pFirstSyncMsg Q = Some (hd as)"
    and lq: "lqueue pNext (syncmsgs w) (pFirstSyncMsg Q) (Some (last as)) as"
    using ch False lqueue_first [OF ch] by (auto simp: lqueue_def)
  obtain d where d: "((syncmsgs w)(a := Some c)) (last as) = Some d"
    "lqueue pNext (((syncmsgs w)(a := Some c))(last as := Some (d\<lparr>pNext := Some a\<rparr>)))
       (pFirstSyncMsg Q) (Some a) (as @ [a])"
    using sq.push_back [OF lq False a] by auto
  let ?h = "((syncmsgs w)(a := Some c))(last as := Some (d\<lparr>pNext := Some a\<rparr>))"
  let ?w = "set_queue q ?Q (w\<lparr>syncmsgs := ?h\<rparr>)"
  have na: "a \<notin> set as" using ch a(1) by (auto simp: lqueue_def dest: lseg_fresh)
  then have la: "last as \<noteq> a" using False by auto
  have "c\<lparr>pNext := None\<rparr> = c" using a(2) by (cases c) simp
  with la have hd: "syncmsgs w (last as) = Some d" and ha: "?h a = Some (c\<lparr>pNext := None\<rparr>)"
    using d(1) by auto
  have run: "link_sync q a (w\<lparr>syncmsgs := (syncmsgs w)(a := Some c)\<rparr>) = Some ?w"
    using d(1) by (simp add: link_sync_def f l q del: fun_upd_apply)
  show ?thesis
    by (rule exI [of _ ?w], rule exI [of _ ?Q])
      (use run d(2) hd ha in \<open>simp add: qs_flag_simps POST_MSGQ_wakes exI [of _ None]\<close>)
qed

text \<open>
  While the sender waits, the receiver, running in environment \<open>R\<close>, answers its pending messages;
  the wait ends when the semaphore is positive, and takes one from it.
\<close>

definition receiver_drains :: "mgenv \<Rightarrow> mgenv \<Rightarrow> nat \<Rightarrow> nat \<Rightarrow> bool" where
  "receiver_drains E R q s \<longleftrightarrow> (\<forall>v. run_others E s v = do {
     v' \<leftarrow> drain_sync R q v;
     n \<leftarrow> sems v' s;
     if 0 < n then Some (True, v'\<lparr>sems := (sems v')(s := Some (n - 1))\<rparr>) else None })"

definition no_own_sync :: "thread_id \<Rightarrow> world \<Rightarrow> bool" where
  "no_own_sync self w \<longleftrightarrow> (case threadinfo w self of None \<Rightarrow> True
     | Some t \<Rightarrow> (case queues w t of None \<Rightarrow> False
                | Some T \<Rightarrow> \<not> has_flag (dwState T) QS_SYNCMSG))"

lemma no_own_sync_skip:
  "no_own_sync self w \<Longrightarrow> (case getMsgQueueForThisThread self w of None \<Rightarrow> Some w
     | Some t \<Rightarrow> drain_sync E t w) = Some w"
  by (auto simp: no_own_sync_def getMsgQueueForThisThread_def drain_sync.simps
      split: option.splits)

lemma SendSyncMessage_ok:
  assumes pure: "pure_procs R f" and st: "stack_sync E w = (a, s)"
    and fresh: "syncmsgs w a = None" "sems w s = None"
    and mq: "getMsgQueue w h = Some (Some q)" "queues w q = Some Q" and hp: "has_proc w h"
    and own: "no_own_sync self w" and rd: "receiver_drains E R q s"
    and ch: "lqueue pNext (syncmsgs w) (pFirstSyncMsg Q) (pLastSyncMsg Q) as"
    and cells: "sync_cells_ok w as"
  shows "\<exists>w'. SendSyncMessage E self h n wp lp w = Some (LRESULT (proc_value R f (the (wins w h))
      (sMsg (new_sync E h n wp lp s))), w') \<and>
    syncmsgs w' a = None \<and> sems w' s = None \<and>
    (\<forall>b \<in> set as. \<exists>c. syncmsgs w b = Some c \<and> map_option retval (syncmsgs w' b) =
       Some (LRESULT (proc_value R f (the (wins w (msg_hwnd (sMsg c)))) (sMsg c))))"
proof -
  let ?c = "new_sync E h n wp lp s" and ?u = "w\<lparr>sems := (sems w)(s := Some 0)\<rparr>"
  let ?w1 = "w\<lparr>syncmsgs := (syncmsgs w)(a := Some ?c), sems := (sems w)(s := Some 0)\<rparr>"
  have w1: "?u\<lparr>syncmsgs := (syncmsgs ?u)(a := Some ?c)\<rparr> = ?w1" by simp
  have link_pre: "queues ?u q = Some Q" "syncmsgs ?u a = None" "pNext ?c = None"
    "lqueue pNext (syncmsgs ?u) (pFirstSyncMsg Q) (pLastSyncMsg Q) as"
    using mq fresh ch by (simp_all add: new_sync_def)
  obtain w3 Q3 where l: "link_sync q a ?w1 = Some w3" "queues w3 = (queues ?u)(q := Some Q3)"
      "lqueue pNext (syncmsgs w3) (pFirstSyncMsg Q3) (pLastSyncMsg Q3) (as @ [a])"
      "has_flag (dwState Q3) QS_SYNCMSG" "wins w3 = wins w" "sems w3 = sems ?u"
      "\<And>b. b \<noteq> a \<Longrightarrow> map_option (\<lambda>d. d\<lparr>pNext := None\<rparr>) (syncmsgs w3 b) =
                 map_option (\<lambda>d. d\<lparr>pNext := None\<rparr>) (syncmsgs w b)"
      "\<exists>k. syncmsgs w3 a = Some (?c\<lparr>pNext := k\<rparr>)"
    using link_sync_ok [OF link_pre, unfolded w1] by auto
  have na: "a \<notin> set as" using ch fresh by (auto simp: lqueue_def dest: lseg_fresh)
  have cell: "\<exists>c d. syncmsgs w b = Some c \<and> syncmsgs w3 b = Some d \<and> sMsg d = sMsg c \<and>
      sem_handle d = sem_handle c \<and> has_proc w (msg_hwnd (sMsg c)) \<and> sems w (sem_handle c) \<noteq> None"
    if b: "b \<in> set as" for b
  proof -
    obtain c where c: "syncmsgs w b = Some c" "has_proc w (msg_hwnd (sMsg c))"
        "sems w (sem_handle c) \<noteq> None"
      using cells b by (auto simp: sync_cells_ok_def split: option.splits)
    with l(7) [of b] b na obtain d where d: "syncmsgs w3 b = Some d"
        "d\<lparr>pNext := None\<rparr> = c\<lparr>pNext := None\<rparr>" by (cases "syncmsgs w3 b") auto
    from d(2) have "sMsg d = sMsg c" "sem_handle d = sem_handle c"
      by (cases c; cases d; simp)+
    with c d(1) show ?thesis by blast
  qed
  obtain k where k: "syncmsgs w3 a = Some (?c\<lparr>pNext := k\<rparr>)" using l(8) by blast
  have hp3: "has_proc w3 x = has_proc w x" for x by (simp add: has_proc_def l(5))
  have live: "\<exists>c. syncmsgs w3 b = Some c \<and> has_proc w3 (msg_hwnd (sMsg c)) \<and>
      sems w3 (sem_handle c) \<noteq> None" if "b \<in> set (as @ [a])" for b
    using that cell [of b] k hp by (cases "b = a") (auto simp: hp3 l(6) new_sync_def)
  have dist: "distinct (as @ [a])" and seg: "lseg pNext (syncmsgs w3) (pFirstSyncMsg Q3) (as @ [a]) None"
    using l(3) by (simp_all add: lqueue_def)
  let ?v = "fold (answered R f) (as @ [a]) w3"
  have dr: "drain_sync R q w3 = Some (set_queue q (Q3\<lparr>pFirstSyncMsg := None,
      dwState := clear_flag (dwState Q3) QS_SYNCMSG\<rparr>) ?v)" (is "_ = Some ?v'")
    using l(2) by (intro drain_sync_pure [OF pure _ l(4) seg dist live]) simp_all
  have notNone: "b \<in> set (as @ [a]) \<Longrightarrow> syncmsgs w3 b \<noteq> None" for b using live [of b] by auto
  have sem_s: "\<exists>n. sems ?v' s = Some n \<and> 0 < n"
    using fold_answered_sems [OF dist notNone, of R f s] l(6) k by (simp add: new_sync_def)
  then obtain r where r: "sems ?v' s = Some r" "0 < r" by blast
  have own1: "no_own_sync self ?w1" using own by (simp add: no_own_sync_def cong: option.case_cong)
  let ?w4 = "?v'\<lparr>sems := (sems ?v')(s := Some (r - 1))\<rparr>"
  have ra: "syncmsgs ?w4 a = Some (?c\<lparr>pNext := k, retval := LRESULT (proc_value R f (the (wins w h)) (sMsg ?c))\<rparr>)"
    using fold_answered_cell [OF dist _ k, of R f] l(5) by (simp add: new_sync_def)
  have run: "SendSyncMessage E self h n wp lp w = Some (LRESULT (proc_value R f (the (wins w h)) (sMsg ?c)),
      ?w4\<lparr>syncmsgs := (syncmsgs ?w4)(a := None), sems := (sems ?w4)(s := None)\<rparr>)"
    (is "_ = Some (_, ?w')")
    using no_own_sync_skip [OF own1, of E] rd dr r l(1) ra
    by (simp add: SendSyncMessage_def mq st receiver_drains_def Let_def)
  have "\<exists>c. syncmsgs w b = Some c \<and> map_option retval (syncmsgs ?w' b) =
       Some (LRESULT (proc_value R f (the (wins w (msg_hwnd (sMsg c)))) (sMsg c)))"
    if b: "b \<in> set as" for b
  proof -
    obtain c d where cd: "syncmsgs w b = Some c" "syncmsgs w3 b = Some d" "sMsg d = sMsg c"
      using cell [OF b] by blast
    then show ?thesis
      using fold_answered_cell [OF dist _ cd(2), of R f] b na l(5) by auto
  qed
  with run show ?thesis by (intro exI [of _ ?w']) simp
qed

text \<open>Destroying a queue frees its notify chain.\<close>

lemma free_qmsgs_chain:
  "lseg next_qmsg h p as None \<Longrightarrow> distinct as \<Longrightarrow>
     free_qmsgs p h = Some (\<lambda>a. if a \<in> set as then None else h a)"
proof (induction as arbitrary: p h)
  case Nil
  then show ?case by (subst free_qmsgs.simps) simp
next
  case (Cons a as)
  then obtain c where c: "p = Some a" "h a = Some c" "lseg next_qmsg h (next_qmsg c) as None"
    by (auto split: option.splits)
  have "free_qmsgs (next_qmsg c) (h(a := None)) =
      Some (\<lambda>b. if b \<in> set as then None else (h(a := None)) b)"
    using Cons.prems c by (intro Cons.IH) (simp_all add: lseg_upd del: fun_upd_apply)
  moreover have "(\<lambda>b. if b \<in> set as then None else (h(a := None)) b) =
      (\<lambda>b. if b \<in> set (a # as) then None else h b)" by (intro ext) auto
  ultimately show ?case using c by (subst free_qmsgs.simps) simp
qed

end
