(* ===== verification/WinTree.thy ===== *)
theory WinTree
  imports MsgSync
begin

text \<open>
  The walks over the window trees of a message thread (minigui-message.c): the search for a
  window to repaint (\<open>kernel_CheckInvalidRegion\<close> over the controls of a window,
  \<open>msgCheckHostedTree\<close> over the hosted windows), and the post-order traversal that broadcasts a
  message (\<open>travel_all_hosted\<close>, \<open>__mg_broadcast_message\<close>). The trees are described by
  \<open>wtree\<close> values: \<open>ctl_tree\<close> and \<open>host_tree\<close> say that the links of the store form the tree, and
  the walks are proved to compute the preorder search and the postorder list of the tree.
\<close>

section \<open>The code\<close>

text \<open>
  The function and its loop over the children are one recursion: with \<open>True\<close> the address is a
  window to check, with \<open>False\<close> it is the next control of the loop.
\<close>

partial_function (option) check_region :: "world \<Rightarrow> bool \<Rightarrow> hwnd \<Rightarrow> hwnd option" where
  "check_region w node p =
     (if node then do {
        c \<leftarrow> wins w p;
        if WinType c = TYPE_VIRTWIN then Some HWND_NULL
        else if InvRgn_head c then Some p
        else check_region w False (children c) }
      else if p = 0 then Some HWND_NULL
      else do {
        h \<leftarrow> check_region w True p;
        if h \<noteq> 0 then Some h
        else do { c \<leftarrow> wins w p; check_region w False (next_ctrl c) } })"

definition kernel_CheckInvalidRegion :: "world \<Rightarrow> hwnd \<Rightarrow> hwnd option" where
  "kernel_CheckInvalidRegion w p = check_region w True p"

partial_function (option) check_hosted :: "world \<Rightarrow> bool \<Rightarrow> hwnd \<Rightarrow> hwnd option" where
  "check_hosted w node p =
     (if node then do {
        h \<leftarrow> (if p \<noteq> dsk_win w then kernel_CheckInvalidRegion w p else Some 0);
        if h \<noteq> 0 then Some h
        else do { c \<leftarrow> wins w p; check_hosted w False (pFirstHosted c) } }
      else if p = 0 then Some 0
      else do {
        h \<leftarrow> check_hosted w True p;
        if h \<noteq> 0 then Some h
        else do { c \<leftarrow> wins w p; check_hosted w False (pNextHosted c) } })"

definition msgCheckHostedTree :: "world \<Rightarrow> hwnd \<Rightarrow> hwnd option" where
  "msgCheckHostedTree w p = check_hosted w True p"

text \<open>The loop of \<open>travel_all_hosted\<close>; its body calls the function, and so the loop, again.\<close>

partial_function (option) travel_loop ::
    "(hwnd \<Rightarrow> msg \<times> world \<Rightarrow> (msg \<times> world) option) \<Rightarrow> hwnd \<Rightarrow> msg \<times> world \<Rightarrow> (msg \<times> world) option" where
  "travel_loop cb p d =
     (if p = 0 then Some d
      else do {
        c \<leftarrow> wins (snd d) p;
        d1 \<leftarrow> travel_loop cb (pFirstHosted c) d;
        d2 \<leftarrow> cb p d1;
        c' \<leftarrow> wins (snd d2) p;
        travel_loop cb (pNextHosted c') d2 })"

definition travel_all_hosted ::
    "(hwnd \<Rightarrow> msg \<times> world \<Rightarrow> (msg \<times> world) option) \<Rightarrow> hwnd \<Rightarrow> msg \<times> world \<Rightarrow> (msg \<times> world) option" where
  "travel_all_hosted cb p d = do { c \<leftarrow> wins (snd d) p; travel_loop cb (pFirstHosted c) d }"

definition my_travel_cb :: "thread_id \<Rightarrow> hwnd \<Rightarrow> msg \<times> world \<Rightarrow> (msg \<times> world) option" where
  "my_travel_cb self h d = do {
     c \<leftarrow> wins (snd d) h;
     (ok, m, w) \<leftarrow> kernel_QueueMessage self (pMsgQueue c) (Some ((fst d)\<lparr>msg_hwnd := h\<rparr>)) (snd d);
     m' \<leftarrow> m;
     Some (if ok then (m'\<lparr>msg_time := msg_time m' + 1\<rparr>, w) else (m', w)) }"

text \<open>The result is the \<open>time\<close> field of the message, converted to a C \<open>int\<close>.\<close>

definition mg_broadcast_message ::
    "thread_id \<Rightarrow> nat \<Rightarrow> msg \<Rightarrow> world \<Rightarrow> (uint \<times> world) option" where
  "mg_broadcast_message self q m w = do {
     Q \<leftarrow> queues w q;
     let d0 = (m\<lparr>msg_time := 0\<rparr>, w);
     d \<leftarrow> (if pRootMainWin Q \<noteq> 0 then do {
             d1 \<leftarrow> travel_all_hosted (my_travel_cb self) (pRootMainWin Q) d0;
             my_travel_cb self (pRootMainWin Q) d1 }
           else Some d0);
     Some (ucast (msg_time (fst d)), snd d) }"

definition BroadcastMessageInThisThread ::
    "mgenv \<Rightarrow> thread_id \<Rightarrow> uint \<Rightarrow> 64 word \<Rightarrow> 64 word \<Rightarrow> world \<Rightarrow> (uint \<times> world) option" where
  "BroadcastMessageInThisThread E self n wp lp w =
     (case threadinfo w self of
        None \<Rightarrow> Some (-1, w)
      | Some q \<Rightarrow> mg_broadcast_message self q
          \<lparr>msg_hwnd = HWND_NULL, message = n, wParam = wp, lParam = lp, msg_time = 0,
           pSyncMsg = None\<rparr> w)"

text \<open>\<open>msgp\<close> is the address of the message in the caller's frame.\<close>

definition BroadcastMessage ::
    "mgenv \<Rightarrow> thread_id \<Rightarrow> 64 word \<Rightarrow> world \<Rightarrow> (lresult \<times> world) option" where
  "BroadcastMessage E self msgp w =
     SendMessage E self (hwnd_desktop w) MSG_BROADCASTMSG 0 msgp w"

section \<open>Trees\<close>

datatype wtree = WNode hwnd "wtree list"

primrec wroot :: "wtree \<Rightarrow> hwnd" where
  "wroot (WNode h ts) = h"

text \<open>
  A forest linked by a first-child and a next-sibling field: \<open>linked fc nx w p ts\<close> says that the
  sibling chain from \<open>p\<close> has the roots of \<open>ts\<close>, and below each root its subtrees.
\<close>

fun linked :: "(mainwin \<Rightarrow> hwnd) \<Rightarrow> (mainwin \<Rightarrow> hwnd) \<Rightarrow> (hwnd \<Rightarrow> mainwin option) \<Rightarrow> hwnd \<Rightarrow>
    wtree list \<Rightarrow> bool" where
  "linked fc nx W p [] = (p = 0)"
| "linked fc nx W p (WNode h cs # ts) =
     (p = h \<and> h \<noteq> 0 \<and> (case W h of None \<Rightarrow> False
        | Some c \<Rightarrow> linked fc nx W (fc c) cs \<and> linked fc nx W (nx c) ts))"

definition rooted :: "(mainwin \<Rightarrow> hwnd) \<Rightarrow> (mainwin \<Rightarrow> hwnd) \<Rightarrow> (hwnd \<Rightarrow> mainwin option) \<Rightarrow>
    wtree \<Rightarrow> bool" where
  "rooted fc nx W t = (case t of WNode h cs \<Rightarrow> h \<noteq> 0 \<and>
     (case W h of None \<Rightarrow> False | Some c \<Rightarrow> linked fc nx W (fc c) cs))"

fun preorder :: "wtree list \<Rightarrow> hwnd list" where
  "preorder [] = []"
| "preorder (WNode h cs # ts) = h # preorder cs @ preorder ts"

fun postorder :: "wtree list \<Rightarrow> hwnd list" where
  "postorder [] = []"
| "postorder (WNode h cs # ts) = postorder cs @ h # postorder ts"

text \<open>The first window of a forest, in preorder, that needs painting; virtual windows are skipped
  with everything below them.\<close>

fun dirty :: "(hwnd \<Rightarrow> mainwin option) \<Rightarrow> wtree list \<Rightarrow> hwnd list" where
  "dirty W [] = []"
| "dirty W (WNode h cs # ts) =
     (case W h of None \<Rightarrow> []
      | Some c \<Rightarrow> if WinType c = TYPE_VIRTWIN then []
                  else if InvRgn_head c then [h] else dirty W cs) @ dirty W ts"

definition first_of :: "hwnd list \<Rightarrow> hwnd" where
  "first_of hs = (case hs of [] \<Rightarrow> 0 | h # _ \<Rightarrow> h)"

lemma first_of_append: "first_of (xs @ ys) = (if xs = [] then first_of ys else first_of xs)"
  by (cases xs) (auto simp: first_of_def)

lemma dirty_nonzero:
  "linked fc nx W p ts \<Longrightarrow> h \<in> set (dirty W ts) \<Longrightarrow> h \<noteq> 0"
  by (induction fc nx W p ts rule: linked.induct) (auto split: option.splits if_splits)

lemma first_of_dirty: "linked fc nx W p ts \<Longrightarrow> first_of (dirty W ts) = 0 \<longleftrightarrow> dirty W ts = []"
  by (cases "dirty W ts") (auto simp: first_of_def dest: dirty_nonzero)

lemma first_of_nonzero: "(\<And>x. x \<in> set xs \<Longrightarrow> x \<noteq> 0) \<Longrightarrow> first_of xs = 0 \<longleftrightarrow> xs = []"
  by (cases xs) (auto simp: first_of_def)

text \<open>The control search is the preorder search.\<close>

lemma check_region_node:
  assumes "wins w h = Some c"
    and "check_region w False (children c) = Some (first_of (dirty (wins w) cs))"
  shows "check_region w True h = Some (first_of (dirty (wins w) [WNode h cs]))"
  using assms by (subst check_region.simps) (simp add: first_of_def HWND_NULL_def)

lemma check_region_linked:
  "linked children next_ctrl (wins w) p ts \<Longrightarrow>
     check_region w False p = Some (first_of (dirty (wins w) ts))"
proof (induction ts arbitrary: p rule: preorder.induct)
  case 1
  then show ?case by (subst check_region.simps) (simp add: first_of_def HWND_NULL_def)
next
  case (2 h cs ts)
  from 2(3) obtain c where c: "wins w h = Some c" "p = h" "h \<noteq> 0" "linked children next_ctrl (wins w) (children c) cs"
      "linked children next_ctrl (wins w) (next_ctrl c) ts" by (auto split: option.splits)
  note ih = 2(1) [OF c(4)] 2(2) [OF c(5)]
  have node: "check_region w True h = Some (first_of (dirty (wins w) [WNode h cs]))"
    using c ih by (intro check_region_node) auto
  have nz: "first_of (dirty (wins w) [WNode h cs]) = 0 \<longleftrightarrow> dirty (wins w) [WNode h cs] = []"
    using c first_of_dirty [OF c(4)] by (auto simp: first_of_def split: list.splits)
  have split: "dirty (wins w) (WNode h cs # ts) = dirty (wins w) [WNode h cs] @ dirty (wins w) ts"
    by simp
  have "check_region w False p = (let r = first_of (dirty (wins w) [WNode h cs]) in
      if r \<noteq> 0 then Some r else check_region w False (next_ctrl c))"
    using c node by (subst check_region.simps) (simp add: Let_def)
  also have "\<dots> = Some (first_of (dirty (wins w) (WNode h cs # ts)))"
    unfolding split first_of_append using nz ih c by (simp add: Let_def del: dirty.simps)
  finally show ?case .
qed

text \<open>The hosted search: the control search of every hosted window in preorder, the desktop's own
  controls left out. \<open>ctl h\<close> is the forest of the controls of window \<open>h\<close>.\<close>

definition host_dirty :: "world \<Rightarrow> (hwnd \<Rightarrow> wtree list) \<Rightarrow> hwnd \<Rightarrow> hwnd list" where
  "host_dirty w ctl h = (if h = dsk_win w then [] else dirty (wins w) [WNode h (ctl h)])"

definition controls_ok :: "world \<Rightarrow> (hwnd \<Rightarrow> wtree list) \<Rightarrow> hwnd list \<Rightarrow> bool" where
  "controls_ok w ctl hs \<longleftrightarrow> (\<forall>h \<in> set hs. h \<noteq> 0 \<and> (case wins w h of None \<Rightarrow> False
     | Some c \<Rightarrow> linked children next_ctrl (wins w) (children c) (ctl h)))"

lemma host_dirty_first:
  assumes "controls_ok w ctl [h]"
  shows "(if h \<noteq> dsk_win w then kernel_CheckInvalidRegion w h else Some 0) =
      Some (first_of (host_dirty w ctl h))"
    and "first_of (host_dirty w ctl h) = 0 \<longleftrightarrow> host_dirty w ctl h = []"
proof -
  obtain c where c: "wins w h = Some c" "h \<noteq> 0" "linked children next_ctrl (wins w) (children c) (ctl h)"
    using assms by (auto simp: controls_ok_def split: option.splits)
  show "(if h \<noteq> dsk_win w then kernel_CheckInvalidRegion w h else Some 0) =
      Some (first_of (host_dirty w ctl h))"
    using check_region_node [OF c(1) check_region_linked [OF c(3)]]
    by (simp add: host_dirty_def kernel_CheckInvalidRegion_def first_of_def del: dirty.simps)
  show "first_of (host_dirty w ctl h) = 0 \<longleftrightarrow> host_dirty w ctl h = []"
    using c first_of_dirty [OF c(3)] by (auto simp: host_dirty_def first_of_def split: list.splits)
qed

lemma host_dirty_nonzero:
  "controls_ok w ctl [h] \<Longrightarrow> x \<in> set (host_dirty w ctl h) \<Longrightarrow> x \<noteq> 0"
  by (auto simp: controls_ok_def host_dirty_def dest: dirty_nonzero split: if_splits option.splits)

lemma controls_ok_single: "controls_ok w ctl hs \<Longrightarrow> h \<in> set hs \<Longrightarrow> controls_ok w ctl [h]"
  unfolding controls_ok_def by auto

lemma check_hosted_linked:
  "linked pFirstHosted pNextHosted (wins w) p ts \<Longrightarrow> controls_ok w ctl (preorder ts) \<Longrightarrow>
     check_hosted w False p = Some (first_of (concat (map (host_dirty w ctl) (preorder ts))))"
proof (induction ts arbitrary: p rule: preorder.induct)
  case 1
  then show ?case by (subst check_hosted.simps) (simp add: first_of_def)
next
  case (2 h cs ts)
  from 2(3) obtain c where c: "wins w h = Some c" "p = h" "h \<noteq> 0"
      "linked pFirstHosted pNextHosted (wins w) (pFirstHosted c) cs"
      "linked pFirstHosted pNextHosted (wins w) (pNextHosted c) ts" by (auto split: option.splits)
  have co: "controls_ok w ctl [h]" "controls_ok w ctl (preorder cs)" "controls_ok w ctl (preorder ts)"
    using 2(4) unfolding controls_ok_def by auto
  note ih = 2(1) [OF c(4) co(2)] 2(2) [OF c(5) co(3)]
  let ?below = "concat (map (host_dirty w ctl) (preorder cs))"
  have "check_hosted w True h = Some (first_of (host_dirty w ctl h @ ?below))"
    using host_dirty_first [OF co(1)] ih(1) c
    by (subst check_hosted.simps) (simp add: first_of_append)
  moreover have "first_of (host_dirty w ctl h @ ?below) = 0 \<longleftrightarrow> host_dirty w ctl h @ ?below = []"
  proof (rule first_of_nonzero)
    fix x
    assume "x \<in> set (host_dirty w ctl h @ ?below)"
    then consider "x \<in> set (host_dirty w ctl h)"
      | k where "k \<in> set (preorder cs)" "x \<in> set (host_dirty w ctl k)"
      by fastforce
    then show "x \<noteq> 0"
      using co(1) controls_ok_single [OF co(2)] by cases (blast dest: host_dirty_nonzero)+
  qed
  ultimately show ?case
    using ih(2) c by (subst check_hosted.simps) (simp add: first_of_append)
qed

section \<open>Broadcasting\<close>

text \<open>A callback that keeps the windows is called on the tree in postorder.\<close>

lemma travel_loop_linked:
  assumes keep: "\<And>h d d'. cb h d = Some d' \<Longrightarrow> wins (snd d') = wins (snd d)"
    and "linked pFirstHosted pNextHosted (wins (snd d)) p ts"
  shows "travel_loop cb p d = foldm cb (postorder ts) d"
  using assms(2)
proof (induction ts arbitrary: p d rule: postorder.induct)
  case 1
  then show ?case by (subst travel_loop.simps) simp
next
  case (2 h cs ts)
  from 2(3) obtain c where c: "wins (snd d) h = Some c" "p = h" "h \<noteq> 0"
      "linked pFirstHosted pNextHosted (wins (snd d)) (pFirstHosted c) cs"
      "linked pFirstHosted pNextHosted (wins (snd d)) (pNextHosted c) ts" by (auto split: option.splits)
  have keeps: "foldm cb hs e = Some e' \<Longrightarrow> wins (snd e') = wins (snd e)" for hs e e'
    by (induction hs arbitrary: e) (auto dest: keep split: bind_splits)
  show ?case
  proof (cases "foldm cb (postorder cs) d")
    case None
    then show ?thesis using c 2(1) [OF c(4)]
      by (subst travel_loop.simps) (simp add: foldm_append)
  next
    case (Some d1)
    show ?thesis
    proof (cases "cb h d1")
      case None
      then show ?thesis using Some c 2(1) [OF c(4)]
        by (subst travel_loop.simps) (simp add: foldm_append)
    next
      case d2: (Some d2)
      have w: "wins (snd d2) = wins (snd d)" using keep [OF d2] keeps [OF Some] by simp
      then have "travel_loop cb (pNextHosted c) d2 = foldm cb (postorder ts) d2"
        using c(5) by (intro 2(2)) simp
      then show ?thesis using Some d2 c 2(1) [OF c(4)] w
        by (subst travel_loop.simps) (simp add: foldm_append)
    qed
  qed
qed

lemma kernel_QueueMessage_wins:
  assumes "kernel_QueueMessage self q m w = Some (ok, m', w')"
  shows "wins w' = wins w"
  using assms
  by (auto simp: kernel_QueueMessage_def wake_owner_def split: option.splits bind_splits if_splits)

lemma my_travel_cb_wins:
  assumes "my_travel_cb self h d = Some d'"
  shows "wins (snd d') = wins (snd d)"
  using assms kernel_QueueMessage_wins
  by (fastforce simp: my_travel_cb_def split: bind_splits if_splits prod.splits)

text \<open>What one call does: the message goes to the window's queue with the tick count as its time,
  and the message in hand keeps that time, plus one when it was queued.\<close>

definition sane_target :: "world \<Rightarrow> hwnd \<Rightarrow> nat \<Rightarrow> bool" where
  "sane_target w h q \<longleftrightarrow> hwnd_ok w h \<and> queues w q \<noteq> None \<and>
     (case wins w h of None \<Rightarrow> False | Some c \<Rightarrow> pMsgQueue c = Some q)"

definition cast_eff :: "msg \<Rightarrow> dword \<Rightarrow> hwnd \<Rightarrow> nat \<Rightarrow> (nat \<Rightarrow> qview option) \<Rightarrow> nat \<Rightarrow> qview option" where
  "cast_eff m t h q V = V(q := map_option (post_eff (m\<lparr>msg_hwnd := h, msg_time := t\<rparr>)) (V q))"

lemma sane_target_cong: "same_windows w w' \<Longrightarrow> sane_target w' h q = sane_target w h q"
  by (simp add: sane_target_def hwnd_ok_cong same_windows_None same_windows_wins)

lemma my_travel_cb_ok:
  assumes wf: "msg_wf N w" and t: "sane_target w h q"
  shows "\<exists>dt w'. my_travel_cb self h (m, w) =
      Some (m\<lparr>msg_hwnd := h, msg_time := tick_counter w + dt\<rparr>, w') \<and> dt \<in> {0, 1} \<and>
    msg_wf N w' \<and> same_windows w w' \<and> tick_counter w' = tick_counter w \<and>
    view N w' = cast_eff m (tick_counter w) h q (view N w)"
proof -
  obtain c Q where c: "wins w h = Some c" "pMsgQueue c = Some q" "queues w q = Some Q" "hwnd_ok w h"
    using t by (auto simp: sane_target_def split: option.splits)
  let ?m = "m\<lparr>msg_hwnd := h\<rparr>"
  let ?m' = "m\<lparr>msg_hwnd := h, msg_time := tick_counter w\<rparr>"
  have h: "hwnd_ok w (msg_hwnd ?m)" using c by simp
  obtain w' where w': "kernel_QueueMessage self (Some q) (Some ?m) w =
      Some (fst (post_spec (mq_len Q - 1) ?m' (posted Q)), Some ?m', w')" "msg_wf N w'"
      "same_windows w w'" "tick_counter w' = tick_counter w"
      "view N w' = (view N w)(q := map_option (post_eff ?m') (view N w q))"
    using kernel_QueueMessage_ok [OF wf h c(3), of self] by auto
  show ?thesis
    by (rule exI [of _ "if fst (post_spec (mq_len Q - 1) ?m' (posted Q)) then 1 else 0"])
      (use w' c in \<open>simp add: my_travel_cb_def cast_eff_def\<close>)
qed

lemma foldm_travel_ok:
  assumes "msg_wf N w" "\<And>h. h \<in> set hs \<Longrightarrow> sane_target w h (qof h)"
  shows "\<exists>m' w'. foldm (my_travel_cb self) hs (m, w) = Some (m', w') \<and>
    msg_wf N w' \<and> same_windows w w' \<and> tick_counter w' = tick_counter w \<and>
    view N w' = fold (\<lambda>h. cast_eff m (tick_counter w) h (qof h)) hs (view N w) \<and>
    (\<exists>h t. m' = m\<lparr>msg_hwnd := h, msg_time := t\<rparr>)"
  using assms
proof (induction hs arbitrary: m w)
  case Nil
  have "\<exists>h t. m = m\<lparr>msg_hwnd := h, msg_time := t\<rparr>"
    by (rule exI [of _ "msg_hwnd m"], rule exI [of _ "msg_time m"]) (cases m, simp)
  with Nil show ?case by simp
next
  case (Cons h hs)
  have t: "sane_target w h (qof h)" using Cons.prems by simp
  obtain dt w1 where w1: "my_travel_cb self h (m, w) =
      Some (m\<lparr>msg_hwnd := h, msg_time := tick_counter w + dt\<rparr>, w1)" "msg_wf N w1"
      "same_windows w w1" "tick_counter w1 = tick_counter w"
      "view N w1 = cast_eff m (tick_counter w) h (qof h) (view N w)"
    using my_travel_cb_ok [OF Cons.prems(1) t, of self m] by blast
  let ?m1 = "m\<lparr>msg_hwnd := h, msg_time := tick_counter w + dt\<rparr>"
  have "\<And>k. k \<in> set hs \<Longrightarrow> sane_target w1 k (qof k)"
    using Cons.prems(2) w1(3) by (simp add: sane_target_cong)
  then obtain m' w' k u where ih: "foldm (my_travel_cb self) hs (?m1, w1) = Some (m', w')"
    "msg_wf N w'" "same_windows w1 w'" "tick_counter w' = tick_counter w1"
    "view N w' = fold (\<lambda>h. cast_eff ?m1 (tick_counter w1) h (qof h)) hs (view N w1)"
    "m' = ?m1\<lparr>msg_hwnd := k, msg_time := u\<rparr>"
    using Cons.IH [OF w1(2), of ?m1] by blast
  have "cast_eff ?m1 t k q = cast_eff m t k q" for t k q by (simp add: fun_eq_iff cast_eff_def)
  then show ?case
    using ih w1 same_windows_trans [OF w1(3) ih(3)]
    by (intro exI [of _ m'] exI [of _ w']) auto
qed

lemma mg_broadcast_message_ok:
  assumes wf: "msg_wf N w" and q: "queues w q = Some Q"
    and t: "rooted pFirstHosted pNextHosted (wins w) t" "wroot t = pRootMainWin Q"
    and sane: "\<And>h. h \<in> set (postorder [t]) \<Longrightarrow> sane_target w h (qof h)"
  shows "\<exists>dt w'. mg_broadcast_message self q m w = Some (ucast (tick_counter w + dt), w') \<and>
    dt \<in> {0, 1} \<and> msg_wf N w' \<and>
    view N w' = fold (\<lambda>h. cast_eff m (tick_counter w) h (qof h)) (postorder [t]) (view N w)"
proof -
  obtain r cs where rc: "t = WNode r cs" by (cases t)
  from t(1) have "r \<noteq> 0 \<and> (\<exists>c. wins w r = Some c \<and>
      linked pFirstHosted pNextHosted (wins w) (pFirstHosted c) cs)"
    unfolding rc rooted_def by (simp split: option.splits)
  moreover from t(2) have "pRootMainWin Q = r" by (simp add: rc)
  ultimately obtain c where c: "r \<noteq> 0" "wins w r = Some c"
      "linked pFirstHosted pNextHosted (wins w) (pFirstHosted c) cs" "pRootMainWin Q = r" by blast
  let ?m = "m\<lparr>msg_time := 0\<rparr>"
  have po: "postorder [t] = postorder cs @ [r]" by (simp add: rc)
  have s1: "\<And>h. h \<in> set (postorder cs) \<Longrightarrow> sane_target w h (qof h)" using sane po by simp
  obtain m1 w1 h1 t1 where w1: "foldm (my_travel_cb self) (postorder cs) (?m, w) = Some (m1, w1)"
    "msg_wf N w1" "same_windows w w1" "tick_counter w1 = tick_counter w"
    "view N w1 = fold (\<lambda>h. cast_eff ?m (tick_counter w) h (qof h)) (postorder cs) (view N w)"
    "m1 = ?m\<lparr>msg_hwnd := h1, msg_time := t1\<rparr>"
    using foldm_travel_ok [OF wf, of "postorder cs" qof self ?m] s1 by blast
  have "sane_target w1 r (qof r)" using sane po w1(3) by (simp add: sane_target_cong)
  from my_travel_cb_ok [OF w1(2) this, of self m1]
  obtain dt w2 where w2: "my_travel_cb self r (m1, w1) =
      Some (m1\<lparr>msg_hwnd := r, msg_time := tick_counter w1 + dt\<rparr>, w2)" "dt \<in> {0, 1}" "msg_wf N w2"
    "view N w2 = cast_eff m1 (tick_counter w1) r (qof r) (view N w1)" by blast
  have e: "cast_eff ?m u k q = cast_eff m u k q" "cast_eff m1 u k q = cast_eff m u k q" for u k q
    by (simp_all add: fun_eq_iff cast_eff_def w1(6))
  have tr: "travel_all_hosted (my_travel_cb self) r (?m, w) = Some (m1, w1)"
    using c w1(1) travel_loop_linked [of "my_travel_cb self" "(?m, w)", OF my_travel_cb_wins]
    by (simp add: travel_all_hosted_def)
  have "mg_broadcast_message self q m w = Some (ucast (tick_counter w + dt), w2)"
    using c q tr w2(1) w1(4) by (simp add: mg_broadcast_message_def)
  then show ?thesis using w2 w1(4,5)
    by (intro exI [of _ dt] exI [of _ w2]) (simp add: po e)
qed

end
