(* ===== verification/MsgPeek.thy ===== *)
theory MsgPeek
  imports WinTree
begin

text \<open>
  Receiving messages (minigui-message.c): \<open>PeekMessageEx\<close>, one definition per section of the
  function (quit, sync, notify, posted, paint, desktop timer, timers, waiting) and the loop that
  composes them, \<open>PeekPostMessage\<close>, \<open>HavePendingMessageEx\<close>, \<open>WaitMessage\<close> and the idle
  handling. The loops of \<open>PeekMessageEx\<close> and \<open>WaitMessage\<close> may run forever, so they are partial
  functions.
\<close>

section \<open>Idle handling\<close>

definition handle_idle_message ::
    "mgenv \<Rightarrow> thread_id \<Rightarrow> nat \<Rightarrow> world \<Rightarrow> (uint \<times> world) option" where
  "handle_idle_message E self q w = do {
     Q \<leftarrow> queues w q;
     let Q1 = Q\<lparr>idle_counter := idle_counter Q + 1\<rparr>;
     let w1 = set_queue q Q1 w;
     if idle_counter Q1 \<ge> MAX_IDLE_COUNTER E then do {
       (n, w2) \<leftarrow> mg_broadcast_message self q
         \<lparr>msg_hwnd = HWND_NULL, message = MSG_IDLE, wParam = tick_counter w, lParam = 0,
          msg_time = 0, pSyncMsg = None\<rparr> w1;
       Q2 \<leftarrow> queues w2 q;
       Some (n, set_queue q (Q2\<lparr>idle_counter := 0\<rparr>) w2) }
     else Some (0, w1) }"

text \<open>\<open>select_ret w b\<close> is what \<open>select\<close> returns, with \<open>b\<close> for a wait of ten milliseconds.\<close>

definition std_idle_handler :: "mgenv \<Rightarrow> nat \<Rightarrow> bool \<Rightarrow> world \<Rightarrow> (bool \<times> world) option" where
  "std_idle_handler E q wait w = do {
     Q \<leftarrow> queues w q;
     if select_ret E w wait < 0 then Some (False, w)
     else do {
       (n1, w1) \<leftarrow> check_expired_timers E q (tick_counter w - old_tick_count Q) w;
       Q1 \<leftarrow> queues w1 q;
       let w2 = set_queue q (Q1\<lparr>old_tick_count := tick_counter w1\<rparr>) w1;
       (n2, w3) \<leftarrow> (if nr_rfds Q \<noteq> 0 \<or> nr_wfds Q \<noteq> 0 \<or> nr_efds Q \<noteq> 0
                   then kernel_check_listen_fds E q w2 else Some (0, w2));
       Some (0 < n1 + n2, w3) } }"

definition on_idle :: "mgenv \<Rightarrow> procptr \<Rightarrow> nat \<Rightarrow> bool \<Rightarrow> world \<Rightarrow> (bool \<times> world) option" where
  "on_idle E p q wait w =
     (if p = std_idle_handler_ptr E then std_idle_handler E q wait w else call_idle E p q wait w)"

text \<open>Waiting for a wake-up, or running the idle handler.\<close>

definition wait_or_idle :: "mgenv \<Rightarrow> thread_id \<Rightarrow> nat \<Rightarrow> world \<Rightarrow> world option" where
  "wait_or_idle E self q w = do {
     Q \<leftarrow> queues w q;
     if OnIdle Q \<noteq> 0 then
       if 0 < wait_sem Q then Some (set_queue q (Q\<lparr>wait_sem := wait_sem Q - 1\<rparr>) w)
       else do {
         (b, w1) \<leftarrow> on_idle E (OnIdle Q) q True w;
         if b then Some w1
         else do { (_, w2) \<leftarrow> handle_idle_message E self q w1; Some w2 } }
     else if 0 < wait_sem Q then Some (set_queue q (Q\<lparr>wait_sem := wait_sem Q - 1\<rparr>) w)
     else wait_queue E q w }"

section \<open>The sections of PeekMessageEx\<close>

definition IS_MSG_WANTED :: "uint \<Rightarrow> uint \<Rightarrow> uint \<Rightarrow> bool" where
  "IS_MSG_WANTED lo hi i \<longleftrightarrow>
     (lo \<le> 0 \<and> hi \<le> 0) \<or> (lo > 0 \<and> hi \<ge> lo \<and> i \<ge> lo \<and> i \<le> hi)"

definition CheckCapturedMouseMessage :: "mgenv \<Rightarrow> world \<Rightarrow> msg \<Rightarrow> msg" where
  "CheckCapturedMouseMessage E w m =
     (if captured_wnd w = msg_hwnd m \<and> message m \<ge> MSG_FIRSTMOUSEMSG \<and>
         message m \<le> MSG_LASTMOUSEMSG \<and> wParam m AND KS_CAPTURED E = 0
      then case ClientToScreen E (msg_hwnd m) (LOSWORD E (lParam m)) (HISWORD E (lParam m)) (wins w) of
        (x, y) \<Rightarrow> m\<lparr>lParam := MAKELONG E (word_of_int x) (word_of_int y),
                    wParam := wParam m OR KS_CAPTURED E\<rparr>
      else m)"

text \<open>
  Each section gets the caller's message and the store; the boolean result says that a message
  was found (the jump to \<open>got_ret\<close>). \<open>rem\<close> is \<open>uRemoveMsg == PM_REMOVE\<close>.
\<close>

definition peek_quit :: "bool \<Rightarrow> hwnd \<Rightarrow> nat \<Rightarrow> msg \<times> world \<Rightarrow> (bool \<times> msg \<times> world) option" where
  "peek_quit rem hWnd q d = (case d of (pm, w) \<Rightarrow> do {
     Q \<leftarrow> queues w q;
     if has_flag (dwState Q) QS_QUIT then
       let pm' = pm\<lparr>msg_hwnd := hWnd, message := MSG_QUIT, wParam := 0, lParam := 0, pSyncMsg := None\<rparr>;
           Q' = (if rem then
                   (if loop_depth Q - 1 = 0
                    then Q\<lparr>loop_depth := loop_depth Q - 1, dwState := clear_flag (dwState Q) QS_QUIT\<rparr>
                    else Q\<lparr>loop_depth := loop_depth Q - 1\<rparr>)
                 else Q)
       in Some (True, pm', set_queue q Q' w)
     else Some (False, pm, w) })"

definition peek_sync ::
    "(uint \<Rightarrow> bool) \<Rightarrow> bool \<Rightarrow> nat \<Rightarrow> msg \<times> world \<Rightarrow> (bool \<times> msg \<times> world) option" where
  "peek_sync wanted rem q d = (case d of (pm, w) \<Rightarrow> do {
     Q \<leftarrow> queues w q;
     if has_flag (dwState Q) QS_SYNCMSG then
       case pFirstSyncMsg Q of
         Some a \<Rightarrow> do {
           c \<leftarrow> syncmsgs w a;
           let m = (sMsg c)\<lparr>pSyncMsg := Some a\<rparr>;
           if wanted (message m)
           then Some (True, m, if rem then set_queue q (Q\<lparr>pFirstSyncMsg := pNext c\<rparr>) w else w)
           else Some (False, m, w) }
       | None \<Rightarrow> Some (False, pm, set_queue q (Q\<lparr>dwState := clear_flag (dwState Q) QS_SYNCMSG\<rparr>) w)
     else Some (False, pm, w) })"

definition peek_notify ::
    "(uint \<Rightarrow> bool) \<Rightarrow> bool \<Rightarrow> nat \<Rightarrow> msg \<times> world \<Rightarrow> (bool \<times> msg \<times> world) option" where
  "peek_notify wanted rem q d = (case d of (pm, w) \<Rightarrow> do {
     Q \<leftarrow> queues w q;
     if has_flag (dwState Q) QS_NOTIFYMSG then
       case pFirstNotifyMsg Q of
         Some a \<Rightarrow> do {
           c \<leftarrow> qmsgs w a;
           let m = (Msg c)\<lparr>pSyncMsg := None\<rparr>;
           if wanted (message m)
           then Some (True, m,
             if rem then set_queue q
               (Q\<lparr>pFirstNotifyMsg := next_qmsg c,
                  pLastNotifyMsg := (if next_qmsg c = None then None else pLastNotifyMsg Q)\<rparr>)
               (w\<lparr>qmsgs := (qmsgs w)(a := None)\<rparr>)
             else w)
           else Some (False, m, w) }
       | None \<Rightarrow> Some (False, pm, set_queue q (Q\<lparr>dwState := clear_flag (dwState Q) QS_NOTIFYMSG\<rparr>) w)
     else Some (False, pm, w) })"

definition peek_post ::
    "mgenv \<Rightarrow> (uint \<Rightarrow> bool) \<Rightarrow> bool \<Rightarrow> nat \<Rightarrow> msg \<times> world \<Rightarrow> (bool \<times> msg \<times> world) option" where
  "peek_post E wanted rem q d = (case d of (pm, w) \<Rightarrow> do {
     Q \<leftarrow> queues w q;
     if has_flag (dwState Q) QS_POSTMSG then
       if readpos Q \<noteq> writepos Q then do {
         a \<leftarrow> arr_get (mq_msg Q) (readpos Q);
         let m = a\<lparr>pSyncMsg := None\<rparr>;
         if wanted (message m)
         then Some (True, CheckCapturedMouseMessage E w m,
           if rem then set_queue q (Q\<lparr>readpos := ring_next (mq_len Q) (readpos Q)\<rparr>) w else w)
         else Some (False, m, w) }
       else Some (False, pm, set_queue q (Q\<lparr>dwState := clear_flag (dwState Q) QS_POSTMSG\<rparr>) w)
     else Some (False, pm, w) })"

definition peek_paint ::
    "mgenv \<Rightarrow> (uint \<Rightarrow> bool) \<Rightarrow> nat \<Rightarrow> msg \<times> world \<Rightarrow> (bool \<times> msg \<times> world) option" where
  "peek_paint E wanted q d = (case d of (pm, w) \<Rightarrow> do {
     Q \<leftarrow> queues w q;
     if has_flag (dwState Q) QS_PAINT \<and> wanted MSG_PAINT then do {
       let m = pm\<lparr>message := MSG_PAINT, wParam := 0, lParam := 0, pSyncMsg := None\<rparr>;
       h \<leftarrow> msgCheckHostedTree w (pRootMainWin Q);
       if h \<noteq> 0 then Some (True, m\<lparr>msg_hwnd := h, lParam := rgn_address E h\<rparr>, w)
       else Some (False, m, set_queue q (Q\<lparr>dwState := clear_flag (dwState Q) QS_PAINT\<rparr>) w) }
     else Some (False, pm, w) })"

definition peek_desktimer :: "bool \<Rightarrow> nat \<Rightarrow> msg \<times> world \<Rightarrow> (bool \<times> msg \<times> world) option" where
  "peek_desktimer rem q d = (case d of (pm, w) \<Rightarrow> do {
     Q \<leftarrow> queues w q;
     if dsk_msg_queue w = Some q \<and> has_flag (dwState Q) QS_DESKTIMER then
       Some (True, pm\<lparr>msg_hwnd := hwnd_desktop w, message := MSG_TIMEOUT, wParam := 0, lParam := 0\<rparr>,
         if rem then set_queue q (Q\<lparr>dwState := clear_flag (dwState Q) QS_DESKTIMER\<rparr>) w else w)
     else Some (False, pm, w) })"

text \<open>The cyclic search for an expired slot; \<open>Some None\<close> is the code's slot -1.\<close>

partial_function (option) find_slot :: "nat \<Rightarrow> dword \<Rightarrow> nat \<Rightarrow> nat \<Rightarrow> nat option option" where
  "find_slot n em first slot =
     (if bit em slot then Some (Some slot)
      else if (slot + 1) mod n = first then Some None
      else find_slot n em first ((slot + 1) mod n))"

datatype timer_result = TimerGot | TimerNone | TimerAgain

definition peek_timer ::
    "mgenv \<Rightarrow> (uint \<Rightarrow> bool) \<Rightarrow> nat \<Rightarrow> msg \<times> world \<Rightarrow> (timer_result \<times> msg \<times> world) option" where
  "peek_timer E wanted q d = (case d of (pm, w) \<Rightarrow> do {
     Q \<leftarrow> queues w q;
     if expired_timer_mask Q \<noteq> 0 \<and> wanted MSG_TIMER then do {
       ms \<leftarrow> find_slot (DEF_NR_TIMERS E) (expired_timer_mask Q) (first_timer_slot Q) (first_timer_slot Q);
       let Q1 = Q\<lparr>first_timer_slot := (first_timer_slot Q + 1) mod DEF_NR_TIMERS E\<rparr>;
       slot \<leftarrow> ms;
       mt \<leftarrow> arr_get (timer_slots Q1) slot;
       case mt of
         None \<Rightarrow> Some (TimerNone, pm, set_queue q Q1 w)
       | Some t \<Rightarrow> do {
           let w2 = set_queue q (Q1\<lparr>expired_timer_mask :=
                      expired_timer_mask Q1 AND NOT (push_bit slot 1)\<rparr>) w;
           if t_proc t \<noteq> 0 then do {
             (r, w3) \<leftarrow> call_timerproc E (t_proc t) (t_hWnd t) (t_id t) (ticks_fired t) w2;
             w4 \<leftarrow> (if \<not> r then remove_timer E q slot w3 else Some w3);
             Some (TimerAgain, pm, w4) }
           else Some (TimerGot, pm\<lparr>message := MSG_TIMER, msg_hwnd := t_hWnd t, wParam := t_id t,
                                   lParam := ticks_fired t, pSyncMsg := None\<rparr>, w2) } }
     else Some (TimerNone, pm, w) })"

section \<open>PeekMessageEx\<close>

text \<open>\<open>orelse\<close> runs the next section when the previous one found nothing.\<close>

definition orelse :: "(bool \<times> 'd) option \<Rightarrow> ('d \<Rightarrow> (bool \<times> 'd) option) \<Rightarrow> (bool \<times> 'd) option" where
  "orelse r k = do { (b, d) \<leftarrow> r; if b then Some (True, d) else k d }"

definition peek_queues ::
    "mgenv \<Rightarrow> (uint \<Rightarrow> bool) \<Rightarrow> bool \<Rightarrow> nat \<Rightarrow> msg \<times> world \<Rightarrow> (bool \<times> msg \<times> world) option" where
  "peek_queues E wanted rem q d =
     orelse (peek_sync wanted rem q d) (\<lambda>d.
     orelse (peek_notify wanted rem q d) (\<lambda>d.
     orelse (peek_post E wanted rem q d) (\<lambda>d.
     orelse (peek_paint E wanted q d) (peek_desktimer rem q))))"

definition got_ret :: "nat \<Rightarrow> msg \<times> world \<Rightarrow> (bool \<times> msg \<times> world) option" where
  "got_ret q d = (case d of (pm, w) \<Rightarrow>
     if msg_hwnd pm \<noteq> hwnd_desktop w
     then do { Q \<leftarrow> queues w q; Some (True, pm, set_queue q (Q\<lparr>idle_counter := 0\<rparr>) w) }
     else Some (True, pm, w))"

partial_function (option) peek_loop ::
    "mgenv \<Rightarrow> thread_id \<Rightarrow> (uint \<Rightarrow> bool) \<Rightarrow> bool \<Rightarrow> bool \<Rightarrow> hwnd \<Rightarrow> nat \<Rightarrow> msg \<times> world \<Rightarrow>
       (bool \<times> msg \<times> world) option" where
  "peek_loop E self wanted bWait rem hWnd q d = do {
     (quit, d1) \<leftarrow> peek_quit rem hWnd q d;
     if quit then Some (False, d1)
     else do {
       (got, d2) \<leftarrow> peek_queues E wanted rem q d1;
       if got then got_ret q d2
       else do {
         (t, d3) \<leftarrow> peek_timer E wanted q d2;
         case t of
           TimerGot \<Rightarrow> got_ret q d3
         | TimerAgain \<Rightarrow> peek_loop E self wanted bWait rem hWnd q d3
         | TimerNone \<Rightarrow>
             if bWait then do {
               w' \<leftarrow> wait_or_idle E self q (snd d3);
               peek_loop E self wanted bWait rem hWnd q (fst d3, w') }
             else Some (False, d3) } } }"

definition PeekMessageEx ::
    "mgenv \<Rightarrow> thread_id \<Rightarrow> msg option \<Rightarrow> hwnd \<Rightarrow> uint \<Rightarrow> uint \<Rightarrow> bool \<Rightarrow> uint \<Rightarrow> world \<Rightarrow>
       (bool \<times> msg option \<times> world) option" where
  "PeekMessageEx E self pMsg hWnd lo hi bWait uRemoveMsg w =
     (if pMsg = None then Some (False, pMsg, w)
      else do {
        b \<leftarrow> (if hWnd \<noteq> hwnd_desktop w then MG_IS_MAIN_VIRT_WINDOW w hWnd else Some True);
        if \<not> b then Some (False, pMsg, w)
        else case getMsgQueueForThisThread self w of
          None \<Rightarrow> Some (False, pMsg, w)
        | Some q \<Rightarrow> do {
            (r, m, w') \<leftarrow> peek_loop E self (IS_MSG_WANTED lo hi) bWait (uRemoveMsg = PM_REMOVE) hWnd q
              (zero_msg\<lparr>msg_time := tick_counter w\<rparr>, w);
            Some (r, Some m, w') } })"

definition GetMessage ::
    "mgenv \<Rightarrow> thread_id \<Rightarrow> msg option \<Rightarrow> hwnd \<Rightarrow> world \<Rightarrow> (bool \<times> msg option \<times> world) option" where
  "GetMessage E self pMsg hWnd w = PeekMessageEx E self pMsg hWnd 0 0 True PM_REMOVE w"

definition PeekMessage ::
    "mgenv \<Rightarrow> thread_id \<Rightarrow> msg option \<Rightarrow> hwnd \<Rightarrow> uint \<Rightarrow> uint \<Rightarrow> uint \<Rightarrow> world \<Rightarrow>
       (bool \<times> msg option \<times> world) option" where
  "PeekMessage E self pMsg hWnd lo hi uRemoveMsg w =
     PeekMessageEx E self pMsg hWnd lo hi False uRemoveMsg w"

section \<open>The other receivers\<close>

text \<open>The test the two functions share, without the desktop timer.\<close>

definition pending_queues :: "msgqueue \<Rightarrow> bool" where
  "pending_queues Q \<longleftrightarrow>
     has_flag (dwState Q) QS_SYNCMSG \<and> pFirstSyncMsg Q \<noteq> None \<or>
     has_flag (dwState Q) QS_NOTIFYMSG \<and> pFirstNotifyMsg Q \<noteq> None \<or>
     has_flag (dwState Q) QS_POSTMSG \<and> readpos Q \<noteq> writepos Q"

definition HavePendingMessageEx ::
    "mgenv \<Rightarrow> thread_id \<Rightarrow> hwnd \<Rightarrow> bool \<Rightarrow> world \<Rightarrow> (bool \<times> world) option" where
  "HavePendingMessageEx E self hWnd bNoDeskTimer w = do {
     mq \<leftarrow> (if hWnd = HWND_NULL then Some (getMsgQueueForThisThread self w)
            else getMsgQueueIfWindowInThisThread self w hWnd);
     case mq of
       None \<Rightarrow> Some (False, w)
     | Some q \<Rightarrow> do {
         Q \<leftarrow> queues w q;
         if pending_queues Q \<or> dwState Q AND (QS_QUIT OR QS_PAINT) \<noteq> 0 \<or> expired_timer_mask Q \<noteq> 0 \<or>
            (\<not> bNoDeskTimer \<and> dsk_msg_queue w = Some q \<and> has_flag (dwState Q) QS_DESKTIMER)
         then Some (True, w)
         else if OnIdle Q \<noteq> 0 then on_idle E (OnIdle Q) q False w else Some (False, w) } }"

definition HavePendingMessage :: "mgenv \<Rightarrow> thread_id \<Rightarrow> hwnd \<Rightarrow> world \<Rightarrow> (bool \<times> world) option" where
  "HavePendingMessage E self hWnd w = HavePendingMessageEx E self hWnd False w"

partial_function (option) wait_loop :: "mgenv \<Rightarrow> thread_id \<Rightarrow> nat \<Rightarrow> world \<Rightarrow> (bool \<times> world) option" where
  "wait_loop E self q w = do {
     Q \<leftarrow> queues w q;
     if has_flag (dwState Q) QS_QUIT \<or> pending_queues Q \<or> has_flag (dwState Q) QS_PAINT \<or>
        (dsk_msg_queue w = Some q \<and> has_flag (dwState Q) QS_DESKTIMER) \<or> expired_timer_mask Q \<noteq> 0
     then Some (True, w)
     else do { w' \<leftarrow> wait_or_idle E self q w; wait_loop E self q w' } }"

definition WaitMessage ::
    "mgenv \<Rightarrow> thread_id \<Rightarrow> msg option \<Rightarrow> hwnd \<Rightarrow> world \<Rightarrow> (bool \<times> msg option \<times> world) option" where
  "WaitMessage E self pMsg hWnd w =
     (if pMsg = None then Some (False, pMsg, w)
      else do {
        mq \<leftarrow> getMsgQueueIfWindowInThisThread self w hWnd;
        case mq of
          None \<Rightarrow> Some (False, pMsg, w)
        | Some q \<Rightarrow> do {
            Q \<leftarrow> queues w q;
            (r, w') \<leftarrow> wait_loop E self q (set_queue q (Q\<lparr>idle_counter := 0\<rparr>) w);
            Some (r, Some zero_msg, w') } })"

definition PeekPostMessage ::
    "thread_id \<Rightarrow> msg option \<Rightarrow> hwnd \<Rightarrow> uint \<Rightarrow> uint \<Rightarrow> uint \<Rightarrow> world \<Rightarrow>
       (bool \<times> msg option \<times> world) option" where
  "PeekPostMessage self pMsg hWnd lo hi uRemoveMsg w =
     (if pMsg = None then Some (False, pMsg, w)
      else do {
        mq \<leftarrow> getMsgQueueIfWindowInThisThread self w hWnd;
        case mq of
          None \<Rightarrow> Some (False, pMsg, w)
        | Some q \<Rightarrow> do {
            Q \<leftarrow> queues w q;
            if has_flag (dwState Q) QS_POSTMSG \<and> readpos Q \<noteq> writepos Q then do {
              a \<leftarrow> arr_get (mq_msg Q) (readpos Q);
              if (lo = 0 \<and> hi = 0) \<or> (message a \<le> hi \<and> message a \<ge> lo)
              then Some (True, Some (a\<lparr>pSyncMsg := None\<rparr>),
                if uRemoveMsg = PM_REMOVE
                then set_queue q (Q\<lparr>readpos := ring_next (mq_len Q) (readpos Q)\<rparr>) w else w)
              else Some (False, Some zero_msg, w) }
            else Some (False, Some zero_msg, w) } })"

section \<open>Sections that find nothing only clear their status bit\<close>

lemma clear_flag_idle: "\<not> has_flag s QS_SYNCMSG \<Longrightarrow> clear_flag s QS_SYNCMSG = s"
  "\<not> has_flag s QS_NOTIFYMSG \<Longrightarrow> clear_flag s QS_NOTIFYMSG = s"
  "\<not> has_flag s QS_POSTMSG \<Longrightarrow> clear_flag s QS_POSTMSG = s"
  "\<not> has_flag s QS_PAINT \<Longrightarrow> clear_flag s QS_PAINT = s"
  by (intro bit_eqI; auto simp: qs_flag_simps)+

lemma set_queue_idle: "queues w q = Some Q \<Longrightarrow> set_queue q Q w = w"
  by (cases w) (simp add: set_queue_def fun_upd_idem)

lemma peek_sync_none:
  "queues w q = Some Q \<Longrightarrow> \<not> (has_flag (dwState Q) QS_SYNCMSG \<and> pFirstSyncMsg Q \<noteq> None) \<Longrightarrow>
     peek_sync wanted rem q (pm, w) =
       Some (False, pm, set_queue q (Q\<lparr>dwState := clear_flag (dwState Q) QS_SYNCMSG\<rparr>) w)"
  by (cases "has_flag (dwState Q) QS_SYNCMSG")
    (simp_all add: peek_sync_def clear_flag_idle set_queue_idle)

lemma peek_notify_none:
  "queues w q = Some Q \<Longrightarrow> pFirstNotifyMsg Q = None \<Longrightarrow>
     peek_notify wanted rem q (pm, w) =
       Some (False, pm, set_queue q (Q\<lparr>dwState := clear_flag (dwState Q) QS_NOTIFYMSG\<rparr>) w)"
  by (cases "has_flag (dwState Q) QS_NOTIFYMSG")
    (simp_all add: peek_notify_def clear_flag_idle set_queue_idle)

lemma peek_post_none:
  "queues w q = Some Q \<Longrightarrow> readpos Q = writepos Q \<Longrightarrow>
     peek_post E wanted rem q (pm, w) =
       Some (False, pm, set_queue q (Q\<lparr>dwState := clear_flag (dwState Q) QS_POSTMSG\<rparr>) w)"
  by (cases "has_flag (dwState Q) QS_POSTMSG")
    (simp_all add: peek_post_def clear_flag_idle set_queue_idle)

lemma peek_quit_none:
  "queues w q = Some Q \<Longrightarrow> \<not> has_flag (dwState Q) QS_QUIT \<Longrightarrow>
     peek_quit rem hWnd q (pm, w) = Some (False, pm, w)"
  by (simp add: peek_quit_def)

section \<open>Taking a message\<close>

text \<open>What receiving does to the view: the oldest notification, or else the oldest posted message.\<close>

definition next_msg :: "mgenv \<Rightarrow> world \<Rightarrow> qview \<Rightarrow> (msg \<times> qview) option" where
  "next_msg E w v =
     (case v_notify v of
        m # ms \<Rightarrow> Some (m\<lparr>pSyncMsg := None\<rparr>, v\<lparr>v_notify := ms\<rparr>)
      | [] \<Rightarrow> (case v_posted v of
                 m # ms \<Rightarrow> Some (CheckCapturedMouseMessage E w (m\<lparr>pSyncMsg := None\<rparr>), v\<lparr>v_posted := ms\<rparr>)
               | [] \<Rightarrow> None))"

definition sync_pending :: "msgqueue \<Rightarrow> bool" where
  "sync_pending Q \<longleftrightarrow> has_flag (dwState Q) QS_SYNCMSG \<and> pFirstSyncMsg Q \<noteq> None"

lemma IS_MSG_WANTED_all [simp]: "IS_MSG_WANTED 0 0 i"
  by (simp add: IS_MSG_WANTED_def)

lemma peek_notify_take:
  assumes wf: "msg_wf N w" and q: "queues w q = Some Q" and nq: "N q = a # as"
    and want: "wanted (message (Msg (the (qmsgs w a))))"
  shows "\<exists>w' Q'. peek_notify wanted True q (pm, w) =
      Some (True, (Msg (the (qmsgs w a)))\<lparr>pSyncMsg := None\<rparr>, w') \<and>
    queues w' q = Some Q' \<and> msg_wf (N(q := as)) w' \<and>
    view (N(q := as)) w' = (view N w)(q := Some ((qview_of (qmsgs w) (N q) Q)
      \<lparr>v_notify := payload Msg (qmsgs w) as\<rparr>))"
proof -
  have wfq: "nq_wf (qmsgs w) (a # as) Q" using msg_wf_queue [OF wf q] nq by simp
  then have f: "pFirstNotifyMsg Q = Some a" and fl: "has_flag (dwState Q) QS_NOTIFYMSG"
    and lq: "lqueue next_qmsg (qmsgs w) (Some a) (pLastNotifyMsg Q) (a # as)"
    by (auto simp: nq_wf_def lqueue_def split: option.splits)
  obtain c where c: "qmsgs w a = Some c"
    "lqueue next_qmsg ((qmsgs w)(a := None)) (next_qmsg c) (pLastNotifyMsg Q) as"
    using nq.pop_front [OF lq] by blast
  have l: "lqueue next_qmsg ((qmsgs w)(a := None)) (next_qmsg c)
      (if next_qmsg c = None then None else pLastNotifyMsg Q) as"
    using c(2) lqueue_first [OF c(2)] by (cases "as = []") (auto simp: lqueue_def)
  have na: "a \<notin> set as" using lq by (simp add: lqueue_def)
  let ?Q = "Q\<lparr>pFirstNotifyMsg := next_qmsg c,
      pLastNotifyMsg := (if next_qmsg c = None then None else pLastNotifyMsg Q)\<rparr>"
  let ?w = "set_queue q ?Q (w\<lparr>qmsgs := (qmsgs w)(a := None)\<rparr>)"
  have run: "peek_notify wanted True q (pm, w) =
      Some (True, (Msg (the (qmsgs w a)))\<lparr>pSyncMsg := None\<rparr>, ?w)"
    using want by (simp add: peek_notify_def q f fl c(1))
  have qs: "queues ?w = (queues w)(q := Some ?Q)" and qm: "qmsgs ?w = (qmsgs w)(a := None)"
    by simp_all
  have new: "nq_wf (qmsgs ?w) as ?Q"
    using wfq l unfolding qm by (simp add: nq_wf_def del: fun_upd_apply)
  have fr: "qmsgs ?w b = qmsgs w b" if "r \<noteq> q" "b \<in> set (N r)" for r b
    using msg_wf_disjoint [OF wf that(1), of b] that(2) nq unfolding qm by auto
  have dj: "b \<notin> set (N r)" if "r \<noteq> q" "b \<in> set as" for r b
    using msg_wf_disjoint [OF wf, of q r b] that nq by auto
  note upd = msg_wf_upd [OF wf qs fr new dj]
  have "qview_of (qmsgs ?w) as ?Q =
      (qview_of (qmsgs w) (N q) Q)\<lparr>v_notify := payload Msg (qmsgs w) as\<rparr>"
    using na unfolding qm by (simp add: qview_of_def del: fun_upd_apply)
  with run upd show ?thesis
    by (intro exI [of _ ?w] exI [of _ ?Q]) simp
qed

lemma peek_post_take:
  assumes wf: "msg_wf N w" and q: "queues w q = Some Q" and ps: "posted Q = m # ms"
    and want: "wanted (message m)"
  shows "\<exists>w' Q'. peek_post E wanted True q (pm, w) =
      Some (True, CheckCapturedMouseMessage E w (m\<lparr>pSyncMsg := None\<rparr>), w') \<and>
    queues w' q = Some Q' \<and> msg_wf N w' \<and>
    view N w' = (view N w)(q := Some ((qview_of (qmsgs w) (N q) Q)\<lparr>v_posted := ms\<rparr>))"
proof -
  have wfq: "nq_wf (qmsgs w) (N q) Q" using msg_wf_queue [OF wf q] .
  then have ring: "ring_ok Q" and fl: "has_flag (dwState Q) QS_POSTMSG"
    using ps by (auto simp: nq_wf_def)
  have ne: "readpos Q \<noteq> writepos Q" using posted_empty_iff [OF ring] ps by auto
  let ?Q = "Q\<lparr>readpos := ring_next (mq_len Q) (readpos Q)\<rparr>"
  let ?w = "set_queue q ?Q w"
  have hd: "mq_msg Q ! readpos Q = m" "posted ?Q = ms"
    using posted_Cons [OF ring ne] ps by simp_all
  have get: "arr_get (mq_msg Q) (readpos Q) = Some m"
    using ring hd(1) by (simp add: arr_get_def ring_ok_def)
  have run: "peek_post E wanted True q (pm, w) =
      Some (True, CheckCapturedMouseMessage E w (m\<lparr>pSyncMsg := None\<rparr>), ?w)"
    using want by (simp add: peek_post_def q fl ne get)
  have qs: "queues ?w = (queues w)(q := Some ?Q)" and fr: "qmsgs ?w b = qmsgs w b" for b
    by simp_all
  have "ring_ok ?Q" using ring by (simp add: ring_ok_def ring_next_less)
  then have new: "nq_wf (qmsgs ?w) (N q) ?Q"
    using wfq fl by (simp add: nq_wf_def)
  have dj: "b \<notin> set (N r)" if "r \<noteq> q" "b \<in> set (N q)" for r b
    using msg_wf_disjoint [OF wf, of q r b] that by auto
  note upd = msg_wf_upd [OF wf qs fr new dj]
  have "qview_of (qmsgs ?w) (N q) ?Q = (qview_of (qmsgs w) (N q) Q)\<lparr>v_posted := ms\<rparr>"
    by (simp add: qview_of_def hd(2))
  with run upd show ?thesis
    by (intro exI [of _ ?w] exI [of _ ?Q]) simp
qed

lemma CheckCaptured_set_queue [simp]:
  "CheckCapturedMouseMessage E (set_queue q Q w) m = CheckCapturedMouseMessage E w m"
  by (simp add: CheckCapturedMouseMessage_def)

lemma orelse_simps [simp]:
  "orelse (Some (True, d)) k = Some (True, d)" "orelse (Some (False, d)) k = k d"
  by (simp_all add: orelse_def)

text \<open>A queue whose status bits change, but not those that point at messages.\<close>

lemma msg_wf_state:
  assumes wf: "msg_wf N w" and q: "queues w q = Some Q"
    and fl: "N q \<noteq> [] \<Longrightarrow> has_flag (dwState Q) QS_NOTIFYMSG \<Longrightarrow> has_flag st QS_NOTIFYMSG"
      "posted Q \<noteq> [] \<Longrightarrow> has_flag (dwState Q) QS_POSTMSG \<Longrightarrow> has_flag st QS_POSTMSG"
  shows "msg_wf N (set_queue q (Q\<lparr>dwState := st\<rparr>) w)"
    and "view N (set_queue q (Q\<lparr>dwState := st\<rparr>) w) =
      (view N w)(q := Some ((qview_of (qmsgs w) (N q) Q)\<lparr>v_state := st\<rparr>))"
proof -
  let ?w = "set_queue q (Q\<lparr>dwState := st\<rparr>) w"
  have qs: "queues ?w = (queues w)(q := Some (Q\<lparr>dwState := st\<rparr>))" and fr: "qmsgs ?w b = qmsgs w b" for b
    by simp_all
  have new: "nq_wf (qmsgs ?w) (N q) (Q\<lparr>dwState := st\<rparr>)"
    using msg_wf_queue [OF wf q] fl by (auto simp: nq_wf_def)
  have dj: "b \<notin> set (N r)" if "r \<noteq> q" "b \<in> set (N q)" for r b
    using msg_wf_disjoint [OF wf, of q r b] that by auto
  note upd = msg_wf_upd [OF wf qs fr new dj]
  then show "msg_wf N ?w" by simp
  have "qview_of (qmsgs ?w) (N q) (Q\<lparr>dwState := st\<rparr>) = (qview_of (qmsgs w) (N q) Q)\<lparr>v_state := st\<rparr>"
    by (simp add: qview_of_def)
  with upd show "view N ?w = (view N w)(q := Some ((qview_of (qmsgs w) (N q) Q)\<lparr>v_state := st\<rparr>))"
    by simp
qed

lemma got_ret_ok:
  assumes wf: "msg_wf N w" and q: "queues w q = Some Q"
  shows "\<exists>w'. got_ret q (pm, w) = Some (True, pm, w') \<and> msg_wf N w' \<and> view N w' = view N w"
proof (cases "msg_hwnd pm \<noteq> hwnd_desktop w")
  case True
  let ?w = "set_queue q (Q\<lparr>idle_counter := 0\<rparr>) w"
  have "msg_wf N ?w" "view N ?w = view N w"
    using msg_wf_frame [OF wf q, of ?w "Q\<lparr>idle_counter := 0\<rparr>"] q
    by (auto simp: view_Some fun_upd_idem qview_of_def)
  with True q show ?thesis by (simp add: got_ret_def)
next
  case False
  with wf show ?thesis by (simp add: got_ret_def)
qed

theorem peek_loop_next:
  assumes wf: "msg_wf N w" and q: "queues w q = Some Q"
    and idle: "\<not> has_flag (dwState Q) QS_QUIT" "\<not> sync_pending Q"
    and nx: "next_msg E w (qview_of (qmsgs w) (N q) Q) = Some (m, v)"
    and want: "wanted = IS_MSG_WANTED 0 0"
  shows "\<exists>w' st. peek_loop E self wanted bWait True hWnd q (pm, w) = Some (True, m, w') \<and>
    msg_wf (if N q = [] then N else N(q := tl (N q))) w' \<and>
    view (if N q = [] then N else N(q := tl (N q))) w' = (view N w)(q := Some (v\<lparr>v_state := st\<rparr>))"
proof -
  let ?st = "clear_flag (dwState Q) QS_SYNCMSG"
  let ?w1 = "set_queue q (Q\<lparr>dwState := ?st\<rparr>) w"
  have s1: "msg_wf N ?w1" "view N ?w1 = (view N w)(q := Some ((qview_of (qmsgs w) (N q) Q)\<lparr>v_state := ?st\<rparr>))"
    using msg_wf_state [OF wf q, of ?st] by (simp_all add: qs_flag_simps)
  have q1: "queues ?w1 q = Some (Q\<lparr>dwState := ?st\<rparr>)" by simp
  have quit: "peek_quit True hWnd q (pm, w) = Some (False, pm, w)"
    using q idle(1) by (rule peek_quit_none)
  have sync: "peek_sync wanted True q (pm, w) = Some (False, pm, ?w1)"
    using q idle(2) by (intro peek_sync_none) (auto simp: sync_pending_def)
  have all: "wanted i" for i using want by simp
  show ?thesis
  proof (cases "N q")
    case (Cons a as)
    obtain w2 Q2 where t: "peek_notify wanted True q (pm, ?w1) =
        Some (True, (Msg (the (qmsgs ?w1 a)))\<lparr>pSyncMsg := None\<rparr>, w2)" "queues w2 q = Some Q2"
      "msg_wf (N(q := as)) w2" "view (N(q := as)) w2 = (view N ?w1)
        (q := Some ((qview_of (qmsgs ?w1) (N q) (Q\<lparr>dwState := ?st\<rparr>))\<lparr>v_notify := payload Msg (qmsgs ?w1) as\<rparr>))"
      using peek_notify_take [OF s1(1) q1 Cons, of wanted pm] all by blast
    obtain w3 where g: "got_ret q (m, w2) = Some (True, m, w3)" "msg_wf (N(q := as)) w3"
      "view (N(q := as)) w3 = view (N(q := as)) w2"
      using got_ret_ok [OF t(3,2), of m] by blast
    have m: "m = (Msg (the (qmsgs w a)))\<lparr>pSyncMsg := None\<rparr>"
      "v = (qview_of (qmsgs w) (N q) Q)\<lparr>v_notify := payload Msg (qmsgs w) as\<rparr>"
      using nx Cons by (simp_all add: next_msg_def qview_of_def)
    have "peek_loop E self wanted bWait True hWnd q (pm, w) = Some (True, m, w3)"
      using quit sync t(1) g(1) m
      by (subst peek_loop.simps) (simp add: peek_queues_def)
    then show ?thesis using g t s1 m Cons
      by (intro exI [of _ w3] exI [of _ ?st]) (simp add: qview_of_def)
  next
    case Nil
    let ?st2 = "clear_flag ?st QS_NOTIFYMSG"
    let ?Q2 = "Q\<lparr>dwState := ?st2\<rparr>"
    let ?w2 = "set_queue q ?Q2 w"
    have s2: "msg_wf N ?w2" "view N ?w2 = (view N w)(q := Some ((qview_of (qmsgs w) (N q) Q)\<lparr>v_state := ?st2\<rparr>))"
      using msg_wf_state [OF wf q, of ?st2] Nil by (simp_all add: qs_flag_simps)
    have q2: "queues ?w2 q = Some ?Q2" by simp
    have "pFirstNotifyMsg Q = None" using msg_wf_queue [OF wf q] Nil by (simp add: nq_wf_def)
    then have noti: "peek_notify wanted True q (pm, ?w1) = Some (False, pm, ?w2)"
      using peek_notify_none [OF q1] by simp
    obtain m0 ms where ps: "posted Q = m0 # ms" "m = CheckCapturedMouseMessage E w (m0\<lparr>pSyncMsg := None\<rparr>)"
      "v = (qview_of (qmsgs w) (N q) Q)\<lparr>v_posted := ms\<rparr>"
      using nx Nil by (auto simp: next_msg_def qview_of_def split: list.splits)
    have ps2: "posted ?Q2 = m0 # ms" using ps(1) by simp
    obtain w3 Q3 where t: "peek_post E wanted True q (pm, ?w2) =
        Some (True, CheckCapturedMouseMessage E ?w2 (m0\<lparr>pSyncMsg := None\<rparr>), w3)" "queues w3 q = Some Q3"
      "msg_wf N w3" "view N w3 = (view N ?w2)(q := Some ((qview_of (qmsgs ?w2) (N q) ?Q2)\<lparr>v_posted := ms\<rparr>))"
      using peek_post_take [OF s2(1) q2 ps2, of wanted E pm] all by blast
    obtain w4 where g: "got_ret q (m, w3) = Some (True, m, w4)" "msg_wf N w4" "view N w4 = view N w3"
      using got_ret_ok [OF t(3,2), of m] by blast
    have "peek_loop E self wanted bWait True hWnd q (pm, w) = Some (True, m, w4)"
      using quit sync noti t(1) g(1) ps(2)
      by (subst peek_loop.simps) (simp add: peek_queues_def)
    then show ?thesis using g t s2 ps Nil
      by (intro exI [of _ w4] exI [of _ ?st2]) (simp add: qview_of_def)
  qed
qed

section \<open>Quit, sync and empty queues\<close>

definition quit_msg :: "hwnd \<Rightarrow> msg \<Rightarrow> msg" where
  "quit_msg hWnd pm =
     pm\<lparr>msg_hwnd := hWnd, message := MSG_QUIT, wParam := 0, lParam := 0, pSyncMsg := None\<rparr>"

lemma quit_msg_fields: "message (quit_msg hWnd pm) = MSG_QUIT" "msg_hwnd (quit_msg hWnd pm) = hWnd"
  by (simp_all add: quit_msg_def)

definition quit_taken :: "qview \<Rightarrow> qview" where
  "quit_taken v = v\<lparr>v_depth := v_depth v - 1,
     v_state := (if v_depth v = 1 then clear_flag (v_state v) QS_QUIT else v_state v)\<rparr>"

lemma peek_loop_quit:
  assumes wf: "msg_wf N w" and q: "queues w q = Some Q" and quit: "has_flag (dwState Q) QS_QUIT"
  shows "\<exists>w'. peek_loop E self wanted bWait rem hWnd q (pm, w) = Some (False, quit_msg hWnd pm, w') \<and>
    msg_wf N w' \<and> view N w' = (if rem
      then (view N w)(q := Some (quit_taken (qview_of (qmsgs w) (N q) Q))) else view N w)"
proof -
  let ?Q = "if rem then (if loop_depth Q - 1 = 0
      then Q\<lparr>loop_depth := loop_depth Q - 1, dwState := clear_flag (dwState Q) QS_QUIT\<rparr>
      else Q\<lparr>loop_depth := loop_depth Q - 1\<rparr>) else Q"
  let ?w = "set_queue q ?Q w"
  have run: "peek_loop E self wanted bWait rem hWnd q (pm, w) = Some (False, quit_msg hWnd pm, ?w)"
    by (subst peek_loop.simps) (simp add: peek_quit_def q quit quit_msg_def Let_def)
  have fr: "ring_ok Q \<Longrightarrow> ring_ok ?Q" "posted ?Q = posted Q" "mq_len ?Q = mq_len Q"
    "pFirstNotifyMsg ?Q = pFirstNotifyMsg Q" "pLastNotifyMsg ?Q = pLastNotifyMsg Q"
    "has_flag (dwState Q) QS_NOTIFYMSG \<Longrightarrow> has_flag (dwState ?Q) QS_NOTIFYMSG"
    "has_flag (dwState Q) QS_POSTMSG \<Longrightarrow> has_flag (dwState ?Q) QS_POSTMSG"
    by (simp_all add: qs_flag_simps)
  have qs: "queues ?w = (queues w)(q := Some ?Q)" "qmsgs ?w = qmsgs w" by simp_all
  note wv = msg_wf_frame [OF wf q qs fr]
  have "(qview_of (qmsgs w) (N q) Q)\<lparr>v_state := dwState ?Q, v_depth := loop_depth ?Q\<rparr> =
      (if rem then quit_taken (qview_of (qmsgs w) (N q) Q) else qview_of (qmsgs w) (N q) Q)"
    by (simp add: quit_taken_def qview_of_def)
  then have "view N ?w = (view N w)(q := Some (if rem then quit_taken (qview_of (qmsgs w) (N q) Q)
      else qview_of (qmsgs w) (N q) Q))" using wv(2) by simp
  then have "view N ?w = (if rem
      then (view N w)(q := Some (quit_taken (qview_of (qmsgs w) (N q) Q))) else view N w)"
    using view_Some [of w q Q N] q by (simp add: fun_upd_idem)
  with run wv(1) show ?thesis by blast
qed

lemma peek_loop_sync:
  assumes q: "queues w q = Some Q" and idle: "\<not> has_flag (dwState Q) QS_QUIT"
    and s: "has_flag (dwState Q) QS_SYNCMSG" "pFirstSyncMsg Q = Some a" "syncmsgs w a = Some c"
    and want: "wanted (message (sMsg c))"
  shows "peek_loop E self wanted bWait True hWnd q (pm, w) =
    got_ret q ((sMsg c)\<lparr>pSyncMsg := Some a\<rparr>, set_queue q (Q\<lparr>pFirstSyncMsg := pNext c\<rparr>) w)"
  by (subst peek_loop.simps)
    (simp add: peek_quit_none [OF q idle] peek_queues_def peek_sync_def q s want orelse_def)

lemma peek_loop_empty:
  assumes wf: "msg_wf N w" and q: "queues w q = Some Q"
    and idle: "\<not> has_flag (dwState Q) QS_QUIT" "\<not> sync_pending Q" "N q = []" "posted Q = []"
      "\<not> has_flag (dwState Q) QS_PAINT" "expired_timer_mask Q = 0"
      "dsk_msg_queue w = Some q \<Longrightarrow> \<not> has_flag (dwState Q) QS_DESKTIMER"
  shows "\<exists>w' st. peek_loop E self wanted False rem hWnd q (pm, w) = Some (False, pm, w') \<and>
    msg_wf N w' \<and> view N w' = (view N w)(q := Some ((qview_of (qmsgs w) (N q) Q)\<lparr>v_state := st\<rparr>))"
proof -
  let ?s1 = "clear_flag (dwState Q) QS_SYNCMSG"
  let ?s2 = "clear_flag ?s1 QS_NOTIFYMSG"
  let ?s3 = "clear_flag ?s2 QS_POSTMSG"
  have first: "pFirstNotifyMsg Q = None" and ring: "ring_ok Q"
    using msg_wf_queue [OF wf q] idle(3) by (simp_all add: nq_wf_def)
  have rd: "readpos Q = writepos Q" using posted_empty_iff [OF ring] idle(4) by simp
  let ?w = "\<lambda>s. set_queue q (Q\<lparr>dwState := s\<rparr>) w"
  have qq: "queues (?w s) q = Some (Q\<lparr>dwState := s\<rparr>)" for s by simp
  have sy: "peek_sync wanted rem q (pm, w) = Some (False, pm, ?w ?s1)"
    using q idle(2) by (intro peek_sync_none) (auto simp: sync_pending_def)
  have nt: "peek_notify wanted rem q (pm, ?w ?s1) = Some (False, pm, ?w ?s2)"
    using peek_notify_none [OF qq] first by simp
  have po: "peek_post E wanted rem q (pm, ?w ?s2) = Some (False, pm, ?w ?s3)"
    using peek_post_none [OF qq] rd by simp
  have pa: "peek_paint E wanted q (pm, ?w ?s3) = Some (False, pm, ?w ?s3)"
    using idle(5) by (simp add: peek_paint_def qs_flag_simps)
  have de: "peek_desktimer rem q (pm, ?w ?s3) = Some (False, pm, ?w ?s3)"
    using idle(7) by (auto simp: peek_desktimer_def qs_flag_simps)
  have ti: "peek_timer E wanted q (pm, ?w ?s3) = Some (TimerNone, pm, ?w ?s3)"
    using idle(6) by (simp add: peek_timer_def)
  have "peek_loop E self wanted False rem hWnd q (pm, w) = Some (False, pm, ?w ?s3)"
    by (subst peek_loop.simps)
      (simp add: peek_quit_none [OF q idle(1)] peek_queues_def sy nt po pa de ti)
  then show ?thesis
    using msg_wf_state [OF wf q, of ?s3] idle(3,4) by blast
qed

section \<open>Timers\<close>

interpretation slots: cyclic_search n "bit em" "find_slot n em" for n em
  by unfold_locales (subst find_slot.simps, simp)

text \<open>The message of an expired timer.\<close>

definition timer_msg :: "timer \<Rightarrow> msg \<Rightarrow> msg" where
  "timer_msg t pm = pm\<lparr>message := MSG_TIMER, msg_hwnd := t_hWnd t, wParam := t_id t,
     lParam := ticks_fired t, pSyncMsg := None\<rparr>"

lemma peek_timer_found:
  assumes q: "queues w q = Some Q" and nz: "expired_timer_mask Q \<noteq> 0" and want: "wanted MSG_TIMER"
    and f: "find_slot (DEF_NR_TIMERS E) (expired_timer_mask Q) (first_timer_slot Q) (first_timer_slot Q)
              = Some (Some slot)"
    and t: "slot < length (timer_slots Q)" "timer_slots Q ! slot = Some t" "t_proc t = 0"
  shows "peek_timer E wanted q (pm, w) = Some (TimerGot, timer_msg t pm, set_queue q
    (Q\<lparr>first_timer_slot := (first_timer_slot Q + 1) mod DEF_NR_TIMERS E,
       expired_timer_mask := expired_timer_mask Q AND NOT (push_bit slot 1)\<rparr>) w)"
  using t by (simp add: peek_timer_def q nz want f arr_get_def timer_msg_def)

lemma peek_timer_out_of_range:
  assumes q: "queues w q = Some Q" and nz: "expired_timer_mask Q \<noteq> 0" and want: "wanted MSG_TIMER"
    and first: "first_timer_slot Q < DEF_NR_TIMERS E"
    and out: "\<And>k. k < DEF_NR_TIMERS E \<Longrightarrow> \<not> bit (expired_timer_mask Q) k"
  shows "peek_timer E wanted q (pm, w) = None"
proof -
  have "find_slot (DEF_NR_TIMERS E) (expired_timer_mask Q) (first_timer_slot Q) (first_timer_slot Q) = Some None"
    using first out by (rule slots.search_none)
  then show ?thesis using first by (simp add: peek_timer_def q nz want)
qed

text \<open>The public function on a message thread.\<close>

definition receiver_ok :: "world \<Rightarrow> thread_id \<Rightarrow> hwnd \<Rightarrow> nat \<Rightarrow> bool" where
  "receiver_ok w self hWnd q \<longleftrightarrow> threadinfo w self = Some q \<and>
     (hWnd = hwnd_desktop w \<or> MG_IS_MAIN_VIRT_WINDOW w hWnd = Some True)"

lemma PeekMessageEx_run:
  assumes "receiver_ok w self hWnd q"
    and "peek_loop E self (IS_MSG_WANTED lo hi) bWait rem hWnd q (zero_msg\<lparr>msg_time := tick_counter w\<rparr>, w)
           = Some (r, m, w')"
    and "rem = (uRemoveMsg = PM_REMOVE)"
  shows "PeekMessageEx E self (Some pm) hWnd lo hi bWait uRemoveMsg w = Some (r, Some m, w')"
  using assms by (auto simp: PeekMessageEx_def receiver_ok_def getMsgQueueForThisThread_def)

lemma wait_loop_ready:
  assumes "queues w q = Some Q"
    and "has_flag (dwState Q) QS_QUIT \<or> pending_queues Q \<or> has_flag (dwState Q) QS_PAINT \<or>
      expired_timer_mask Q \<noteq> 0"
  shows "wait_loop E self q w = Some (True, w)"
  using assms by (subst wait_loop.simps) auto

end
