(* ===== verification/MsgThrow.thy ===== *)
theory MsgThrow
  imports MsgPeek
begin

text \<open>
  Discarding messages (minigui-message.c): \<open>__mg_throw_away_messages\<close> with its four parts (the
  notify chain, the sync chain, the posted messages compacted in place, the expired timers),
  \<open>ThrowAwayMessages\<close> and \<open>EmptyMessageQueue\<close>. The notify and posted parts are proved to be
  filters of the lists; the sync part cancels every message of the window, and the last section
  shows where its unlinking goes wrong.
\<close>

section \<open>The code\<close>

text \<open>Whether a message goes to the window, or to a control of it.\<close>

definition msg_hit :: "world \<Rightarrow> hwnd \<Rightarrow> hwnd \<Rightarrow> bool option" where
  "msg_hit w hWnd h =
     (if h = hWnd then Some True
      else do { m \<leftarrow> checkAndGetMainWindowIfControl w h; Some (m = hWnd) })"

partial_function (option) throw_notify ::
    "hwnd \<Rightarrow> nat \<Rightarrow> nat option \<Rightarrow> nat option \<Rightarrow> nat \<Rightarrow> world \<Rightarrow> (nat \<times> world) option" where
  "throw_notify hWnd q prev cur n w =
     (case cur of
        None \<Rightarrow> Some (n, w)
      | Some a \<Rightarrow> do {
          c \<leftarrow> qmsgs w a;
          hit \<leftarrow> msg_hit w hWnd (msg_hwnd (Msg c));
          if hit then do {
            Q \<leftarrow> queues w q;
            w1 \<leftarrow> (case prev of
                     Some p \<Rightarrow> do {
                       d \<leftarrow> qmsgs w p;
                       Some (w\<lparr>qmsgs := (qmsgs w)(p := Some (d\<lparr>next_qmsg := next_qmsg c\<rparr>))\<rparr>) }
                   | None \<Rightarrow> Some w);
            let Q1 = (if prev = None then Q\<lparr>pFirstNotifyMsg := next_qmsg c\<rparr> else Q);
            let Q2 = (if pLastNotifyMsg Q1 = Some a
                      then Q1\<lparr>pLastNotifyMsg :=
                             (if prev \<noteq> None then prev else pFirstNotifyMsg Q1)\<rparr>
                      else Q1);
            throw_notify hWnd q prev (next_qmsg c) (n + 1)
              (set_queue q Q2 (w1\<lparr>qmsgs := (qmsgs w1)(a := None)\<rparr>)) }
          else throw_notify hWnd q (Some a) (next_qmsg c) n w })"

partial_function (option) throw_sync ::
    "(hwnd \<Rightarrow> bool option) \<Rightarrow> nat \<Rightarrow> nat option \<Rightarrow> nat option \<Rightarrow> nat \<Rightarrow> world \<Rightarrow> (nat \<times> world) option" where
  "throw_sync hitf q prev cur n w =
     (case cur of
        None \<Rightarrow> Some (n, w)
      | Some a \<Rightarrow> do {
          c \<leftarrow> syncmsgs w a;
          hit \<leftarrow> hitf (msg_hwnd (sMsg c));
          if hit then do {
            let c1 = c\<lparr>sMsg := (sMsg c)\<lparr>msg_hwnd := HWND_INVALID\<rparr>, retval := LErr ERR_MSG_CANCELED\<rparr>;
            let w1 = w\<lparr>syncmsgs := (syncmsgs w)(a := Some c1)\<rparr>;
            case prev of
              Some p \<Rightarrow> do {
                d \<leftarrow> syncmsgs w1 p;
                w2 \<leftarrow> sem_post (sem_handle c1)
                       (w1\<lparr>syncmsgs := (syncmsgs w1)(p := Some (d\<lparr>pNext := pNext c1\<rparr>))\<rparr>);
                throw_sync hitf q (Some a) (pNext c1) (n + 1) w2 }
            | None \<Rightarrow> do {
                Q \<leftarrow> queues w1 q;
                w2 \<leftarrow> sem_post (sem_handle c1) (set_queue q (Q\<lparr>pFirstSyncMsg := pNext c1\<rparr>) w1);
                throw_sync hitf q None (pNext c1) (n + 1) w2 } }
          else throw_sync hitf q (Some a) (pNext c) n w })"

text \<open>The inner loop closes the gap at \<open>old\<close>; the outer one looks at each posted message.\<close>

partial_function (option) shift_posted ::
    "nat \<Rightarrow> nat \<Rightarrow> nat \<Rightarrow> nat \<Rightarrow> msg list \<Rightarrow> msg list option" where
  "shift_posted len wr pos old buf =
     (let pos' = ring_next len pos in
      if pos' \<noteq> wr then do {
        x \<leftarrow> arr_get buf pos';
        buf' \<leftarrow> arr_set buf old x;
        shift_posted len wr pos' pos' buf' }
      else Some buf)"

partial_function (option) throw_posted ::
    "(hwnd \<Rightarrow> bool option) \<Rightarrow> nat \<Rightarrow> nat \<Rightarrow> msgqueue \<Rightarrow> (nat \<times> msgqueue) option" where
  "throw_posted hitf rp n Q =
     (if rp = writepos Q then Some (n, Q)
      else do {
        m \<leftarrow> arr_get (mq_msg Q) rp;
        hit \<leftarrow> hitf (msg_hwnd m);
        if hit then do {
          buf \<leftarrow> arr_set (mq_msg Q) rp (m\<lparr>msg_hwnd := HWND_INVALID\<rparr>);
          buf' \<leftarrow> shift_posted (mq_len Q) (writepos Q) rp rp buf;
          throw_posted hitf rp (n + 1)
            (Q\<lparr>mq_msg := buf',
               writepos := (if writepos Q > 0 then writepos Q - 1 else mq_len Q - 1)\<rparr>) }
        else throw_posted hitf (ring_next (mq_len Q) rp) n Q })"

definition throw_timer_slot ::
    "(hwnd \<Rightarrow> bool option) \<Rightarrow> timer option list \<Rightarrow> nat \<Rightarrow> dword \<Rightarrow> dword option" where
  "throw_timer_slot hitf slots slot em =
     (if bit em slot then do {
        mt \<leftarrow> arr_get slots slot;
        t \<leftarrow> mt;
        hit \<leftarrow> hitf (t_hWnd t);
        Some (if hit then em AND NOT (push_bit slot 1) else em) }
      else Some em)"

definition mg_throw_away_messages :: "mgenv \<Rightarrow> nat \<Rightarrow> hwnd \<Rightarrow> world \<Rightarrow> (nat \<times> world) option" where
  "mg_throw_away_messages E q hWnd w = do {
     Q \<leftarrow> queues w q;
     (nN, w1) \<leftarrow> throw_notify hWnd q None (pFirstNotifyMsg Q) 0 w;
     Q1 \<leftarrow> queues w1 q;
     (nS, w2) \<leftarrow> throw_sync (msg_hit w hWnd) q None (pFirstSyncMsg Q1) 0 w1;
     Q2 \<leftarrow> queues w2 q;
     (nP, Q3) \<leftarrow> throw_posted (msg_hit w hWnd) (readpos Q2) 0 Q2;
     em \<leftarrow> foldm (throw_timer_slot (msg_hit w hWnd) (timer_slots Q3)) [0..<DEF_NR_TIMERS E]
            (expired_timer_mask Q3);
     Some (nN + nS + nP, set_queue q (Q3\<lparr>expired_timer_mask := em\<rparr>) w2) }"

definition ThrowAwayMessages :: "mgenv \<Rightarrow> hwnd \<Rightarrow> world \<Rightarrow> ((mgerr + nat) \<times> world) option" where
  "ThrowAwayMessages E hWnd w = do {
     mq \<leftarrow> (if hWnd \<noteq> 0 \<and> hWnd \<noteq> HWND_INVALID then do {
              p \<leftarrow> wins w hWnd;
              if DataType p = TYPE_HWND \<or> DataType p = TYPE_WINTODEL
              then do { m \<leftarrow> wins w (pMainWin p); Some (pMsgQueue m) } else Some None }
            else Some None);
     case mq of
       None \<Rightarrow> Some (Inl ERR_INV_HWND, w)
     | Some q \<Rightarrow> do { (n, w') \<leftarrow> mg_throw_away_messages E q hWnd w; Some (Inr n, w') } }"

definition EmptyMessageQueue :: "thread_id \<Rightarrow> hwnd \<Rightarrow> world \<Rightarrow> (bool \<times> world) option" where
  "EmptyMessageQueue self hWnd w = do {
     mq \<leftarrow> getMsgQueueIfWindowInThisThread self w hWnd;
     case mq of
       None \<Rightarrow> Some (False, w)
     | Some q \<Rightarrow> do {
         Q \<leftarrow> queues w q;
         (_, w1) \<leftarrow> throw_sync (\<lambda>_. Some True) q None (pFirstSyncMsg Q) 0 w;
         Q1 \<leftarrow> queues w1 q;
         h \<leftarrow> free_qmsgs (pFirstNotifyMsg Q1) (qmsgs w1);
         Some (True, set_queue q (Q1\<lparr>pFirstNotifyMsg := None, pLastNotifyMsg := None, readpos := 0,
            writepos := 0, dwState := QS_EMPTY, expired_timer_mask := 0\<rparr>) (w1\<lparr>qmsgs := h\<rparr>)) } }"

section \<open>The notify chain is filtered\<close>

lemma msg_hit_cong: "wins w' = wins w \<Longrightarrow> msg_hit w' hWnd h = msg_hit w hWnd h"
  unfolding msg_hit_def checkAndGetMainWindowIfControl_def MG_IS_CONTROL_WINDOW_def MG_IS_WINDOW_def
  by (simp only:)

definition notify_hwnd :: "world \<Rightarrow> nat \<Rightarrow> hwnd" where
  "notify_hwnd w a = msg_hwnd (Msg (the (qmsgs w a)))"

lemma throw_notify_hit:
  assumes q: "queues w q = Some Q"
    and lq: "lqueue next_qmsg (qmsgs w) (pFirstNotifyMsg Q) (pLastNotifyMsg Q) (pre @ a # as)"
    and prev: "prev = (if pre = [] then None else Some (last pre))"
    and cur: "cur = Some a" and c: "qmsgs w a = Some c"
    and hit: "msg_hit w hWnd (msg_hwnd (Msg c)) = Some True"
  shows "\<exists>h f l. throw_notify hWnd q prev cur n w =
      throw_notify hWnd q prev (next_qmsg c) (n + 1)
        (set_queue q (Q\<lparr>pFirstNotifyMsg := f, pLastNotifyMsg := l\<rparr>) (w\<lparr>qmsgs := h\<rparr>)) \<and>
    lqueue next_qmsg h f l (pre @ as) \<and>
    payload Msg h (pre @ as) = payload Msg (qmsgs w) (pre @ as) \<and>
    (\<forall>b. b \<notin> set (pre @ a # as) \<longrightarrow> h b = qmsgs w b)"
proof (cases pre rule: rev_cases)
  case Nil
  let ?h = "(qmsgs w)(a := None)"
  have "throw_notify hWnd q prev cur n w = throw_notify hWnd q prev (next_qmsg c) (n + 1)
      (set_queue q (Q\<lparr>pFirstNotifyMsg := next_qmsg c, pLastNotifyMsg :=
          (if pLastNotifyMsg Q = Some a then next_qmsg c else pLastNotifyMsg Q)\<rparr>) (w\<lparr>qmsgs := ?h\<rparr>))"
    using prev cur Nil c hit q
    by (cases "pLastNotifyMsg Q = Some a") (subst throw_notify.simps, simp)+
  moreover have "lqueue next_qmsg ?h (next_qmsg c)
      (if pLastNotifyMsg Q = Some a then next_qmsg c else pLastNotifyMsg Q) (pre @ as)"
    using nq.delete_first [of "qmsgs w" "pFirstNotifyMsg Q" "pLastNotifyMsg Q" a as c] lq c Nil
    by simp
  moreover have "payload Msg ?h (pre @ as) = payload Msg (qmsgs w) (pre @ as)"
    using lq by (simp add: lqueue_def del: fun_upd_apply)
  ultimately show ?thesis by fastforce
next
  case (snoc bs b)
  obtain d where d: "qmsgs w b = Some d"
    using lq snoc by (auto simp: lqueue_def lseg_append split: option.splits)
  let ?h = "((qmsgs w)(b := Some (d\<lparr>next_qmsg := next_qmsg c\<rparr>)))(a := None)"
  have "throw_notify hWnd q prev cur n w = throw_notify hWnd q prev (next_qmsg c) (n + 1)
      (set_queue q (Q\<lparr>pFirstNotifyMsg := pFirstNotifyMsg Q, pLastNotifyMsg :=
          (if pLastNotifyMsg Q = Some a then Some b else pLastNotifyMsg Q)\<rparr>) (w\<lparr>qmsgs := ?h\<rparr>))"
    using prev cur snoc c hit q d
    by (cases "pLastNotifyMsg Q = Some a") (subst throw_notify.simps, simp)+
  moreover have "lqueue next_qmsg ?h (pFirstNotifyMsg Q)
      (if pLastNotifyMsg Q = Some a then Some b else pLastNotifyMsg Q) (pre @ as)"
    "payload Msg ?h (pre @ as) = payload Msg (qmsgs w) (pre @ as)"
    using nq.delete_after [OF lq [unfolded snoc] c d] snoc by (simp_all del: fun_upd_apply)
  moreover have "\<forall>x. x \<notin> set (pre @ a # as) \<longrightarrow> ?h x = qmsgs w x" using snoc by auto
  ultimately show ?thesis by (intro exI [of _ ?h]) blast
qed

lemma throw_notify_loop:
  assumes "queues w q = Some Q"
    and "lqueue next_qmsg (qmsgs w) (pFirstNotifyMsg Q) (pLastNotifyMsg Q) (pre @ as)"
    and "prev = (if pre = [] then None else Some (last pre))"
    and "cur = (if as = [] then None else Some (hd as))"
    and "\<And>a. a \<in> set as \<Longrightarrow> msg_hit w hWnd (notify_hwnd w a) = Some (P (notify_hwnd w a))"
  shows "\<exists>h f l. throw_notify hWnd q prev cur n w =
      Some (n + length (filter (\<lambda>a. P (notify_hwnd w a)) as),
        set_queue q (Q\<lparr>pFirstNotifyMsg := f, pLastNotifyMsg := l\<rparr>) (w\<lparr>qmsgs := h\<rparr>)) \<and>
    lqueue next_qmsg h f l (pre @ filter (\<lambda>a. \<not> P (notify_hwnd w a)) as) \<and>
    payload Msg h (pre @ filter (\<lambda>a. \<not> P (notify_hwnd w a)) as) =
      payload Msg (qmsgs w) (pre @ filter (\<lambda>a. \<not> P (notify_hwnd w a)) as) \<and>
    (\<forall>b. b \<notin> set (pre @ as) \<longrightarrow> h b = qmsgs w b)"
  using assms
proof (induction as arbitrary: pre prev cur n w Q)
  case Nil
  then show ?case
    by (intro exI [of _ "qmsgs w"] exI [of _ "pFirstNotifyMsg Q"] exI [of _ "pLastNotifyMsg Q"])
      (subst throw_notify.simps, simp add: set_queue_idle)
next
  case (Cons a as)
  let ?H = "\<lambda>w a. P (notify_hwnd w a)"
  note q = Cons.prems(1) and lq = Cons.prems(2)
  obtain c where c: "qmsgs w a = Some c"
    using lq by (auto simp: lqueue_def lseg_append split: option.splits)
  have nxt: "next_qmsg c = (if as = [] then None else Some (hd as))"
  proof -
    have "lseg next_qmsg (qmsgs w) (next_qmsg c) as None"
      using lq c by (auto simp: lqueue_def lseg_append)
    then show ?thesis by (cases as) auto
  qed
  have dist: "a \<notin> set pre" "a \<notin> set as" "distinct (pre @ as)" "set pre \<inter> set as = {}"
    using lq by (auto simp: lqueue_def)
  have hit: "msg_hit w hWnd (msg_hwnd (Msg c)) = Some (?H w a)"
    using Cons.prems(5) [of a] c by (simp add: notify_hwnd_def)
  show ?case
  proof (cases "?H w a")
    case False
    have "\<exists>h f l. throw_notify hWnd q (Some a) (next_qmsg c) n w =
      Some (n + length (filter (?H w) as),
        set_queue q (Q\<lparr>pFirstNotifyMsg := f, pLastNotifyMsg := l\<rparr>) (w\<lparr>qmsgs := h\<rparr>)) \<and>
      lqueue next_qmsg h f l ((pre @ [a]) @ filter (\<lambda>a. \<not> ?H w a) as) \<and>
      payload Msg h ((pre @ [a]) @ filter (\<lambda>a. \<not> ?H w a) as) =
        payload Msg (qmsgs w) ((pre @ [a]) @ filter (\<lambda>a. \<not> ?H w a) as) \<and>
      (\<forall>b. b \<notin> set ((pre @ [a]) @ as) \<longrightarrow> h b = qmsgs w b)"
      using Cons.prems nxt by (intro Cons.IH) simp_all
    moreover have "throw_notify hWnd q prev cur n w = throw_notify hWnd q (Some a) (next_qmsg c) n w"
      using Cons.prems(4) c hit False by (subst throw_notify.simps) simp
    ultimately show ?thesis using False by simp
  next
    case True
    obtain h1 f1 l1 where step: "throw_notify hWnd q prev cur n w =
        throw_notify hWnd q prev (next_qmsg c) (n + 1)
          (set_queue q (Q\<lparr>pFirstNotifyMsg := f1, pLastNotifyMsg := l1\<rparr>) (w\<lparr>qmsgs := h1\<rparr>))"
      and lq1: "lqueue next_qmsg h1 f1 l1 (pre @ as)"
      and pl: "payload Msg h1 (pre @ as) = payload Msg (qmsgs w) (pre @ as)"
      and fr: "\<And>b. b \<notin> set (pre @ a # as) \<Longrightarrow> h1 b = qmsgs w b"
      using throw_notify_hit [OF q lq Cons.prems(3) _ c, of cur hWnd n] Cons.prems(4) hit True by auto
    let ?w1 = "set_queue q (Q\<lparr>pFirstNotifyMsg := f1, pLastNotifyMsg := l1\<rparr>) (w\<lparr>qmsgs := h1\<rparr>)"
    have q1: "queues ?w1 q = Some (Q\<lparr>pFirstNotifyMsg := f1, pLastNotifyMsg := l1\<rparr>)" by simp
    have same: "notify_hwnd ?w1 b = notify_hwnd w b" if "b \<in> set as" for b
      using pl that by (auto simp: payload_def notify_hwnd_def)
    have hits: "msg_hit ?w1 hWnd (notify_hwnd ?w1 b) = Some (?H ?w1 b)" if "b \<in> set as" for b
      using Cons.prems(5) [of b] that same [OF that] msg_hit_cong [of ?w1 w] by simp
    from Cons.IH [OF q1 _ Cons.prems(3) nxt hits, of "n + 1"] lq1
    obtain h f l where ih: "throw_notify hWnd q prev (next_qmsg c) (n + 1) ?w1 =
      Some (n + 1 + length (filter (?H ?w1) as),
        set_queue q (Q\<lparr>pFirstNotifyMsg := f, pLastNotifyMsg := l\<rparr>) (w\<lparr>qmsgs := h\<rparr>))"
      "lqueue next_qmsg h f l (pre @ filter (\<lambda>a. \<not> ?H ?w1 a) as)"
      "payload Msg h (pre @ filter (\<lambda>a. \<not> ?H ?w1 a) as) =
        payload Msg h1 (pre @ filter (\<lambda>a. \<not> ?H ?w1 a) as)"
      "\<forall>b. b \<notin> set (pre @ as) \<longrightarrow> h b = h1 b"
      by (auto simp: set_queue_def)
    have fe: "filter (?H ?w1) as = filter (?H w) as" "filter (\<lambda>a. \<not> ?H ?w1 a) as = filter (\<lambda>a. \<not> ?H w a) as"
      using same by (auto intro!: filter_cong)
    have "payload Msg h1 (pre @ filter (\<lambda>a. \<not> ?H w a) as) =
        payload Msg (qmsgs w) (pre @ filter (\<lambda>a. \<not> ?H w a) as)"
      using pl by (auto simp: payload_def)
    then show ?thesis
      using ih fr True dist step unfolding fe
      by (intro exI [of _ h] exI [of _ f] exI [of _ l]) auto
  qed
qed

section \<open>The posted messages are filtered\<close>

lemma shift_posted_ok:
  assumes "k \<le> n - 1" "0 < n" "n < length buf"
  shows "\<exists>buf'. shift_posted (length buf) ((rd + n) mod length buf) ((rd + k) mod length buf)
      ((rd + k) mod length buf) buf = Some buf' \<and> length buf' = length buf \<and>
    seg buf' rd (n - 1) = take k (seg buf rd n) @ drop (Suc k) (seg buf rd n)"
  using assms
proof (induction k arbitrary: buf rule: inc_induct)
  case base
  have e: "ring_next (length buf) ((rd + (n - 1)) mod length buf) = (rd + n) mod length buf"
    using ring_next_mod [of "length buf" rd "n - 1"] base by simp
  have "seg buf rd (n - 1) = take (n - 1) (seg buf rd n)" by (simp add: take_seg)
  then show ?case using e base by (subst shift_posted.simps) simp
next
  case (step k)
  let ?p = "\<lambda>i. (rd + i) mod length buf"
  have k: "Suc k < n" using step by linarith
  have next1: "ring_next (length buf) (?p k) = ?p (Suc k)" by (rule ring_next_mod)
  have ne: "?p (Suc k) \<noteq> ?p n"
    using ring_pos_inj [of "Suc k" "length buf" n rd] k step.prems by auto
  have lt: "?p (Suc k) < length buf" "?p k < length buf"
    using step.prems by (auto intro!: mod_less_divisor)
  let ?L = "seg buf rd n"
  let ?b = "buf[?p k := buf ! ?p (Suc k)]"
  have s: "seg ?b rd n = ?L[k := ?L ! Suc k]"
    using k step.prems by (subst seg_update) (simp_all add: nth_seg)
  have "0 < n" "n < length ?b" using step.prems by simp_all
  from step.IH [OF this] obtain buf' where b': "shift_posted (length buf) (?p n) (?p (Suc k)) (?p (Suc k)) ?b = Some buf'"
    "length buf' = length buf" "seg buf' rd (n - 1) = take (Suc k) (seg ?b rd n) @ drop (Suc (Suc k)) (seg ?b rd n)"
    by auto
  have "take (Suc k) (?L[k := ?L ! Suc k]) = take k ?L @ [?L ! Suc k]"
    using k by (simp add: take_Suc_conv_app_nth)
  moreover have "[?L ! Suc k] @ drop (Suc (Suc k)) ?L = drop (Suc k) ?L"
    using k by (simp add: Cons_nth_drop_Suc)
  ultimately have "seg buf' rd (n - 1) = take k ?L @ drop (Suc k) ?L"
    unfolding b'(3) s using k by simp
  moreover have "shift_posted (length buf) (?p n) (?p k) (?p k) buf = Some buf'"
    using next1 ne lt b'(1) by (subst shift_posted.simps) (simp add: arr_get_def arr_set_def)
  ultimately show ?case using b'(2) by blast
qed

lemma throw_posted_hit:
  assumes ring: "ring_ok Q" and j: "j < nr_posted Q"
    and hit: "hitf (msg_hwnd (posted Q ! j)) = Some True"
  shows "\<exists>buf wr. throw_posted hitf ((readpos Q + j) mod mq_len Q) n Q =
      throw_posted hitf ((readpos Q + j) mod mq_len Q) (n + 1) (Q\<lparr>mq_msg := buf, writepos := wr\<rparr>) \<and>
    ring_ok (Q\<lparr>mq_msg := buf, writepos := wr\<rparr>) \<and>
    posted (Q\<lparr>mq_msg := buf, writepos := wr\<rparr>) = take j (posted Q) @ drop (Suc j) (posted Q)"
proof -
  let ?i = "(readpos Q + j) mod mq_len Q" and ?len = "mq_len Q" and ?nr = "nr_posted Q"
  let ?x = "(posted Q ! j)\<lparr>msg_hwnd := HWND_INVALID\<rparr>"
  let ?b = "(mq_msg Q)[?i := ?x]"
  let ?wr = "if writepos Q > 0 then writepos Q - 1 else ?len - 1"
  have len: "length (mq_msg Q) = ?len" "?nr < ?len" "writepos Q < ?len" "readpos Q < ?len"
    using ring by (simp_all add: ring_ok_def nr_posted_less)
  note w = ring_write(1) [OF ring j refl] ring_write(2-4) [OF ring j refl, of ?x]
  have walk: "?i \<noteq> writepos Q" using ring_walk_step(1) [OF ring j] .
  have wrp: "writepos Q = (readpos Q + ?nr) mod ?len" using ring_walk_end [OF ring] by simp
  have pre: "j \<le> ?nr - 1" "0 < ?nr" "?nr < length ?b" using j len by simp_all
  obtain buf where buf: "shift_posted ?len (writepos Q) ?i ?i ?b = Some buf" "length buf = ?len"
    "seg buf (readpos Q) (?nr - 1) = take j (seg ?b (readpos Q) ?nr) @ drop (Suc j) (seg ?b (readpos Q) ?nr)"
    using shift_posted_ok [OF pre, of "readpos Q"] len wrp by auto
  have run: "throw_posted hitf ?i n Q =
      throw_posted hitf ?i (n + 1) (Q\<lparr>mq_msg := buf, writepos := ?wr\<rparr>)"
    using walk w(1,2) hit buf(1) by (subst throw_posted.simps) simp
  have ring': "ring_ok (Q\<lparr>mq_msg := buf, writepos := ?wr\<rparr>)"
    using len buf(2) ring by (auto simp: ring_ok_def)
  have "?wr = (readpos Q + (?nr - 1)) mod ?len"
  proof (rule ring_next_inj)
    have "ring_next ?len ((readpos Q + (?nr - 1)) mod ?len) = (readpos Q + Suc (?nr - 1)) mod ?len"
      by (rule ring_next_mod)
    also have "Suc (?nr - 1) = ?nr" using j by simp
    also have "(readpos Q + ?nr) mod ?len = writepos Q" by (rule ring_walk_end [OF ring])
    finally show "ring_next ?len ?wr = ring_next ?len ((readpos Q + (?nr - 1)) mod ?len)"
      using len(3) by (cases "writepos Q") (simp_all add: ring_next_def)
    show "?wr < ?len" using len(3) by auto
    show "(readpos Q + (?nr - 1)) mod ?len < ?len" using len(3) by (intro mod_less_divisor) simp
  qed
  then have "nr_posted (Q\<lparr>mq_msg := buf, writepos := ?wr\<rparr>) = ?nr - 1"
    using ring_count_pos [of "readpos Q" ?len "?nr - 1"] len by (simp add: nr_posted_def)
  then have "posted (Q\<lparr>mq_msg := buf, writepos := ?wr\<rparr>) = seg buf (readpos Q) (?nr - 1)"
    by (simp add: posted_def)
  also have "seg ?b (readpos Q) ?nr = (posted Q)[j := ?x]"
    using w(4) by (simp add: posted_def nr_posted_def)
  then have "seg buf (readpos Q) (?nr - 1) = take j (posted Q) @ drop (Suc j) (posted Q)"
    unfolding buf(3) by simp
  finally show ?thesis using run ring' by blast
qed

lemma throw_posted_loop:
  assumes "ring_ok Q" "j \<le> nr_posted Q"
    and "\<And>m. m \<in> set (drop j (posted Q)) \<Longrightarrow> hitf (msg_hwnd m) = Some (P (msg_hwnd m))"
  shows "\<exists>buf wr. throw_posted hitf ((readpos Q + j) mod mq_len Q) n Q =
      Some (n + length (filter (\<lambda>m. P (msg_hwnd m)) (drop j (posted Q))),
            Q\<lparr>mq_msg := buf, writepos := wr\<rparr>) \<and>
    ring_ok (Q\<lparr>mq_msg := buf, writepos := wr\<rparr>) \<and>
    posted (Q\<lparr>mq_msg := buf, writepos := wr\<rparr>) =
      take j (posted Q) @ filter (\<lambda>m. \<not> P (msg_hwnd m)) (drop j (posted Q))"
  using assms
proof (induction "nr_posted Q - j" arbitrary: Q j n)
  case 0
  then have j: "j = nr_posted Q" by simp
  have "throw_posted hitf ((readpos Q + j) mod mq_len Q) n Q = Some (n, Q)"
    unfolding j ring_walk_end [OF 0(2)] by (subst throw_posted.simps) simp
  then show ?case using 0(2) j
    by (intro exI [of _ "mq_msg Q"] exI [of _ "writepos Q"]) simp
next
  case (Suc x)
  then have j: "j < nr_posted Q" by simp
  have cut: "drop j (posted Q) = posted Q ! j # drop (Suc j) (posted Q)"
    using j by (simp add: Cons_nth_drop_Suc)
  have hit: "hitf (msg_hwnd (posted Q ! j)) = Some (P (msg_hwnd (posted Q ! j)))"
    using Suc.prems(3) cut by simp
  show ?case
  proof (cases "P (msg_hwnd (posted Q ! j))")
    case False
    have step: "throw_posted hitf ((readpos Q + j) mod mq_len Q) n Q =
        throw_posted hitf ((readpos Q + Suc j) mod mq_len Q) n Q"
      using ring_walk_step [OF Suc.prems(1) j] hit False by (subst throw_posted.simps) simp
    have "x = nr_posted Q - Suc j" "Suc j \<le> nr_posted Q" using Suc.hyps(2) j by simp_all
    from Suc.hyps(1) [OF this(1) Suc.prems(1) this(2), of n] Suc.prems(3)
    show ?thesis using False j unfolding step cut
      by (simp add: take_Suc_conv_app_nth)
  next
    case True
    obtain buf wr where h: "throw_posted hitf ((readpos Q + j) mod mq_len Q) n Q =
        throw_posted hitf ((readpos Q + j) mod mq_len Q) (n + 1) (Q\<lparr>mq_msg := buf, writepos := wr\<rparr>)"
      "ring_ok (Q\<lparr>mq_msg := buf, writepos := wr\<rparr>)"
      "posted (Q\<lparr>mq_msg := buf, writepos := wr\<rparr>) = take j (posted Q) @ drop (Suc j) (posted Q)"
      using throw_posted_hit [OF Suc.prems(1) j, of hitf n] hit True by auto
    let ?Q = "Q\<lparr>mq_msg := buf, writepos := wr\<rparr>"
    have "nr_posted ?Q = length (take j (posted Q) @ drop (Suc j) (posted Q))"
      using h(3) by (metis length_posted)
    then have nr: "nr_posted ?Q = nr_posted Q - 1" using j by simp
    have "x = nr_posted ?Q - j" "j \<le> nr_posted ?Q" using Suc.hyps(2) j nr by simp_all
    moreover have dt: "drop j (posted ?Q) = drop (Suc j) (posted Q)" "take j (posted ?Q) = take j (posted Q)"
      using j h(3) by simp_all
    moreover have "hitf (msg_hwnd m) = Some (P (msg_hwnd m))" if "m \<in> set (drop (Suc j) (posted Q))" for m
      using that Suc.prems(3) [of m] cut by simp
    ultimately obtain buf' wr' where ih: "throw_posted hitf ((readpos ?Q + j) mod mq_len ?Q) (n + 1) ?Q =
        Some (n + 1 + length (filter (\<lambda>m. P (msg_hwnd m)) (drop (Suc j) (posted Q))),
              ?Q\<lparr>mq_msg := buf', writepos := wr'\<rparr>)"
      "ring_ok (?Q\<lparr>mq_msg := buf', writepos := wr'\<rparr>)"
      "posted (?Q\<lparr>mq_msg := buf', writepos := wr'\<rparr>) =
        take j (posted Q) @ filter (\<lambda>m. \<not> P (msg_hwnd m)) (drop (Suc j) (posted Q))"
      using Suc.hyps(1) [of ?Q j "n + 1", unfolded dt] h(2) by blast
    then show ?thesis using h(1) cut True
      by (intro exI [of _ buf'] exI [of _ wr']) simp
  qed
qed

section \<open>Every sync message of the window is cancelled, and its sender released once\<close>

definition sync_hwnd :: "world \<Rightarrow> nat \<Rightarrow> hwnd" where
  "sync_hwnd w a = msg_hwnd (sMsg (the (syncmsgs w a)))"

definition sync_sem :: "world \<Rightarrow> nat \<Rightarrow> nat" where
  "sync_sem w a = sem_handle (the (syncmsgs w a))"

text \<open>Up to the links, \<open>w'\<close> is \<open>w\<close> with the cells of \<open>as\<close> that satisfy \<open>P\<close> cancelled.\<close>

definition cancelled_cell :: "bool \<Rightarrow> syncmsg \<Rightarrow> syncmsg \<Rightarrow> bool" where
  "cancelled_cell b c c' \<longleftrightarrow> sem_handle c' = sem_handle c \<and>
     (if b then retval c' = LErr ERR_MSG_CANCELED \<and> sMsg c' = (sMsg c)\<lparr>msg_hwnd := HWND_INVALID\<rparr>
      else retval c' = retval c \<and> sMsg c' = sMsg c)"

definition cancelled :: "(hwnd \<Rightarrow> bool) \<Rightarrow> nat list \<Rightarrow> world \<Rightarrow> world \<Rightarrow> bool" where
  "cancelled P as w w' \<longleftrightarrow>
     (\<forall>a. rel_option (cancelled_cell (a \<in> set as \<and> P (sync_hwnd w a))) (syncmsgs w a) (syncmsgs w' a)) \<and>
     (\<forall>s. sems w' s = map_option
        (\<lambda>m. m + length (filter (\<lambda>a. P (sync_hwnd w a) \<and> sync_sem w a = s) as)) (sems w s))"

lemma cancelled_refl: "cancelled P [] w w"
proof -
  have "rel_option (cancelled_cell False) x x" for x
    by (cases x) (simp_all add: cancelled_cell_def)
  moreover have "y = map_option (\<lambda>m. m) y" for y :: "nat option" by (cases y) simp_all
  ultimately show ?thesis by (simp add: cancelled_def)
qed

lemma cancelled_other:
  assumes "cancelled P as w w'" "a \<notin> set as" "syncmsgs w a = Some c"
  shows "\<exists>c'. syncmsgs w' a = Some c' \<and> sMsg c' = sMsg c \<and> sem_handle c' = sem_handle c"
  using assms(1)[unfolded cancelled_def, THEN conjunct1, THEN spec, of a] assms(2,3)
  by (cases "syncmsgs w' a") (auto simp: cancelled_cell_def)

lemma cancelled_Cons:
  assumes one: "cancelled P [a] w w1" and rest: "cancelled P as w1 w2" and na: "a \<notin> set as"
    and live: "\<And>b. b \<in> set as \<Longrightarrow> syncmsgs w b \<noteq> None"
  shows "cancelled P (a # as) w w2"
proof -
  have same: "sync_hwnd w1 b = sync_hwnd w b" "sync_sem w1 b = sync_sem w b" if b: "b \<in> set as" for b
  proof -
    obtain c where c: "syncmsgs w b = Some c" using live [OF b] by blast
    have "b \<notin> set [a]" using na b by auto
    from cancelled_other [OF one this c] c
    show "sync_hwnd w1 b = sync_hwnd w b" "sync_sem w1 b = sync_sem w b"
      by (auto simp: sync_hwnd_def sync_sem_def)
  qed
  have "rel_option (cancelled_cell (b \<in> set (a # as) \<and> P (sync_hwnd w b))) (syncmsgs w b) (syncmsgs w2 b)" for b
  proof -
    have r: "rel_option (cancelled_cell (b \<in> set [a] \<and> P (sync_hwnd w b))) (syncmsgs w b) (syncmsgs w1 b)"
      "rel_option (cancelled_cell (b \<in> set as \<and> P (sync_hwnd w1 b))) (syncmsgs w1 b) (syncmsgs w2 b)"
      using one rest by (simp_all add: cancelled_def)
    show ?thesis
    proof (cases "b \<in> set as")
      case True
      then have "b \<noteq> a" using na by auto
      with r True same(1) [OF True] show ?thesis
        by (cases "syncmsgs w b"; cases "syncmsgs w1 b"; cases "syncmsgs w2 b")
          (auto simp: cancelled_cell_def)
    next
      case False
      with r show ?thesis
        by (cases "syncmsgs w b"; cases "syncmsgs w1 b"; cases "syncmsgs w2 b")
          (auto simp: cancelled_cell_def split: if_splits)
    qed
  qed
  moreover have "sems w2 s = map_option (\<lambda>m. m +
      length (filter (\<lambda>b. P (sync_hwnd w b) \<and> sync_sem w b = s) (a # as))) (sems w s)" for s
  proof -
    have "filter (\<lambda>b. P (sync_hwnd w1 b) \<and> sync_sem w1 b = s) as =
        filter (\<lambda>b. P (sync_hwnd w b) \<and> sync_sem w b = s) as"
      using same by (intro filter_cong) auto
    moreover have "sems w2 s = map_option (\<lambda>m. m +
        length (filter (\<lambda>b. P (sync_hwnd w1 b) \<and> sync_sem w1 b = s) as)) (sems w1 s)"
      "sems w1 s = map_option (\<lambda>m. m +
        length (filter (\<lambda>b. P (sync_hwnd w b) \<and> sync_sem w b = s) [a])) (sems w s)"
      using one rest by (simp_all add: cancelled_def)
    ultimately show ?thesis by (cases "sems w s") auto
  qed
  ultimately show ?thesis by (simp add: cancelled_def)
qed

lemma throw_sync_hit:
  assumes q: "queues w q = Some Q" and c: "cur = Some a" "syncmsgs w a = Some c"
    and hit: "hitf (msg_hwnd (sMsg c)) = Some (P (msg_hwnd (sMsg c)))" "P (msg_hwnd (sMsg c))"
    and sem: "sems w (sem_handle c) \<noteq> None" and na: "a \<notin> set as"
    and prev: "\<And>p. prev = Some p \<Longrightarrow> p \<notin> set (a # as) \<and> syncmsgs w p \<noteq> None"
  shows "\<exists>w1 f1 prev1. throw_sync hitf q prev cur n w = throw_sync hitf q prev1 (pNext c) (n + 1) w1 \<and>
    cancelled P [a] w w1 \<and> queues w1 = (queues w)(q := Some (Q\<lparr>pFirstSyncMsg := f1\<rparr>)) \<and>
    wins w1 = wins w \<and> qmsgs w1 = qmsgs w \<and> (\<forall>b \<in> set as. syncmsgs w1 b = syncmsgs w b) \<and>
    (\<forall>p. prev1 = Some p \<longrightarrow> p \<notin> set as \<and> syncmsgs w1 p \<noteq> None)"
proof -
  obtain m where m: "sems w (sem_handle c) = Some m" using sem by blast
  let ?c = "c\<lparr>sMsg := (sMsg c)\<lparr>msg_hwnd := HWND_INVALID\<rparr>, retval := LErr ERR_MSG_CANCELED\<rparr>"
  have rel: "rel_option (cancelled_cell False) x x" for x by (cases x) (simp_all add: cancelled_cell_def)
  have semw: "sems w s = map_option (\<lambda>m. m) (sems w s)" for s by (cases "sems w s") simp_all
  show ?thesis
  proof (cases prev)
    case None
    let ?w = "(set_queue q (Q\<lparr>pFirstSyncMsg := pNext c\<rparr>) (w\<lparr>syncmsgs := (syncmsgs w)(a := Some ?c)\<rparr>))
        \<lparr>sems := (sems w)(sem_handle c := Some (m + 1))\<rparr>"
    have "throw_sync hitf q prev cur n w = throw_sync hitf q None (pNext c) (n + 1) ?w"
      using c hit None q m by (subst throw_sync.simps) (simp add: sem_post_def set_queue_def)
    moreover have "cancelled P [a] w ?w"
      using c(2) hit m rel semw by (auto simp: cancelled_def sync_hwnd_def sync_sem_def cancelled_cell_def)
    ultimately show ?thesis using na
      by (intro exI [of _ ?w] exI [of _ "pNext c"] exI [of _ None]) auto
  next
    case (Some p)
    then obtain d where d: "syncmsgs w p = Some d" "p \<noteq> a" "p \<notin> set as" using prev by auto
    let ?w = "w\<lparr>syncmsgs := (syncmsgs w)(a := Some ?c, p := Some (d\<lparr>pNext := pNext c\<rparr>)),
        sems := (sems w)(sem_handle c := Some (m + 1))\<rparr>"
    have "throw_sync hitf q prev cur n w = throw_sync hitf q (Some a) (pNext c) (n + 1) ?w"
      using c hit Some d m by (subst throw_sync.simps) (simp add: sem_post_def)
    moreover have "cancelled P [a] w ?w"
      using c(2) d hit m rel semw by (auto simp: cancelled_def sync_hwnd_def sync_sem_def cancelled_cell_def)
    ultimately show ?thesis using na d q
      by (intro exI [of _ ?w] exI [of _ "pFirstSyncMsg Q"] exI [of _ "Some a"]) (auto simp: fun_upd_idem)
  qed
qed

lemma throw_sync_loop:
  assumes "queues w q = Some Q" "lseg pNext (syncmsgs w) cur as None" "distinct as"
    and "\<And>p. prev = Some p \<Longrightarrow> p \<notin> set as \<and> syncmsgs w p \<noteq> None"
    and "\<And>a. a \<in> set as \<Longrightarrow> hitf (sync_hwnd w a) = Some (P (sync_hwnd w a)) \<and> sems w (sync_sem w a) \<noteq> None"
  shows "\<exists>w' f. throw_sync hitf q prev cur n w =
      Some (n + length (filter (\<lambda>a. P (sync_hwnd w a)) as), w') \<and> cancelled P as w w' \<and>
    queues w' = (queues w)(q := Some (Q\<lparr>pFirstSyncMsg := f\<rparr>)) \<and>
    wins w' = wins w \<and> qmsgs w' = qmsgs w"
  using assms
proof (induction as arbitrary: prev cur n w Q)
  case Nil
  then show ?case
    by (subst throw_sync.simps)
      (auto simp: cancelled_refl fun_upd_idem intro!: exI [of _ "pFirstSyncMsg Q"])
next
  case (Cons a as)
  obtain c where c: "cur = Some a" "syncmsgs w a = Some c" "lseg pNext (syncmsgs w) (pNext c) as None"
    using Cons.prems(2) by (auto split: option.splits)
  have na: "a \<notin> set as" "distinct as" using Cons.prems(3) by auto
  have live: "syncmsgs w b \<noteq> None" if "b \<in> set as" for b using lseg_mem [OF c(3) that] by auto
  have hit: "hitf (msg_hwnd (sMsg c)) = Some (P (msg_hwnd (sMsg c)))" and sem: "sems w (sem_handle c) \<noteq> None"
    using Cons.prems(5) [of a] c(2) by (simp_all add: sync_hwnd_def sync_sem_def)
  show ?case
  proof (cases "P (msg_hwnd (sMsg c))")
    case False
    have one: "cancelled P [a] w w"
      using cancelled_refl [of P w] False c(2)
      by (auto simp: cancelled_def sync_hwnd_def option.rel_sel cancelled_cell_def)
    have "throw_sync hitf q prev cur n w = throw_sync hitf q (Some a) (pNext c) n w"
      using c hit False by (subst throw_sync.simps) simp
    moreover have "\<exists>w' f. throw_sync hitf q (Some a) (pNext c) n w =
        Some (n + length (filter (\<lambda>a. P (sync_hwnd w a)) as), w') \<and> cancelled P as w w' \<and>
      queues w' = (queues w)(q := Some (Q\<lparr>pFirstSyncMsg := f\<rparr>)) \<and> wins w' = wins w \<and> qmsgs w' = qmsgs w"
      using Cons.prems(5) na c(2) by (intro Cons.IH [OF Cons.prems(1) c(3) na(2)]) auto
    ultimately show ?thesis
      using False c(2) cancelled_Cons [OF one _ na(1) live] by (fastforce simp: sync_hwnd_def)
  next
    case True
    obtain m where m: "sems w (sem_handle c) = Some m" using sem by blast
    let ?c = "c\<lparr>sMsg := (sMsg c)\<lparr>msg_hwnd := HWND_INVALID\<rparr>, retval := LErr ERR_MSG_CANCELED\<rparr>"
    obtain w1 f1 prev1 where w1: "throw_sync hitf q prev cur n w = throw_sync hitf q prev1 (pNext c) (n + 1) w1"
      "cancelled P [a] w w1" "queues w1 = (queues w)(q := Some (Q\<lparr>pFirstSyncMsg := f1\<rparr>))"
      "wins w1 = wins w" "qmsgs w1 = qmsgs w" "\<And>b. b \<in> set as \<Longrightarrow> syncmsgs w1 b = syncmsgs w b"
      "\<And>p. prev1 = Some p \<Longrightarrow> p \<notin> set as \<and> syncmsgs w1 p \<noteq> None"
      using throw_sync_hit [where P = P and hitf = hitf and as = as and prev = prev and n = n, OF Cons.prems(1) c(1,2) hit True sem na(1)] Cons.prems(4)
      by auto
    have sems1: "sems w1 s = None \<longleftrightarrow> sems w s = None" for s
      using w1(2) by (cases "sems w s") (simp_all add: cancelled_def)
    have same: "sync_hwnd w1 b = sync_hwnd w b" "sync_sem w1 b = sync_sem w b" if "b \<in> set as" for b
      using w1(6) [OF that] by (simp_all add: sync_hwnd_def sync_sem_def)
    have "lseg pNext (syncmsgs w1) (pNext c) as None"
      using c(3) lseg_cong [of as "syncmsgs w1" "syncmsgs w"] w1(6) by simp
    moreover have "queues w1 q = Some (Q\<lparr>pFirstSyncMsg := f1\<rparr>)" using w1(3) by simp
    moreover have "hitf (sync_hwnd w1 b) = Some (P (sync_hwnd w1 b)) \<and> sems w1 (sync_sem w1 b) \<noteq> None"
      if "b \<in> set as" for b using Cons.prems(5) [of b] that same [OF that] sems1 by auto
    ultimately have "\<exists>w' f. throw_sync hitf q prev1 (pNext c) (n + 1) w1 =
        Some (n + 1 + length (filter (\<lambda>a. P (sync_hwnd w1 a)) as), w') \<and> cancelled P as w1 w' \<and>
      queues w' = (queues w1)(q := Some (Q\<lparr>pFirstSyncMsg := f1, pFirstSyncMsg := f\<rparr>)) \<and>
      wins w' = wins w1 \<and> qmsgs w' = qmsgs w1"
      using w1(7) na(2) by (intro Cons.IH) auto
    moreover have "filter (\<lambda>a. P (sync_hwnd w1 a)) as = filter (\<lambda>a. P (sync_hwnd w a)) as"
      using same by (intro filter_cong) auto
    ultimately show ?thesis
      using True c(2) w1 cancelled_Cons [OF w1(2) _ na(1) live] by (fastforce simp: sync_hwnd_def)
  qed
qed

section \<open>The whole function\<close>

text \<open>The window test as a predicate, for handles on which it has a result.\<close>

definition is_hit :: "world \<Rightarrow> hwnd \<Rightarrow> hwnd \<Rightarrow> bool" where
  "is_hit w hWnd h \<longleftrightarrow> msg_hit w hWnd h = Some True"

lemma msg_hit_is_hit: "msg_hit w hWnd h \<noteq> None \<Longrightarrow> msg_hit w hWnd h = Some (is_hit w hWnd h)"
  by (auto simp: is_hit_def)

lemma is_hit_self: "is_hit w hWnd hWnd"
  by (simp add: is_hit_def msg_hit_def)

text \<open>The handles the function tests.\<close>

definition throw_targets :: "mgenv \<Rightarrow> nat list \<Rightarrow> nat list \<Rightarrow> world \<Rightarrow> msgqueue \<Rightarrow> hwnd set" where
  "throw_targets E as ss w Q = set (map (notify_hwnd w) as) \<union> set (map (sync_hwnd w) ss) \<union>
     set (map msg_hwnd (posted Q)) \<union>
     {t_hWnd t | t k. k < DEF_NR_TIMERS E \<and> bit (expired_timer_mask Q) k \<and> timer_slots Q ! k = Some t}"

definition timers_ok :: "mgenv \<Rightarrow> msgqueue \<Rightarrow> bool" where
  "timers_ok E Q \<longleftrightarrow> length (timer_slots Q) = DEF_NR_TIMERS E \<and>
     (\<forall>k < DEF_NR_TIMERS E. bit (expired_timer_mask Q) k \<longrightarrow> timer_slots Q ! k \<noteq> None)"

lemma throw_timer_loop:
  assumes "n \<le> length slots" "\<And>k. k < n \<Longrightarrow> bit em k \<Longrightarrow> \<exists>t. slots ! k = Some t \<and>
      hitf (t_hWnd t) = Some (P (t_hWnd t))"
  shows "\<exists>em'. foldm (throw_timer_slot hitf slots) [0..<n] em = Some em' \<and>
    (\<forall>i. bit em' i \<longleftrightarrow> bit em i \<and> \<not> (i < n \<and> P (t_hWnd (the (slots ! i)))))"
  using assms
proof (induction n)
  case (Suc n)
  then obtain em1 where em1: "foldm (throw_timer_slot hitf slots) [0..<n] em = Some em1"
    "\<And>i. bit em1 i \<longleftrightarrow> bit em i \<and> \<not> (i < n \<and> P (t_hWnd (the (slots ! i))))" by auto
  show ?case
  proof (cases "bit em n")
    case True
    then obtain t where t: "slots ! n = Some t" "hitf (t_hWnd t) = Some (P (t_hWnd t))"
      using Suc.prems(2) by blast
    then have "throw_timer_slot hitf slots n em1 =
        Some (if P (t_hWnd t) then em1 AND NOT (push_bit n 1) else em1)"
      using True em1(2) [of n] Suc.prems(1) by (simp add: throw_timer_slot_def arr_get_def)
    then have run: "foldm (throw_timer_slot hitf slots) [0..<Suc n] em =
        Some (if P (t_hWnd t) then em1 AND NOT (push_bit n 1) else em1)"
      using em1(1) by (simp add: foldm_append)
    have "bit (if P (t_hWnd t) then em1 AND NOT (push_bit n 1) else em1) i \<longleftrightarrow>
        bit em i \<and> \<not> (i < Suc n \<and> P (t_hWnd (the (slots ! i))))" for i
      using em1(2) [of i] t(1) True by (cases "i = n") (auto simp: bit_clear_flag less_Suc_eq)
    with run show ?thesis by blast
  next
    case False
    then have "throw_timer_slot hitf slots n em1 = Some em1"
      using em1(2) [of n] by (simp add: throw_timer_slot_def)
    then have run: "foldm (throw_timer_slot hitf slots) [0..<Suc n] em = Some em1"
      using em1(1) by (simp add: foldm_append)
    have "bit em1 i \<longleftrightarrow> bit em i \<and> \<not> (i < Suc n \<and> P (t_hWnd (the (slots ! i))))" for i
      using em1(2) [of i] False by (cases "i = n") (auto simp: less_Suc_eq)
    with run show ?thesis by blast
  qed
qed simp

theorem mg_throw_away_messages_ok:
  assumes wf: "msg_wf N w" and q: "queues w q = Some Q"
    and ss: "lqueue pNext (syncmsgs w) (pFirstSyncMsg Q) (pLastSyncMsg Q) ss"
    and sem: "\<And>a. a \<in> set ss \<Longrightarrow> sems w (sync_sem w a) \<noteq> None"
    and ti: "timers_ok E Q" and tg: "\<And>h. h \<in> throw_targets E (N q) ss w Q \<Longrightarrow> msg_hit w hWnd h \<noteq> None"
  shows "\<exists>w' N' Q'. mg_throw_away_messages E q hWnd w =
      Some (length (filter (\<lambda>a. is_hit w hWnd (notify_hwnd w a)) (N q)) +
            length (filter (\<lambda>a. is_hit w hWnd (sync_hwnd w a)) ss) +
            length (filter (\<lambda>m. is_hit w hWnd (msg_hwnd m)) (posted Q)), w') \<and>
    msg_wf N' w' \<and> view N' w' = (view N w)(q := map_option (\<lambda>v. v
      \<lparr>v_notify := filter (\<lambda>m. \<not> is_hit w hWnd (msg_hwnd m)) (v_notify v),
       v_posted := filter (\<lambda>m. \<not> is_hit w hWnd (msg_hwnd m)) (v_posted v)\<rparr>) (view N w q)) \<and>
    cancelled (is_hit w hWnd) ss w w' \<and> queues w' q = Some Q' \<and>
    (\<forall>k < DEF_NR_TIMERS E. bit (expired_timer_mask Q') k \<longleftrightarrow> bit (expired_timer_mask Q) k \<and>
       \<not> is_hit w hWnd (t_hWnd (the (timer_slots Q ! k))))"
proof -
  let ?P = "is_hit w hWnd"
  have nq: "nq_wf (qmsgs w) (N q) Q" by (rule msg_wf_queue [OF wf q])
  then have ring: "ring_ok Q" and lq: "lqueue next_qmsg (qmsgs w) (pFirstNotifyMsg Q) (pLastNotifyMsg Q) ([] @ N q)"
    and fl: "N q \<noteq> [] \<longrightarrow> has_flag (dwState Q) QS_NOTIFYMSG" "posted Q \<noteq> [] \<longrightarrow> has_flag (dwState Q) QS_POSTMSG"
    by (simp_all add: nq_wf_def)
  have hit: "msg_hit w hWnd h = Some (?P h)" if "h \<in> throw_targets E (N q) ss w Q" for h
    using tg [OF that] by (rule msg_hit_is_hit)
  have cur: "pFirstNotifyMsg Q = (if N q = [] then None else Some (hd (N q)))"
    using lq by (auto dest: lqueue_first)
  have "msg_hit w hWnd (notify_hwnd w a) = Some (?P (notify_hwnd w a))" if "a \<in> set (N q)" for a
    using that by (intro hit) (simp add: throw_targets_def)
  from throw_notify_loop [OF q lq _ cur this, of None 0]
  obtain h f l where no: "throw_notify hWnd q None (pFirstNotifyMsg Q) 0 w =
      Some (length (filter (\<lambda>a. ?P (notify_hwnd w a)) (N q)),
        set_queue q (Q\<lparr>pFirstNotifyMsg := f, pLastNotifyMsg := l\<rparr>) (w\<lparr>qmsgs := h\<rparr>))"
    "lqueue next_qmsg h f l (filter (\<lambda>a. \<not> ?P (notify_hwnd w a)) (N q))"
    "payload Msg h (filter (\<lambda>a. \<not> ?P (notify_hwnd w a)) (N q)) =
      payload Msg (qmsgs w) (filter (\<lambda>a. \<not> ?P (notify_hwnd w a)) (N q))"
    "\<And>b. b \<notin> set (N q) \<Longrightarrow> h b = qmsgs w b" by auto
  let ?Q1 = "Q\<lparr>pFirstNotifyMsg := f, pLastNotifyMsg := l\<rparr>"
  let ?w1 = "set_queue q ?Q1 (w\<lparr>qmsgs := h\<rparr>)"
  have q1: "queues ?w1 q = Some ?Q1" by simp
  have sh: "sync_hwnd ?w1 a = sync_hwnd w a" "sync_sem ?w1 a = sync_sem w a" for a
    by (simp_all add: sync_hwnd_def sync_sem_def)
  have seg: "lseg pNext (syncmsgs ?w1) (pFirstSyncMsg Q) ss None" "distinct ss"
    using ss by (simp_all add: lqueue_def)
  have "msg_hit w hWnd (sync_hwnd ?w1 a) = Some (?P (sync_hwnd ?w1 a)) \<and> sems ?w1 (sync_sem ?w1 a) \<noteq> None"
    if "a \<in> set ss" for a
    using that hit [of "sync_hwnd w a"] sem [OF that] unfolding sh by (simp add: throw_targets_def)
  from throw_sync_loop [OF q1 seg(1,2) _ this, of None 0]
  obtain w2 f2 where sy: "throw_sync (msg_hit w hWnd) q None (pFirstSyncMsg Q) 0 ?w1 =
      Some (length (filter (\<lambda>a. ?P (sync_hwnd w a)) ss), w2)" "cancelled ?P ss ?w1 w2"
    "queues w2 = (queues ?w1)(q := Some (?Q1\<lparr>pFirstSyncMsg := f2\<rparr>))" "qmsgs w2 = h" "wins w2 = wins w"
    by (auto simp: sh)
  let ?Q2 = "?Q1\<lparr>pFirstSyncMsg := f2\<rparr>"
  have ring2: "ring_ok ?Q2" "posted ?Q2 = posted Q" using ring by (simp_all add: ring_ok_def)
  have rp: "(readpos ?Q2 + 0) mod mq_len ?Q2 = readpos Q" using ring by (simp add: ring_ok_def)
  have "msg_hit w hWnd (msg_hwnd m) = Some (?P (msg_hwnd m))" if "m \<in> set (drop 0 (posted ?Q2))" for m
    using that unfolding ring2 by (intro hit) (simp add: throw_targets_def)
  from throw_posted_loop [OF ring2(1), of 0 "msg_hit w hWnd" ?P 0, OF _ this]
  obtain buf wr where po: "throw_posted (msg_hit w hWnd) (readpos Q) 0 ?Q2 =
      Some (length (filter (\<lambda>m. ?P (msg_hwnd m)) (posted Q)), ?Q2\<lparr>mq_msg := buf, writepos := wr\<rparr>)"
    "ring_ok (?Q2\<lparr>mq_msg := buf, writepos := wr\<rparr>)"
    "posted (?Q2\<lparr>mq_msg := buf, writepos := wr\<rparr>) = filter (\<lambda>m. \<not> ?P (msg_hwnd m)) (posted Q)"
    unfolding rp ring2(2) by auto
  let ?Q3 = "?Q2\<lparr>mq_msg := buf, writepos := wr\<rparr>"
  have "\<exists>t. timer_slots Q ! k = Some t \<and> msg_hit w hWnd (t_hWnd t) = Some (?P (t_hWnd t))"
    if k: "k < DEF_NR_TIMERS E" "bit (expired_timer_mask Q) k" for k
  proof -
    obtain t where t: "timer_slots Q ! k = Some t" using ti k by (auto simp: timers_ok_def)
    then have "t_hWnd t \<in> throw_targets E (N q) ss w Q" using k by (auto simp: throw_targets_def)
    with t hit show ?thesis by blast
  qed
  then obtain em where em: "foldm (throw_timer_slot (msg_hit w hWnd) (timer_slots Q)) [0..<DEF_NR_TIMERS E]
      (expired_timer_mask Q) = Some em"
    "\<And>i. bit em i \<longleftrightarrow> bit (expired_timer_mask Q) i \<and>
       \<not> (i < DEF_NR_TIMERS E \<and> ?P (t_hWnd (the (timer_slots Q ! i))))"
    using throw_timer_loop [of "DEF_NR_TIMERS E" "timer_slots Q" "expired_timer_mask Q" "msg_hit w hWnd" ?P] ti
    unfolding timers_ok_def by auto
  let ?Q4 = "?Q3\<lparr>expired_timer_mask := em\<rparr>"
  let ?w4 = "set_queue q ?Q4 w2"
  let ?as = "filter (\<lambda>a. \<not> ?P (notify_hwnd w a)) (N q)"
  have run: "mg_throw_away_messages E q hWnd w =
      Some (length (filter (\<lambda>a. ?P (notify_hwnd w a)) (N q)) + length (filter (\<lambda>a. ?P (sync_hwnd w a)) ss) +
            length (filter (\<lambda>m. ?P (msg_hwnd m)) (posted Q)), ?w4)"
    using no(1) sy(1,3) po(1) em(1) by (simp add: mg_throw_away_messages_def q)
  have qs: "queues ?w4 = (queues w)(q := Some ?Q4)" using sy(3) by simp
  have qm: "qmsgs ?w4 = h" using sy(4) by simp
  have fr: "qmsgs ?w4 b = qmsgs w b" if "r \<noteq> q" "b \<in> set (N r)" for r b
    unfolding qm using no(4) [of b] msg_wf_disjoint [OF wf that] by simp
  have new: "nq_wf (qmsgs ?w4) ?as ?Q4"
    unfolding qm nq_wf_def using po(2,3) no(2) fl by (auto simp: posted_cong [of ?Q4 ?Q3] ring_ok_cong [of ?Q4 ?Q3])
  have dj: "b \<notin> set (N r)" if "r \<noteq> q" "b \<in> set ?as" for r b
    using msg_wf_disjoint [OF wf, of q r b] that by auto
  note upd = msg_wf_upd [OF wf qs fr new dj]
  have "filter (\<lambda>m. \<not> ?P (msg_hwnd m)) (payload Msg (qmsgs w) (N q)) = payload Msg (qmsgs w) ?as"
    by (simp add: payload_def filter_map o_def notify_hwnd_def)
  then have v: "view (N(q := ?as)) ?w4 = (view N w)(q := map_option (\<lambda>v. v
      \<lparr>v_notify := filter (\<lambda>m. \<not> ?P (msg_hwnd m)) (v_notify v),
       v_posted := filter (\<lambda>m. \<not> ?P (msg_hwnd m)) (v_posted v)\<rparr>) (view N w q))"
    using upd(2) po(3) no(3) unfolding qm
    by (simp add: view_Some [OF q] qview_of_def posted_cong [of ?Q4 ?Q3])
  have "cancelled ?P ss w ?w4" using sy(2) by (simp add: cancelled_def sync_hwnd_def sync_sem_def)
  with run upd(1) v em(2) qs show ?thesis
    by (intro exI [of _ ?w4] exI [of _ "N(q := ?as)"] exI [of _ ?Q4]) simp
qed

section \<open>Emptying a queue\<close>

lemma EmptyMessageQueue_ok:
  assumes wf: "msg_wf N w" and mq: "getMsgQueueIfWindowInThisThread self w hWnd = Some (Some q)"
    and q: "queues w q = Some Q"
    and ss: "lqueue pNext (syncmsgs w) (pFirstSyncMsg Q) (pLastSyncMsg Q) ss"
    and sem: "\<And>a. a \<in> set ss \<Longrightarrow> sems w (sync_sem w a) \<noteq> None"
  shows "\<exists>w'. EmptyMessageQueue self hWnd w = Some (True, w') \<and> msg_wf (N(q := [])) w' \<and>
    view (N(q := [])) w' = (view N w)(q := map_option
      (\<lambda>v. v\<lparr>v_notify := [], v_posted := [], v_state := QS_EMPTY\<rparr>) (view N w q)) \<and>
    cancelled (\<lambda>_. True) ss w w' \<and> (\<forall>a \<in> set (N q). qmsgs w' a = None)"
proof -
  have nq: "nq_wf (qmsgs w) (N q) Q" by (rule msg_wf_queue [OF wf q])
  then have ch: "lseg next_qmsg (qmsgs w) (pFirstNotifyMsg Q) (N q) None" "distinct (N q)"
    and ring: "0 < mq_len Q" "length (mq_msg Q) = mq_len Q"
    by (simp_all add: nq_wf_def lqueue_def ring_ok_def)
  have seg: "lseg pNext (syncmsgs w) (pFirstSyncMsg Q) ss None" "distinct ss"
    using ss by (simp_all add: lqueue_def)
  obtain w1 f n where sy: "throw_sync (\<lambda>_. Some True) q None (pFirstSyncMsg Q) 0 w = Some (n, w1)"
    "cancelled (\<lambda>_. True) ss w w1" "queues w1 = (queues w)(q := Some (Q\<lparr>pFirstSyncMsg := f\<rparr>))"
    "qmsgs w1 = qmsgs w"
    using throw_sync_loop [OF q seg, of None "\<lambda>_. Some True" "\<lambda>_. True" 0] sem by auto
  let ?h = "\<lambda>a. if a \<in> set (N q) then None else qmsgs w a"
  let ?Q = "Q\<lparr>pFirstSyncMsg := f, pFirstNotifyMsg := None, pLastNotifyMsg := None, readpos := 0,
            writepos := 0, dwState := QS_EMPTY, expired_timer_mask := 0\<rparr>"
  let ?w = "set_queue q ?Q (w1\<lparr>qmsgs := ?h\<rparr>)"
  have run: "EmptyMessageQueue self hWnd w = Some (True, ?w)"
    using mq sy(1,3,4) free_qmsgs_chain [OF ch] by (simp add: EmptyMessageQueue_def q)
  have qs: "queues ?w = (queues w)(q := Some ?Q)" using sy(3) by simp
  have qm: "qmsgs ?w = ?h" by simp
  have fr: "qmsgs ?w b = qmsgs w b" if "r \<noteq> q" "b \<in> set (N r)" for r b
    using msg_wf_disjoint [OF wf that] by simp
  have new: "nq_wf (qmsgs ?w) [] ?Q" using ring by (simp add: nq_wf_def ring_ok_def posted_none)
  have dj: "b \<notin> set (N r)" if "r \<noteq> q" "b \<in> set []" for r b using that by simp
  have upd: "msg_wf (N(q := [])) ?w" "view (N(q := [])) ?w = (view N w)(q := Some (qview_of (qmsgs ?w) [] ?Q))"
    using msg_wf_upd [OF wf qs _ new dj] fr by blast+
  have "cancelled (\<lambda>_. True) ss w ?w" using sy(2) by (simp add: cancelled_def)
  with run upd q show ?thesis
    by (intro exI [of _ ?w]) (simp add: view_Some qview_of_def posted_none)
qed

section \<open>Where the unlinking of sync messages goes wrong\<close>

text \<open>
  Of two cancelled messages after a kept one, the second stays linked: the code links the first,
  removed cell to it instead of the kept one's successor.
\<close>

lemma throw_sync_leaves_linked:
  assumes q: "queues w q = Some Q" "pFirstSyncMsg Q = Some a"
    and cells: "syncmsgs w a = Some ca" "syncmsgs w b = Some cb" "syncmsgs w c = Some cc"
    and links: "pNext ca = Some b" "pNext cb = Some c" "pNext cc = None" and dist: "distinct [a, b, c]"
    and hits: "hitf (msg_hwnd (sMsg ca)) = Some False" "hitf (msg_hwnd (sMsg cb)) = Some True"
      "hitf (msg_hwnd (sMsg cc)) = Some True"
    and sems: "sems w (sem_handle cb) = Some m" "sems w (sem_handle cc) = Some n" "sem_handle cb \<noteq> sem_handle cc"
  shows "\<exists>w' d. throw_sync hitf q None (Some a) 0 w = Some (2, w') \<and> queues w' = queues w \<and>
    lseg pNext (syncmsgs w') (Some a) [a, c] None \<and> syncmsgs w' c = Some d \<and>
    retval d = LErr ERR_MSG_CANCELED \<and> sems w' (sem_handle cc) = Some (n + 1)"
  using assms
  by (subst throw_sync.simps, simp, subst throw_sync.simps, simp add: sem_post_def,
      subst throw_sync.simps, simp add: sem_post_def, subst throw_sync.simps, simp)

text \<open>
  When the last message is cancelled after a kept one, the last pointer keeps naming it; the next
  sender links its message there, where no receiver finds it.
\<close>

lemma throw_sync_loses_next:
  assumes q: "queues w q = Some Q" "pFirstSyncMsg Q = Some a" "pLastSyncMsg Q = Some b"
    and cells: "syncmsgs w a = Some ca" "syncmsgs w b = Some cb"
    and links: "pNext ca = Some b" "pNext cb = None" and dist: "a \<noteq> b" "x \<noteq> a" "x \<noteq> b"
    and hits: "hitf (msg_hwnd (sMsg ca)) = Some False" "hitf (msg_hwnd (sMsg cb)) = Some True"
    and sems: "sems w (sem_handle cb) = Some m"
  shows "\<exists>w1 w2 Q2. throw_sync hitf q None (Some a) 0 w = Some (1, w1) \<and>
    link_sync q x (w1\<lparr>syncmsgs := (syncmsgs w1)(x := Some cx)\<rparr>) = Some w2 \<and>
    queues w2 q = Some Q2 \<and> lseg pNext (syncmsgs w2) (pFirstSyncMsg Q2) [a] None \<and>
    link_sync q x (w1\<lparr>syncmsgs := (syncmsgs w1)(x := Some cx, b := None)\<rparr>) = None"
  using assms
  by (subst throw_sync.simps, simp, subst throw_sync.simps, simp add: sem_post_def,
      subst throw_sync.simps, simp add: link_sync_def)

end
