(* ===== verification/MsgSteps.thy ===== *)
theory MsgSteps
  imports MsgThrow
begin

text \<open>
  The messaging module as a state machine: any sequence of sends, posts, receptions and removals
  by any threads, each operation one step (the queue lock makes it atomic). The interpretation of
  \<open>transition_system\<close> gives the reachability theorem: the invariant \<open>msg_wf\<close> holds of every
  reachable store.
\<close>

lemma PeekPostMessage_ok:
  assumes wf: "msg_wf N w" and mq: "getMsgQueueIfWindowInThisThread self w hWnd = Some (Some q)"
    and q: "queues w q = Some Q" and ps: "posted Q = m # ms"
    and want: "(lo = 0 \<and> hi = 0) \<or> (lo \<le> message m \<and> message m \<le> hi)"
  shows "\<exists>w'. PeekPostMessage self (Some pm) hWnd lo hi PM_REMOVE w =
      Some (True, Some (m\<lparr>pSyncMsg := None\<rparr>), w') \<and> msg_wf N w' \<and>
    view N w' = (view N w)(q := map_option (\<lambda>v. v\<lparr>v_posted := ms\<rparr>) (view N w q))"
proof -
  have nq: "nq_wf (qmsgs w) (N q) Q" by (rule msg_wf_queue [OF wf q])
  then have ring: "ring_ok Q" and fl: "has_flag (dwState Q) QS_POSTMSG"
    using ps by (auto simp: nq_wf_def)
  obtain w' Q' where t: "peek_post undefined (\<lambda>_. True) True q (zero_msg, w) =
      Some (True, CheckCapturedMouseMessage undefined w (m\<lparr>pSyncMsg := None\<rparr>), w')" "msg_wf N w'"
    "view N w' = (view N w)(q := Some ((qview_of (qmsgs w) (N q) Q)\<lparr>v_posted := ms\<rparr>))"
    using peek_post_take [OF wf q ps, of "\<lambda>_. True" undefined zero_msg] by auto
  have ne: "readpos Q \<noteq> writepos Q" using ps posted_none by fastforce
  have "arr_get (mq_msg Q) (readpos Q) = Some m"
    using posted_Cons [OF ring ne] ps ring by (simp add: arr_get_def ring_ok_def)
  with t(1) fl ne have w': "w' = set_queue q (Q\<lparr>readpos := ring_next (mq_len Q) (readpos Q)\<rparr>) w"
    by (simp add: peek_post_def q)
  have "PeekPostMessage self (Some pm) hWnd lo hi PM_REMOVE w = Some (True, Some (m\<lparr>pSyncMsg := None\<rparr>), w')"
    using mq fl ne \<open>arr_get (mq_msg Q) (readpos Q) = Some m\<close> want
    by (simp add: PeekPostMessage_def q w' conj_commute)
  with t q show ?thesis by (simp add: view_Some)
qed

text \<open>One atomic operation by thread \<open>self\<close>.\<close>

inductive msg_step :: "mgenv \<Rightarrow> world \<Rightarrow> world \<Rightarrow> bool" for E where
  post: "hwnd_ok w h \<Longrightarrow> PostMessage E self h n wp lp w = Some (r, w') \<Longrightarrow> msg_step E w w'"
| notify: "hwnd_ok w h \<Longrightarrow> SendNotifyMessage E self h n wp lp w = Some (r, w') \<Longrightarrow> msg_step E w w'"
| prior: "hwnd_ok w h \<Longrightarrow> SendPriorNotifyMessage E self h n wp lp w = Some (r, w') \<Longrightarrow> msg_step E w w'"
| window: "hwnd_ok w h \<Longrightarrow> NotifyWindow E self h nid code d w = Some (r, w') \<Longrightarrow> msg_step E w w'"
| get: "queues w q = Some Q \<Longrightarrow> \<not> has_flag (dwState Q) QS_QUIT \<Longrightarrow> \<not> sync_pending Q \<Longrightarrow>
    pFirstNotifyMsg Q \<noteq> None \<or> posted Q \<noteq> [] \<Longrightarrow>
    peek_loop E self (IS_MSG_WANTED 0 0) b True hWnd q (pm, w) = Some (r, m, w') \<Longrightarrow> msg_step E w w'"
| getpost: "getMsgQueueIfWindowInThisThread self w hWnd = Some (Some q) \<Longrightarrow> queues w q = Some Q \<Longrightarrow>
    posted Q \<noteq> [] \<Longrightarrow> PeekPostMessage self (Some pm) hWnd 0 0 PM_REMOVE w = Some (r, m', w') \<Longrightarrow>
    msg_step E w w'"


definition msg_init :: "world \<Rightarrow> bool" where
  "msg_init w \<longleftrightarrow> (\<forall>q. case queues w q of None \<Rightarrow> True
     | Some Q \<Rightarrow> ring_ok Q \<and> posted Q = [] \<and> pFirstNotifyMsg Q = None)"

definition msg_inv :: "world \<Rightarrow> bool" where
  "msg_inv w \<longleftrightarrow> (\<exists>N. msg_wf N w)"

lemma msg_init_inv: "msg_init w \<Longrightarrow> msg_inv w"
proof -
  assume "msg_init w"
  then have "msg_wf (\<lambda>_. []) w"
    by (auto simp: msg_init_def msg_wf_def nq_wf_def split: option.splits)
  then show "msg_inv w" unfolding msg_inv_def by blast
qed

lemma queue_notification_inv:
  assumes E: "mgenv_ok E" and wf: "msg_wf N w" and h: "hwnd_ok w (msg_hwnd m)"
    and enq: "notify_enqueue enq ins eff"
    and run: "queue_notification E self enq m w = Some (r, w')"
  shows "msg_inv w'"
proof (cases "r = ERR_OK")
  case True
  then obtain b q a where b: "MG_IS_WINDOW w (msg_hwnd m) = Some True"
      "getMsgQueue w (msg_hwnd m) = Some (Some q)" "blk_alloc E (qmsgs w) = Some a"
    using run by (auto simp: queue_notification_def split: bind_splits if_splits option.splits)
  obtain Q where q: "queues w q = Some Q"
    using b(2) getMainWindowPtr_ok [OF h] by (auto simp: getMsgQueue_def split: bind_splits if_splits)
  have "qmsgs w a = None" using E b(3) by (simp add: mgenv_ok_def)
  from notify_enqueue.queue_notification_ok [OF enq b(3) this wf h b(1,2) q, of self] run
  show ?thesis unfolding msg_inv_def by auto
next
  case False
  with run have "w' = w"
    by (auto simp: queue_notification_def split: bind_splits if_splits option.splits)
  with wf show ?thesis unfolding msg_inv_def by blast
qed

lemma msg_step_inv:
  assumes E: "mgenv_ok E" and "msg_inv w" "msg_step E w w'"
  shows "msg_inv w'"
proof -
  obtain N where wf: "msg_wf N w" using assms(2) unfolding msg_inv_def by blast
  from assms(3) show ?thesis
  proof cases
    case (post h self n wp lp r)
    show ?thesis
    proof (cases "\<exists>q. getMsgQueue w h = Some (Some q)")
      case True
      then obtain q where mq: "getMsgQueue w h = Some (Some q)" by blast
      obtain Q where q: "queues w q = Some Q"
        using mq getMainWindowPtr_ok [OF post(1)] by (auto simp: getMsgQueue_def split: bind_splits if_splits)
      from PostMessage_ok [OF wf post(1) mq q, of E self n wp lp] post(2)
      show ?thesis unfolding msg_inv_def by auto
    next
      case False
      with post(2) have "w' = w" by (auto simp: PostMessage_def split: bind_splits option.splits)
      with wf show ?thesis unfolding msg_inv_def by blast
    qed
  next
    case (notify h self n wp lp r)
    show ?thesis
      using queue_notification_inv [OF E wf _ tail.notify_enqueue_axioms notify(2) [unfolded SendNotifyMessage_def]] notify(1)
      by simp
  next
    case (prior h self n wp lp r)
    show ?thesis
      using queue_notification_inv [OF E wf _ head.notify_enqueue_axioms prior(2) [unfolded SendPriorNotifyMessage_def]] prior(1)
      by simp
  next
    case (window h self nid code d r)
    show ?thesis
      using queue_notification_inv [OF E wf _ tail.notify_enqueue_axioms window(2) [unfolded NotifyWindow_def]] window(1)
      by simp
  next
    case (get q Q self b hWnd pm r m)
    have nq: "nq_wf (qmsgs w) (N q) Q" by (rule msg_wf_queue [OF wf get(1)])
    have "next_msg E w (qview_of (qmsgs w) (N q) Q) \<noteq> None"
      using get(4) nq
      by (auto simp: next_msg_def qview_of_def nq_wf_def payload_def split: list.splits)
    then obtain m' v where "next_msg E w (qview_of (qmsgs w) (N q) Q) = Some (m', v)" by auto
    from peek_loop_next [OF wf get(1-3) this refl, of self b hWnd pm] get(5)
    show ?thesis unfolding msg_inv_def by auto
  next
    case (getpost self hWnd q Q pm r m')
    then obtain m ms where "posted Q = m # ms" by (cases "posted Q") auto
    from PeekPostMessage_ok [OF wf getpost(1,2) this, of 0 0 pm] getpost(4)
    show ?thesis unfolding msg_inv_def by auto
  qed
qed

interpretation msgs: transition_system msg_init "\<lambda>w w'. mgenv_ok E \<and> msg_step E w w'" msg_inv
  by unfold_locales (auto intro: msg_init_inv msg_step_inv)

end
