(* ===== verification/MsgProps.thy ===== *)
theory MsgProps
  imports MsgSteps
begin

text \<open>
  The properties of the messaging module, each with a concrete instance: a store with one main
  window (handle 0x100, procedure 0x4000) whose queue 1 belongs to thread 7 and holds at most
  three posted messages, and an environment whose procedures are computable functions.
\<close>

definition sample_win :: mainwin where
  "sample_win = \<lparr>DataType = TYPE_HWND, WinType = TYPE_MAINWIN, pMsgQueue = Some 1,
     MainWindowProc = 0x4000, NotifProc = 0, pMainWin = 0x100, pFirstHosted = 0, pNextHosted = 0,
     InvRgn_head = False, children = 0, next_ctrl = 0\<rparr>"

definition sample_queue :: msgqueue where
  "sample_queue = (zero_queue 2)\<lparr>th := 7, mq_len := 4, mq_msg := replicate 4 zero_msg\<rparr>"

definition sample_world :: world where
  "sample_world = \<lparr>wins = [0x100 \<mapsto> sample_win], queues = [1 \<mapsto> sample_queue],
     qmsgs = Map.empty, syncmsgs = Map.empty, sems = Map.empty, threadinfo = [7 \<mapsto> 1],
     tick_counter = 42, captured_wnd = 0, hwnd_desktop = 0, dsk_win = 0, dsk_msg_queue = None\<rparr>"

definition sample_proc :: "hwnd \<Rightarrow> uint \<Rightarrow> 64 word \<Rightarrow> 64 word \<Rightarrow> 64 word" where
  "sample_proc h n wp lp = wp + lp"

definition sample_env :: mgenv where
  "sample_env = \<lparr>DEF_MSGQUEUE_LEN = 8, MAX_IDLE_COUNTER = 100, DEF_NR_TIMERS = 2,
     std_idle_handler_ptr = 0x9000, malloc_msgs = (\<lambda>n. Some (replicate n zero_msg)),
     blk_alloc = (\<lambda>h. List.find (\<lambda>a. h a = None) [10..<20]), stack_sync = (\<lambda>w. (50, 60)),
     alloc_queue = (\<lambda>w. Some 2), junk_sync = None, junk_time = 0,
     TranslateMessage = (\<lambda>m w. Some (m, w)),
     call_wndproc = (\<lambda>p h n wp lp w. Some (sample_proc h n wp lp, w)),
     call_notifproc = (\<lambda>p h i c d w. Some w), MAKELONG = (\<lambda>a b. a),
     KS_CAPTURED = 0x4000, LOSWORD = (\<lambda>l. uint (l AND 0xFFFF)),
     HISWORD = (\<lambda>l. uint (drop_bit 16 l AND 0xFFFF)), ClientToScreen = (\<lambda>h x y w. (x, y)),
     rgn_address = (\<lambda>h. h + 8), call_timerproc = (\<lambda>p h i t w. Some (True, w)),
     call_idle = (\<lambda>p q b w. Some (False, w)), select_ret = (\<lambda>w b. 0),
     check_expired_timers = (\<lambda>q d w. Some (0, w)), kernel_check_listen_fds = (\<lambda>q w. Some (0, w)),
     remove_timer = (\<lambda>q s w. Some w), wait_queue = (\<lambda>q w. None),
     remove_timers_by_msg_queue = (\<lambda>q w. Some w),
     run_others = (\<lambda>s w. None)\<rparr>"

lemma sample_ok:
  "msg_wf (\<lambda>_. []) sample_world" "hwnd_ok sample_world 0x100"
  "MG_IS_WINDOW sample_world 0x100 = Some True"
  "getMsgQueue sample_world 0x100 = Some (Some 1)" "queues sample_world 1 = Some sample_queue"
  "wins sample_world 0x100 = Some sample_win" "tick_counter sample_world = 42"
  "qmsgs sample_world a = None"
  "blk_alloc sample_env (qmsgs sample_world) = Some 10"
proof -
  have r: "ring_ok sample_queue" "posted sample_queue = []" "pFirstNotifyMsg sample_queue = None"
    by (simp_all add: sample_queue_def zero_queue_def ring_ok_def posted_def nr_posted_def
        ring_count_def)
  then show "msg_wf (\<lambda>_. []) sample_world"
    by (simp add: msg_wf_def sample_world_def nq_wf_def)
qed (simp_all add: hwnd_ok_def sample_world_def sample_win_def MG_IS_WINDOW_def HWND_NULL_def
    HWND_INVALID_def getMsgQueue_def getMainWindowPtr_def TYPE_HWND_def sample_env_def upt_rec)

section \<open>Posting\<close>

text \<open>C1. PostMessage implements the abstract posting operation: for a sane store and window it
  returns, keeps the store's invariant, changes only the window's queue, and there does exactly
  what \<open>post_eff\<close> says of the list of posted messages (a duplicate mouse move, timeout, idle or
  caret message is replaced in place, another message is appended, a full queue is left alone and
  reported); a paint message only sets its status bit.\<close>

theorem PostMessage_refines:
  assumes "msg_wf N w" "hwnd_ok w h" "getMsgQueue w h = Some (Some q)" "queues w q = Some Q"
  shows "\<exists>w'. PostMessage E self h n wp lp w =
      Some (if n = MSG_PAINT \<or>
               fst (post_spec (mq_len Q - 1) (user_msg E (tick_counter w) h n wp lp) (posted Q))
            then ERR_OK else ERR_QUEUE_FULL, w') \<and> msg_wf N w' \<and>
    view N w' = (view N w)(q := map_option
      (if n = MSG_PAINT then paint_eff
       else post_eff (user_msg E (tick_counter w) h n wp lp)) (view N w q))"
  by (rule PostMessage_ok [OF assms])

theorem PostMessage_refines_witness:
  "\<exists>w'. PostMessage sample_env 3 0x100 0x800 5 6 sample_world = Some (ERR_OK, w') \<and>
    map_option v_posted (view (\<lambda>_. []) w' 1) = Some [user_msg sample_env 42 0x100 0x800 5 6]"
proof -
  have "posted sample_queue = []" "mq_len sample_queue = 4"
    by (simp_all add: sample_queue_def zero_queue_def posted_def nr_posted_def ring_count_def)
  then show ?thesis
    using PostMessage_refines [OF sample_ok(1,2,4,5), of sample_env 3 "0x800" 5 6] sample_ok(5,7)
    by (auto simp: view_Some qview_of_def post_eff_def post_spec_def dup_ix_def first_ix_def last_ix_def
        is_mouse_move_def is_single_def MSG_PAINT_def user_msg_def msg_ids)
qed

section \<open>Notifications\<close>

text \<open>C2. SendNotifyMessage delivers in order: given a free cell it returns ERR_OK, keeps the
  store's invariant, appends the message to the notify list of the window's queue, sets the status
  bit, changes no other queue, and leaves the owner's semaphore positive when the owner is
  another thread (no lost wake-up).\<close>

theorem SendNotifyMessage_fifo:
  assumes "msg_wf N w" "hwnd_ok w h" "MG_IS_WINDOW w h = Some True"
    and "getMsgQueue w h = Some (Some q)" "queues w q = Some Q"
    and "blk_alloc E (qmsgs w) = Some a" "qmsgs w a = None"
  shows "\<exists>w'. SendNotifyMessage E self h n wp lp w = Some (ERR_OK, w') \<and>
    msg_wf (N(q := N q @ [a])) w' \<and>
    view (N(q := N q @ [a])) w' = (view N w)(q := map_option
      (notify_eff (user_msg E (tick_counter w) h n wp lp)) (view N w q)) \<and>
    (getMainWinIfWindowInThisThread self w h = Some 0 \<longrightarrow>
       (\<exists>Q'. queues w' q = Some Q' \<and> 0 < wait_sem Q'))"
  using tail.queue_notification_ok [OF assms(6,7,1), of "user_msg E (tick_counter w) h n wp lp" q Q self]
    assms by (simp add: SendNotifyMessage_def user_msg_def)

theorem SendNotifyMessage_fifo_witness:
  "\<exists>w'. SendNotifyMessage sample_env 3 0x100 0x801 5 6 sample_world = Some (ERR_OK, w') \<and>
    map_option v_notify (view ((\<lambda>_. [])(1 := [10])) w' 1) =
      Some [user_msg sample_env 42 0x100 0x801 5 6]"
  using SendNotifyMessage_fifo [OF sample_ok(1-5) sample_ok(9) sample_ok(8), of 3 "0x801" 5 6] sample_ok(5,7)
  by (auto simp: view_Some qview_of_def notify_eff_def)

text \<open>SendPriorNotifyMessage puts the message in front of every pending notification of the
  window's queue, and is otherwise like SendNotifyMessage.\<close>

theorem SendPriorNotifyMessage_first:
  assumes "msg_wf N w" "hwnd_ok w h" "MG_IS_WINDOW w h = Some True"
    and "getMsgQueue w h = Some (Some q)" "queues w q = Some Q"
    and "blk_alloc E (qmsgs w) = Some a" "qmsgs w a = None"
  shows "\<exists>w'. SendPriorNotifyMessage E self h n wp lp w = Some (ERR_OK, w') \<and>
    msg_wf (N(q := a # N q)) w' \<and>
    view (N(q := a # N q)) w' = (view N w)(q := map_option
      (prior_eff (user_msg E (tick_counter w) h n wp lp)) (view N w q)) \<and>
    (getMainWinIfWindowInThisThread self w h = Some 0 \<longrightarrow>
       (\<exists>Q'. queues w' q = Some Q' \<and> 0 < wait_sem Q'))"
  using head.queue_notification_ok [OF assms(6,7,1), of "user_msg E (tick_counter w) h n wp lp" q Q self]
    assms by (simp add: SendPriorNotifyMessage_def user_msg_def)

theorem SendPriorNotifyMessage_first_witness:
  "\<exists>w'. SendPriorNotifyMessage sample_env 3 0x100 0x801 5 6 sample_world = Some (ERR_OK, w') \<and>
    map_option v_notify (view ((\<lambda>_. [])(1 := [10])) w' 1) =
      Some [user_msg sample_env 42 0x100 0x801 5 6]"
  using SendPriorNotifyMessage_first [OF sample_ok(1-5) sample_ok(9) sample_ok(8), of 3 "0x801" 5 6] sample_ok(5,7)
  by (auto simp: view_Some qview_of_def prior_eff_def)

section \<open>Receiving\<close>

text \<open>C3. PeekMessageEx without a filter takes the next message: with no quit and no sync message
  pending it returns TRUE with the oldest notification, or when there is none the oldest posted
  message (mouse messages of the captured window converted), removes exactly that message, and
  changes nothing else of the view but status bits, whether or not the caller is willing to wait.\<close>

theorem PeekMessage_next:
  assumes "msg_wf N w" "receiver_ok w self hWnd q" "queues w q = Some Q"
    and "\<not> has_flag (dwState Q) QS_QUIT" "\<not> sync_pending Q"
    and "next_msg E w (qview_of (qmsgs w) (N q) Q) = Some (m, v)"
  shows "\<exists>w' st. PeekMessageEx E self (Some pm) hWnd 0 0 bWait PM_REMOVE w = Some (True, Some m, w') \<and>
    msg_wf (if N q = [] then N else N(q := tl (N q))) w' \<and>
    view (if N q = [] then N else N(q := tl (N q))) w' = (view N w)(q := Some (v\<lparr>v_state := st\<rparr>))"
  using peek_loop_next [OF assms(1,3-6) refl, of self bWait hWnd "zero_msg\<lparr>msg_time := tick_counter w\<rparr>"]
    PeekMessageEx_run [OF assms(2), where rem = True and uRemoveMsg = PM_REMOVE] by blast

definition sample_msg :: msg where
  "sample_msg = \<lparr>msg_hwnd = 0x100, message = 0x801, wParam = 5, lParam = 6, msg_time = 42, pSyncMsg = None\<rparr>"

definition sample_world_n :: world where
  "sample_world_n = sample_world\<lparr>qmsgs := [10 \<mapsto> \<lparr>Msg = sample_msg, next_qmsg = None\<rparr>],
     queues := [1 \<mapsto> sample_queue\<lparr>pFirstNotifyMsg := Some 10, pLastNotifyMsg := Some 10,
                                dwState := QS_NOTIFYMSG\<rparr>]\<rparr>"

lemma sample_queue_posted [simp]: "posted sample_queue = []" "ring_ok sample_queue"
  "pFirstNotifyMsg sample_queue = None" "pFirstSyncMsg sample_queue = None" "dwState sample_queue = 0"
  "expired_timer_mask sample_queue = 0" "mq_len sample_queue = 4" "loop_depth sample_queue = 0"
  "th sample_queue = 7" "pRootMainWin sample_queue = 0"
  by (simp_all add: posted_none sample_queue_def zero_queue_def ring_ok_def)

lemma sample_world_n_ok:
  "msg_wf ((\<lambda>_. [])(1 := [10])) sample_world_n" "receiver_ok sample_world_n 7 0x100 1"
  by (auto simp: msg_wf_def sample_world_n_def sample_world_def nq_wf_def lqueue_def qs_flag_simps
      receiver_ok_def MG_IS_MAIN_VIRT_WINDOW_def MG_IS_WINDOW_def sample_win_def HWND_NULL_def
      HWND_INVALID_def type_defs) (simp_all add: has_flag_def QS_NOTIFYMSG_def)

theorem PeekMessage_next_witness:
  "\<exists>w'. PeekMessageEx sample_env 7 (Some zero_msg) 0x100 0 0 True PM_REMOVE sample_world_n =
     Some (True, Some sample_msg, w')"
proof -
  have "qmsgs sample_world_n = [10 \<mapsto> \<lparr>Msg = sample_msg, next_qmsg = None\<rparr>]"
    by (simp add: sample_world_n_def)
  then show ?thesis
    using PeekMessage_next [OF sample_world_n_ok, of "sample_queue\<lparr>pFirstNotifyMsg := Some 10,
        pLastNotifyMsg := Some 10, dwState := QS_NOTIFYMSG\<rparr>" sample_env sample_msg _ zero_msg True]
    by (auto simp: sample_world_n_def sync_pending_def has_flag_def qs_defs next_msg_def qview_of_def
        sample_msg_def)
qed

text \<open>PostQuitMessage and the quit section of PeekMessageEx nest: a pending quit makes
  PeekMessageEx return FALSE with MSG_QUIT before anything else is looked at, and removing it
  lowers the loop depth by one and clears the quit bit exactly when the depth reaches zero.\<close>

theorem PeekMessage_quit:
  assumes "msg_wf N w" "receiver_ok w self hWnd q" "queues w q = Some Q" "has_flag (dwState Q) QS_QUIT"
  shows "\<exists>w' m. PeekMessageEx E self (Some pm) hWnd lo hi bWait r w = Some (False, Some m, w') \<and>
    message m = MSG_QUIT \<and> msg_hwnd m = hWnd \<and> msg_wf N w' \<and> view N w' = (if r = PM_REMOVE
      then (view N w)(q := Some (quit_taken (qview_of (qmsgs w) (N q) Q))) else view N w)"
proof -
  let ?pm = "zero_msg\<lparr>msg_time := tick_counter w\<rparr>"
  obtain w' where run: "peek_loop E self (IS_MSG_WANTED lo hi) bWait (r = PM_REMOVE) hWnd q (?pm, w) =
      Some (False, quit_msg hWnd ?pm, w')" and w': "msg_wf N w'" "view N w' = (if r = PM_REMOVE
      then (view N w)(q := Some (quit_taken (qview_of (qmsgs w) (N q) Q))) else view N w)"
    using peek_loop_quit [OF assms(1,3,4)] by blast
  from PeekMessageEx_run [OF assms(2) run refl, of pm] w' quit_msg_fields [of hWnd ?pm]
  show ?thesis by blast
qed

definition sample_world_q :: world where
  "sample_world_q = sample_world\<lparr>queues := [1 \<mapsto> sample_queue\<lparr>dwState := QS_QUIT, loop_depth := 1\<rparr>]\<rparr>"

lemma sample_world_q_ok: "msg_wf (\<lambda>_. []) sample_world_q" "receiver_ok sample_world_q 7 0x100 1"
  by (auto simp: msg_wf_def sample_world_q_def sample_world_def nq_wf_def
      receiver_ok_def MG_IS_MAIN_VIRT_WINDOW_def MG_IS_WINDOW_def sample_win_def HWND_NULL_def
      HWND_INVALID_def type_defs)

theorem PeekMessage_quit_witness:
  "\<exists>w' m. PeekMessageEx sample_env 7 (Some zero_msg) 0x100 0 0 True PM_REMOVE sample_world_q =
     Some (False, Some m, w') \<and> message m = MSG_QUIT \<and> map_option v_depth (view (\<lambda>_. []) w' 1) = Some 0 \<and>
     map_option v_state (view (\<lambda>_. []) w' 1) = Some 0"
  using PeekMessage_quit [OF sample_world_q_ok, of "sample_queue\<lparr>dwState := QS_QUIT, loop_depth := 1\<rparr>"
      sample_env zero_msg 0 0 True PM_REMOVE]
  by (auto simp: sample_world_q_def has_flag_def qs_defs quit_taken_def qview_of_def clear_flag_def)

text \<open>PeekMessageEx with bWait = FALSE ends: on a queue with no quit, sync, notify, posted or
  paint message, no desktop timer and no expired timer it returns FALSE and leaves the messages of
  the store as they are.\<close>

theorem PeekMessage_empty:
  assumes "msg_wf N w" "receiver_ok w self hWnd q" "queues w q = Some Q"
    and "\<not> has_flag (dwState Q) QS_QUIT" "\<not> sync_pending Q" "N q = []" "posted Q = []"
    and "\<not> has_flag (dwState Q) QS_PAINT" "expired_timer_mask Q = 0"
    and "dsk_msg_queue w \<noteq> Some q \<or> \<not> has_flag (dwState Q) QS_DESKTIMER"
  shows "\<exists>w' m st. PeekMessageEx E self (Some pm) hWnd lo hi False r w = Some (False, Some m, w') \<and>
    msg_wf N w' \<and> view N w' = (view N w)(q := Some ((qview_of (qmsgs w) (N q) Q)\<lparr>v_state := st\<rparr>))"
proof -
  have "dsk_msg_queue w = Some q \<Longrightarrow> \<not> has_flag (dwState Q) QS_DESKTIMER" using assms(10) by blast
  from peek_loop_empty [OF assms(1,3-9) this, of E self "IS_MSG_WANTED lo hi" "r = PM_REMOVE" hWnd
      "zero_msg\<lparr>msg_time := tick_counter w\<rparr>"]
  show ?thesis using PeekMessageEx_run [OF assms(2) _ refl, of E] by blast
qed

lemma sample_world_recv: "receiver_ok sample_world 7 0x100 1"
  by (simp add: receiver_ok_def sample_world_def MG_IS_MAIN_VIRT_WINDOW_def MG_IS_WINDOW_def
      sample_win_def HWND_NULL_def HWND_INVALID_def type_defs)

theorem PeekMessage_empty_witness:
  "\<exists>w' m. PeekMessageEx sample_env 7 (Some zero_msg) 0x100 0 0 False PM_REMOVE sample_world =
     Some (False, Some m, w') \<and> msg_wf (\<lambda>_. []) w'"
  using PeekMessage_empty [OF sample_ok(1) sample_world_recv sample_ok(5), of sample_env zero_msg 0 0 PM_REMOVE]
  by (simp add: sample_world_def has_flag_def sync_pending_def) blast

section \<open>Synchronous messages\<close>

text \<open>C4. The rendezvous of SendSyncMessage: when the receiving thread answers its pending sync
  messages while the sender waits, the sender's wait ends and SendSyncMessage returns the value the
  window procedure computed for the message; every message that was queued before it has been
  answered with its own value, and the sender's SYNCMSG and semaphore are gone.\<close>

theorem SendSyncMessage_rendezvous:
  assumes "pure_procs R f" "stack_sync E w = (a, s)" "syncmsgs w a = None" "sems w s = None"
    and "getMsgQueue w h = Some (Some q)" "queues w q = Some Q" "has_proc w h"
    and "no_own_sync self w" "receiver_drains E R q s"
    and "lqueue pNext (syncmsgs w) (pFirstSyncMsg Q) (pLastSyncMsg Q) as" "sync_cells_ok w as"
  shows "\<exists>w'. SendSyncMessage E self h n wp lp w = Some (LRESULT (proc_value R f (the (wins w h))
      (sMsg (new_sync E h n wp lp s))), w') \<and>
    syncmsgs w' a = None \<and> sems w' s = None \<and>
    (\<forall>b \<in> set as. \<exists>c. syncmsgs w b = Some c \<and> map_option retval (syncmsgs w' b) =
       Some (LRESULT (proc_value R f (the (wins w (msg_hwnd (sMsg c)))) (sMsg c))))"
  by (rule SendSyncMessage_ok [OF assms])

definition sample_env_r :: mgenv where
  "sample_env_r = sample_env\<lparr>run_others := (\<lambda>s v. do {
     v' \<leftarrow> drain_sync sample_env 1 v;
     n \<leftarrow> sems v' s;
     if 0 < n then Some (True, v'\<lparr>sems := (sems v')(s := Some (n - 1))\<rparr>) else None })\<rparr>"

theorem SendSyncMessage_rendezvous_witness:
  "\<exists>w'. SendSyncMessage sample_env_r 3 0x100 0x802 5 6 sample_world = Some (LRESULT 11, w')"
proof -
  have p: "pure_procs sample_env sample_proc" by (simp add: pure_procs_def sample_env_def)
  have st: "stack_sync sample_env_r sample_world = (50, 60)"
    by (simp add: sample_env_r_def sample_env_def)
  have fr: "syncmsgs sample_world 50 = None" "sems sample_world 60 = None" "no_own_sync 3 sample_world"
    "has_proc sample_world 0x100" "sync_cells_ok sample_world []"
    by (simp_all add: sample_world_def no_own_sync_def has_proc_def sample_win_def HWND_INVALID_def
        sync_cells_ok_def)
  have rd: "receiver_drains sample_env_r sample_env 1 60"
    by (simp add: receiver_drains_def sample_env_r_def)
  have ch: "lqueue pNext (syncmsgs sample_world) (pFirstSyncMsg sample_queue) (pLastSyncMsg sample_queue) []"
    by simp
  from SendSyncMessage_rendezvous [OF p st fr(1,2) sample_ok(4,5) fr(4,3) rd ch fr(5), of "0x802" 5 6]
  show ?thesis
    by (simp add: proc_value_def new_sync_def sample_proc_def MSG_NOTIFICATION_def) blast
qed

text \<open>DispatchMessage drops the answer of a sync message to a window without a procedure: it
  returns -1 and changes nothing, so the sender's semaphore is not posted and its result not set.\<close>

theorem DispatchMessage_unanswered:
  assumes "wins w (msg_hwnd m) = Some p" "MainWindowProc p = 0" "msg_hwnd m \<noteq> HWND_INVALID"
  shows "DispatchMessage E m w = Some (LRESULT (-1), w)"
  using assms by (simp add: DispatchMessage_def)

theorem DispatchMessage_unanswered_witness:
  "DispatchMessage sample_env (sample_msg\<lparr>pSyncMsg := Some 50\<rparr>)
     (sample_world\<lparr>wins := [0x100 \<mapsto> sample_win\<lparr>MainWindowProc := 0\<rparr>]\<rparr>) =
   Some (LRESULT (-1), sample_world\<lparr>wins := [0x100 \<mapsto> sample_win\<lparr>MainWindowProc := 0\<rparr>]\<rparr>)"
  by (rule DispatchMessage_unanswered [of _ _ "sample_win\<lparr>MainWindowProc := 0\<rparr>"])
    (simp_all add: sample_msg_def HWND_INVALID_def)

section \<open>Timers, painting and broadcasts\<close>






text \<open>C6. The search for a window to repaint is a preorder search: on a tree of hosted windows with
  their trees of controls, msgCheckHostedTree ends and returns the first window, in preorder over
  the hosted tree and then over the controls, that has an invalid region, with virtual windows and
  the desktop's own controls skipped, and 0 when there is none.\<close>

theorem repaint_preorder:
  assumes "linked pFirstHosted pNextHosted (wins w) (pFirstHosted c) cs" "wins w r = Some c" "r \<noteq> 0"
    and "controls_ok w ctl (preorder [WNode r cs])"
  shows "msgCheckHostedTree w r =
    Some (first_of (concat (map (host_dirty w ctl) (preorder [WNode r cs]))))"
proof -
  have co: "controls_ok w ctl [r]" "controls_ok w ctl (preorder cs)"
    using assms(4) unfolding controls_ok_def by auto
  note h = host_dirty_first [OF co(1)]
  have "check_hosted w False (pFirstHosted c) = Some (first_of (concat (map (host_dirty w ctl) (preorder cs))))"
    by (rule check_hosted_linked [OF assms(1) co(2)])
  then show ?thesis
    using h assms(2) unfolding msgCheckHostedTree_def
    by (subst check_hosted.simps) (simp add: first_of_append)
qed

definition sample_child :: mainwin where
  "sample_child = sample_win\<lparr>pMainWin := 0x200, InvRgn_head := True\<rparr>"

definition sample_world_h :: world where
  "sample_world_h = sample_world\<lparr>wins := [0x100 \<mapsto> sample_win\<lparr>pFirstHosted := 0x200\<rparr>, 0x200 \<mapsto> sample_child],
     queues := [1 \<mapsto> sample_queue\<lparr>pRootMainWin := 0x100\<rparr>]\<rparr>"

theorem repaint_preorder_witness: "msgCheckHostedTree sample_world_h 0x100 = Some 0x200"
proof -
  have "msgCheckHostedTree sample_world_h 0x100 = Some (first_of (concat (map (host_dirty sample_world_h (\<lambda>_. []))
      (preorder [WNode 0x100 [WNode 0x200 []]]))))"
    by (rule repaint_preorder [of _ "sample_win\<lparr>pFirstHosted := 0x200\<rparr>"])
      (simp_all add: sample_world_h_def sample_child_def sample_win_def controls_ok_def)
  then show ?thesis
    by (simp add: host_dirty_def sample_world_h_def sample_child_def sample_win_def sample_world_def
        type_defs first_of_def)
qed

text \<open>C7. A broadcast reaches every window of the thread exactly once, in postorder with the root
  last: __mg_broadcast_message ends, each window's queue gets the message for it as
  kernel_QueueMessage posts it, and nothing else of the view changes. The value returned is the
  tick count at the call, plus one when the last posting succeeded; it is not a count of windows.\<close>

theorem broadcast_postorder:
  assumes "msg_wf N w" "queues w q = Some Q"
    and "rooted pFirstHosted pNextHosted (wins w) t" "wroot t = pRootMainWin Q"
    and "\<forall>h \<in> set (postorder [t]). sane_target w h (qof h)"
  shows "\<exists>dt w'. mg_broadcast_message self q m w = Some (ucast (tick_counter w + dt), w') \<and>
    dt \<in> {0, 1} \<and> msg_wf N w' \<and>
    view N w' = fold (\<lambda>h. cast_eff m (tick_counter w) h (qof h)) (postorder [t]) (view N w)"
proof -
  have "sane_target w h (qof h)" if "h \<in> set (postorder [t])" for h using assms(5) that by blast
  from mg_broadcast_message_ok [OF assms(1-4) this, of self m] show ?thesis by blast
qed

lemma sample_world_h_ok: "msg_wf (\<lambda>_. []) sample_world_h" "sane_target sample_world_h 0x100 1"
  "sane_target sample_world_h 0x200 1"
  by (auto simp: msg_wf_def sample_world_h_def sample_world_def nq_wf_def posted_frame ring_ok_def
      sample_queue_def zero_queue_def posted_def nr_posted_def ring_count_def
      sane_target_def hwnd_ok_def sample_win_def sample_child_def HWND_NULL_def HWND_INVALID_def)

theorem broadcast_postorder_witness:
  "\<exists>w' r. mg_broadcast_message 7 1 sample_msg sample_world_h = Some (r, w') \<and>
    map_option (\<lambda>v. map msg_hwnd (v_posted v)) (view (\<lambda>_. []) w' 1) = Some [0x200, 0x100]"
proof -
  have q: "queues sample_world_h 1 = Some (sample_queue\<lparr>pRootMainWin := 0x100\<rparr>)"
    by (simp add: sample_world_h_def)
  have po: "posted (sample_queue\<lparr>pRootMainWin := 0x100\<rparr>) = []"
    by (rule posted_none) (simp add: sample_queue_def zero_queue_def)
  have t: "\<forall>h \<in> set (postorder [WNode 0x100 [WNode 0x200 []]]). sane_target sample_world_h h ((\<lambda>_. 1) h)"
    using sample_world_h_ok by simp
  have r: "rooted pFirstHosted pNextHosted (wins sample_world_h) (WNode 0x100 [WNode 0x200 []])"
    by (simp add: rooted_def sample_world_h_def sample_win_def sample_child_def)
  have e: "wroot (WNode 0x100 [WNode 0x200 []]) = pRootMainWin (sample_queue\<lparr>pRootMainWin := 0x100\<rparr>)" by simp
  from broadcast_postorder [OF sample_world_h_ok(1) q r e t, of 7 sample_msg] q po
  show ?thesis
    by (auto simp: cast_eff_def view_Some qview_of_def post_eff_def post_spec_def dup_ix_def is_mouse_move_def
        is_single_def sample_msg_def msg_ids)
qed

section \<open>Throwing messages away\<close>

text \<open>C8. Throwing away the messages of a window filters: __mg_throw_away_messages ends, removes from
  the notify list and from the posted messages exactly those addressed to the window or to one of
  its controls, in place and keeping the order of the others; it cancels exactly the sync messages
  of the window, posting each one's semaphore once; it clears exactly the expired timer bits of the
  window's timers; and it returns the number of messages thrown away.\<close>

theorem throw_away_filters:
  assumes "msg_wf N w" "queues w q = Some Q"
    and "lqueue pNext (syncmsgs w) (pFirstSyncMsg Q) (pLastSyncMsg Q) ss"
    and "\<forall>a \<in> set ss. sems w (sync_sem w a) \<noteq> None" "timers_ok E Q"
    and "\<forall>h \<in> throw_targets E (N q) ss w Q. msg_hit w hWnd h \<noteq> None"
  shows "\<exists>w' N' Q'. mg_throw_away_messages E q hWnd w =
      Some (length (filter (\<lambda>a. is_hit w hWnd (notify_hwnd w a)) (N q)) +
            length (filter (\<lambda>a. is_hit w hWnd (sync_hwnd w a)) ss) +
            length (filter (\<lambda>m. is_hit w hWnd (msg_hwnd m)) (posted Q)), w') \<and>
    msg_wf N' w' \<and> view N' w' = (view N w)(q := map_option (\<lambda>v. v
      \<lparr>v_notify := filter (\<lambda>m. \<not> is_hit w hWnd (msg_hwnd m)) (v_notify v),
       v_posted := filter (\<lambda>m. \<not> is_hit w hWnd (msg_hwnd m)) (v_posted v)\<rparr>) (view N w q)) \<and>
    cancelled (is_hit w hWnd) ss w w' \<and> queues w' q = Some Q' \<and>
    (\<forall>k < DEF_NR_TIMERS E. bit (expired_timer_mask Q') k \<longleftrightarrow> bit (expired_timer_mask Q) k \<and>
       \<not> is_hit w hWnd (t_hWnd (the (timer_slots Q ! k))))"
  using assms by (intro mg_throw_away_messages_ok) blast+

theorem throw_away_filters_witness:
  "\<exists>w' N'. mg_throw_away_messages sample_env 1 0x100 sample_world_n = Some (1, w') \<and> msg_wf N' w' \<and>
     map_option v_notify (view N' w' 1) = Some []"
proof -
  let ?Q = "sample_queue\<lparr>pFirstNotifyMsg := Some 10, pLastNotifyMsg := Some 10, dwState := QS_NOTIFYMSG\<rparr>"
  let ?N = "(\<lambda>_. [])(1 := [10])"
  have q: "queues sample_world_n 1 = Some ?Q" by (simp add: sample_world_n_def)
  have ch: "lqueue pNext (syncmsgs sample_world_n) (pFirstSyncMsg ?Q) (pLastSyncMsg ?Q) []" by simp
  have h: "notify_hwnd sample_world_n 10 = 0x100"
    by (simp add: notify_hwnd_def sample_world_n_def sample_msg_def)
  have ti: "timers_ok sample_env ?Q"
    by (simp add: timers_ok_def sample_queue_def zero_queue_def sample_env_def)
  have hit: "is_hit sample_world_n 0x100 0x100" by (rule is_hit_self)
  have ev: "?N 1 = [10]" by simp
  have tg: "\<forall>h \<in> throw_targets sample_env (?N 1) [] sample_world_n ?Q. msg_hit sample_world_n 0x100 h \<noteq> None"
    by (auto simp: throw_targets_def h msg_hit_def)
  obtain w' N' where "mg_throw_away_messages sample_env 1 0x100 sample_world_n = Some (1, w')" "msg_wf N' w'"
    "view N' w' = (view ?N sample_world_n)(1 := map_option (\<lambda>v. v
      \<lparr>v_notify := filter (\<lambda>m. \<not> is_hit sample_world_n 0x100 (msg_hwnd m)) (v_notify v),
       v_posted := filter (\<lambda>m. \<not> is_hit sample_world_n 0x100 (msg_hwnd m)) (v_posted v)\<rparr>) (view ?N sample_world_n 1))"
    using throw_away_filters [OF sample_world_n_ok(1) q ch _ ti tg, unfolded ev] hit
    by (auto simp: h simp del: fun_upd_apply)
  moreover have "qmsgs sample_world_n 10 = Some \<lparr>Msg = sample_msg, next_qmsg = None\<rparr>" "msg_hwnd sample_msg = 0x100"
    by (simp_all add: sample_world_n_def sample_msg_def)
  ultimately show ?thesis using hit q
    by (intro exI [of _ w'] exI [of _ N']) (simp add: view_Some qview_of_def)
qed

text \<open>EmptyMessageQueue discards everything: it returns TRUE with both lists of the queue empty
  and no status bit set, cancels every pending sync message and posts its sender's semaphore once,
  frees every cell of the notify list, and changes no other queue.\<close>

theorem EmptyMessageQueue_discards:
  assumes "msg_wf N w" "getMsgQueueIfWindowInThisThread self w hWnd = Some (Some q)"
    and "queues w q = Some Q" "lqueue pNext (syncmsgs w) (pFirstSyncMsg Q) (pLastSyncMsg Q) ss"
    and "\<forall>a \<in> set ss. sems w (sync_sem w a) \<noteq> None"
  shows "\<exists>w'. EmptyMessageQueue self hWnd w = Some (True, w') \<and> msg_wf (N(q := [])) w' \<and>
    view (N(q := [])) w' = (view N w)(q := map_option
      (\<lambda>v. v\<lparr>v_notify := [], v_posted := [], v_state := QS_EMPTY\<rparr>) (view N w q)) \<and>
    cancelled (\<lambda>_. True) ss w w' \<and> (\<forall>a \<in> set (N q). qmsgs w' a = None)"
  using assms by (intro EmptyMessageQueue_ok) blast+

theorem EmptyMessageQueue_discards_witness:
  "\<exists>w'. EmptyMessageQueue 7 0x100 sample_world_n = Some (True, w') \<and> qmsgs w' 10 = None"
proof -
  let ?Q = "sample_queue\<lparr>pFirstNotifyMsg := Some 10, pLastNotifyMsg := Some 10, dwState := QS_NOTIFYMSG\<rparr>"
  have q: "queues sample_world_n 1 = Some ?Q" by (simp add: sample_world_n_def)
  have mq: "getMsgQueueIfWindowInThisThread 7 sample_world_n 0x100 = Some (Some 1)"
    by (simp add: getMsgQueueIfWindowInThisThread_def getMainWindowPtr_def MG_IS_WINDOW_def sample_world_n_def
        sample_world_def sample_win_def HWND_NULL_def HWND_INVALID_def type_defs)
  have ch: "lqueue pNext (syncmsgs sample_world_n) (pFirstSyncMsg ?Q) (pLastSyncMsg ?Q) []" by simp
  from EmptyMessageQueue_discards [OF sample_world_n_ok(1) mq q ch] show ?thesis by auto
qed




section \<open>The life of a queue and its invariant\<close>

text \<open>mg_DestroyMsgQueue frees the notify list exactly: its loop ends, frees every cell of the
  queue's list once and no other cell (the timer module is assumed to leave the message heap
  alone), and releases the posted-message buffer.\<close>

theorem mg_DestroyMsgQueue_frees:
  assumes "msg_wf N w" "queues w q = Some Q"
    and "\<forall>u. \<exists>u'. remove_timers_by_msg_queue E q u = Some u' \<and> qmsgs u' = qmsgs u \<and>
           queues u' = queues u"
  shows "\<exists>w' Q'. mg_DestroyMsgQueue E q w = Some w' \<and> queues w' q = Some Q' \<and> mq_msg Q' = [] \<and>
    (\<forall>a. qmsgs w' a = (if a \<in> set (N q) then None else qmsgs w a))"
proof -
  have "lseg next_qmsg (qmsgs w) (pFirstNotifyMsg Q) (N q) None" "distinct (N q)"
    using msg_wf_queue [OF assms(1,2)] by (simp_all add: nq_wf_def lqueue_def)
  from free_qmsgs_chain [OF this]
  have f: "free_qmsgs (pFirstNotifyMsg Q) (qmsgs w) = Some (\<lambda>a. if a \<in> set (N q) then None else qmsgs w a)" .
  obtain u' where u': "remove_timers_by_msg_queue E q (w\<lparr>qmsgs := \<lambda>a. if a \<in> set (N q) then None else qmsgs w a\<rparr>)
      = Some u'" "qmsgs u' = (\<lambda>a. if a \<in> set (N q) then None else qmsgs w a)" "queues u' = queues w"
    using assms(3) [rule_format, of "w\<lparr>qmsgs := \<lambda>a. if a \<in> set (N q) then None else qmsgs w a\<rparr>"] by auto
  show ?thesis
    by (rule exI [of _ "set_queue q (Q\<lparr>mq_msg := []\<rparr>) u'"], rule exI [of _ "Q\<lparr>mq_msg := []\<rparr>"])
      (use f u' assms(2) in \<open>simp add: mg_DestroyMsgQueue_def\<close>)
qed

theorem mg_DestroyMsgQueue_frees_witness:
  "\<exists>w'. mg_DestroyMsgQueue sample_env 1 sample_world_n = Some w' \<and> qmsgs w' 10 = None"
proof -
  have "\<forall>u. \<exists>u'. remove_timers_by_msg_queue sample_env 1 u = Some u' \<and> qmsgs u' = qmsgs u \<and> queues u' = queues u"
    by (simp add: sample_env_def)
  from mg_DestroyMsgQueue_frees [OF sample_world_n_ok(1) _ this] show ?thesis
    by (fastforce simp: sample_world_n_def)
qed



end
