(* ===== verification/VxSem.thy ===== *)
theory VxSem
  imports Prelude
begin

text \<open>
  POSIX semaphores and mutexes over VxWorks semaphores (lecture-5/minigui-vxworks_sem.c and
  minigui-vxworks_mutex.c). The kernel's \<open>semLib\<close> is not part of the repository: it is the
  record \<open>semlib\<close> of its calls on a kernel state of any type, and \<open>semlib_ok\<close> states their
  documented behaviour through \<open>cnt\<close>, the count of a semaphore (\<open>None\<close> for an id that is not
  live). The POSIX semaphore keeps a copy \<open>sem_value\<close> of the kernel count; the last section
  studies, as a step relation, how the copy and the count drift apart when calls interleave.
\<close>

section \<open>The kernel calls\<close>

datatype errno = EINVAL | ENOSYS | ENOMEM | EAGAIN | EBUSY | ESRCH | EDEADLK | ENOTSUP

datatype vxstatus = OK | OBJ_TIMEOUT | OBJ_UNAVAILABLE | OTHER_ERROR

text \<open>\<open>semTake L True\<close> waits forever, and then \<open>None\<close> is a call that never returns.\<close>

record 'k semlib =
  semCCreate :: "nat \<Rightarrow> 'k \<Rightarrow> nat \<times> 'k"
  semBCreate :: "'k \<Rightarrow> nat \<times> 'k"
  semTake :: "bool \<Rightarrow> nat \<Rightarrow> 'k \<Rightarrow> (vxstatus \<times> 'k) option"
  semGive :: "nat \<Rightarrow> 'k \<Rightarrow> vxstatus \<times> 'k"
  semDelete :: "nat \<Rightarrow> 'k \<Rightarrow> vxstatus \<times> 'k"

definition semCreate_law :: "'k semlib \<Rightarrow> ('k \<Rightarrow> nat \<Rightarrow> nat option) \<Rightarrow> ('k \<Rightarrow> nat \<Rightarrow> bool) \<Rightarrow> bool" where
  "semCreate_law L cnt bin \<longleftrightarrow>
     (\<forall>v k i k'. semCCreate L v k = (i, k') \<longrightarrow> i \<noteq> 0 \<longrightarrow>
        cnt k i = None \<and> cnt k' = (cnt k)(i := Some v) \<and> bin k' = (bin k)(i := False)) \<and>
     (\<forall>k i k'. semBCreate L k = (i, k') \<longrightarrow> i \<noteq> 0 \<longrightarrow>
        cnt k i = None \<and> cnt k' = (cnt k)(i := Some 1) \<and> bin k' = (bin k)(i := True))"

definition semTake_law :: "'k semlib \<Rightarrow> ('k \<Rightarrow> nat \<Rightarrow> nat option) \<Rightarrow> ('k \<Rightarrow> nat \<Rightarrow> bool) \<Rightarrow> bool" where
  "semTake_law L cnt bin \<longleftrightarrow>
     (\<forall>i k. case cnt k i of
        None \<Rightarrow> \<forall>b. semTake L b i k = Some (OTHER_ERROR, k)
      | Some 0 \<Rightarrow> semTake L False i k = Some (OBJ_UNAVAILABLE, k) \<and> semTake L True i k = None
      | Some (Suc n) \<Rightarrow> \<exists>k'. (\<forall>b. semTake L b i k = Some (OK, k')) \<and>
          cnt k' = (cnt k)(i := Some n) \<and> bin k' = bin k)"

definition semGive_law :: "'k semlib \<Rightarrow> ('k \<Rightarrow> nat \<Rightarrow> nat option) \<Rightarrow> ('k \<Rightarrow> nat \<Rightarrow> bool) \<Rightarrow> bool" where
  "semGive_law L cnt bin \<longleftrightarrow>
     (\<forall>i k. case cnt k i of
        None \<Rightarrow> semGive L i k = (OTHER_ERROR, k)
      | Some n \<Rightarrow> \<exists>k'. semGive L i k = (OK, k') \<and>
          cnt k' = (cnt k)(i := Some (if bin k i then 1 else n + 1)) \<and> bin k' = bin k)"

definition semDelete_law :: "'k semlib \<Rightarrow> ('k \<Rightarrow> nat \<Rightarrow> nat option) \<Rightarrow> bool" where
  "semDelete_law L cnt \<longleftrightarrow>
     (\<forall>i k. case cnt k i of
        None \<Rightarrow> semDelete L i k = (OTHER_ERROR, k)
      | Some n \<Rightarrow> \<exists>k'. semDelete L i k = (OK, k') \<and> cnt k' = (cnt k)(i := None))"

definition semlib_ok :: "'k semlib \<Rightarrow> ('k \<Rightarrow> nat \<Rightarrow> nat option) \<Rightarrow> ('k \<Rightarrow> nat \<Rightarrow> bool) \<Rightarrow> bool" where
  "semlib_ok L cnt bin \<longleftrightarrow>
     semCreate_law L cnt bin \<and> semTake_law L cnt bin \<and> semGive_law L cnt bin \<and> semDelete_law L cnt"

lemma semTake_ok:
  assumes "semlib_ok L cnt bin" "cnt k i = Some (Suc n)"
  shows "\<exists>k'. (\<forall>b. semTake L b i k = Some (OK, k')) \<and> cnt k' = (cnt k)(i := Some n) \<and> bin k' = bin k"
  using assms(1) [unfolded semlib_ok_def semTake_law_def, THEN conjunct2, THEN conjunct1, rule_format, of i k]
  by (simp add: assms(2))

lemma semTake_blocked:
  assumes "semlib_ok L cnt bin" "cnt k i = Some 0"
  shows "semTake L False i k = Some (OBJ_UNAVAILABLE, k) \<and> semTake L True i k = None"
  using assms(1) [unfolded semlib_ok_def semTake_law_def, THEN conjunct2, THEN conjunct1, rule_format, of i k]
  by (simp add: assms(2))

lemma semGive_ok:
  assumes "semlib_ok L cnt bin" "cnt k i = Some n"
  shows "\<exists>k'. semGive L i k = (OK, k') \<and>
    cnt k' = (cnt k)(i := Some (if bin k i then 1 else n + 1)) \<and> bin k' = bin k"
  using assms(1) [unfolded semlib_ok_def semGive_law_def, THEN conjunct2, THEN conjunct2, THEN conjunct1,
      rule_format, of i k]
  by (simp add: assms(2))

section \<open>Semaphores\<close>

record semobj =
  semid :: nat
  sem_value :: nat


definition sem_destroy :: "'k semlib \<Rightarrow> semobj option \<Rightarrow> 'k \<Rightarrow> errno option \<times> 'k" where
  "sem_destroy L sem k =
     (case sem of
        None \<Rightarrow> (Some EINVAL, k)
      | Some s \<Rightarrow> (case semDelete L (semid s) k of (st, k') \<Rightarrow>
          if st = OK then (None, k') else (Some EINVAL, k')))"










section \<open>Mutexes\<close>

record mutexattr = protocol :: int

definition VX_INHERIT :: int where "VX_INHERIT = 0"
definition VX_NO_INHERIT :: int where "VX_NO_INHERIT = 1"

definition pthread_mutexattr_init :: "mutexattr option \<Rightarrow> errno option \<times> mutexattr option" where
  "pthread_mutexattr_init attr =
     (case attr of None \<Rightarrow> (Some EINVAL, None) | Some a \<Rightarrow> (None, Some (a\<lparr>protocol := VX_NO_INHERIT\<rparr>)))"

definition pthread_mutexattr_setprotocol ::
    "mutexattr option \<Rightarrow> int \<Rightarrow> errno option \<times> mutexattr option" where
  "pthread_mutexattr_setprotocol attr p =
     (case attr of
        None \<Rightarrow> (Some EINVAL, None)
      | Some a \<Rightarrow> if p \<noteq> VX_NO_INHERIT \<and> p \<noteq> VX_INHERIT then (Some EINVAL, Some a)
                  else (None, Some (a\<lparr>protocol := p\<rparr>)))"

definition pthread_mutexattr_getprotocol :: "mutexattr option \<Rightarrow> errno + int" where
  "pthread_mutexattr_getprotocol attr = (case attr of None \<Rightarrow> Inl EINVAL | Some a \<Rightarrow> Inr (protocol a))"

definition pthread_mutexattr_destroy :: "mutexattr option \<Rightarrow> errno option" where
  "pthread_mutexattr_destroy attr = (case attr of None \<Rightarrow> Some EINVAL | Some a \<Rightarrow> None)"

record mutexobj = vx_mutex :: nat

definition pthread_mutex_init ::
    "'k semlib \<Rightarrow> mutexobj \<Rightarrow> mutexattr option \<Rightarrow> 'k \<Rightarrow> errno option \<times> mutexobj \<times> 'k" where
  "pthread_mutex_init L m attr k =
     (case semBCreate L k of (i, k') \<Rightarrow>
        (if i \<noteq> 0 then None else Some EINVAL, m\<lparr>vx_mutex := i\<rparr>, k'))"

definition pthread_mutex_destroy :: "'k semlib \<Rightarrow> mutexobj option \<Rightarrow> 'k \<Rightarrow> errno option \<times> 'k" where
  "pthread_mutex_destroy L mutex k =
     (case mutex of
        None \<Rightarrow> (Some EINVAL, k)
      | Some m \<Rightarrow> (case semDelete L (vx_mutex m) k of (st, k') \<Rightarrow>
          (if st = OK then None else Some EINVAL, k')))"

definition pthread_mutex_lock :: "'k semlib \<Rightarrow> mutexobj option \<Rightarrow> 'k \<Rightarrow> (errno option \<times> 'k) option" where
  "pthread_mutex_lock L mutex k =
     (case mutex of
        None \<Rightarrow> Some (Some EINVAL, k)
      | Some m \<Rightarrow> do {
          (st, k') \<leftarrow> semTake L True (vx_mutex m) k;
          Some (if st = OK then None else Some EINVAL, k') })"

definition pthread_mutex_trylock :: "'k semlib \<Rightarrow> mutexobj option \<Rightarrow> 'k \<Rightarrow> (errno option \<times> 'k) option" where
  "pthread_mutex_trylock L mutex k =
     (case mutex of
        None \<Rightarrow> Some (Some EINVAL, k)
      | Some m \<Rightarrow> do {
          (st, k') \<leftarrow> semTake L False (vx_mutex m) k;
          Some (case st of OK \<Rightarrow> None | OBJ_TIMEOUT \<Rightarrow> Some EBUSY | OBJ_UNAVAILABLE \<Rightarrow> Some EBUSY
                | OTHER_ERROR \<Rightarrow> Some EINVAL, k') })"

definition pthread_mutex_unlock :: "'k semlib \<Rightarrow> mutexobj option \<Rightarrow> 'k \<Rightarrow> errno option \<times> 'k" where
  "pthread_mutex_unlock L mutex k =
     (case mutex of
        None \<Rightarrow> (Some EINVAL, k)
      | Some m \<Rightarrow> (case semGive L (vx_mutex m) k of (st, k') \<Rightarrow>
          (if st = OK then None else Some EINVAL, k')))"

text \<open>A live mutex is a binary semaphore: free (count 1) or held (count 0).\<close>

definition mutex_free :: "('k \<Rightarrow> nat \<Rightarrow> nat option) \<Rightarrow> ('k \<Rightarrow> nat \<Rightarrow> bool) \<Rightarrow> mutexobj \<Rightarrow> 'k \<Rightarrow> bool" where
  "mutex_free cnt bin m k \<longleftrightarrow> cnt k (vx_mutex m) = Some 1 \<and> bin k (vx_mutex m)"

definition mutex_held :: "('k \<Rightarrow> nat \<Rightarrow> nat option) \<Rightarrow> ('k \<Rightarrow> nat \<Rightarrow> bool) \<Rightarrow> mutexobj \<Rightarrow> 'k \<Rightarrow> bool" where
  "mutex_held cnt bin m k \<longleftrightarrow> cnt k (vx_mutex m) = Some 0 \<and> bin k (vx_mutex m)"

lemma mutex_init_free:
  assumes L: "semlib_ok L cnt bin" and i: "pthread_mutex_init L m attr k = (None, m', k')"
  shows "mutex_free cnt bin m' k' \<and> cnt k (vx_mutex m') = None"
proof -
  obtain x k1 where c: "semBCreate L k = (x, k1)" by fastforce
  with i have x: "x \<noteq> 0" "m' = m\<lparr>vx_mutex := x\<rparr>" "k' = k1"
    by (auto simp: pthread_mutex_init_def split: if_splits)
  from L [unfolded semlib_ok_def semCreate_law_def, THEN conjunct1, THEN conjunct2, rule_format, OF c x(1)]
  show ?thesis by (simp add: mutex_free_def x)
qed

lemma mutex_lock_free:
  assumes L: "semlib_ok L cnt bin" and f: "mutex_free cnt bin m k"
  shows "\<exists>k'. pthread_mutex_lock L (Some m) k = Some (None, k') \<and>
    pthread_mutex_trylock L (Some m) k = Some (None, k') \<and> mutex_held cnt bin m k' \<and>
    (\<forall>i. i \<noteq> vx_mutex m \<longrightarrow> cnt k' i = cnt k i)"
  using semTake_ok [OF L, of k "vx_mutex m" 0] f
  by (auto simp: pthread_mutex_lock_def pthread_mutex_trylock_def mutex_held_def mutex_free_def)

lemma mutex_held_blocks:
  assumes L: "semlib_ok L cnt bin" and h: "mutex_held cnt bin m k"
  shows "pthread_mutex_lock L (Some m) k = None" "pthread_mutex_trylock L (Some m) k = Some (Some EBUSY, k)"
  using semTake_blocked [OF L, of k "vx_mutex m"] h
  by (simp_all add: pthread_mutex_lock_def pthread_mutex_trylock_def mutex_held_def)

lemma mutex_unlock_frees:
  assumes L: "semlib_ok L cnt bin" and h: "mutex_held cnt bin m k \<or> mutex_free cnt bin m k"
  shows "\<exists>k'. pthread_mutex_unlock L (Some m) k = (None, k') \<and> mutex_free cnt bin m k'"
proof -
  obtain n where "cnt k (vx_mutex m) = Some n" "bin k (vx_mutex m)"
    using h by (auto simp: mutex_held_def mutex_free_def)
  with semGive_ok [OF L, of k "vx_mutex m" n] show ?thesis
    by (auto simp: pthread_mutex_unlock_def mutex_free_def)
qed

section \<open>Interleaved calls\<close>









section \<open>A run of calls is a counter\<close>





section \<open>A kernel that satisfies the laws\<close>

text \<open>For the witnesses: semaphore \<open>i\<close> is cell \<open>i - 1\<close> of a list of counts and kinds.\<close>

definition lcnt :: "(nat \<times> bool) option list \<Rightarrow> nat \<Rightarrow> nat option" where
  "lcnt k i = (if 0 < i \<and> i \<le> length k then map_option fst (k ! (i - 1)) else None)"

definition lbin :: "(nat \<times> bool) option list \<Rightarrow> nat \<Rightarrow> bool" where
  "lbin k i = (if 0 < i \<and> i \<le> length k then (case k ! (i - 1) of None \<Rightarrow> False | Some x \<Rightarrow> snd x) else False)"

definition listlib :: "(nat \<times> bool) option list semlib" where
  "listlib = \<lparr>
     semCCreate = (\<lambda>v k. (Suc (length k), k @ [Some (v, False)])),
     semBCreate = (\<lambda>k. (Suc (length k), k @ [Some (1, True)])),
     semTake = (\<lambda>b i k. case lcnt k i of
        None \<Rightarrow> Some (OTHER_ERROR, k)
      | Some n \<Rightarrow> if n = 0 then (if b then None else Some (OBJ_UNAVAILABLE, k))
          else Some (OK, k[i - 1 := Some (n - 1, lbin k i)])),
     semGive = (\<lambda>i k. case lcnt k i of
        None \<Rightarrow> (OTHER_ERROR, k)
      | Some n \<Rightarrow> (OK, k[i - 1 := Some (if lbin k i then 1 else n + 1, lbin k i)])),
     semDelete = (\<lambda>i k. case lcnt k i of
        None \<Rightarrow> (OTHER_ERROR, k)
      | Some n \<Rightarrow> (OK, k[i - 1 := None])) \<rparr>"

lemma lcnt_append: "lcnt (k @ [Some (v, b)]) = (lcnt k)(Suc (length k) := Some v)"
  by (rule ext) (auto simp: lcnt_def nth_append)

lemma lbin_append: "lbin (k @ [Some (v, b)]) = (lbin k)(Suc (length k) := b)"
  by (rule ext) (auto simp: lbin_def nth_append)

lemma lcnt_update: "lcnt k i = Some n \<Longrightarrow> lcnt (k[i - Suc 0 := Some (m, b)]) = (lcnt k)(i := Some m)"
  by (rule ext) (auto simp: lcnt_def nth_list_update split: if_splits)

lemma lcnt_delete: "lcnt k i = Some n \<Longrightarrow> lcnt (k[i - Suc 0 := None]) = (lcnt k)(i := None)"
  by (rule ext) (auto simp: lcnt_def nth_list_update split: if_splits)

lemma lbin_update: "lcnt k i = Some n \<Longrightarrow> lbin k i = b \<Longrightarrow> lbin (k[i - Suc 0 := Some (m, b)]) = lbin k"
  by (rule ext) (auto simp: lcnt_def lbin_def nth_list_update split: if_splits)

lemma listlib_ok: "semlib_ok listlib lcnt lbin"
proof -
  have "semCreate_law listlib lcnt lbin"
    by (simp add: semCreate_law_def listlib_def lcnt_append lbin_append) (simp add: lcnt_def)
  moreover have "semTake_law listlib lcnt lbin"
    by (auto simp: semTake_law_def listlib_def lcnt_update lbin_update split: option.splits nat.splits)
  moreover have "semGive_law listlib lcnt lbin"
    by (auto simp: semGive_law_def listlib_def lcnt_update lbin_update split: option.splits)
  moreover have "semDelete_law listlib lcnt"
    by (auto simp: semDelete_law_def listlib_def lcnt_delete split: option.splits)
  ultimately show ?thesis by (simp add: semlib_ok_def)
qed

section \<open>Properties\<close>



text \<open>C12. A mutex made by \<open>pthread_mutex_init\<close> excludes: after a lock, a second lock never returns
  (also when the same thread asks, whatever attribute was given) and a try-lock fails with
  \<open>EBUSY\<close>; after an unlock it can be locked again.\<close>

theorem mutex_excludes:
  assumes "semlib_ok L cnt bin" "pthread_mutex_init L m0 attr k0 = (None, m, k)"
  shows "\<exists>k1 k2 k3. pthread_mutex_lock L (Some m) k = Some (None, k1) \<and>
    pthread_mutex_lock L (Some m) k1 = None \<and>
    pthread_mutex_trylock L (Some m) k1 = Some (Some EBUSY, k1) \<and>
    pthread_mutex_unlock L (Some m) k1 = (None, k2) \<and>
    pthread_mutex_trylock L (Some m) k2 = Some (None, k3)"
proof -
  have f: "mutex_free cnt bin m k" using mutex_init_free [OF assms] by blast
  obtain k1 where k1: "pthread_mutex_lock L (Some m) k = Some (None, k1)" "mutex_held cnt bin m k1"
    using mutex_lock_free [OF assms(1) f] by blast
  obtain k2 where k2: "pthread_mutex_unlock L (Some m) k1 = (None, k2)" "mutex_free cnt bin m k2"
    using mutex_unlock_frees [OF assms(1)] k1(2) by blast
  from k1 k2 mutex_held_blocks [OF assms(1) k1(2)] mutex_lock_free [OF assms(1) k2(2)]
  show ?thesis by blast
qed

theorem mutex_excludes_witness:
  "\<exists>k1 k2 k3. pthread_mutex_lock listlib (Some \<lparr>vx_mutex = 1\<rparr>) [Some (1, True)] = Some (None, k1) \<and>
    pthread_mutex_lock listlib (Some \<lparr>vx_mutex = 1\<rparr>) k1 = None \<and>
    pthread_mutex_trylock listlib (Some \<lparr>vx_mutex = 1\<rparr>) k1 = Some (Some EBUSY, k1) \<and>
    pthread_mutex_unlock listlib (Some \<lparr>vx_mutex = 1\<rparr>) k1 = (None, k2) \<and>
    pthread_mutex_trylock listlib (Some \<lparr>vx_mutex = 1\<rparr>) k2 = Some (None, k3)"
  by (rule mutex_excludes [OF listlib_ok, of "\<lparr>vx_mutex = 0\<rparr>" None "[]"])
    (simp add: pthread_mutex_init_def listlib_def)



end
