(* ===== verification/VxAttr.thy ===== *)
theory VxAttr
  imports VxSem
begin

text \<open>
  Thread attribute objects (lecture-5/minigui-vxworks_pthread.c, \<open>pthread_attr_*\<close>). The values the
  arguments are compared with are constants of a header that is not in the repository, so every
  group of constants is a datatype with one more constructor for any other integer. The setters
  return the error code (\<open>None\<close> for 0) and the object; the getters write through a pointer that may
  be NULL (\<open>None\<close>). The locale \<open>attribute\<close> is the contract of a setter/getter pair; every pair of
  this file, and that of the mutex protocol, interprets it.
\<close>

section \<open>The contract of an attribute\<close>

text \<open>A run of calls of one setter.\<close>

primrec set_all :: "('v \<Rightarrow> 'o \<Rightarrow> errno option \<times> 'o) \<Rightarrow> 'v list \<Rightarrow> 'o \<Rightarrow> 'o" where
  "set_all st [] a = a"
| "set_all st (v # vs) a = set_all st vs (snd (st v a))"

locale attribute =
  fixes set :: "'v \<Rightarrow> 'o \<Rightarrow> errno option \<times> 'o"
    and get :: "'o \<Rightarrow> 'v option"
    and valid :: "'v \<Rightarrow> bool"
  assumes set_valid: "valid v \<Longrightarrow> fst (set v a) = None \<and> get (snd (set v a)) = Some v"
    and set_invalid: "\<not> valid v \<Longrightarrow> fst (set v a) \<noteq> None \<and> snd (set v a) = a"
begin

lemma set_ok_iff: "fst (set v a) = None \<longleftrightarrow> valid v"
  using set_valid set_invalid by blast

lemma last_write_wins:
  "get (set_all set vs a) = (if filter valid vs = [] then get a else Some (last (filter valid vs)))"
proof (induction vs arbitrary: a)
  case (Cons v vs)
  show ?case
    using Cons.IH [of "snd (set v a)"] set_valid [of v a] set_invalid [of v a] by (cases "valid v") simp_all
qed simp

end

section \<open>The attribute object\<close>

datatype detach_state = CREATE_JOINABLE | CREATE_DETACHED | Other_detach int
datatype contention_scope = SCOPE_SYSTEM | SCOPE_PROCESS | Other_scope int
datatype sched_inherit = INHERIT_SCHED | EXPLICIT_SCHED | Other_inherit int
datatype sched_policy = SCHED_FIFO | SCHED_RR | SCHED_OTHER | Other_policy int

record sched_param =
  priority :: int
  preempt_threshold :: int
  time_slice :: int

record pattr =
  a_detachstate :: detach_state
  a_scope :: contention_scope
  a_inheritsched :: sched_inherit
  a_schedpolicy :: sched_policy
  a_schedparam :: sched_param
  stackaddr_valid :: bool
  a_stackaddr :: nat
  stacksize_valid :: bool
  a_stacksize :: nat

definition default_param :: sched_param where
  "default_param = \<lparr>priority = 20, preempt_threshold = 20, time_slice = 10\<rparr>"

definition pthread_attr_init :: "pattr option \<Rightarrow> errno option \<times> pattr option" where
  "pthread_attr_init attr =
     (case attr of
        None \<Rightarrow> (Some EINVAL, None)
      | Some a \<Rightarrow> (None, Some (a\<lparr>a_detachstate := CREATE_JOINABLE, a_scope := SCOPE_SYSTEM,
          a_inheritsched := INHERIT_SCHED, a_schedpolicy := SCHED_FIFO, a_schedparam := default_param,
          stackaddr_valid := False, a_stackaddr := 0, stacksize_valid := False, a_stacksize := 0\<rparr>)))"

definition pthread_attr_destroy :: "pattr option \<Rightarrow> errno option" where
  "pthread_attr_destroy attr = (case attr of None \<Rightarrow> Some EINVAL | Some a \<Rightarrow> None)"

definition pthread_attr_setdetachstate ::
    "pattr option \<Rightarrow> detach_state \<Rightarrow> errno option \<times> pattr option" where
  "pthread_attr_setdetachstate attr v =
     (case attr of
        None \<Rightarrow> (Some EINVAL, None)
      | Some a \<Rightarrow> if v = CREATE_JOINABLE \<or> v = CREATE_DETACHED then (None, Some (a\<lparr>a_detachstate := v\<rparr>))
                  else (Some EINVAL, Some a))"

definition pthread_attr_getdetachstate ::
    "pattr option \<Rightarrow> detach_state option \<Rightarrow> errno option \<times> detach_state option" where
  "pthread_attr_getdetachstate attr out =
     (case attr of
        None \<Rightarrow> (Some EINVAL, out)
      | Some a \<Rightarrow> (None, if out \<noteq> None then Some (a_detachstate a) else out))"

definition pthread_attr_setscope :: "pattr option \<Rightarrow> contention_scope \<Rightarrow> errno option \<times> pattr option" where
  "pthread_attr_setscope attr v =
     (case attr of
        None \<Rightarrow> (Some EINVAL, None)
      | Some a \<Rightarrow> if v = SCOPE_SYSTEM then (None, Some (a\<lparr>a_scope := v\<rparr>))
                  else if v = SCOPE_PROCESS then (Some ENOTSUP, Some a)
                  else (Some EINVAL, Some a))"

definition pthread_attr_getscope ::
    "pattr option \<Rightarrow> contention_scope option \<Rightarrow> errno option \<times> contention_scope option" where
  "pthread_attr_getscope attr out =
     (case attr of
        None \<Rightarrow> (Some EINVAL, out)
      | Some a \<Rightarrow> (None, if out \<noteq> None then Some (a_scope a) else out))"

definition pthread_attr_setinheritsched ::
    "pattr option \<Rightarrow> sched_inherit \<Rightarrow> errno option \<times> pattr option" where
  "pthread_attr_setinheritsched attr v =
     (case attr of
        None \<Rightarrow> (Some EINVAL, None)
      | Some a \<Rightarrow> if v = INHERIT_SCHED \<or> v = EXPLICIT_SCHED then (None, Some (a\<lparr>a_inheritsched := v\<rparr>))
                  else (Some EINVAL, Some a))"

definition pthread_attr_getinheritsched ::
    "pattr option \<Rightarrow> sched_inherit option \<Rightarrow> errno option \<times> sched_inherit option" where
  "pthread_attr_getinheritsched attr out =
     (case attr of
        None \<Rightarrow> (Some EINVAL, out)
      | Some a \<Rightarrow> (None, if out \<noteq> None then Some (a_inheritsched a) else out))"

definition pthread_attr_setschedpolicy :: "pattr option \<Rightarrow> sched_policy \<Rightarrow> errno option \<times> pattr option" where
  "pthread_attr_setschedpolicy attr v =
     (case attr of
        None \<Rightarrow> (Some EINVAL, None)
      | Some a \<Rightarrow> if v = SCHED_FIFO then (None, Some (a\<lparr>a_schedpolicy := v\<rparr>))
                  else if v = SCHED_OTHER \<or> v = SCHED_RR then (Some ENOTSUP, Some a)
                  else (Some EINVAL, Some a))"

definition pthread_attr_getschedpolicy ::
    "pattr option \<Rightarrow> sched_policy option \<Rightarrow> errno option \<times> sched_policy option" where
  "pthread_attr_getschedpolicy attr out =
     (case attr of
        None \<Rightarrow> (Some EINVAL, out)
      | Some a \<Rightarrow> (None, if out \<noteq> None then Some (a_schedpolicy a) else out))"

definition pthread_attr_setschedparam ::
    "pattr option \<Rightarrow> sched_param option \<Rightarrow> errno option \<times> pattr option" where
  "pthread_attr_setschedparam attr param =
     (case attr of
        None \<Rightarrow> (Some EINVAL, None)
      | Some a \<Rightarrow> (case param of
            None \<Rightarrow> (Some EINVAL, Some a)
          | Some p \<Rightarrow> (None, Some (a\<lparr>a_schedparam := p\<rparr>))))"

definition pthread_attr_getschedparam ::
    "pattr option \<Rightarrow> sched_param option \<Rightarrow> errno option \<times> sched_param option" where
  "pthread_attr_getschedparam attr out =
     (case attr of
        None \<Rightarrow> (Some EINVAL, out)
      | Some a \<Rightarrow> (None, if out \<noteq> None then Some (a_schedparam a) else out))"

definition pthread_attr_setstackaddr :: "pattr option \<Rightarrow> nat \<Rightarrow> errno option \<times> pattr option" where
  "pthread_attr_setstackaddr attr v =
     (case attr of
        None \<Rightarrow> (Some EINVAL, None)
      | Some a \<Rightarrow> (None, Some (a\<lparr>a_stackaddr := v, stackaddr_valid := True\<rparr>)))"

definition pthread_attr_getstackaddr :: "pattr option \<Rightarrow> nat option \<Rightarrow> errno option \<times> nat option" where
  "pthread_attr_getstackaddr attr out =
     (case attr of
        None \<Rightarrow> (Some EINVAL, out)
      | Some a \<Rightarrow>
          if out \<noteq> None then
            if stackaddr_valid a then (None, Some (a_stackaddr a)) else (Some EINVAL, out)
          else (None, out))"

definition pthread_attr_setstacksize :: "nat \<Rightarrow> pattr option \<Rightarrow> nat \<Rightarrow> errno option \<times> pattr option" where
  "pthread_attr_setstacksize PTHREAD_STACK_MIN attr v =
     (case attr of
        None \<Rightarrow> (Some EINVAL, None)
      | Some a \<Rightarrow> if v < PTHREAD_STACK_MIN then (Some EINVAL, Some a)
                  else (None, Some (a\<lparr>stacksize_valid := True, a_stacksize := v\<rparr>)))"

definition pthread_attr_getstacksize :: "pattr option \<Rightarrow> nat option \<Rightarrow> errno option \<times> nat option" where
  "pthread_attr_getstacksize attr out =
     (case attr of
        None \<Rightarrow> (Some EINVAL, out)
      | Some a \<Rightarrow>
          if \<not> stacksize_valid a then (Some EINVAL, out)
          else (None, if out \<noteq> None then Some (a_stacksize a) else out))"

section \<open>Every pair keeps the contract\<close>

text \<open>
  The contract on a live object: the setter applied through a pointer, and what the getter stores
  in a variable, \<open>None\<close> when it reports an error.
\<close>

definition on_object :: "('o option \<Rightarrow> 'v \<Rightarrow> errno option \<times> 'o option) \<Rightarrow> 'v \<Rightarrow> 'o \<Rightarrow> errno option \<times> 'o" where
  "on_object setter v a = (case setter (Some a) v of (e, a') \<Rightarrow> (e, the a'))"

definition value_of :: "('o option \<Rightarrow> 'v option \<Rightarrow> errno option \<times> 'v option) \<Rightarrow> 'v \<Rightarrow> 'o \<Rightarrow> 'v option" where
  "value_of getter init a = (case getter (Some a) (Some init) of (e, r) \<Rightarrow> if e = None then r else None)"

lemmas attr_defs = on_object_def value_of_def
  pthread_attr_setdetachstate_def pthread_attr_getdetachstate_def
  pthread_attr_setscope_def pthread_attr_getscope_def
  pthread_attr_setinheritsched_def pthread_attr_getinheritsched_def
  pthread_attr_setschedpolicy_def pthread_attr_getschedpolicy_def
  pthread_attr_setschedparam_def pthread_attr_getschedparam_def
  pthread_attr_setstackaddr_def pthread_attr_getstackaddr_def
  pthread_attr_setstacksize_def pthread_attr_getstacksize_def

interpretation detachstate: attribute "on_object pthread_attr_setdetachstate"
    "value_of pthread_attr_getdetachstate init" "\<lambda>v. v \<in> {CREATE_JOINABLE, CREATE_DETACHED}" for init
  by unfold_locales (auto simp: attr_defs)

interpretation scope: attribute "on_object pthread_attr_setscope"
    "value_of pthread_attr_getscope init" "\<lambda>v. v = SCOPE_SYSTEM" for init
  by unfold_locales (auto simp: attr_defs)

interpretation inheritsched: attribute "on_object pthread_attr_setinheritsched"
    "value_of pthread_attr_getinheritsched init" "\<lambda>v. v \<in> {INHERIT_SCHED, EXPLICIT_SCHED}" for init
  by unfold_locales (auto simp: attr_defs)

interpretation schedpolicy: attribute "on_object pthread_attr_setschedpolicy"
    "value_of pthread_attr_getschedpolicy init" "\<lambda>v. v = SCHED_FIFO" for init
  by unfold_locales (auto simp: attr_defs)

interpretation schedparam: attribute "on_object (\<lambda>a p. pthread_attr_setschedparam a (Some p))"
    "value_of pthread_attr_getschedparam init" "\<lambda>_. True" for init
  by unfold_locales (auto simp: attr_defs)

interpretation stackaddr: attribute "on_object pthread_attr_setstackaddr"
    "value_of pthread_attr_getstackaddr init" "\<lambda>_. True" for init
  by unfold_locales (auto simp: attr_defs)

interpretation stacksize: attribute "on_object (pthread_attr_setstacksize m)"
    "value_of pthread_attr_getstacksize init" "\<lambda>v. m \<le> v" for m init
  by unfold_locales (auto simp: attr_defs)

definition mutex_protocol :: "mutexattr option \<Rightarrow> int option \<Rightarrow> errno option \<times> int option" where
  "mutex_protocol attr out =
     (case pthread_mutexattr_getprotocol attr of Inl e \<Rightarrow> (Some e, out) | Inr p \<Rightarrow> (None, Some p))"

interpretation protocol: attribute "on_object pthread_mutexattr_setprotocol"
    "value_of mutex_protocol init" "\<lambda>v. v \<in> {VX_INHERIT, VX_NO_INHERIT}" for init
  by unfold_locales
    (auto simp: attr_defs mutex_protocol_def pthread_mutexattr_setprotocol_def
      pthread_mutexattr_getprotocol_def VX_INHERIT_def VX_NO_INHERIT_def)

section \<open>Properties\<close>

text \<open>The functions on a fresh object, whatever the memory held before.\<close>

definition fresh_attr :: "pattr \<Rightarrow> pattr" where
  "fresh_attr a = the (snd (pthread_attr_init (Some a)))"

text \<open>A new attribute object has the documented defaults, its stack address and size are unset
  (asking for them is an error), and after any sequence of calls of one setter, accepted or
  rejected, the getter reports the last accepted value.\<close>

theorem attributes_last_write_wins:
  "value_of pthread_attr_getdetachstate d (set_all (on_object pthread_attr_setdetachstate) ds (fresh_attr a)) =
     (case filter (\<lambda>v. v \<in> {CREATE_JOINABLE, CREATE_DETACHED}) ds of [] \<Rightarrow> Some CREATE_JOINABLE | x # xs \<Rightarrow> Some (last (x # xs))) \<and>
   value_of pthread_attr_getschedparam p (set_all (on_object (\<lambda>a p. pthread_attr_setschedparam a (Some p))) ps (fresh_attr a)) =
     Some (last (default_param # ps)) \<and>
   value_of pthread_attr_getstacksize n (set_all (on_object (pthread_attr_setstacksize m)) ns (fresh_attr a)) =
     (case filter (\<lambda>v. m \<le> v) ns of [] \<Rightarrow> None | x # xs \<Rightarrow> Some (last (x # xs))) \<and>
   value_of pthread_attr_getstackaddr n (set_all (on_object pthread_attr_setstackaddr) ns (fresh_attr a)) =
     (case ns of [] \<Rightarrow> None | x # xs \<Rightarrow> Some (last ns)) \<and>
   value_of pthread_attr_getschedpolicy q (set_all (on_object pthread_attr_setschedpolicy) qs (fresh_attr a)) = Some SCHED_FIFO"
proof -
  have "last (filter (\<lambda>v. v = SCHED_FIFO) qs) = SCHED_FIFO" if "filter (\<lambda>v. v = SCHED_FIFO) qs \<noteq> []"
    using last_in_set [OF that] by simp
  then show ?thesis
    unfolding detachstate.last_write_wins schedparam.last_write_wins stacksize.last_write_wins
      stackaddr.last_write_wins schedpolicy.last_write_wins
    by (auto simp: fresh_attr_def pthread_attr_init_def attr_defs default_param_def split: list.splits)
qed

end
