(* ===== verification/VxThread.thy ===== *)
theory VxThread
  imports VxAttr CyclicSearch
begin

text \<open>
  The threads of the VxWorks POSIX layer (lecture-5/minigui-vxworks_pthread.c): the thread table
  and its counters, creation, exit, joining, detaching, the reaper, cancellation and cleanup
  buffers. The kernel is the parameter \<open>vxkernel\<close>; the calling thread is the argument \<open>self\<close>, the
  address of its control structure (\<open>taskIdSelf\<close> cast to \<open>pthread_info\<close>). \<open>None\<close> is a fault or a
  call that never returns.
\<close>

section \<open>Data\<close>

record cbuf =
  cb_routine :: procptr
  cb_arg :: dword
  cb_prev :: "nat option"

datatype pstate = STATE_FREE | STATE_DETACHED | STATE_RUNNING | STATE_JOIN | STATE_EXITED

datatype cancel_state = CANCEL_ENABLE | CANCEL_DISABLE | Other_cstate int
datatype cancel_type = CANCEL_ASYNCHRONOUS | CANCEL_DEFERRED | Other_ctype int

text \<open>\<open>pthread_info\<close>; its first field is the task's control block, so its address is the task id.\<close>

record tinfo =
  task_id :: nat
  joiner :: nat
  t_name :: string
  tstate :: pstate
  cancelstate :: cancel_state
  canceltype :: cancel_type
  cancelpending :: bool
  freestack :: bool
  tid :: uint
  attr :: pattr
  t_retval :: dword
  start_routine :: procptr
  start_arg :: dword
  stackmem :: nat
  cancelbuffer :: "nat option"
  thread_data :: "dword list"

record 'k vxkernel =
  sems :: "'k semlib"
  k_malloc :: "nat \<Rightarrow> 'k \<Rightarrow> nat \<times> 'k"
  k_free :: "nat \<Rightarrow> 'k \<Rightarrow> 'k"
  taskInit :: "nat \<Rightarrow> string \<Rightarrow> int \<Rightarrow> nat \<Rightarrow> nat \<Rightarrow> 'k \<Rightarrow> bool \<times> 'k"
  taskActivate :: "nat \<Rightarrow> 'k \<Rightarrow> 'k"
  taskDelete :: "nat \<Rightarrow> 'k \<Rightarrow> 'k"
  taskPrioritySet :: "nat \<Rightarrow> int \<Rightarrow> 'k \<Rightarrow> 'k"
  taskStatusString :: "nat \<Rightarrow> 'k \<Rightarrow> string option"

text \<open>The memory and the globals of the file.\<close>

record 'k tworld =
  infos :: "nat \<Rightarrow> tinfo option"
  bufs :: "nat \<Rightarrow> cbuf option"
  thread_table :: "nat option list"
  pthread_count :: int
  pthreads_exited :: int
  pthreads_tobejoined :: int
  thread_key :: "uint list"
  key_destructor :: "procptr list"
  thread_info_next :: nat
  thread_id_cookie :: uint
  name_count :: uint
  vxpthread_mutex :: nat
  kst :: 'k

text \<open>
  What is not in the file: the kernel, the application's callbacks (\<open>call_routine\<close>), what happens
  until a wait for a joiner semaphore ends (\<open>others_until\<close>), the header's constants, the layout of
  a stack (\<open>info_down\<close> is \<open>STACK_ROUND_DOWN (sizeof (pthread_info))\<close>, \<open>info_up\<close> is
  \<open>STACK_ROUND_UP (16 + sizeof (pthread_info))\<close>) and what fresh memory holds.
\<close>

record 'k tenv =
  kern :: "'k vxkernel"
  call_routine :: "procptr \<Rightarrow> dword \<Rightarrow> 'k tworld \<Rightarrow> 'k tworld option"
  others_until :: "nat \<Rightarrow> 'k tworld \<Rightarrow> (vxstatus \<times> 'k tworld) option"
  KEYS_MAX :: nat
  DESTRUCTOR_ITERATIONS :: nat
  MAIN_PTH_MIN_STACK_SIZE :: nat
  STACK_MIN :: nat
  PTHREAD_CANCELED :: dword
  main_entry_ptr :: procptr
  stack_down :: bool
  info_down :: nat
  info_up :: nat
  ptr_size :: nat
  old_name :: "nat \<Rightarrow> string"
  old_data :: "nat \<Rightarrow> dword list"

definition THREADS_MAX :: nat where "THREADS_MAX = 64"
definition PTHREAD_STACK_DEFAULT :: nat where "PTHREAD_STACK_DEFAULT = 1024 * 4"
definition THREAD_ID_COOKIE_INC :: uint where "THREAD_ID_COOKIE_INC = 0x400"
definition THREAD_ID_COOKIE_MASK :: uint where "THREAD_ID_COOKIE_MASK = THREAD_ID_COOKIE_INC - 1"

definition set_info :: "nat \<Rightarrow> tinfo \<Rightarrow> 'k tworld \<Rightarrow> 'k tworld" where
  "set_info a i w = w\<lparr>infos := (infos w)(a := Some i)\<rparr>"

section \<open>The global mutex\<close>

text \<open>The code ignores what \<open>semTake\<close> and \<open>semGive\<close> return.\<close>

definition lock_threads :: "'k tenv \<Rightarrow> 'k tworld \<Rightarrow> 'k tworld option" where
  "lock_threads E w = do {
     (_, k) \<leftarrow> semTake (sems (kern E)) True (vxpthread_mutex w) (kst w);
     Some (w\<lparr>kst := k\<rparr>) }"

definition unlock_threads :: "'k tenv \<Rightarrow> 'k tworld \<Rightarrow> 'k tworld" where
  "unlock_threads E w = w\<lparr>kst := snd (semGive (sems (kern E)) (vxpthread_mutex w) (kst w))\<rparr>"

definition give_joiner :: "'k tenv \<Rightarrow> tinfo \<Rightarrow> 'k tworld \<Rightarrow> 'k tworld" where
  "give_joiner E i w = w\<lparr>kst := snd (semGive (sems (kern E)) (joiner i) (kst w))\<rparr>"

section \<open>Identifiers and names\<close>

definition pthread_info_id :: "uint \<Rightarrow> 'k tworld \<Rightarrow> nat option option" where
  "pthread_info_id t w = do {
     slot \<leftarrow> arr_get (thread_table w) (unat (t AND THREAD_ID_COOKIE_MASK));
     case slot of
       None \<Rightarrow> Some None
     | Some a \<Rightarrow> do {
         i \<leftarrow> infos w a;
         if tstate i = STATE_FREE \<or> tstate i = STATE_EXITED then Some None
         else if tid i \<noteq> t then Some None
         else Some (Some a) } }"

text \<open>The digits are written from position 10 down to 3; nothing is written at position 11.\<close>

definition hexdigit :: "uint \<Rightarrow> char" where
  "hexdigit k = ''0123456789ABCDEF'' ! unat (k AND 0xF)"

fun put_digits :: "nat \<Rightarrow> uint \<Rightarrow> string \<Rightarrow> string" where
  "put_digits i k s = (if i > 2 then put_digits (i - 1) (drop_bit 4 k) (s[i := hexdigit k]) else s)"

definition vxpth_get_name :: "string \<Rightarrow> char \<Rightarrow> 'k tworld \<Rightarrow> string \<times> 'k tworld" where
  "vxpth_get_name name type w =
     (let s = ''fm-00000000'' @ drop 11 name;
          s' = put_digits 10 (name_count w) (s[2 := type])
      in (s', w\<lparr>name_count := name_count w + 1\<rparr>))"

definition checkforcancel :: "nat \<Rightarrow> 'k tworld \<Rightarrow> bool option" where
  "checkforcancel self w =
     (if self = 0 then Some False
      else do { i \<leftarrow> infos w self; Some (cancelpending i \<and> cancelstate i = CANCEL_ENABLE) })"

definition pthread_self :: "nat \<Rightarrow> 'k tworld \<Rightarrow> uint option" where
  "pthread_self self w = do { i \<leftarrow> infos w self; Some (tid i) }"

definition pthread_equal :: "uint \<Rightarrow> uint \<Rightarrow> bool" where
  "pthread_equal t1 t2 \<longleftrightarrow> t1 = t2"

section \<open>The reaper\<close>

text \<open>
  The loop that waits for the task to be dead never reads the status again, so a status other
  than DEAD is an endless loop.
\<close>

definition reap_slot :: "'k tenv \<Rightarrow> nat \<Rightarrow> 'k tworld \<Rightarrow> 'k tworld option" where
  "reap_slot E i w = do {
     slot \<leftarrow> arr_get (thread_table w) i;
     case slot of
       None \<Rightarrow> Some w
     | Some a \<Rightarrow> do {
         th \<leftarrow> infos w a;
         if tstate th \<noteq> STATE_EXITED then Some w
         else case taskStatusString (kern E) (task_id th) (kst w) of
           None \<Rightarrow> Some w
         | Some st \<Rightarrow>
             if st \<noteq> ''DEAD'' then None
             else do {
               let k1 = taskDelete (kern E) (task_id th) (kst w);
               let k2 = snd (semDelete (sems (kern E)) (joiner th) k1);
               tbl \<leftarrow> arr_set (thread_table w) i None;
               Some (w\<lparr>kst := (if freestack th then k_free (kern E) (stackmem th) k2 else k2),
                       infos := (if freestack th then (infos w)(a := None) else infos w),
                       thread_table := tbl,
                       pthread_count := pthread_count w - 1,
                       pthreads_exited := pthreads_exited w - 1\<rparr>) } } }"

fun reap_from :: "'k tenv \<Rightarrow> nat list \<Rightarrow> 'k tworld \<Rightarrow> 'k tworld option" where
  "reap_from E [] w = Some w"
| "reap_from E (i # is) w =
     (if pthreads_exited w > 0 then do { w' \<leftarrow> reap_slot E i w; reap_from E is w' } else Some w)"

definition pthread_reap :: "'k tenv \<Rightarrow> 'k tworld \<Rightarrow> 'k tworld option" where
  "pthread_reap E w = reap_from E [0..<THREADS_MAX] w"

section \<open>Creation\<close>

text \<open>The search for a free slot; \<open>Some None\<close> when the search comes back to its start.\<close>

partial_function (option) find_free :: "nat option list \<Rightarrow> nat \<Rightarrow> nat \<Rightarrow> nat option option" where
  "find_free tbl first next = do {
     slot \<leftarrow> arr_get tbl next;
     if slot = None then Some (Some next)
     else let next' = (if next + 1 \<ge> THREADS_MAX then 0 else next + 1) in
       if next' = first then Some None else find_free tbl first next' }"

text \<open>Where the control structure lies in the stack memory, and what is left for the stack.\<close>

definition place_info :: "'k tenv \<Rightarrow> nat \<Rightarrow> nat \<Rightarrow> (nat \<times> nat \<times> nat) option" where
  "place_info E stackbase stacksize =
     (if stack_down E then
        if info_down E \<le> stacksize
        then let sz = stacksize - info_down E in Some (stackbase + sz, stackbase + sz, sz) else None
      else if info_up E \<le> stacksize
        then Some (stackbase + 16, stackbase + info_up E, stacksize - info_up E) else None)"

definition init_info ::
    "'k tenv \<Rightarrow> pattr \<Rightarrow> nat \<Rightarrow> uint \<Rightarrow> procptr \<Rightarrow> dword \<Rightarrow> bool \<Rightarrow> nat \<Rightarrow> nat \<Rightarrow> nat \<Rightarrow> string \<Rightarrow> tinfo" where
  "init_info E at slot cookie routine arg freestk mem a jn name =
     \<lparr>task_id = a, joiner = jn, t_name = name,
      tstate = (if a_detachstate at = CREATE_JOINABLE then STATE_RUNNING else STATE_DETACHED),
      cancelstate = CANCEL_ENABLE, canceltype = CANCEL_DEFERRED, cancelpending = False,
      freestack = freestk, tid = of_nat slot + cookie, attr = at, t_retval = 0,
      start_routine = routine, start_arg = arg, stackmem = mem, cancelbuffer = None,
      thread_data = replicate (KEYS_MAX E div ptr_size E) 0 @ drop (KEYS_MAX E div ptr_size E) (old_data E a)\<rparr>"

text \<open>The part under the lock, from the search of a slot on: filling the slot, starting the task.\<close>

definition fill_slot ::
    "'k tenv \<Rightarrow> pattr \<Rightarrow> procptr \<Rightarrow> dword \<Rightarrow> bool \<Rightarrow> nat \<Rightarrow> nat \<Rightarrow> nat \<Rightarrow> 'k tworld \<Rightarrow> 'k tworld" where
  "fill_slot E at routine arg freestk mem slot a w =
     (let cookie = thread_id_cookie w + THREAD_ID_COOKIE_INC;
          (jn, k1) = semBCreate (sems (kern E)) (kst w);
          (name, w1) = vxpth_get_name (old_name E a) (CHR ''t'')
            (w\<lparr>thread_table := (thread_table w)[slot := Some a], thread_info_next := slot + 1,
               thread_id_cookie := cookie, kst := k1\<rparr>)
      in set_info a (init_info E at slot cookie routine arg freestk mem a jn name) w1)"

definition create_locked ::
    "'k tenv \<Rightarrow> pattr \<Rightarrow> procptr \<Rightarrow> dword \<Rightarrow> bool \<Rightarrow> nat \<Rightarrow> nat \<Rightarrow> 'k tworld \<Rightarrow>
       (errno option \<times> (nat \<times> uint) option \<times> 'k tworld) option" where
  "create_locked E at routine arg freestk mem stacksize w = do {
     found \<leftarrow> find_free (thread_table w) (thread_info_next w) (thread_info_next w);
     case found of
       None \<Rightarrow>
         let w1 = unlock_threads E w in
         Some (Some ENOMEM, None, if freestk then w1\<lparr>kst := k_free (kern E) mem (kst w1)\<rparr> else w1)
     | Some slot \<Rightarrow> do {
         (a, stackbase, len) \<leftarrow> place_info E mem stacksize;
         let w2 = fill_slot E at routine arg freestk mem slot a w;
         info \<leftarrow> infos w2 a;
         let (ok, k2) = taskInit (kern E) a (t_name info) (priority (a_schedparam at)) stackbase len (kst w2);
         let w3 = w2\<lparr>kst := k2\<rparr>;
         if \<not> ok then
           let w4 = unlock_threads E w3 in
           Some (Some EINVAL, None,
             if freestk then w4\<lparr>kst := k_free (kern E) mem (kst w4), infos := (infos w4)(a := None)\<rparr> else w4)
         else
           Some (None, Some (a, tid info), unlock_threads E (w3\<lparr>pthread_count := pthread_count w3 + 1\<rparr>)) } }"

text \<open>The size of the stack and its memory: the caller's, or allocated.\<close>

definition stack_size_of :: "pattr \<Rightarrow> nat" where
  "stack_size_of at = (if stacksize_valid at then a_stacksize at else PTHREAD_STACK_DEFAULT)"

definition get_stack :: "'k tenv \<Rightarrow> pattr \<Rightarrow> 'k tworld \<Rightarrow> nat \<times> 'k tworld" where
  "get_stack E at w =
     (if stackaddr_valid at then (a_stackaddr at - stack_size_of at, w)
      else case k_malloc (kern E) (stack_size_of at) (kst w) of (m, k) \<Rightarrow> (m, w\<lparr>kst := k\<rparr>))"

text \<open>\<open>thread\<close> says that the pointer for the new identifier is not NULL; \<open>uninit\<close> is what the
  local attribute object holds before it is initialised.\<close>

definition pthread_create ::
    "'k tenv \<Rightarrow> bool \<Rightarrow> pattr option \<Rightarrow> procptr \<Rightarrow> dword \<Rightarrow> pattr \<Rightarrow> 'k tworld \<Rightarrow>
       (errno option \<times> uint option \<times> 'k tworld) option" where
  "pthread_create E thread at routine arg uninit w =
     (if \<not> thread \<or> routine = 0 then Some (Some EINVAL, None, w)
      else do {
        use_attr \<leftarrow> (case at of None \<Rightarrow> snd (pthread_attr_init (Some uninit)) | Some x \<Rightarrow> Some x);
        let (mem, w0) = get_stack E use_attr w;
        if \<not> stackaddr_valid use_attr \<and> mem = 0 then Some (Some EAGAIN, None, w0)
        else do {
          w1 \<leftarrow> lock_threads E w0;
          w2 \<leftarrow> pthread_reap E w1;
          (err, res, w3) \<leftarrow> create_locked E use_attr routine arg (\<not> stackaddr_valid use_attr) mem
            (stack_size_of use_attr) w2;
          case res of
            None \<Rightarrow> Some (err, None, w3)
          | Some (a, t) \<Rightarrow> Some (None, Some t, w3\<lparr>kst := taskActivate (kern E) a (kst w3)\<rparr>) } })"

text \<open>The start of the system: the mutex, the key map and the main thread.\<close>

definition main_attr :: "pattr \<Rightarrow> nat \<Rightarrow> nat \<Rightarrow> nat \<Rightarrow> pattr option" where
  "main_attr uninit stack_min stack_base stack_size =
     (let a0 = snd (pthread_attr_init (Some uninit));
          a1 = snd (pthread_attr_setdetachstate a0 CREATE_DETACHED);
          a2 = snd (pthread_attr_setinheritsched a1 EXPLICIT_SCHED);
          a3 = snd (pthread_attr_setstackaddr a2 (stack_base + stack_size));
          a4 = snd (pthread_attr_setstacksize stack_min a3 stack_size);
          a5 = snd (pthread_attr_setschedpolicy a4 SCHED_FIFO)
      in snd (pthread_attr_setschedparam a5 (Some \<lparr>priority = 21, preempt_threshold = 21, time_slice = 10\<rparr>)))"

definition start_minigui_pthread ::
    "'k tenv \<Rightarrow> procptr \<Rightarrow> dword \<Rightarrow> nat \<Rightarrow> nat \<Rightarrow> pattr \<Rightarrow> 'k tworld \<Rightarrow> (nat \<times> uint option \<times> 'k tworld) option" where
  "start_minigui_pthread E pth_entry entry_info stack_base stack_size uninit w =
     (case semBCreate (sems (kern E)) (kst w) of (m, k) \<Rightarrow>
        let w1 = w\<lparr>vxpthread_mutex := m, kst := k\<rparr> in
        if m = 0 then Some (1, None, w1)
        else
          let w2 = w1\<lparr>thread_key := replicate (KEYS_MAX E div 32) (NOT 0)\<rparr> in
          if pth_entry \<noteq> 0 then
            if stack_size < MAIN_PTH_MIN_STACK_SIZE E then Some (2, None, w2)
            else do {
              (_, t, w3) \<leftarrow> pthread_create E True (main_attr uninit (STACK_MIN E) stack_base stack_size)
                               (main_entry_ptr E) entry_info uninit w2;
              Some (0, t, w3) }
          else Some (0, None, w2))"

end
