(* ===== verification/VxLife.thy ===== *)
theory VxLife
  imports VxThread
begin

text \<open>
  The rest of lecture-5/minigui-vxworks_pthread.c: cleanup buffers, the exit of a thread with the
  destructors of its data, joining, detaching, cancellation, scheduling parameters,
  \<open>pthread_once\<close> and the thread-specific data.
\<close>

section \<open>Cleanup buffers\<close>

definition pthread_cleanup_push_inner ::
    "nat \<Rightarrow> nat \<Rightarrow> procptr \<Rightarrow> dword \<Rightarrow> 'k tworld \<Rightarrow> 'k tworld option" where
  "pthread_cleanup_push_inner self buffer routine arg w = do {
     i \<leftarrow> infos w self;
     Some (set_info self (i\<lparr>cancelbuffer := Some buffer\<rparr>)
       (w\<lparr>bufs := (bufs w)(buffer \<mapsto> \<lparr>cb_routine = routine, cb_arg = arg, cb_prev = cancelbuffer i\<rparr>)\<rparr>)) }"

definition pthread_cleanup_pop_inner ::
    "'k tenv \<Rightarrow> nat \<Rightarrow> nat \<Rightarrow> bool \<Rightarrow> 'k tworld \<Rightarrow> 'k tworld option" where
  "pthread_cleanup_pop_inner E self buffer execute w = do {
     i \<leftarrow> infos w self;
     b \<leftarrow> bufs w buffer;
     if cancelbuffer i = Some buffer then
       let w1 = set_info self (i\<lparr>cancelbuffer := cb_prev b\<rparr>) w in
       if execute then call_routine E (cb_routine b) (cb_arg b) w1 else Some w1
     else Some w }"

partial_function (option) run_cleanup :: "'k tenv \<Rightarrow> nat \<Rightarrow> 'k tworld \<Rightarrow> 'k tworld option" where
  "run_cleanup E th w = do {
     i \<leftarrow> infos w th;
     case cancelbuffer i of
       None \<Rightarrow> Some w
     | Some buffer \<Rightarrow> do {
         b \<leftarrow> bufs w buffer;
         w1 \<leftarrow> call_routine E (cb_routine b) (cb_arg b) (set_info th (i\<lparr>cancelbuffer := cb_prev b\<rparr>) w);
         run_cleanup E th w1 } }"

section \<open>Exit\<close>

text \<open>One key of one pass over the keys; the flag says whether a destructor was called.\<close>

definition key_is_free :: "'k tworld \<Rightarrow> nat \<Rightarrow> bool option" where
  "key_is_free w key = do { m \<leftarrow> arr_get (thread_key w) (key div 32); Some (bit m (key mod 32)) }"

definition destroy_key :: "'k tenv \<Rightarrow> nat \<Rightarrow> nat \<Rightarrow> bool \<times> 'k tworld \<Rightarrow> (bool \<times> 'k tworld) option" where
  "destroy_key E th key d = (case d of (called, w) \<Rightarrow> do {
     free \<leftarrow> key_is_free w key;
     if free then Some (called, w)
     else do {
       destructor \<leftarrow> arr_get (key_destructor w) key;
       if destructor = 0 then Some (called, w)
       else do {
         i \<leftarrow> infos w th;
         v \<leftarrow> arr_get (thread_data i) key;
         if v = 0 then Some (called, w)
         else do {
           w1 \<leftarrow> call_routine E destructor v (set_info th (i\<lparr>thread_data := (thread_data i)[key := 0]\<rparr>) w);
           Some (True, w1) } } } })"

definition destructor_pass :: "'k tenv \<Rightarrow> nat \<Rightarrow> 'k tworld \<Rightarrow> (bool \<times> 'k tworld) option" where
  "destructor_pass E th w = foldm (destroy_key E th) [0..<KEYS_MAX E] (False, w)"

text \<open>\<open>n\<close> is the number of passes the test of the iteration count still allows.\<close>

primrec destructor_loop :: "'k tenv \<Rightarrow> nat \<Rightarrow> nat \<Rightarrow> 'k tworld \<Rightarrow> 'k tworld option" where
  "destructor_loop E th 0 w = Some w"
| "destructor_loop E th (Suc n) w = do {
     (called, w1) \<leftarrow> destructor_pass E th w;
     if called then destructor_loop E th n w1 else Some w1 }"

definition exit_state :: "nat \<Rightarrow> dword \<Rightarrow> 'k tworld \<Rightarrow> 'k tworld option" where
  "exit_state th rv w = do {
     i \<leftarrow> infos w th;
     Some (if tstate i = STATE_DETACHED
       then set_info th (i\<lparr>t_retval := rv, tstate := STATE_EXITED\<rparr>) (w\<lparr>pthreads_exited := pthreads_exited w + 1\<rparr>)
       else set_info th (i\<lparr>t_retval := rv, tstate := STATE_JOIN\<rparr>)
              (w\<lparr>pthreads_tobejoined := pthreads_tobejoined w + 1\<rparr>)) }"

text \<open>The result is the state when the task of the thread has been deleted.\<close>

definition vxpth_pthread_exit :: "'k tenv \<Rightarrow> nat \<Rightarrow> dword \<Rightarrow> 'k tworld \<Rightarrow> 'k tworld option" where
  "vxpth_pthread_exit E th rv w = do {
     w1 \<leftarrow> run_cleanup E th w;
     w2 \<leftarrow> destructor_loop E th (DESTRUCTOR_ITERATIONS E + 1) w1;
     w3 \<leftarrow> lock_threads E w2;
     w4 \<leftarrow> exit_state th rv w3;
     i \<leftarrow> infos w4 th;
     let w5 = unlock_threads E (give_joiner E i w4);
     Some (w5\<lparr>kst := taskDelete (kern E) (task_id i) (kst w5)\<rparr>) }"

definition pthread_exit :: "'k tenv \<Rightarrow> nat \<Rightarrow> dword \<Rightarrow> 'k tworld \<Rightarrow> 'k tworld option" where
  "pthread_exit E self rv w = vxpth_pthread_exit E self rv w"

definition pthread_testcancel :: "'k tenv \<Rightarrow> nat \<Rightarrow> 'k tworld \<Rightarrow> (bool \<times> 'k tworld) option" where
  "pthread_testcancel E self w = do {
     c \<leftarrow> checkforcancel self w;
     if c then do { w' \<leftarrow> pthread_exit E self (PTHREAD_CANCELED E) w; Some (True, w') }
     else Some (False, w) }"

text \<open>What the new thread runs: the start routine, then \<open>pthread_exit\<close> with its result. The
  application's routine is the argument \<open>run\<close>.\<close>

definition pthread_entry ::
    "'k tenv \<Rightarrow> (procptr \<Rightarrow> dword \<Rightarrow> 'k tworld \<Rightarrow> (dword \<times> 'k tworld) option) \<Rightarrow> nat \<Rightarrow> 'k tworld \<Rightarrow> 'k tworld option" where
  "pthread_entry E run self w = do {
     i \<leftarrow> infos w self;
     (rv, w1) \<leftarrow> run (start_routine i) (start_arg i) w;
     pthread_exit E self rv w1 }"

section \<open>Join and detach\<close>

definition take_joiner :: "'k tenv \<Rightarrow> nat \<Rightarrow> 'k tworld \<Rightarrow> (vxstatus \<times> 'k tworld) option" where
  "take_joiner E s w = do {
     (st, k) \<leftarrow> semTake (sems (kern E)) False s (kst w);
     if st = OBJ_UNAVAILABLE then others_until E s w else Some (st, w\<lparr>kst := k\<rparr>) }"

text \<open>Waiting until the thread at \<open>a\<close> has left the RUNNING state.\<close>

partial_function (option) join_wait :: "'k tenv \<Rightarrow> nat \<Rightarrow> nat \<Rightarrow> 'k tworld \<Rightarrow> (errno option \<times> 'k tworld) option" where
  "join_wait E self a w = do {
     j \<leftarrow> infos w a;
     if tstate j \<noteq> STATE_RUNNING then Some (None, w)
     else do {
       (st, w1) \<leftarrow> take_joiner E (joiner j) (unlock_threads E w);
       w2 \<leftarrow> lock_threads E w1;
       c \<leftarrow> (if st \<noteq> OK then checkforcancel self w2 else Some False);
       if c then Some (Some EAGAIN, w2) else join_wait E self a w2 } }"

definition join_state :: "'k tenv \<Rightarrow> nat \<Rightarrow> nat \<Rightarrow> 'k tworld \<Rightarrow> (errno option \<times> 'k tworld) option" where
  "join_state E self a w = do {
     j \<leftarrow> infos w a;
     case tstate j of
       STATE_RUNNING \<Rightarrow> do {
         (err, w1) \<leftarrow> join_wait E self a w;
         j1 \<leftarrow> infos w1 a;
         Some (if tstate j1 = STATE_JOIN then err else Some EINVAL, w1) }
     | STATE_JOIN \<Rightarrow> Some (None, w)
     | _ \<Rightarrow> Some (Some EINVAL, w) }"

definition join_done :: "'k tenv \<Rightarrow> nat \<Rightarrow> 'k tworld \<Rightarrow> (dword \<times> 'k tworld) option" where
  "join_done E a w = do {
     j \<leftarrow> infos w a;
     w' \<leftarrow> pthread_reap E (set_info a (j\<lparr>tstate := STATE_EXITED\<rparr>)
             (w\<lparr>pthreads_exited := pthreads_exited w + 1, pthreads_tobejoined := pthreads_tobejoined w - 1\<rparr>));
     Some (t_retval j, w') }"

text \<open>The result of the call with what \<open>*thread_return\<close> is set to (unless the pointer is NULL).\<close>

definition pthread_join ::
    "'k tenv \<Rightarrow> nat \<Rightarrow> uint \<Rightarrow> 'k tworld \<Rightarrow> ((errno option \<times> dword option) outcome \<times> 'k tworld) option" where
  "pthread_join E self thread w = do {
     (ex, w0) \<leftarrow> pthread_testcancel E self w;
     if ex then Some (Exits, w0)
     else do {
       w1 \<leftarrow> lock_threads E w0;
       w2 \<leftarrow> pthread_reap E w1;
       joinee \<leftarrow> pthread_info_id thread w2;
       (err, w3) \<leftarrow> (case joinee of
           None \<Rightarrow> Some (Some ESRCH, w2)
         | Some a \<Rightarrow> if a = self then Some (Some EDEADLK, w2) else join_state E self a w2);
       (rv, w4) \<leftarrow> (case (err, joinee) of
           (None, Some a) \<Rightarrow> do { (v, w') \<leftarrow> join_done E a w3; Some (Some v, w') }
         | _ \<Rightarrow> Some (None, w3));
       (ex', w5) \<leftarrow> pthread_testcancel E self (unlock_threads E w4);
       Some (if ex' then Exits else Returns (err, rv), w5) } }"

definition pthread_detach :: "'k tenv \<Rightarrow> uint \<Rightarrow> 'k tworld \<Rightarrow> (errno option \<times> 'k tworld) option" where
  "pthread_detach E thread w = do {
     w1 \<leftarrow> lock_threads E w;
     detachee \<leftarrow> pthread_info_id thread w1;
     (ret, w2) \<leftarrow> (case detachee of
         None \<Rightarrow> Some (Some ESRCH, w1)
       | Some a \<Rightarrow> do {
           i \<leftarrow> infos w1 a;
           if tstate i = STATE_DETACHED then Some (Some EINVAL, w1)
           else Some (None, give_joiner E i (set_info a (i\<lparr>tstate := STATE_DETACHED\<rparr>) w1)) });
     w3 \<leftarrow> pthread_reap E w2;
     Some (ret, unlock_threads E w3) }"

section \<open>Cancellation\<close>

definition pthread_setcancelstate ::
    "'k tenv \<Rightarrow> nat \<Rightarrow> cancel_state \<Rightarrow> 'k tworld \<Rightarrow> (errno option \<times> cancel_state option \<times> 'k tworld) option" where
  "pthread_setcancelstate E self v w =
     (if v \<noteq> CANCEL_ENABLE \<and> v \<noteq> CANCEL_DISABLE then Some (Some EINVAL, None, w)
      else do {
        w1 \<leftarrow> lock_threads E w;
        i \<leftarrow> infos w1 self;
        Some (None, Some (cancelstate i), unlock_threads E (set_info self (i\<lparr>cancelstate := v\<rparr>) w1)) })"

definition pthread_setcanceltype ::
    "'k tenv \<Rightarrow> nat \<Rightarrow> cancel_type \<Rightarrow> 'k tworld \<Rightarrow> (errno option \<times> cancel_type option \<times> 'k tworld) option" where
  "pthread_setcanceltype E self v w =
     (if v \<noteq> CANCEL_ASYNCHRONOUS \<and> v \<noteq> CANCEL_DEFERRED then Some (Some EINVAL, None, w)
      else do {
        w1 \<leftarrow> lock_threads E w;
        i \<leftarrow> infos w1 self;
        Some (None, Some (canceltype i), unlock_threads E (set_info self (i\<lparr>canceltype := v\<rparr>) w1)) })"

text \<open>
  With asynchronous cancellation the caller runs \<open>vxpth_pthread_exit\<close> for the other thread, while
  it holds the mutex; that function ends in an endless loop, left only by the death of the task.
\<close>

definition pthread_cancel :: "'k tenv \<Rightarrow> nat \<Rightarrow> uint \<Rightarrow> 'k tworld \<Rightarrow> (errno option outcome \<times> 'k tworld) option" where
  "pthread_cancel E self thread w = do {
     w1 \<leftarrow> lock_threads E w;
     th \<leftarrow> pthread_info_id thread w1;
     case th of
       None \<Rightarrow> Some (Returns (Some ESRCH), unlock_threads E w1)
     | Some a \<Rightarrow> do {
         i \<leftarrow> infos w1 a;
         let w2 = set_info a (i\<lparr>cancelpending := True\<rparr>) w1;
         if cancelstate i = CANCEL_ENABLE \<and> canceltype i = CANCEL_ASYNCHRONOUS then do {
           w3 \<leftarrow> vxpth_pthread_exit E a (PTHREAD_CANCELED E) w2;
           if a = self then Some (Exits, w3) else None }
         else Some (Returns None, unlock_threads E w2) } }"

section \<open>Scheduling parameters and one-time initialisation\<close>

definition pthread_setschedparam ::
    "'k tenv \<Rightarrow> uint \<Rightarrow> sched_policy \<Rightarrow> sched_param option \<Rightarrow> 'k tworld \<Rightarrow> (errno option \<times> 'k tworld) option" where
  "pthread_setschedparam E thread policy param w =
     (if policy \<noteq> SCHED_OTHER \<and> policy \<noteq> SCHED_FIFO \<and> policy \<noteq> SCHED_RR then Some (Some EINVAL, w)
      else case param of
        None \<Rightarrow> Some (Some EINVAL, w)
      | Some p \<Rightarrow> do {
          w1 \<leftarrow> lock_threads E w;
          th \<leftarrow> pthread_info_id thread w1;
          case th of
            None \<Rightarrow> Some (Some ESRCH, unlock_threads E w1)
          | Some a \<Rightarrow> do {
              i \<leftarrow> infos w1 a;
              let w2 = set_info a (i\<lparr>attr := (attr i)\<lparr>a_schedpolicy := policy, a_schedparam := p\<rparr>\<rparr>) w1;
              Some (None, unlock_threads E
                (w2\<lparr>kst := taskPrioritySet (kern E) (task_id i) (priority p) (kst w2)\<rparr>)) } })"

definition pthread_getschedparam ::
    "'k tenv \<Rightarrow> uint \<Rightarrow> 'k tworld \<Rightarrow> ((errno + sched_policy \<times> sched_param) \<times> 'k tworld) option" where
  "pthread_getschedparam E thread w = do {
     w1 \<leftarrow> lock_threads E w;
     th \<leftarrow> pthread_info_id thread w1;
     case th of
       None \<Rightarrow> Some (Inl ESRCH, unlock_threads E w1)
     | Some a \<Rightarrow> do {
         i \<leftarrow> infos w1 a;
         Some (Inr (a_schedpolicy (attr i), a_schedparam (attr i)), unlock_threads E w1) } }"

text \<open>\<open>once\<close> is the value of the control variable; its new value is part of the result.\<close>

definition pthread_once ::
    "'k tenv \<Rightarrow> int option \<Rightarrow> procptr \<Rightarrow> 'k tworld \<Rightarrow> (errno option \<times> int option \<times> 'k tworld) option" where
  "pthread_once E once routine w =
     (case once of
        None \<Rightarrow> Some (Some EINVAL, None, w)
      | Some old \<Rightarrow>
          if routine = 0 then Some (Some EINVAL, once, w)
          else do {
            w1 \<leftarrow> lock_threads E w;
            let w2 = unlock_threads E w1;
            w3 \<leftarrow> (if old = 0 then call_routine E routine 0 w2 else Some w2);
            Some (None, Some 1, w3) })"

section \<open>Thread-specific data\<close>

definition lsbit_index :: "uint \<Rightarrow> int" where
  "lsbit_index m = (case List.find (bit m) [0..<32] of Some i \<Rightarrow> int i | None \<Rightarrow> -1)"

text \<open>Planting NULL at the key in every thread of the table.\<close>

definition clear_data :: "nat \<Rightarrow> nat \<Rightarrow> 'k tworld \<Rightarrow> 'k tworld option" where
  "clear_data key i w = do {
     slot \<leftarrow> arr_get (thread_table w) i;
     case slot of
       None \<Rightarrow> Some w
     | Some a \<Rightarrow> do {
         th \<leftarrow> infos w a;
         dat \<leftarrow> arr_set (thread_data th) key 0;
         Some (set_info a (th\<lparr>thread_data := dat\<rparr>) w) } }"

text \<open>The first word with a free bit, from word \<open>i\<close> on; \<open>None\<close> inside when there is none.\<close>

fun find_key :: "uint list \<Rightarrow> nat \<Rightarrow> (nat \<times> nat) option" where
  "find_key [] i = None"
| "find_key (m # ms) i = (if m \<noteq> 0 then Some (i, nat (lsbit_index m)) else find_key ms (i + 1))"

definition pthread_key_create ::
    "'k tenv \<Rightarrow> procptr \<Rightarrow> 'k tworld \<Rightarrow> ((errno + nat) \<times> 'k tworld) option" where
  "pthread_key_create E destructor w = do {
     w1 \<leftarrow> lock_threads E w;
     case find_key (take (KEYS_MAX E div 32) (thread_key w1)) 0 of
       None \<Rightarrow> Some (Inl EAGAIN, unlock_threads E w1)
     | Some (i, b) \<Rightarrow> do {
         let k = b + i * 32;
         ds \<leftarrow> arr_set (key_destructor w1) k destructor;
         w2 \<leftarrow> foldm (clear_data k) [0..<THREADS_MAX]
                 (w1\<lparr>thread_key := (thread_key w1)[i := (thread_key w1 ! i) AND NOT (push_bit b 1)],
                     key_destructor := ds\<rparr>);
         Some (Inr k, unlock_threads E w2) } }"

definition pthread_key_delete :: "'k tenv \<Rightarrow> nat \<Rightarrow> 'k tworld \<Rightarrow> 'k tworld option" where
  "pthread_key_delete E key w = do {
     w1 \<leftarrow> lock_threads E w;
     m \<leftarrow> arr_get (thread_key w1) (key div 32);
     Some (unlock_threads E
       (w1\<lparr>thread_key := (thread_key w1)[key div 32 := m OR push_bit (key mod 32) 1]\<rparr>)) }"

definition pthread_setspecific :: "nat \<Rightarrow> nat \<Rightarrow> dword \<Rightarrow> 'k tworld \<Rightarrow> (errno option \<times> 'k tworld) option" where
  "pthread_setspecific self key p w = do {
     free \<leftarrow> key_is_free w key;
     if free then Some (Some EINVAL, w)
     else do {
       i \<leftarrow> infos w self;
       dat \<leftarrow> arr_set (thread_data i) key p;
       Some (None, set_info self (i\<lparr>thread_data := dat\<rparr>) w) } }"

definition pthread_getspecific :: "nat \<Rightarrow> nat \<Rightarrow> 'k tworld \<Rightarrow> dword option" where
  "pthread_getspecific self key w = do {
     free \<leftarrow> key_is_free w key;
     if free then Some 0
     else do { i \<leftarrow> infos w self; arr_get (thread_data i) key } }"

end
