(* ===== verification/VxTable.thy ===== *)
theory VxTable
  imports VxLife
begin

text \<open>
  The thread table as an abstract map from slots to the state and the identifier of the thread in
  the slot (\<open>tabs\<close>), the well-formedness of the concrete table (\<open>table_ok\<close>: every slot points to
  a live structure whose identifier encodes the slot, and the three counters count the slots in
  the table, the exited and the joinable ones), and the effect of each operation on the map.
\<close>

section \<open>The abstract table\<close>

definition tabs :: "'k tworld \<Rightarrow> nat \<Rightarrow> (pstate \<times> uint) option" where
  "tabs w i = (if i < length (thread_table w)
     then (case thread_table w ! i of
             None \<Rightarrow> None
           | Some a \<Rightarrow> Some (tstate (the (infos w a)), tid (the (infos w a))))
     else None)"

text \<open>The number of slots of an abstract table in a state.\<close>

definition slots_in :: "(pstate \<Rightarrow> bool) \<Rightarrow> (nat \<Rightarrow> (pstate \<times> uint) option) \<Rightarrow> nat set" where
  "slots_in P f = {i. \<exists>s t. f i = Some (s, t) \<and> P s}"

definition counters_ok :: "'k tworld \<Rightarrow> bool" where
  "counters_ok w \<longleftrightarrow>
     pthread_count w = int (card (slots_in (\<lambda>_. True) (tabs w))) \<and>
     pthreads_exited w = int (card (slots_in (\<lambda>s. s = STATE_EXITED) (tabs w))) \<and>
     pthreads_tobejoined w = int (card (slots_in (\<lambda>s. s = STATE_JOIN) (tabs w)))"

definition slot_ok :: "'k tworld \<Rightarrow> nat \<Rightarrow> nat \<Rightarrow> bool" where
  "slot_ok w i a \<longleftrightarrow> (\<exists>t. infos w a = Some t \<and> tstate t \<noteq> STATE_FREE \<and>
     unat (tid t AND THREAD_ID_COOKIE_MASK) = i)"

definition table_ok :: "'k tworld \<Rightarrow> bool" where
  "table_ok w \<longleftrightarrow>
     length (thread_table w) = THREADS_MAX \<and>
     thread_id_cookie w AND THREAD_ID_COOKIE_MASK = 0 \<and>
     (\<forall>i a. i < THREADS_MAX \<longrightarrow> thread_table w ! i = Some a \<longrightarrow> slot_ok w i a) \<and>
     counters_ok w"

lemma table_ok_slot:
  "table_ok w \<Longrightarrow> i < THREADS_MAX \<Longrightarrow> thread_table w ! i = Some a \<Longrightarrow> slot_ok w i a"
  by (simp add: table_ok_def)

lemma tabs_bound: "tabs w i = Some x \<Longrightarrow> i < length (thread_table w)"
  by (simp add: tabs_def split: if_splits)

lemma finite_slots_in: "finite (slots_in P (tabs w))"
  by (rule finite_subset [of _ "{..<length (thread_table w)}"])
    (auto simp: slots_in_def dest: tabs_bound)

lemma slots_in_upd:
  "slots_in P (f(i := v)) =
     (case v of Some (s, t) \<Rightarrow> if P s then insert i (slots_in P f) else slots_in P f - {i}
      | None \<Rightarrow> slots_in P f - {i})"
  by (auto simp: slots_in_def split: option.splits prod.splits)

lemma slots_in_mem: "i \<in> slots_in P f \<longleftrightarrow> (case f i of Some (s, t) \<Rightarrow> P s | None \<Rightarrow> False)"
  by (auto simp: slots_in_def split: option.splits)

text \<open>How one update of the map moves a counter.\<close>

definition weight :: "(pstate \<Rightarrow> bool) \<Rightarrow> (pstate \<times> uint) option \<Rightarrow> int" where
  "weight P v = (case v of Some (s, t) \<Rightarrow> if P s then 1 else 0 | None \<Rightarrow> 0)"

lemma card_slots_upd:
  assumes "finite (slots_in P f)"
  shows "int (card (slots_in P (f(i := v)))) = int (card (slots_in P f)) - weight P (f i) + weight P v"
proof (cases "i \<in> slots_in P f")
  case True
  then have "0 < card (slots_in P f)" using assms card_gt_0_iff by blast
  then show ?thesis using assms True
    by (auto simp: slots_in_upd weight_def slots_in_mem insert_absorb of_nat_diff split: option.splits prod.splits)
next
  case False
  then show ?thesis using assms
    by (auto simp: slots_in_upd weight_def slots_in_mem split: option.splits prod.splits)
qed

lemma counters_upd:
  assumes "counters_ok w" "tabs w' = (tabs w)(i := v)"
    and "pthread_count w' = pthread_count w - weight (\<lambda>_. True) (tabs w i) + weight (\<lambda>_. True) v"
    and "pthreads_exited w' = pthreads_exited w
      - weight (\<lambda>s. s = STATE_EXITED) (tabs w i) + weight (\<lambda>s. s = STATE_EXITED) v"
    and "pthreads_tobejoined w' = pthreads_tobejoined w
      - weight (\<lambda>s. s = STATE_JOIN) (tabs w i) + weight (\<lambda>s. s = STATE_JOIN) v"
  shows "counters_ok w'"
  using assms card_slots_upd [OF finite_slots_in, of _ w i v] by (simp add: counters_ok_def)

section \<open>Frames\<close>

text \<open>Two stores with the same table: what most operations keep.\<close>

definition same_table :: "'k tworld \<Rightarrow> 'k tworld \<Rightarrow> bool" where
  "same_table w w' \<longleftrightarrow>
     thread_table w' = thread_table w \<and> thread_id_cookie w' = thread_id_cookie w \<and>
     thread_info_next w' = thread_info_next w \<and>
     pthread_count w' = pthread_count w \<and> pthreads_exited w' = pthreads_exited w \<and>
     pthreads_tobejoined w' = pthreads_tobejoined w \<and>
     (\<forall>a. map_option (\<lambda>t. (tstate t, tid t)) (infos w' a) = map_option (\<lambda>t. (tstate t, tid t)) (infos w a))"

lemma same_table_refl [simp]: "same_table w w"
  by (simp add: same_table_def)

lemma same_table_trans: "same_table u v \<Longrightarrow> same_table v w \<Longrightarrow> same_table u w"
  by (simp add: same_table_def)

lemma same_table_info:
  assumes "same_table w w'" "infos w a = Some t"
  shows "\<exists>t'. infos w' a = Some t' \<and> tstate t' = tstate t \<and> tid t' = tid t"
proof -
  have "map_option (\<lambda>t. (tstate t, tid t)) (infos w' a) = Some (tstate t, tid t)"
    using assms by (simp add: same_table_def)
  then show ?thesis by auto
qed

lemma same_table_tabs:
  assumes "table_ok w" "same_table w w'"
  shows "tabs w' = tabs w"
proof
  fix i
  show "tabs w' i = tabs w i"
  proof (cases "i < THREADS_MAX \<and> thread_table w ! i \<noteq> None")
    case True
    then obtain a where a1: "thread_table w ! i = Some a" by blast
    obtain t where a: "thread_table w ! i = Some a" "infos w a = Some t"
      using assms(1) a1 True unfolding table_ok_def slot_ok_def by blast
    with same_table_info [OF assms(2) a(2)] show ?thesis
      using assms(2) by (auto simp: tabs_def same_table_def)
  qed (use assms in \<open>auto simp: tabs_def same_table_def table_ok_def\<close>)
qed

lemma same_table_ok:
  assumes "table_ok w" "same_table w w'"
  shows "table_ok w'"
proof -
  have "slot_ok w' i a" if ia: "i < THREADS_MAX" "thread_table w ! i = Some a" for i a
  proof -
    obtain t where t: "infos w a = Some t" "tstate t \<noteq> STATE_FREE" "unat (tid t AND THREAD_ID_COOKIE_MASK) = i"
      using table_ok_slot [OF assms(1) ia] unfolding slot_ok_def by blast
    with same_table_info [OF assms(2) t(1)] show ?thesis unfolding slot_ok_def by auto
  qed
  with assms same_table_tabs [OF assms] show ?thesis
    by (simp add: table_ok_def same_table_def counters_ok_def)
qed

lemma same_table_kst [simp]: "same_table w (w\<lparr>kst := k\<rparr>)"
  by (simp add: same_table_def)

lemma same_table_kst_iff [simp]:
  "same_table (w\<lparr>kst := k\<rparr>) w' = same_table w w'" "same_table w (w'\<lparr>kst := k\<rparr>) = same_table w w'"
  by (simp_all add: same_table_def)

lemma same_table_set_info:
  "infos w a = Some t \<Longrightarrow> tstate t' = tstate t \<Longrightarrow> tid t' = tid t \<Longrightarrow> same_table w (set_info a t' w)"
  by (simp add: same_table_def set_info_def)

lemma same_table_lock: "lock_threads E w = Some w' \<Longrightarrow> same_table w w'"
  by (auto simp: lock_threads_def split: bind_splits)

lemma same_table_unlock [simp]:
  "same_table w (unlock_threads E w') = same_table w w'" "same_table (unlock_threads E w) w' = same_table w w'"
  by (simp_all add: unlock_threads_def)

lemma same_table_give [simp]:
  "same_table w (give_joiner E i w') = same_table w w'" "same_table (give_joiner E i w) w' = same_table w w'"
  by (simp_all add: give_joiner_def)

lemma tabs_cong: "thread_table w' = thread_table w \<Longrightarrow> infos w' = infos w \<Longrightarrow> tabs w' = tabs w"
  by (rule ext) (simp only: tabs_def)

lemma tabs_kst [simp]: "tabs (w\<lparr>kst := k\<rparr>) = tabs w"
  by (rule tabs_cong) simp_all

lemma table_ok_kst [simp]: "table_ok (w\<lparr>kst := k\<rparr>) = table_ok w"
  by (simp add: table_ok_def slot_ok_def counters_ok_def)

lemma table_ok_unlock [simp]:
  "table_ok (unlock_threads E w) = table_ok w" "tabs (unlock_threads E w) = tabs w"
  "table_ok (give_joiner E i w) = table_ok w" "tabs (give_joiner E i w) = tabs w"
  by (simp_all add: unlock_threads_def give_joiner_def)

section \<open>Looking up an identifier\<close>

lemma slot_unique: "slot_ok w i a \<Longrightarrow> slot_ok w j a \<Longrightarrow> i = j"
  by (auto simp: slot_ok_def)

text \<open>\<open>at_slot\<close>: slot \<open>i\<close> holds the structure at \<open>a\<close>.\<close>

definition at_slot :: "'k tworld \<Rightarrow> nat \<Rightarrow> nat \<Rightarrow> bool" where
  "at_slot w i a \<longleftrightarrow> i < THREADS_MAX \<and> thread_table w ! i = Some a"

lemma at_slot_info:
  assumes "table_ok w" "at_slot w i a"
  shows "\<exists>t. infos w a = Some t \<and> tstate t \<noteq> STATE_FREE \<and> unat (tid t AND THREAD_ID_COOKIE_MASK) = i \<and>
    tabs w i = Some (tstate t, tid t)"
proof -
  have a: "i < THREADS_MAX" "thread_table w ! i = Some a" using assms(2) by (simp_all add: at_slot_def)
  obtain t where "infos w a = Some t" "tstate t \<noteq> STATE_FREE" "unat (tid t AND THREAD_ID_COOKIE_MASK) = i"
    using table_ok_slot [OF assms(1) a] unfolding slot_ok_def by blast
  moreover have "length (thread_table w) = THREADS_MAX" using assms(1) by (simp add: table_ok_def)
  ultimately show ?thesis using a by (simp add: tabs_def)
qed

lemma info_id_cong:
  "thread_table w' = thread_table w \<Longrightarrow> infos w' = infos w \<Longrightarrow> pthread_info_id t w' = pthread_info_id t w"
  by (simp only: pthread_info_id_def)

lemma info_id_kst [simp]: "pthread_info_id t (w\<lparr>kst := k\<rparr>) = pthread_info_id t w"
  by (rule info_id_cong) simp_all

lemma info_id_Some:
  assumes "table_ok w" "pthread_info_id t w = Some (Some a)"
  shows "\<exists>i th. at_slot w i a \<and> infos w a = Some th \<and> tid th = t \<and> i = unat (t AND THREAD_ID_COOKIE_MASK) \<and>
    tstate th \<noteq> STATE_FREE \<and> tstate th \<noteq> STATE_EXITED"
  using assms
  by (auto simp: pthread_info_id_def arr_get_Some_iff at_slot_def table_ok_def
      split: bind_splits option.splits if_splits)

text \<open>On the abstract table, a lookup finds the slot of the identifier.\<close>

lemma info_id_tabs:
  assumes "table_ok w" "unat (t AND THREAD_ID_COOKIE_MASK) < THREADS_MAX"
  shows "\<exists>r. pthread_info_id t w = Some r \<and>
    (r \<noteq> None \<longleftrightarrow> (\<exists>s. tabs w (unat (t AND THREAD_ID_COOKIE_MASK)) = Some (s, t) \<and> s \<noteq> STATE_EXITED))"
proof -
  let ?i = "unat (t AND THREAD_ID_COOKIE_MASK)"
  have l: "?i < length (thread_table w)" using assms by (simp add: table_ok_def)
  show ?thesis
  proof (cases "thread_table w ! ?i")
    case None
    then show ?thesis using l by (simp add: pthread_info_id_def arr_get_in tabs_def)
  next
    case (Some a)
    obtain th where th: "infos w a = Some th" "tstate th \<noteq> STATE_FREE"
      using table_ok_slot [OF assms Some] by (auto simp: slot_ok_def)
    then show ?thesis using l Some by (auto simp: pthread_info_id_def arr_get_in tabs_def)
  qed
qed

section \<open>One slot changes\<close>

text \<open>Changing the structure in a slot.\<close>

lemma tabs_set_info:
  assumes ok: "table_ok w" and a: "at_slot w i a"
  shows "tabs (set_info a t w) = (tabs w)(i := Some (tstate t, tid t))"
proof
  fix j
  show "tabs (set_info a t w) j = ((tabs w)(i := Some (tstate t, tid t))) j"
  proof (cases "j = i")
    case True
    then show ?thesis using a ok by (simp add: tabs_def set_info_def at_slot_def table_ok_def)
  next
    case False
    have "thread_table w ! j \<noteq> Some a" if "j < THREADS_MAX"
      using slot_unique [of w i a j] table_ok_slot [OF ok] a that False by (auto simp: at_slot_def)
    then show ?thesis using ok False
      by (auto simp: tabs_def set_info_def table_ok_def split: option.splits)
  qed
qed

lemma set_info_slots:
  assumes "table_ok w" "at_slot w i a" "tstate t \<noteq> STATE_FREE" "unat (tid t AND THREAD_ID_COOKIE_MASK) = i"
    and "j < THREADS_MAX" "thread_table w ! j = Some b"
  shows "slot_ok (set_info a t w) j b"
proof (cases "b = a")
  case True
  then have "j = i"
    using slot_unique [of w i a j] table_ok_slot [OF assms(1)] assms(2,5,6) by (auto simp: at_slot_def)
  then show ?thesis using True assms by (simp add: slot_ok_def set_info_def)
next
  case False
  then show ?thesis using table_ok_slot [OF assms(1,5,6)] by (simp add: slot_ok_def set_info_def)
qed

text \<open>Emptying a slot, possibly freeing the structure.\<close>

lemma tabs_clear_slot:
  assumes ok: "table_ok w" and a: "at_slot w i a"
    and w': "thread_table w' = (thread_table w)[i := None]" "\<And>b. b \<noteq> a \<Longrightarrow> infos w' b = infos w b"
  shows "tabs w' = (tabs w)(i := None)"
proof
  fix j
  show "tabs w' j = ((tabs w)(i := None)) j"
  proof (cases "j = i")
    case True
    then show ?thesis using a ok w'(1) by (simp add: tabs_def at_slot_def table_ok_def)
  next
    case False
    have "thread_table w ! j \<noteq> Some a" if "j < THREADS_MAX"
      using slot_unique [of w i a j] table_ok_slot [OF ok] a that False by (auto simp: at_slot_def)
    then show ?thesis using ok False w' by (auto simp: tabs_def table_ok_def split: option.splits)
  qed
qed

end
