(* ===== verification/VxOps.thy ===== *)
theory VxOps
  imports VxTable
begin

text \<open>
  What the operations on threads do to the abstract table: the reaper, the search for a free
  slot, creation, the end of a thread, joining and detaching.
\<close>

section \<open>The reaper\<close>

lemma no_exited:
  assumes "table_ok w" "pthreads_exited w \<le> 0"
  shows "tabs w i \<noteq> Some (STATE_EXITED, t)"
proof
  assume "tabs w i = Some (STATE_EXITED, t)"
  then have "i \<in> slots_in (\<lambda>s. s = STATE_EXITED) (tabs w)" by (simp add: slots_in_mem)
  then have "0 < card (slots_in (\<lambda>s. s = STATE_EXITED) (tabs w))" using finite_slots_in card_gt_0_iff by blast
  with assms show False by (simp add: table_ok_def counters_ok_def)
qed

text \<open>What the reaper leaves alone.\<close>

definition reap_frame :: "'k tworld \<Rightarrow> 'k tworld \<Rightarrow> bool" where
  "reap_frame w w' \<longleftrightarrow>
     thread_info_next w' = thread_info_next w \<and> thread_id_cookie w' = thread_id_cookie w \<and>
     vxpthread_mutex w' = vxpthread_mutex w \<and> thread_key w' = thread_key w \<and>
     length (thread_table w') = length (thread_table w) \<and>
     (\<forall>j < length (thread_table w). thread_table w' ! j = thread_table w ! j \<or> thread_table w' ! j = None) \<and>
     (\<forall>a. infos w' a = infos w a \<or> (infos w' a = None \<and> (\<exists>t. infos w a = Some t \<and> tstate t = STATE_EXITED)))"

lemma reap_frame_refl [simp]: "reap_frame w w"
  by (auto simp: reap_frame_def)

lemma reap_frame_trans:
  assumes "reap_frame u v" "reap_frame v w"
  shows "reap_frame u w"
proof -
  have "thread_table w ! j = thread_table u ! j \<or> thread_table w ! j = None" if "j < length (thread_table u)" for j
    using assms that unfolding reap_frame_def by metis
  moreover have "infos w a = infos u a \<or> infos w a = None \<and> (\<exists>t. infos u a = Some t \<and> tstate t = STATE_EXITED)" for a
    using assms unfolding reap_frame_def by metis
  ultimately show ?thesis using assms by (simp add: reap_frame_def)
qed

lemma reap_frame_fresh: "reap_frame w w' \<Longrightarrow> Some a \<notin> set (thread_table w) \<Longrightarrow> Some a \<notin> set (thread_table w')"
  by (auto simp: reap_frame_def in_set_conv_nth)

lemma reap_frame_info:
  "reap_frame w w' \<Longrightarrow> infos w a = Some t \<Longrightarrow> tstate t \<noteq> STATE_EXITED \<Longrightarrow> infos w' a = Some t"
  unfolding reap_frame_def by (metis option.inject)

lemma reap_slot_ok:
  assumes ok: "table_ok w" and r: "reap_slot E i w = Some w'"
  shows "table_ok w' \<and> reap_frame w w' \<and>
    (tabs w' = tabs w \<or> (\<exists>t. tabs w i = Some (STATE_EXITED, t)) \<and> tabs w' = (tabs w)(i := None))"
proof (cases "\<exists>a th. arr_get (thread_table w) i = Some (Some a) \<and> infos w a = Some th \<and>
    tstate th = STATE_EXITED \<and> taskStatusString (kern E) (task_id th) (kst w) \<noteq> None")
  case False
  then have "w' = w" using r
    by (auto simp: reap_slot_def split: bind_splits option.splits if_splits)
  then show ?thesis using ok by simp
next
  case True
  then obtain a th where a: "thread_table w ! i = Some a" "i < length (thread_table w)" "infos w a = Some th"
    "tstate th = STATE_EXITED" "taskStatusString (kern E) (task_id th) (kst w) \<noteq> None"
    by (auto simp: arr_get_Some_iff)
  from r a have w': "thread_table w' = (thread_table w)[i := None]"
    "infos w' = (if freestack th then (infos w)(a := None) else infos w)"
    "pthread_count w' = pthread_count w - 1" "pthreads_exited w' = pthreads_exited w - 1"
    "pthreads_tobejoined w' = pthreads_tobejoined w" "thread_id_cookie w' = thread_id_cookie w"
    "thread_info_next w' = thread_info_next w" "vxpthread_mutex w' = vxpthread_mutex w"
    "thread_key w' = thread_key w"
    by (auto simp: reap_slot_def arr_get_def arr_set_def Let_def split: if_splits)
  have at: "at_slot w i a" using a ok by (simp add: at_slot_def table_ok_def)
  have ti: "tabs w i = Some (STATE_EXITED, tid th)" using a by (simp add: tabs_def)
  have tb: "tabs w' = (tabs w)(i := None)"
    using w'(2) by (intro tabs_clear_slot [OF ok at w'(1)]) auto
  have "counters_ok w'"
    by (rule counters_upd [OF _ tb]) (use ok w' ti in \<open>simp_all add: table_ok_def weight_def\<close>)
  moreover have "slot_ok w' j b" if "j < THREADS_MAX" "thread_table w' ! j = Some b" for j b
  proof -
    have j: "j \<noteq> i" "thread_table w ! j = Some b" using that w'(1) a(2) by (auto simp: nth_list_update split: if_splits)
    then have "slot_ok w j b" using table_ok_slot [OF ok that(1)] by blast
    moreover have "b \<noteq> a"
      using slot_unique [of w i a j] table_ok_slot [OF ok] at j that(1) by (auto simp: at_slot_def)
    ultimately show ?thesis by (simp add: slot_ok_def w'(2))
  qed
  ultimately have "table_ok w'" using ok w'(1,6) by (simp add: table_ok_def)
  moreover have "reap_frame w w'"
    using w' a(2-4) by (auto simp: reap_frame_def nth_list_update)
  ultimately show ?thesis using tb ti by blast
qed

lemma reap_from_ok:
  assumes "table_ok w" "reap_from E is w = Some w'"
  shows "table_ok w' \<and> reap_frame w w' \<and>
    (\<forall>i. tabs w' i = tabs w i \<or> (\<exists>t. tabs w i = Some (STATE_EXITED, t)) \<and> tabs w' i = None)"
  using assms
proof (induction "is" arbitrary: w)
  case (Cons i "is")
  show ?case
  proof (cases "pthreads_exited w > 0")
    case True
    then obtain w1 where w1: "reap_slot E i w = Some w1" "reap_from E is w1 = Some w'"
      using Cons.prems(2) by (auto split: bind_splits)
    from reap_slot_ok [OF Cons.prems(1) w1(1)] have h: "table_ok w1" "reap_frame w w1"
      "\<forall>j. tabs w1 j = tabs w j \<or> (\<exists>t. tabs w j = Some (STATE_EXITED, t)) \<and> tabs w1 j = None"
      by (auto split: if_split_asm)
    from Cons.IH [OF h(1) w1(2)] h(2,3) show ?thesis using reap_frame_trans by (metis option.distinct(1))
  qed (use Cons.prems in auto)
qed auto

lemmas pthread_reap_ok = reap_from_ok [of _ _ "[0..<THREADS_MAX]", folded pthread_reap_def]

text \<open>When the kernel reports DEAD for the exited threads, the reaper takes them all.\<close>

definition dead_reported :: "'k tenv \<Rightarrow> 'k tworld \<Rightarrow> bool" where
  "dead_reported E w \<longleftrightarrow>
     (\<forall>a t. infos w a = Some t \<and> tstate t = STATE_EXITED \<longrightarrow>
        (\<forall>k. taskStatusString (kern E) (task_id t) k = Some ''DEAD''))"

definition reaped :: "(nat \<Rightarrow> (pstate \<times> uint) option) \<Rightarrow> nat \<Rightarrow> (pstate \<times> uint) option" where
  "reaped f i = (case f i of Some (s, t) \<Rightarrow> if s = STATE_EXITED then None else Some (s, t) | None \<Rightarrow> None)"

lemma reaped_id: "(\<And>t. f i \<noteq> Some (STATE_EXITED, t)) \<Longrightarrow> reaped f i = f i"
  by (auto simp: reaped_def split: option.splits prod.splits)

lemma dead_reported_frame: "dead_reported E w \<Longrightarrow> reap_frame w w' \<Longrightarrow> dead_reported E w'"
  unfolding dead_reported_def reap_frame_def by (metis option.distinct(1))

lemma reap_slot_dead:
  assumes ok: "table_ok w" and d: "dead_reported E w" and i: "i < THREADS_MAX"
  shows "\<exists>w'. reap_slot E i w = Some w' \<and> tabs w' i = reaped (tabs w) i"
proof (cases "thread_table w ! i")
  case None
  have l: "i < length (thread_table w)" using ok i by (simp add: table_ok_def)
  with None show ?thesis by (simp add: reap_slot_def arr_get_in tabs_def reaped_def)
next
  case (Some a)
  have l: "i < length (thread_table w)" using ok i by (simp add: table_ok_def)
  obtain th where th: "infos w a = Some th" using table_ok_slot [OF ok i Some] by (auto simp: slot_ok_def)
  have ti: "tabs w i = Some (tstate th, tid th)" using l Some th by (simp add: tabs_def)
  show ?thesis
  proof (cases "tstate th = STATE_EXITED")
    case False
    then show ?thesis using l Some th ti by (simp add: reap_slot_def arr_get_in reaped_def)
  next
    case True
    then have "taskStatusString (kern E) (task_id th) (kst w) = Some ''DEAD''"
      using d th by (simp add: dead_reported_def)
    then show ?thesis using l Some th True ti
      by (simp add: reap_slot_def arr_get_in arr_set_in reaped_def tabs_def Let_def)
  qed
qed

lemma reap_from_dead:
  assumes "table_ok w" "dead_reported E w" "j \<le> THREADS_MAX" "\<forall>i < j. \<forall>t. tabs w i \<noteq> Some (STATE_EXITED, t)"
  shows "\<exists>w'. reap_from E [j..<THREADS_MAX] w = Some w' \<and> table_ok w' \<and> reap_frame w w' \<and> tabs w' = reaped (tabs w)"
  using assms(3,1,2,4)
proof (induction j arbitrary: w rule: inc_induct)
  case base
  have "tabs w i \<noteq> Some (STATE_EXITED, t)" for i t
    using base.prems(1,3) tabs_bound [of w i] by (cases "i < THREADS_MAX") (auto simp: table_ok_def)
  then show ?case using base.prems(1) by (auto simp: fun_eq_iff reaped_id)
next
  case (step j)
  have l: "[j..<THREADS_MAX] = j # [Suc j..<THREADS_MAX]" using step.hyps by (simp add: upt_conv_Cons)
  show ?case
  proof (cases "pthreads_exited w > 0")
    case False
    then have "tabs w i \<noteq> Some (STATE_EXITED, t)" for i t using no_exited [OF step.prems(1)] by simp
    then show ?thesis using False step.prems(1) by (auto simp: l fun_eq_iff reaped_id)
  next
    case True
    obtain w1 where w1: "reap_slot E j w = Some w1" "tabs w1 j = reaped (tabs w) j"
      using reap_slot_dead [OF step.prems(1,2) step.hyps(2)] by blast
    from reap_slot_ok [OF step.prems(1) w1(1)] have h: "table_ok w1" "reap_frame w w1"
      and others: "tabs w1 = (tabs w)(j := tabs w1 j)" by (auto simp: fun_eq_iff)
    have re: "reaped (tabs w1) = reaped (tabs w)"
      by (subst others) (auto simp: fun_eq_iff reaped_def w1(2) split: option.splits)
    have none: "\<forall>i < Suc j. \<forall>t. tabs w1 i \<noteq> Some (STATE_EXITED, t)"
      using step.prems(3) w1(2) others
      by (auto simp: less_Suc_eq reaped_def fun_eq_iff split: option.splits prod.splits if_splits)
    from step.IH [OF h(1) dead_reported_frame [OF step.prems(2) h(2)] none]
    show ?thesis using True w1(1) h(2) by (auto simp: l re intro: reap_frame_trans)
  qed
qed

lemma pthread_reap_dead:
  assumes "table_ok w" "dead_reported E w"
  shows "\<exists>w'. pthread_reap E w = Some w' \<and> table_ok w' \<and> reap_frame w w' \<and> tabs w' = reaped (tabs w)"
  using reap_from_dead [OF assms, of 0] by (simp add: pthread_reap_def)

text \<open>When the kernel no longer knows the tasks of exited threads, the reaper does nothing.\<close>

lemma reap_unknown:
  assumes ok: "table_ok w"
    and unknown: "\<And>a t. infos w a = Some t \<Longrightarrow> tstate t = STATE_EXITED \<Longrightarrow>
      taskStatusString (kern E) (task_id t) (kst w) = None"
  shows "pthread_reap E w = Some w"
proof -
  have slot: "reap_slot E i w = Some w" if i: "i < THREADS_MAX" for i
  proof (cases "thread_table w ! i")
    case None
    then show ?thesis using i ok by (simp add: reap_slot_def arr_get_def table_ok_def)
  next
    case (Some a)
    obtain th where th: "infos w a = Some th" using table_ok_slot [OF ok i Some] by (auto simp: slot_ok_def)
    then show ?thesis using i ok Some unknown [OF th] by (simp add: reap_slot_def arr_get_def table_ok_def)
  qed
  have r: "reap_from E is w = Some w" if "set is \<subseteq> {..<THREADS_MAX}" for "is"
    using that by (induction "is") (auto simp: slot)
  show ?thesis unfolding pthread_reap_def by (rule r) auto
qed

section \<open>Creation\<close>

text \<open>The search is a cyclic search; the equation holds on a table of the declared length.\<close>

definition fit :: "nat option list \<Rightarrow> nat option list" where
  "fit tbl = take THREADS_MAX (tbl @ replicate THREADS_MAX None)"

lemma fit_id: "length tbl = THREADS_MAX \<Longrightarrow> fit tbl = tbl"
  by (simp add: fit_def)

interpretation free: cyclic_search THREADS_MAX "\<lambda>i. fit tbl ! i = None" "find_free (fit tbl)" for tbl
proof unfold_locales
  fix i first :: nat
  assume i: "i < THREADS_MAX"
  have l: "length (fit tbl) = THREADS_MAX" by (simp add: fit_def)
  have "(if i + 1 \<ge> THREADS_MAX then 0 else i + 1) = (i + 1) mod THREADS_MAX"
    using i by (cases "Suc i = THREADS_MAX") auto
  then show "find_free (fit tbl) first i = (if fit tbl ! i = None then Some (Some i)
      else if (i + 1) mod THREADS_MAX = first then Some None
      else find_free (fit tbl) first ((i + 1) mod THREADS_MAX))"
    using i l by (subst find_free.simps) (simp add: arr_get_in Let_def)
qed

lemma find_free_first:
  assumes "length tbl = THREADS_MAX" "first < THREADS_MAX" "k < THREADS_MAX" "tbl ! k = None"
  shows "\<exists>d < THREADS_MAX. find_free tbl first first = Some (Some ((first + d) mod THREADS_MAX)) \<and>
    tbl ! ((first + d) mod THREADS_MAX) = None \<and> (\<forall>e < d. tbl ! ((first + e) mod THREADS_MAX) \<noteq> None)"
  using free.search_first [of first k tbl] assms by (simp add: fit_id)

lemma find_free_full:
  assumes "length tbl = THREADS_MAX" "first < THREADS_MAX" "\<forall>k < THREADS_MAX. tbl ! k \<noteq> None"
  shows "find_free tbl first first = Some None"
  using free.search_none [of first tbl] assms by (simp add: fit_id)

text \<open>An identifier made of a slot and a cookie encodes the slot.\<close>

lemma unat_mask: "unat (t AND THREAD_ID_COOKIE_MASK) = unat t mod 1024"
proof -
  have "t AND THREAD_ID_COOKIE_MASK = take_bit 10 t"
    by (simp add: THREAD_ID_COOKIE_MASK_def THREAD_ID_COOKIE_INC_def take_bit_eq_mask mask_eq_exp_minus_1)
  then show ?thesis by (simp add: take_bit_eq_mod unat_mod)
qed

lemma unat_mask_add: "unat ((s + t) AND THREAD_ID_COOKIE_MASK) = (unat s + unat t) mod 1024"
  by (simp add: unat_mask unat_word_ariths mod_mod_cancel)

lemma mask_zero_iff: "t AND THREAD_ID_COOKIE_MASK = 0 \<longleftrightarrow> unat t mod 1024 = 0"
  using unat_mask [of t] by (metis unat_0 unat_eq_zero)

lemma cookie_step:
  assumes "c AND THREAD_ID_COOKIE_MASK = 0"
  shows "(c + THREAD_ID_COOKIE_INC) AND THREAD_ID_COOKIE_MASK = 0"
proof -
  have "unat THREAD_ID_COOKIE_INC mod 1024 = 0" by (simp add: THREAD_ID_COOKIE_INC_def)
  with assms have "(unat c + unat THREAD_ID_COOKIE_INC) mod 1024 = 0" by (simp add: mask_zero_iff mod_add_eq [symmetric])
  then show ?thesis using unat_mask_add [of c THREAD_ID_COOKIE_INC] by (metis unat_eq_zero)
qed

lemma slot_of_id:
  assumes "c AND THREAD_ID_COOKIE_MASK = 0" "i < THREADS_MAX"
  shows "unat ((of_nat i + c) AND THREAD_ID_COOKIE_MASK) = i"
proof -
  have i: "i < 1024" using assms(2) by (simp add: THREADS_MAX_def)
  then have "unat (of_nat i :: uint) = i" by (simp add: unat_of_nat)
  then have "unat ((of_nat i + c) AND THREAD_ID_COOKIE_MASK) = (i + unat c) mod 1024"
    by (simp add: unat_mask_add)
  also have "\<dots> = i" using assms(1) i by (simp add: mask_zero_iff mod_add_eq [of i 1024 "unat c", symmetric])
  finally show ?thesis .
qed

text \<open>A new structure goes into a free slot.\<close>

lemma insert_slot_ok:
  assumes ok: "table_ok w" and slot: "slot < THREADS_MAX" "thread_table w ! slot = None"
    and fresh: "Some a \<notin> set (thread_table w)"
    and w': "thread_table w' = (thread_table w)[slot := Some a]" "infos w' = (infos w)(a := Some t)"
      "thread_id_cookie w' AND THREAD_ID_COOKIE_MASK = 0" "pthread_count w' = pthread_count w + 1"
      "pthreads_exited w' = pthreads_exited w" "pthreads_tobejoined w' = pthreads_tobejoined w"
    and t: "tstate t \<in> {STATE_RUNNING, STATE_DETACHED}" "unat (tid t AND THREAD_ID_COOKIE_MASK) = slot"
  shows "table_ok w' \<and> tabs w' = (tabs w)(slot := Some (tstate t, tid t))"
proof -
  have l: "length (thread_table w) = THREADS_MAX" using ok by (simp add: table_ok_def)
  have ne: "thread_table w ! j \<noteq> Some a" if "j < THREADS_MAX" for j
    using fresh that l nth_mem [of j "thread_table w"] by metis
  have tb: "tabs w' = (tabs w)(slot := Some (tstate t, tid t))"
  proof
    fix j
    show "tabs w' j = ((tabs w)(slot := Some (tstate t, tid t))) j"
      using ne [of j] slot l by (auto simp: tabs_def w'(1,2) split: option.splits)
  qed
  have none: "tabs w slot = None" using slot l by (simp add: tabs_def)
  have "counters_ok w'"
    by (rule counters_upd [OF _ tb]) (use ok w' t(1) none in \<open>auto simp: table_ok_def weight_def\<close>)
  moreover have "slot_ok w' j b" if j: "j < THREADS_MAX" "thread_table w' ! j = Some b" for j b
  proof (cases "j = slot")
    case True
    then show ?thesis using j t w' slot l by (auto simp: slot_ok_def)
  next
    case False
    then have b: "thread_table w ! j = Some b" using j(2) w'(1) by simp
    then have "b \<noteq> a" using ne [OF j(1)] by auto
    then show ?thesis using table_ok_slot [OF ok j(1) b] by (simp add: slot_ok_def w'(2))
  qed
  ultimately show ?thesis using tb l w' by (simp add: table_ok_def)
qed

definition new_state :: "pattr \<Rightarrow> pstate" where
  "new_state at = (if a_detachstate at = CREATE_JOINABLE then STATE_RUNNING else STATE_DETACHED)"

definition new_id :: "'k tworld \<Rightarrow> nat \<Rightarrow> uint" where
  "new_id w slot = of_nat slot + (thread_id_cookie w + THREAD_ID_COOKIE_INC)"

lemma fill_slot_fields:
  assumes "w' = fill_slot E at routine arg fs mem slot a w"
  shows "\<exists>t. infos w' = (infos w)(a := Some t) \<and> tstate t = new_state at \<and> tid t = new_id w slot \<and>
      start_routine t = routine \<and> start_arg t = arg \<and> cancelbuffer t = None \<and> freestack t = fs \<and>
      thread_data t = replicate (KEYS_MAX E div ptr_size E) 0 @ drop (KEYS_MAX E div ptr_size E) (old_data E a)"
    and "thread_table w' = (thread_table w)[slot := Some a]" "thread_info_next w' = slot + 1"
    and "thread_id_cookie w' = thread_id_cookie w + THREAD_ID_COOKIE_INC"
    and "pthread_count w' = pthread_count w" "pthreads_exited w' = pthreads_exited w"
    and "pthreads_tobejoined w' = pthreads_tobejoined w" "vxpthread_mutex w' = vxpthread_mutex w"
proof -
  note defs = assms fill_slot_def Let_def split_beta vxpth_get_name_def set_info_def init_info_def
    new_state_def new_id_def
  show "\<exists>t. infos w' = (infos w)(a := Some t) \<and> tstate t = new_state at \<and> tid t = new_id w slot \<and>
      start_routine t = routine \<and> start_arg t = arg \<and> cancelbuffer t = None \<and> freestack t = fs \<and>
      thread_data t = replicate (KEYS_MAX E div ptr_size E) 0 @ drop (KEYS_MAX E div ptr_size E) (old_data E a)"
    by (rule exI [of _ "the (infos w' a)"]) (simp add: defs)
qed (simp_all add: assms fill_slot_def Let_def split_beta vxpth_get_name_def set_info_def)

text \<open>What the call returns when a slot is free: the state with the new thread, or the error of
  \<open>taskInit\<close>, which leaves the slot filled.\<close>

lemma create_locked_run:
  assumes ok: "table_ok w" and f: "find_free (thread_table w) (thread_info_next w) (thread_info_next w) = Some (Some slot)"
    and slot: "slot < THREADS_MAX" "thread_table w ! slot = None"
    and pl: "place_info E mem len = Some (a, sb, sz)" and fresh: "Some a \<notin> set (thread_table w)"
  shows "\<exists>b w'. create_locked E at routine arg fs mem len w =
      Some (if b then None else Some EINVAL, if b then Some (a, new_id w slot) else None, w') \<and>
    ((\<forall>n k. fst (taskInit (kern E) a n (priority (a_schedparam at)) sb sz k)) \<longrightarrow> b) \<and>
    ((\<forall>n k. \<not> fst (taskInit (kern E) a n (priority (a_schedparam at)) sb sz k)) \<longrightarrow> \<not> b) \<and>
    thread_info_next w' = slot + 1 \<and> thread_table w' = (thread_table w)[slot := Some a] \<and>
    (\<not> b \<longrightarrow> pthread_count w' = pthread_count w \<and> pthreads_exited w' = pthreads_exited w \<and> (fs \<longrightarrow> infos w' a = None)) \<and>
    (b \<longrightarrow> table_ok w' \<and> tabs w' = (tabs w)(slot := Some (new_state at, new_id w slot)) \<and>
      (\<exists>t. infos w' = (infos w)(a := Some t) \<and> start_routine t = routine \<and> start_arg t = arg \<and>
        thread_data t = replicate (KEYS_MAX E div ptr_size E) 0 @ drop (KEYS_MAX E div ptr_size E) (old_data E a)))"
proof -
  define w1 where "w1 = fill_slot E at routine arg fs mem slot a w"
  note F = fill_slot_fields [OF w1_def]
  obtain t where t: "infos w1 = (infos w)(a := Some t)" "tstate t = new_state at" "tid t = new_id w slot"
    "start_routine t = routine" "start_arg t = arg"
    "thread_data t = replicate (KEYS_MAX E div ptr_size E) 0 @ drop (KEYS_MAX E div ptr_size E) (old_data E a)"
    using F(1) by blast
  obtain b k2 where b: "taskInit (kern E) a (t_name t) (priority (a_schedparam at)) sb sz (kst w1) = (b, k2)"
    by fastforce
  define w2 where "w2 = unlock_threads E (w1\<lparr>kst := k2, pthread_count := pthread_count w1 + 1\<rparr>)"
  define w3 where "w3 = unlock_threads E (w1\<lparr>kst := k2\<rparr>)"
  define w4 where "w4 = (if fs then w3\<lparr>kst := k_free (kern E) mem (kst w3), infos := (infos w3)(a := None)\<rparr> else w3)"
  have run: "create_locked E at routine arg fs mem len w =
      Some (if b then None else Some EINVAL, if b then Some (a, new_id w slot) else None, if b then w2 else w4)"
    using t(1,3) b by (simp add: create_locked_def f pl Let_def w1_def [symmetric] w2_def w3_def [symmetric] w4_def)
  have c: "(thread_id_cookie w + THREAD_ID_COOKIE_INC) AND THREAD_ID_COOKIE_MASK = 0"
    using ok cookie_step by (simp add: table_ok_def)
  have "table_ok w2 \<and> tabs w2 = (tabs w)(slot := Some (tstate t, tid t))"
    by (rule insert_slot_ok [OF ok slot fresh])
      (simp_all add: w2_def unlock_threads_def F(2-8) t c new_state_def new_id_def slot_of_id [OF c slot(1)])
  moreover have "infos w2 = (infos w)(a := Some t)"
    by (simp add: w2_def unlock_threads_def t)
  moreover have "thread_info_next (if b then w2 else w4) = slot + 1"
    "thread_table (if b then w2 else w4) = (thread_table w)[slot := Some a]" "fs \<longrightarrow> infos w4 a = None"
    "pthread_count w4 = pthread_count w" "pthreads_exited w4 = pthreads_exited w"
    by (simp_all add: w2_def w3_def w4_def unlock_threads_def F)
  moreover have "(\<forall>n k. fst (taskInit (kern E) a n (priority (a_schedparam at)) sb sz k)) \<longrightarrow> b"
    "(\<forall>n k. \<not> fst (taskInit (kern E) a n (priority (a_schedparam at)) sb sz k)) \<longrightarrow> \<not> b"
    using b by (metis fst_conv)+
  ultimately show ?thesis using run t
    by (intro exI [of _ b] exI [of _ "if b then w2 else w4"]) auto
qed

end
