(* ===== verification/VxSteps.thy ===== *)
theory VxSteps
  imports VxOps
begin

text \<open>
  The end of a thread, joining and detaching on the abstract table, and the thread system as a
  step relation whose reachable states have a well-formed table.
\<close>

section \<open>A thread changes its state\<close>

definition live :: "'k tworld \<Rightarrow> nat \<Rightarrow> nat \<Rightarrow> bool" where
  "live w i a \<longleftrightarrow> at_slot w i a \<and> (\<exists>t. infos w a = Some t \<and> tstate t \<in> {STATE_RUNNING, STATE_DETACHED})"

lemma change_state:
  assumes ok: "table_ok w" and a: "at_slot w i a" "infos w a = Some t"
    and t': "tid t' = tid t" "tstate t' \<noteq> STATE_FREE"
    and w': "infos w' = (infos w)(a := Some t')" "thread_table w' = thread_table w"
      "thread_id_cookie w' = thread_id_cookie w" "pthread_count w' = pthread_count w"
      "pthreads_exited w' = pthreads_exited w - (if tstate t = STATE_EXITED then 1 else 0) +
        (if tstate t' = STATE_EXITED then 1 else 0)"
      "pthreads_tobejoined w' = pthreads_tobejoined w - (if tstate t = STATE_JOIN then 1 else 0) +
        (if tstate t' = STATE_JOIN then 1 else 0)"
  shows "table_ok w' \<and> tabs w' = (tabs w)(i := Some (tstate t', tid t))"
proof -
  have ti: "tabs w i = Some (tstate t, tid t)" and m: "unat (tid t AND THREAD_ID_COOKIE_MASK) = i"
    using at_slot_info [OF ok a(1)] a(2) by auto
  have "tabs w' = tabs (set_info a t' w)"
    by (rule tabs_cong) (simp_all add: w' set_info_def)
  with tabs_set_info [OF ok a(1)] t'(1) have tb: "tabs w' = (tabs w)(i := Some (tstate t', tid t))" by simp
  have "counters_ok w'"
    by (rule counters_upd [OF _ tb]) (use ok w' ti in \<open>simp_all add: table_ok_def weight_def\<close>)
  moreover have "slot_ok w' j b" if j: "j < THREADS_MAX" "thread_table w' ! j = Some b" for j b
    using set_info_slots [OF ok a(1) t'(2) _ j(1), of b] j(2) m t'(1) w'(1,2)
    by (simp add: slot_ok_def set_info_def)
  ultimately show ?thesis using tb ok w' by (simp add: table_ok_def)
qed

lemma live_info:
  assumes "live w i a" "same_table w w'"
  shows "live w' i a"
  using assms same_table_info [OF assms(2)] by (fastforce simp: live_def at_slot_def same_table_def)

section \<open>Handlers\<close>

text \<open>The application's handlers (cleanup routines, destructors) neither create nor end threads.\<close>

definition handlers_ok :: "'k tenv \<Rightarrow> bool" where
  "handlers_ok E \<longleftrightarrow> (\<forall>p x w w'. call_routine E p x w = Some w' \<longrightarrow> same_table w w')"

lemma handlers_same: "handlers_ok E \<Longrightarrow> call_routine E p x w = Some w' \<Longrightarrow> same_table w w'"
  by (simp add: handlers_ok_def)

lemma set_info_same:
  "infos w a = Some t \<Longrightarrow> tstate t' = tstate t \<Longrightarrow> tid t' = tid t \<Longrightarrow> same_table (set_info a t' w) w' \<Longrightarrow> same_table w w'"
  by (blast intro: same_table_trans same_table_set_info)

text \<open>A property kept by every handler, and by updates of a structure that keep its state and
  identifier, is kept by running the cleanup handlers and the destructors.\<close>

definition handlers_keep :: "'k tenv \<Rightarrow> ('k tworld \<Rightarrow> bool) \<Rightarrow> bool" where
  "handlers_keep E I \<longleftrightarrow>
     (\<forall>p x w w'. call_routine E p x w = Some w' \<longrightarrow> I w \<longrightarrow> I w') \<and>
     (\<forall>w a t t'. infos w a = Some t \<longrightarrow> tstate t' = tstate t \<longrightarrow> tid t' = tid t \<longrightarrow> I w \<longrightarrow> I (set_info a t' w))"

lemma handlers_keep_call: "handlers_keep E I \<Longrightarrow> call_routine E p x w = Some w' \<Longrightarrow> I w \<Longrightarrow> I w'"
  by (simp add: handlers_keep_def)

lemma handlers_keep_set:
  "handlers_keep E I \<Longrightarrow> infos w a = Some t \<Longrightarrow> tstate t' = tstate t \<Longrightarrow> tid t' = tid t \<Longrightarrow> I w \<Longrightarrow> I (set_info a t' w)"
  by (simp add: handlers_keep_def)

lemma run_cleanup_keep:
  fixes w :: "'k tworld"
  assumes "run_cleanup E th w = Some w'"
  shows "handlers_keep E I \<longrightarrow> I w \<longrightarrow> I w'"
proof (rule run_cleanup.raw_induct [OF _ assms])
  fix rc and E :: "'k tenv" and th :: nat and w w' :: "'k tworld"
  assume IH: "\<And>E th w w'. rc E th w = Some w' \<Longrightarrow> handlers_keep E I \<longrightarrow> I w \<longrightarrow> I w'"
    and r: "do { i \<leftarrow> infos w th;
       case cancelbuffer i of None \<Rightarrow> Some w
       | Some buffer \<Rightarrow> do {
           b \<leftarrow> bufs w buffer;
           w1 \<leftarrow> call_routine E (cb_routine b) (cb_arg b) (set_info th (i\<lparr>cancelbuffer := cb_prev b\<rparr>) w);
           rc E th w1 } } = Some w'"
  from r obtain i where i: "infos w th = Some i" by (auto split: bind_splits)
  show "handlers_keep E I \<longrightarrow> I w \<longrightarrow> I w'"
  proof (cases "cancelbuffer i")
    case (Some buffer)
    with r i obtain b :: cbuf and w1 where
      w1: "call_routine E (cb_routine b) (cb_arg b) (set_info th (i\<lparr>cancelbuffer := cb_prev b\<rparr>) w) = Some w1"
      and "rc E th w1 = Some w'" by (auto split: bind_splits)
    with IH have "handlers_keep E I \<longrightarrow> I w1 \<longrightarrow> I w'" by blast
    then show ?thesis
      using handlers_keep_call [OF _ w1] handlers_keep_set [OF _ i, of E I "i\<lparr>cancelbuffer := cb_prev b\<rparr>"] by auto
  qed (use r i in auto)
qed

lemma destroy_key_keep:
  assumes h: "handlers_keep E I" and r: "destroy_key E th key (c, w) = Some (c', w')" and w: "I w"
  shows "I w'"
proof -
  consider "w' = w" | i v p where "infos w th = Some i"
      "call_routine E p v (set_info th (i\<lparr>thread_data := (thread_data i)[key := 0]\<rparr>) w) = Some w'"
    using r by (auto simp: destroy_key_def split: bind_splits if_splits)
  then show ?thesis
  proof cases
    case 2
    then show ?thesis
      using handlers_keep_call [OF h 2(2)] handlers_keep_set [OF h 2(1), of "i\<lparr>thread_data := (thread_data i)[key := 0]\<rparr>"] w
      by auto
  qed (use w in simp)
qed

lemma destructor_loop_keep:
  assumes h: "handlers_keep E I"
  shows "destructor_loop E th n w = Some w' \<Longrightarrow> I w \<Longrightarrow> I w'"
proof (induction n arbitrary: w)
  case (Suc n)
  then obtain c w1 where p: "destructor_pass E th w = Some (c, w1)"
    and rest: "w1 = w' \<or> destructor_loop E th n w1 = Some w'" by (auto split: bind_splits if_splits)
  have "I (snd (c, w1))"
  proof (rule foldm_invariant [OF _ _ p [unfolded destructor_pass_def], of "\<lambda>d. I (snd d)"])
    fix key d d'
    assume "I (snd d)" "destroy_key E th key d = Some d'"
    then show "I (snd d')"
      using destroy_key_keep [OF h, of th key "fst d" "snd d" "fst d'" "snd d'"] by auto
  qed (use Suc.prems in simp)
  with rest Suc.IH show ?case by auto
qed simp

text \<open>In particular, handlers that leave the table alone.\<close>

lemma handlers_keep_same: "handlers_ok E \<Longrightarrow> handlers_keep E (same_table u)"
  unfolding handlers_keep_def handlers_ok_def
  by (blast intro: same_table_trans same_table_set_info)

section \<open>Exit\<close>

definition final_state :: "pstate \<Rightarrow> pstate" where
  "final_state s = (if s = STATE_DETACHED then STATE_EXITED else STATE_JOIN)"

lemma exit_state_ok:
  assumes ok: "table_ok w" and a: "at_slot w i th" "infos w th = Some t" "tstate t \<in> {STATE_RUNNING, STATE_DETACHED}"
  shows "\<exists>w'. exit_state th rv w = Some w' \<and> table_ok w' \<and>
    tabs w' = (tabs w)(i := Some (final_state (tstate t), tid t)) \<and>
    infos w' = (infos w)(th := Some (t\<lparr>t_retval := rv, tstate := final_state (tstate t)\<rparr>)) \<and>
    thread_table w' = thread_table w \<and> vxpthread_mutex w' = vxpthread_mutex w \<and> kst w' = kst w"
proof -
  let ?t = "t\<lparr>t_retval := rv, tstate := final_state (tstate t)\<rparr>"
  let ?w = "set_info th ?t (if tstate t = STATE_DETACHED then w\<lparr>pthreads_exited := pthreads_exited w + 1\<rparr>
    else w\<lparr>pthreads_tobejoined := pthreads_tobejoined w + 1\<rparr>)"
  have "exit_state th rv w = Some ?w"
    using a(2) by (simp add: exit_state_def final_state_def set_info_def)
  moreover have "table_ok ?w \<and> tabs ?w = (tabs w)(i := Some (tstate ?t, tid t))"
    by (rule change_state [OF ok a(1,2), of ?t]) (use a(3) in \<open>auto simp: set_info_def final_state_def\<close>)
  ultimately show ?thesis by (auto simp: set_info_def)
qed

lemma lock_threads_kst: "lock_threads E w = Some w' \<Longrightarrow> \<exists>k. w' = w\<lparr>kst := k\<rparr>"
  by (auto simp: lock_threads_def split: bind_splits)

lemma vxpth_exit_ok:
  assumes ok: "table_ok w" and h: "handlers_ok E" and th: "at_slot w i th" "infos w th = Some t"
    "tstate t \<in> {STATE_RUNNING, STATE_DETACHED}"
    and r: "vxpth_pthread_exit E th rv w = Some w'"
  shows "table_ok w' \<and> tabs w' = (tabs w)(i := Some (final_state (tstate t), tid t)) \<and>
    (\<exists>t'. infos w' th = Some t' \<and> t_retval t' = rv)"
proof -
  from r obtain w1 w2 w3 w4 t4 where w1: "run_cleanup E th w = Some w1"
    and w2: "destructor_loop E th (DESTRUCTOR_ITERATIONS E + 1) w1 = Some w2"
    and w3: "lock_threads E w2 = Some w3" and w4: "exit_state th rv w3 = Some w4"
    and t4: "infos w4 th = Some t4"
    and w': "w' = (unlock_threads E (give_joiner E t4 w4))\<lparr>kst := taskDelete (kern E) (task_id t4)
      (kst (unlock_threads E (give_joiner E t4 w4)))\<rparr>"
    by (auto simp: vxpth_pthread_exit_def Let_def split: bind_splits)
  have "same_table w w3"
    using run_cleanup_keep [OF w1, of "same_table w"] destructor_loop_keep [OF _ w2, of "same_table w"]
      handlers_keep_same [OF h, of w] same_table_lock [OF w3] same_table_refl
    by (blast intro: same_table_trans)
  from same_table_ok [OF ok this] same_table_tabs [OF ok this] same_table_info [OF this th(2)] this
  obtain t3 where ok3: "table_ok w3" and t3: "infos w3 th = Some t3" "tstate t3 = tstate t" "tid t3 = tid t"
    and tb3: "tabs w3 = tabs w" and at3: "at_slot w3 i th"
    using th(1) by (auto simp: at_slot_def same_table_def)
  from exit_state_ok [OF ok3 at3 t3(1), of rv] th(3) t3 w4 have
    "table_ok w4" "tabs w4 = (tabs w)(i := Some (final_state (tstate t), tid t))"
    "infos w4 th = Some (t3\<lparr>t_retval := rv, tstate := final_state (tstate t)\<rparr>)"
    by (auto simp: tb3)
  then show ?thesis by (simp add: w' unlock_threads_def give_joiner_def)
qed

section \<open>Join and detach\<close>

lemma join_done_ok:
  assumes ok: "table_ok w" and a: "at_slot w i a" "infos w a = Some t" "tstate t = STATE_JOIN"
    and r: "join_done E a w = Some (v, w')"
  shows "table_ok w' \<and> v = t_retval t \<and>
    (\<forall>j. j \<noteq> i \<longrightarrow> tabs w' j = tabs w j \<or> (\<exists>u. tabs w j = Some (STATE_EXITED, u)) \<and> tabs w' j = None) \<and>
    (tabs w' i = Some (STATE_EXITED, tid t) \<or> tabs w' i = None)"
proof -
  let ?w = "set_info a (t\<lparr>tstate := STATE_EXITED\<rparr>)
    (w\<lparr>pthreads_exited := pthreads_exited w + 1, pthreads_tobejoined := pthreads_tobejoined w - 1\<rparr>)"
  have "table_ok ?w \<and> tabs ?w = (tabs w)(i := Some (tstate (t\<lparr>tstate := STATE_EXITED\<rparr>), tid t))"
    by (rule change_state [OF ok a(1,2), of "t\<lparr>tstate := STATE_EXITED\<rparr>"]) (use a(3) in \<open>auto simp: set_info_def\<close>)
  then have ok1: "table_ok ?w" "tabs ?w = (tabs w)(i := Some (STATE_EXITED, tid t))" by simp_all
  from r a(2) have rp: "pthread_reap E ?w = Some w'" "v = t_retval t"
    by (auto simp: join_done_def split: bind_splits)
  from pthread_reap_ok [OF ok1(1) rp(1)] have "table_ok w'"
    "\<And>j. tabs w' j = tabs ?w j \<or> (\<exists>u. tabs ?w j = Some (STATE_EXITED, u)) \<and> tabs w' j = None" by blast+
  with rp(2) ok1(2) show ?thesis by (metis fun_upd_other fun_upd_same)
qed

text \<open>
  \<open>others_ok\<close>: while \<open>self\<close> waits for a joiner, the other threads keep the table well-formed, do
  not end \<open>self\<close>, and leave the thread it waits for running, detached or ready to be joined.
\<close>

definition joinable :: "'k tworld \<Rightarrow> nat \<Rightarrow> nat \<Rightarrow> bool" where
  "joinable w i a \<longleftrightarrow> at_slot w i a \<and>
     (\<exists>t. infos w a = Some t \<and> tstate t \<in> {STATE_RUNNING, STATE_DETACHED, STATE_JOIN})"

definition others_ok :: "'k tenv \<Rightarrow> nat \<Rightarrow> bool" where
  "others_ok E self \<longleftrightarrow> (\<forall>s w st w'. others_until E s w = Some (st, w') \<longrightarrow> table_ok w \<longrightarrow>
     table_ok w' \<and> (\<forall>i. live w i self \<longrightarrow> live w' i self) \<and> (\<forall>i a. joinable w i a \<longrightarrow> joinable w' i a))"

lemma joinable_same: "joinable w i a \<Longrightarrow> same_table w w' \<Longrightarrow> joinable w' i a"
  using same_table_info [of w w'] by (fastforce simp: joinable_def at_slot_def same_table_def)

lemma join_wait_ok:
  assumes "join_wait E self a w = Some res"
  shows "others_ok E self \<longrightarrow> table_ok w \<longrightarrow> joinable w i a \<longrightarrow> live w j self \<longrightarrow>
    table_ok (snd res) \<and> joinable (snd res) i a \<and> live (snd res) j self"
proof (rule join_wait.raw_induct [OF _ assms])
  fix jw and E :: "'k tenv" and self a :: nat and w :: "'k tworld" and res
  assume IH: "\<And>E self a w res. jw E self a w = Some res \<Longrightarrow>
      others_ok E self \<longrightarrow> table_ok w \<longrightarrow> joinable w i a \<longrightarrow> live w j self \<longrightarrow>
      table_ok (snd res) \<and> joinable (snd res) i a \<and> live (snd res) j self"
    and r: "do { jn \<leftarrow> infos w a;
       if tstate jn \<noteq> STATE_RUNNING then Some (None, w)
       else do {
         (st, w1) \<leftarrow> take_joiner E (joiner jn) (unlock_threads E w);
         w2 \<leftarrow> lock_threads E w1;
         c \<leftarrow> (if st \<noteq> OK then checkforcancel self w2 else Some False);
         if c then Some (Some EAGAIN, w2) else jw E self a w2 } } = Some res"
  show "others_ok E self \<longrightarrow> table_ok w \<longrightarrow> joinable w i a \<longrightarrow> live w j self \<longrightarrow>
      table_ok (snd res) \<and> joinable (snd res) i a \<and> live (snd res) j self"
  proof (intro impI)
    assume o: "others_ok E self" and ok: "table_ok w" and jo: "joinable w i a" and li: "live w j self"
    from r consider "snd res = w" | (wait) jn :: tinfo and st w1 w2 where "take_joiner E (joiner jn) (unlock_threads E w) = Some (st, w1)"
        "lock_threads E w1 = Some w2" "snd res = w2 \<or> jw E self a w2 = Some res"
      by (auto split: bind_splits if_splits)
    then show "table_ok (snd res) \<and> joinable (snd res) i a \<and> live (snd res) j self"
    proof cases
      case wait
      let ?u = "unlock_threads E w"
      have u: "table_ok ?u" "joinable ?u i a" "live ?u j self"
        using ok joinable_same [OF jo, of ?u] live_info [OF li, of ?u] by simp_all
      have "table_ok w1 \<and> joinable w1 i a \<and> live w1 j self"
      proof (cases "others_until E (joiner jn) ?u = Some (st, w1)")
        case True
        then show ?thesis using o u unfolding others_ok_def by blast
      next
        case False
        then have "same_table ?u w1"
          using wait(1) by (auto simp: take_joiner_def split: bind_splits if_splits)
        then show ?thesis using same_table_ok joinable_same live_info u by blast
      qed
      moreover have "same_table w1 w2" using same_table_lock [OF wait(2)] .
      ultimately have "table_ok w2 \<and> joinable w2 i a \<and> live w2 j self"
        using same_table_ok joinable_same live_info by blast
      then show ?thesis using wait(3) IH o by blast
    qed (use ok jo li in simp)
  qed
qed

lemma testcancel_cases:
  assumes "pthread_testcancel E self w = Some (ex, w')"
  shows "ex \<and> pthread_exit E self (PTHREAD_CANCELED E) w = Some w' \<or> \<not> ex \<and> w' = w"
  using assms by (auto simp: pthread_testcancel_def split: bind_splits if_splits)

lemma live_exit_ok:
  assumes "table_ok w" "handlers_ok E" "live w i th" "vxpth_pthread_exit E th rv w = Some w'"
  shows "table_ok w'"
  using assms vxpth_exit_ok unfolding live_def by metis

lemma testcancel_ok:
  assumes "table_ok w" "handlers_ok E" "live w i self" "pthread_testcancel E self w = Some (ex, w')"
  shows "table_ok w'"
  using testcancel_cases [OF assms(4)] assms(1-3) live_exit_ok [OF assms(1-3)] by (auto simp: pthread_exit_def)

lemma reap_keeps:
  assumes ok: "table_ok w" and r: "table_ok w'" "reap_frame w w'"
      "tabs w' i = tabs w i \<or> (\<exists>t. tabs w i = Some (STATE_EXITED, t)) \<and> tabs w' i = None"
    and a: "at_slot w i a" "infos w a = Some t" "tstate t \<noteq> STATE_EXITED"
  shows "at_slot w' i a \<and> infos w' a = Some t"
proof -
  have ti: "tabs w i = Some (tstate t, tid t)" using at_slot_info [OF ok a(1)] a(2) by auto
  with r(3) a(3) have t': "tabs w' i = Some (tstate t, tid t)" by auto
  have "i < length (thread_table w)" using ok a(1) by (simp add: table_ok_def at_slot_def)
  then have "thread_table w' ! i = Some a"
    using r(2) a(1) t' by (auto simp: reap_frame_def at_slot_def tabs_def split: if_splits)
  moreover have "infos w' a = Some t" using reap_frame_info [OF r(2) a(2,3)] .
  ultimately show ?thesis using a by (simp add: at_slot_def)
qed

lemma reap_live:
  assumes ok: "table_ok w" and r: "pthread_reap E w = Some w'" and l: "live w i a"
  shows "live w' i a"
proof -
  from l obtain t where a: "at_slot w i a" "infos w a = Some t" "tstate t \<in> {STATE_RUNNING, STATE_DETACHED}"
    by (auto simp: live_def)
  from pthread_reap_ok [OF ok r] have "table_ok w'" "reap_frame w w'"
    "tabs w' i = tabs w i \<or> (\<exists>t. tabs w i = Some (STATE_EXITED, t)) \<and> tabs w' i = None" by blast+
  from reap_keeps [OF ok this a(1,2)] a(3) show ?thesis by (auto simp: live_def)
qed

lemma join_ok:
  assumes ok: "table_ok w" and h: "handlers_ok E" and o: "others_ok E self" and l: "live w i self"
    and r: "pthread_join E self thread w = Some (res, w')"
  shows "table_ok w'"
proof -
  from r obtain ex w0 where w0: "pthread_testcancel E self w = Some (ex, w0)"
    and r0: "\<not> ex \<Longrightarrow> \<exists>w1 w2 joinee. lock_threads E w0 = Some w1 \<and> pthread_reap E w1 = Some w2 \<and>
      pthread_info_id thread w2 = Some joinee" and ex0: "ex \<Longrightarrow> w' = w0"
    by (auto simp: pthread_join_def split: bind_splits if_splits)
  show ?thesis
  proof (cases ex)
    case True
    with w0 ex0 testcancel_ok [OF ok h l] show ?thesis by blast
  next
    case False
    then have w0w: "w0 = w" using testcancel_cases [OF w0] by blast
    from r0 [OF False] obtain w1 w2 joinee where w1: "lock_threads E w = Some w1" and w2: "pthread_reap E w1 = Some w2"
      and jn: "pthread_info_id thread w2 = Some joinee" unfolding w0w by blast
    have s1: "same_table w w1" using same_table_lock [OF w1] .
    have ok2: "table_ok w2" and l2: "live w2 i self"
      using pthread_reap_ok [OF same_table_ok [OF ok s1] w2] reap_live [OF same_table_ok [OF ok s1] w2]
        live_info [OF l s1] by blast+
    from r w0 False w0w w1 w2 jn obtain err w3 rv w4 where
      w3: "(case joinee of None \<Rightarrow> Some (Some ESRCH, w2)
         | Some a \<Rightarrow> if a = self then Some (Some EDEADLK, w2) else join_state E self a w2) = Some (err, w3)"
      and w4: "(case (err, joinee) of (None, Some a) \<Rightarrow> do { (v, w') \<leftarrow> join_done E a w3; Some (Some v, w') }
         | _ \<Rightarrow> Some (None, w3)) = Some (rv, w4)"
      and w5: "\<exists>ex'. pthread_testcancel E self (unlock_threads E w4) = Some (ex', w')"
      by (auto simp: pthread_join_def split: bind_splits if_splits)
    have "table_ok w4 \<and> live w4 i self"
    proof (cases "\<exists>a. joinee = Some a \<and> a \<noteq> self")
      case False
      with w3 have "w3 = w2 \<and> err \<noteq> None" by (auto split: option.splits if_splits)
      with w4 ok2 l2 show ?thesis by (auto split: option.splits)
    next
      case True
      then obtain a where a: "joinee = Some a" "a \<noteq> self" by blast
      obtain k th where th: "at_slot w2 k a" "infos w2 a = Some th" "tstate th \<noteq> STATE_FREE" "tstate th \<noteq> STATE_EXITED"
        using info_id_Some [OF ok2] jn a(1) by blast
      have jo: "joinable w2 k a" using th by (cases "tstate th") (auto simp: joinable_def)
      have js: "join_state E self a w2 = Some (err, w3)" using w3 a by simp
      have "table_ok w3 \<and> joinable w3 k a \<and> live w3 i self \<and>
        (err = None \<longrightarrow> (\<exists>t. infos w3 a = Some t \<and> tstate t = STATE_JOIN))"
        using js th(2) jo ok2 l2 join_wait_ok [of E self a w2] o
        by (auto simp: join_state_def split: bind_splits pstate.splits if_splits)
      moreover from this have "table_ok w4 \<and> live w4 i self" if none: "err = None"
      proof -
        from calculation none obtain t where t: "table_ok w3" "at_slot w3 k a" "infos w3 a = Some t" "tstate t = STATE_JOIN"
          "live w3 i self" by (auto simp: joinable_def)
        obtain v where jd: "join_done E a w3 = Some (v, w4)" using w4 none a(1) by (auto split: bind_splits)
        let ?e = "set_info a (t\<lparr>tstate := STATE_EXITED\<rparr>)
          (w3\<lparr>pthreads_exited := pthreads_exited w3 + 1, pthreads_tobejoined := pthreads_tobejoined w3 - 1\<rparr>)"
        have "table_ok ?e" using change_state [OF t(1-3), of "t\<lparr>tstate := STATE_EXITED\<rparr>" ?e] t(4)
          by (simp add: set_info_def)
        moreover have "live ?e i self" using t(5) a(2) by (simp add: live_def at_slot_def set_info_def)
        moreover have "pthread_reap E ?e = Some w4" using jd t(3) by (auto simp: join_done_def split: bind_splits)
        ultimately show ?thesis using pthread_reap_ok reap_live by blast
      qed
      ultimately show ?thesis using w4 by (cases err) auto
    qed
    then have "table_ok (unlock_threads E w4)" "live (unlock_threads E w4) i self"
      using live_info [of w4 i self "unlock_threads E w4"] by simp_all
    with w5 testcancel_ok [OF _ h] show ?thesis by blast
  qed
qed

text \<open>Detaching a running thread; detaching one that has exited is left out (it breaks the counters).\<close>

lemma detach_ok:
  assumes ok: "table_ok w" and r: "pthread_detach E thread w = Some (res, w')"
    and nj: "\<And>a t. infos w a = Some t \<Longrightarrow> tid t = thread \<Longrightarrow> tstate t \<noteq> STATE_JOIN"
  shows "table_ok w'"
proof -
  from r obtain w1 d w2 w3 where w1: "lock_threads E w = Some w1" and d: "pthread_info_id thread w1 = Some d"
    and w2: "(case d of None \<Rightarrow> Some (Some ESRCH, w1)
       | Some a \<Rightarrow> do {
           i \<leftarrow> infos w1 a;
           if tstate i = STATE_DETACHED then Some (Some EINVAL, w1)
           else Some (None, give_joiner E i (set_info a (i\<lparr>tstate := STATE_DETACHED\<rparr>) w1)) }) = Some (res, w2)"
    and w3: "pthread_reap E w2 = Some w3" and w': "w' = unlock_threads E w3"
    by (auto simp: pthread_detach_def split: bind_splits)
  have ok1: "table_ok w1" using same_table_ok [OF ok same_table_lock [OF w1]] .
  have "table_ok w2"
  proof (cases d)
    case (Some a)
    obtain k t where t: "at_slot w1 k a" "infos w1 a = Some t" "tid t = thread" "tstate t \<noteq> STATE_FREE" "tstate t \<noteq> STATE_EXITED"
      using info_id_Some [OF ok1] d Some by blast
    obtain k0 where "w1 = w\<lparr>kst := k0\<rparr>" using lock_threads_kst [OF w1] by blast
    then have nj1: "tstate t \<noteq> STATE_JOIN" using nj [of a t] t by simp
    have "table_ok (set_info a (t\<lparr>tstate := STATE_DETACHED\<rparr>) w1)"
      using change_state [OF ok1 t(1,2), of "t\<lparr>tstate := STATE_DETACHED\<rparr>" "set_info a (t\<lparr>tstate := STATE_DETACHED\<rparr>) w1"]
        t nj1 by (simp add: set_info_def)
    with w2 Some t(2) ok1 show ?thesis by (auto split: if_splits)
  qed (use w2 ok1 in simp)
  from pthread_reap_ok [OF this w3] w' show ?thesis by simp
qed

section \<open>Creation\<close>

text \<open>The control structure of a new thread does not lie where another one does.\<close>

definition stack_fresh :: "'k tenv \<Rightarrow> pattr \<Rightarrow> 'k tworld \<Rightarrow> bool" where
  "stack_fresh E at w \<longleftrightarrow> (\<forall>a sb sz.
     place_info E (fst (get_stack E at w)) (stack_size_of at) = Some (a, sb, sz) \<longrightarrow> Some a \<notin> set (thread_table w))"

definition attr_used :: "pattr option \<Rightarrow> pattr \<Rightarrow> pattr" where
  "attr_used at uninit = (case at of None \<Rightarrow> fresh_attr uninit | Some x \<Rightarrow> x)"

lemma attr_used_eq:
  "(case at of None \<Rightarrow> snd (pthread_attr_init (Some u)) | Some x \<Rightarrow> Some x) = Some (attr_used at u)"
  by (simp add: attr_used_def fresh_attr_def pthread_attr_init_def split: option.splits)

lemma get_stack_kst: "\<exists>k. snd (get_stack E at w) = w\<lparr>kst := k\<rparr>"
  by (cases "stackaddr_valid at")
    (auto simp: get_stack_def split_beta intro: exI [of _ "kst w"])

lemma create_locked_ok:
  assumes ok: "table_ok w" and r: "create_locked E at routine arg fs mem len w = Some (err, res, w')"
    and fresh: "\<And>a sb sz. place_info E mem len = Some (a, sb, sz) \<Longrightarrow> Some a \<notin> set (thread_table w)"
    and err: "err \<noteq> Some EINVAL"
  shows "table_ok w'"
proof -
  have l: "length (thread_table w) = THREADS_MAX" using ok by (simp add: table_ok_def)
  have nx: "thread_info_next w < THREADS_MAX"
  proof (rule ccontr)
    assume "\<not> thread_info_next w < THREADS_MAX"
    then have "find_free (thread_table w) (thread_info_next w) (thread_info_next w) = None"
      using l by (subst find_free.simps) (simp add: arr_get_def)
    then show False using r by (simp add: create_locked_def)
  qed
  show ?thesis
  proof (cases "\<forall>k < THREADS_MAX. thread_table w ! k \<noteq> None")
    case True
    from find_free_full [OF l nx True] r ok show ?thesis
      by (auto simp: create_locked_def Let_def)
  next
    case False
    then obtain k where "k < THREADS_MAX" "thread_table w ! k = None" by blast
    from find_free_first [OF l nx this] obtain slot where
      f: "find_free (thread_table w) (thread_info_next w) (thread_info_next w) = Some (Some slot)"
      "slot < THREADS_MAX" "thread_table w ! slot = None" using nx by fastforce
    from r f(1) obtain a sb sz where pl: "place_info E mem len = Some (a, sb, sz)"
      by (auto simp: create_locked_def split: bind_splits)
    from create_locked_run [OF ok f pl fresh [OF pl], of at routine arg fs] obtain b w1 where
      "create_locked E at routine arg fs mem len w =
        Some (if b then None else Some EINVAL, if b then Some (a, new_id w slot) else None, w1)" "b \<longrightarrow> table_ok w1"
      by blast
    with r err show ?thesis by (auto split: if_splits)
  qed
qed

lemma create_ok:
  assumes ok: "table_ok w" and fresh: "stack_fresh E (attr_used at u) w"
    and r: "pthread_create E th at routine arg u w = Some (err, out, w')" and err: "err \<noteq> Some EINVAL"
  shows "table_ok w'"
proof -
  let ?at = "attr_used at u"
  obtain mem w0 where g: "get_stack E ?at w = (mem, w0)" by fastforce
  obtain k0 where w0: "w0 = w\<lparr>kst := k0\<rparr>" using get_stack_kst [of E ?at w] g by auto
  show ?thesis
  proof (cases "\<not> stackaddr_valid ?at \<and> mem = 0")
    case True
    then show ?thesis using r ok w0 g err
      by (auto simp: pthread_create_def attr_used_eq Let_def split: if_splits)
  next
    case False
    let ?cl = "create_locked E ?at routine arg (\<not> stackaddr_valid ?at) mem (stack_size_of ?at)"
    let ?fin = "\<lambda>(e, res, w3). case res of None \<Rightarrow> Some (e, None, w3)
      | Some (a, t) \<Rightarrow> Some (None, Some t, w3\<lparr>kst := taskActivate (kern E) a (kst w3)\<rparr>)"
    have "th \<and> routine \<noteq> 0"
    proof (rule ccontr)
      assume "\<not> (th \<and> routine \<noteq> 0)"
      then have "pthread_create E th at routine arg u w = Some (Some EINVAL, None, w)"
        by (simp add: pthread_create_def)
      then show False using r err by simp
    qed
    with r g False have body:
      "do { w1 \<leftarrow> lock_threads E w0; w2 \<leftarrow> pthread_reap E w1; x \<leftarrow> ?cl w2; ?fin x } = Some (err, out, w')"
      by (simp add: pthread_create_def attr_used_eq Let_def)
    then obtain w1 where w1: "lock_threads E w0 = Some w1" by (cases "lock_threads E w0") auto
    with body obtain w2 where w2: "pthread_reap E w1 = Some w2" by (cases "pthread_reap E w1") auto
    with w1 body obtain e res w3 where w3: "?cl w2 = Some (e, res, w3)" by (cases "?cl w2") auto
    have fin: "res = None \<and> e = err \<and> w' = w3 \<or> (\<exists>a t. res = Some (a, t) \<and> w' = w3\<lparr>kst := taskActivate (kern E) a (kst w3)\<rparr>)"
      using body w1 w2 w3 by (cases res) auto
    obtain k1 where w1': "w1 = w\<lparr>kst := k1\<rparr>" using lock_threads_kst [OF w1] w0 by auto
    have ok2: "table_ok w2" and fr: "reap_frame w1 w2" using pthread_reap_ok [OF _ w2] ok w1' by auto
    have "e = None" if "res = Some x" for x
      using w3 that by (auto simp: create_locked_def Let_def split: bind_splits option.splits if_splits prod.splits)
    then have "e \<noteq> Some EINVAL" using fin err by auto
    moreover have "Some a \<notin> set (thread_table w2)" if "place_info E mem (stack_size_of ?at) = Some (a, sb, sz)" for a sb sz
      using fresh that g reap_frame_fresh [OF fr] w1' by (simp add: stack_fresh_def)
    ultimately have "table_ok w3" using create_locked_ok [OF ok2 w3] by blast
    then show ?thesis using fin by auto
  qed
qed

section \<open>The thread system\<close>

text \<open>
  One call of the interface. Creations whose task cannot be initialised and detaching a thread
  that has already exited are not steps: both break the table, as separate theorems show.
\<close>

inductive thr_step :: "'k tenv \<Rightarrow> 'k tworld \<Rightarrow> 'k tworld \<Rightarrow> bool" for E where
  create: "pthread_create E th at routine arg u w = Some (err, out, w') \<Longrightarrow> err \<noteq> Some EINVAL \<Longrightarrow>
    stack_fresh E (attr_used at u) w \<Longrightarrow> thr_step E w w'"
| exit: "vxpth_pthread_exit E self rv w = Some w' \<Longrightarrow> live w i self \<Longrightarrow> thr_step E w w'"
| join: "pthread_join E self t w = Some (res, w') \<Longrightarrow> live w i self \<Longrightarrow> others_ok E self \<Longrightarrow> thr_step E w w'"
| detach: "pthread_detach E t w = Some (d, w') \<Longrightarrow>
    (\<And>a x. infos w a = Some x \<Longrightarrow> tid x = t \<Longrightarrow> tstate x \<noteq> STATE_JOIN) \<Longrightarrow> thr_step E w w'"
| setcancelstate: "pthread_setcancelstate E self v w = Some (e, old, w') \<Longrightarrow> thr_step E w w'"
| setcanceltype: "pthread_setcanceltype E self ct w = Some (e, oldt, w') \<Longrightarrow> thr_step E w w'"
| testcancel: "pthread_testcancel E self w = Some (b, w') \<Longrightarrow> live w i self \<Longrightarrow> thr_step E w w'"
| cleanup_push: "pthread_cleanup_push_inner self buffer p x w = Some w' \<Longrightarrow> thr_step E w w'"
| cleanup_pop: "pthread_cleanup_pop_inner E self buffer ex w = Some w' \<Longrightarrow> thr_step E w w'"
| setschedparam: "pthread_setschedparam E t pol param w = Some (e, w') \<Longrightarrow> thr_step E w w'"
| setspecific: "pthread_setspecific self key x w = Some (e, w') \<Longrightarrow> thr_step E w w'"
| key_delete: "pthread_key_delete E key w = Some w' \<Longrightarrow> thr_step E w w'"
| key_create: "pthread_key_create E p w = Some (res, w') \<Longrightarrow> thr_step E w w'"

lemma same_table_bufs [simp]:
  "same_table w (w'\<lparr>bufs := b\<rparr>) = same_table w w'" "same_table w (w'\<lparr>thread_key := m\<rparr>) = same_table w w'"
  "same_table w (w'\<lparr>key_destructor := d\<rparr>) = same_table w w'"
  by (simp_all add: same_table_def)

lemma set_info_bufs: "set_info a t (w\<lparr>bufs := b\<rparr>) = (set_info a t w)\<lparr>bufs := b\<rparr>"
  by (simp add: set_info_def)

text \<open>The operations that only touch the fields of one structure.\<close>

lemma update_same:
  assumes "same_table w w1" "infos w1 a = Some t" "tstate t' = tstate t" "tid t' = tid t"
  shows "same_table w (set_info a t' w1)"
  using assms same_table_set_info same_table_trans by blast

lemma clear_data_same:
  assumes "foldm (clear_data key) js w = Some w'"
  shows "same_table w w'"
proof (rule foldm_invariant [OF _ _ assms, of "same_table w"])
  fix i d d'
  assume d: "same_table w d" and c: "clear_data key i d = Some d'"
  show "same_table w d'"
    using c d by (auto simp: clear_data_def split: bind_splits option.splits intro: update_same)
qed simp

lemma quiet_steps:
  "pthread_setcancelstate E self v w = Some (e, old, w') \<Longrightarrow> same_table w w'"
  "pthread_setcanceltype E self ct w = Some (e, oldt, w') \<Longrightarrow> same_table w w'"
  "pthread_cleanup_push_inner self buffer p x w = Some w' \<Longrightarrow> same_table w w'"
  "pthread_setschedparam E t pol param w = Some (e, w') \<Longrightarrow> same_table w w'"
  "pthread_setspecific self key x w = Some (e, w') \<Longrightarrow> same_table w w'"
  "pthread_key_delete E key w = Some w' \<Longrightarrow> same_table w w'"
  by (auto simp: pthread_setcancelstate_def pthread_setcanceltype_def pthread_cleanup_push_inner_def set_info_bufs
      pthread_setschedparam_def pthread_setspecific_def pthread_key_delete_def Let_def
      split: if_splits bind_splits option.splits intro!: update_same dest: same_table_lock)

lemma key_create_same:
  assumes "pthread_key_create E p w = Some (res, w')"
  shows "same_table w w'"
proof -
  from assms obtain w1 where w1: "lock_threads E w = Some w1"
    by (auto simp: pthread_key_create_def split: bind_splits)
  then have s1: "same_table w w1" by (rule same_table_lock)
  show ?thesis
  proof (cases "find_key (take (KEYS_MAX E div 32) (thread_key w1)) 0")
    case None
    then show ?thesis using assms w1 s1 by (auto simp: pthread_key_create_def)
  next
    case (Some x)
    obtain i b where x: "x = (i, b)" by fastforce
    let ?w = "\<lambda>ds. w1\<lparr>thread_key := (thread_key w1)[i := (thread_key w1 ! i) AND NOT (push_bit b 1)],
      key_destructor := ds\<rparr>"
    have body: "do { ds \<leftarrow> arr_set (key_destructor w1) (b + i * 32) p;
        w2 \<leftarrow> foldm (clear_data (b + i * 32)) [0..<THREADS_MAX] (?w ds);
        Some (Inr (b + i * 32), unlock_threads E w2) } = Some (res, w')"
      using assms by (simp add: pthread_key_create_def w1 Some x Let_def)
    then obtain ds where ds: "arr_set (key_destructor w1) (b + i * 32) p = Some ds"
      by (cases "arr_set (key_destructor w1) (b + i * 32) p") auto
    with body obtain w2 where w2: "foldm (clear_data (b + i * 32)) [0..<THREADS_MAX] (?w ds) = Some w2"
      by (cases "foldm (clear_data (b + i * 32)) [0..<THREADS_MAX] (?w ds)") auto
    then have "w' = unlock_threads E w2" using body ds by auto
    moreover have "same_table w (?w ds)" using s1 by simp
    ultimately show ?thesis using same_table_trans [OF _ clear_data_same [OF w2]] by simp
  qed
qed

lemma cleanup_pop_same:
  assumes h: "handlers_ok E" and r: "pthread_cleanup_pop_inner E self buffer ex w = Some w'"
  shows "same_table w w'"
proof -
  from r obtain i where i: "infos w self = Some i"
    by (auto simp: pthread_cleanup_pop_inner_def split: bind_splits)
  with r obtain b where b: "bufs w buffer = Some b"
    by (auto simp: pthread_cleanup_pop_inner_def split: bind_splits)
  let ?w = "set_info self (i\<lparr>cancelbuffer := cb_prev b\<rparr>) w"
  have s: "same_table w ?w" by (rule update_same [OF same_table_refl i]) simp_all
  have "w' = w \<or> w' = ?w \<or> call_routine E (cb_routine b) (cb_arg b) ?w = Some w'"
    using r i b by (auto simp: pthread_cleanup_pop_inner_def Let_def split: if_splits)
  then show ?thesis
    using s handlers_same [OF h, of "cb_routine b" "cb_arg b" ?w w'] same_table_trans [OF s, of w'] by auto
qed

lemma thr_step_ok:
  assumes "thr_step E w w'" "table_ok w" "handlers_ok E"
  shows "table_ok w'"
  using assms(1)
proof cases
  case create
  then show ?thesis using create_ok [OF assms(2)] by blast
next
  case exit
  then show ?thesis using live_exit_ok [OF assms(2,3)] by blast
next
  case join
  then show ?thesis using join_ok [OF assms(2,3)] by blast
next
  case detach
  then show ?thesis using detach_ok [OF assms(2)] by blast
next
  case testcancel
  then show ?thesis using testcancel_ok [OF assms(2,3)] by blast
next
  case cleanup_pop
  then show ?thesis using same_table_ok [OF assms(2)] cleanup_pop_same [OF assms(3)] by blast
next
  case key_create
  then show ?thesis using same_table_ok [OF assms(2)] key_create_same by blast
next
  case setcancelstate
  then show ?thesis using same_table_ok [OF assms(2)] quiet_steps(1) by blast
next
  case setcanceltype
  then show ?thesis using same_table_ok [OF assms(2)] quiet_steps(2) by blast
next
  case cleanup_push
  then show ?thesis using same_table_ok [OF assms(2)] quiet_steps(3) by blast
next
  case setschedparam
  then show ?thesis using same_table_ok [OF assms(2)] quiet_steps(4) by blast
next
  case setspecific
  then show ?thesis using same_table_ok [OF assms(2)] quiet_steps(5) by blast
next
  case key_delete
  then show ?thesis using same_table_ok [OF assms(2)] quiet_steps(6) by blast
qed

end
