(* ===== verification/KeyedData.thy ===== *)
theory KeyedData
  imports Prelude
begin

text \<open>
  The contract of stores addressed by keys: the data of a thread (\<open>pthread_setspecific\<close>), the
  server's table of request handlers, the local data of a PurC instance.
\<close>

section \<open>Key-value stores\<close>

text \<open>The contract of data addressed by keys, each visible to its owner only.\<close>

locale keyed_data =
  fixes put :: "'o \<Rightarrow> 'i \<Rightarrow> 'v \<Rightarrow> 's \<Rightarrow> 's option"
    and get :: "'o \<Rightarrow> 'i \<Rightarrow> 's \<Rightarrow> 'v option"
    and ok :: "'s \<Rightarrow> 'o \<Rightarrow> 'i \<Rightarrow> bool"
  assumes put_get: "ok s a k \<Longrightarrow> \<exists>s'. put a k v s = Some s' \<and> get a k s' = Some v"
    and put_other: "ok s a k \<Longrightarrow> put a k v s = Some s' \<Longrightarrow> ok s b j \<Longrightarrow> (b, j) \<noteq> (a, k) \<Longrightarrow> get b j s' = get b j s"
    and put_ok: "ok s a k \<Longrightarrow> put a k v s = Some s' \<Longrightarrow> ok s' b j = ok s b j"
begin

text \<open>A sequence of stores by one or several owners, and the last value stored under a key.\<close>

lemma stores_read_back:
  assumes "\<forall>x \<in> set xs. ok s (fst x) (fst (snd x))" "ok s b j"
  shows "\<exists>s'. foldm (\<lambda>(a, k, v). put a k v) xs s = Some s' \<and>
    get b j s' = (case map_of (rev (map (\<lambda>(a, k, v). ((a, k), v)) xs)) (b, j) of
                    Some v \<Rightarrow> Some v | None \<Rightarrow> get b j s)"
  using assms
proof (induction xs arbitrary: s)
  case (Cons x xs)
  obtain a k v where x: "x = (a, k, v)" by (cases x)
  have ak: "ok s a k" using Cons.prems(1) by (simp add: x)
  from put_get [OF ak] obtain s1 where s1: "put a k v s = Some s1" "get a k s1 = Some v" by blast
  have "\<forall>x \<in> set xs. ok s1 (fst x) (fst (snd x))" "ok s1 b j"
    using Cons.prems put_ok [OF ak s1(1)] by auto
  from Cons.IH [OF this] obtain s' where s': "foldm (\<lambda>(a, k, v). put a k v) xs s1 = Some s'"
    "get b j s' = (case map_of (rev (map (\<lambda>(a, k, v). ((a, k), v)) xs)) (b, j) of
        Some v \<Rightarrow> Some v | None \<Rightarrow> get b j s1)" by blast
  have "get b j s1 = (if (b, j) = (a, k) then Some v else get b j s)"
    using s1(2) put_other [OF ak s1(1) Cons.prems(2)] by auto
  with s' show ?case
    by (auto simp: x s1(1) map_add_def split: option.splits)
qed simp

end

end
