(* ===== verification/VxKeys.thy ===== *)
theory VxKeys
  imports VxSteps KeyedData
begin

text \<open>
  Thread-specific data and cleanup handlers: the key map as a set of allocated keys, what
  \<open>pthread_key_create\<close> chooses, the laws of a key-value store for every thread, and the order in
  which cleanup handlers run.
\<close>

section \<open>The key map\<close>

definition key_alloc :: "'k tworld \<Rightarrow> nat set" where
  "key_alloc w = {k. k < 32 * length (thread_key w) \<and> \<not> bit (thread_key w ! (k div 32)) (k mod 32)}"

definition keys_ok :: "'k tenv \<Rightarrow> 'k tworld \<Rightarrow> bool" where
  "keys_ok E w \<longleftrightarrow> KEYS_MAX E = 32 * length (thread_key w) \<and> length (key_destructor w) = KEYS_MAX E \<and>
     length (thread_table w) = THREADS_MAX \<and>
     (\<forall>a. Some a \<in> set (thread_table w) \<longrightarrow> (\<exists>t. infos w a = Some t \<and> length (thread_data t) = KEYS_MAX E))"

lemma keys_ok_data: "keys_ok E w \<Longrightarrow> Some a \<in> set (thread_table w) \<Longrightarrow>
    \<exists>t. infos w a = Some t \<and> length (thread_data t) = KEYS_MAX E"
  unfolding keys_ok_def by blast

lemma keys_ok_kst [simp]:
  "keys_ok E (w\<lparr>kst := k\<rparr>) = keys_ok E w" "keys_ok E (unlock_threads F w) = keys_ok E w" "key_alloc (unlock_threads F w) = key_alloc w"
  by (simp_all add: keys_ok_def key_alloc_def unlock_threads_def)

lemma lsbit_index_first:
  assumes "m \<noteq> 0"
  shows "\<exists>i < 32. lsbit_index m = int i \<and> bit m i \<and> (\<forall>j < i. \<not> bit m j)"
proof -
  obtain k where "k < 32" "bit m k" using assms word_nonzero_bit [of m] by auto
  then have "List.find (bit m) [0..<32] \<noteq> None" by (auto simp: find_None_iff)
  then obtain i where i: "List.find (bit m) [0..<32] = Some i" by blast
  then have "i < 32 \<and> bit m i \<and> (\<forall>j < i. \<not> bit m j)" by (auto simp: find_Some_iff)
  then show ?thesis using i by (auto simp: lsbit_index_def)
qed

lemma find_key_None: "find_key ms i = None \<longleftrightarrow> (\<forall>m \<in> set ms. m = 0)"
  by (induction ms arbitrary: i) auto

lemma find_key_Some:
  "find_key ms i0 = Some (i, b) \<Longrightarrow> i0 \<le> i \<and> i - i0 < length ms \<and> b < 32 \<and> bit (ms ! (i - i0)) b \<and>
     (\<forall>c < b. \<not> bit (ms ! (i - i0)) c) \<and> (\<forall>j < i - i0. ms ! j = 0)"
proof (induction ms arbitrary: i0)
  case (Cons m ms)
  show ?case
  proof (cases "m = 0")
    case True
    with Cons.prems have "find_key ms (i0 + 1) = Some (i, b)" by simp
    from Cons.IH [OF this] have h: "i0 + 1 \<le> i" "i - (i0 + 1) < length ms" "b < 32" "bit (ms ! (i - (i0 + 1))) b"
      "\<forall>c < b. \<not> bit (ms ! (i - (i0 + 1))) c" "\<forall>j < i - (i0 + 1). ms ! j = 0" by blast+
    have i: "i - i0 = Suc (i - (i0 + 1))" using h(1) by simp
    show ?thesis using h True by (auto simp: i nth_Cons' less_Suc_eq_0_disj)
  next
    case False
    with Cons.prems lsbit_index_first [OF False] show ?thesis by auto
  qed
qed simp

text \<open>The key chosen is the least free one.\<close>

lemma find_key_least:
  assumes "find_key (thread_key w) 0 = Some (i, b)"
  shows "b + i * 32 < 32 * length (thread_key w) \<and> b + i * 32 \<notin> key_alloc w \<and> (\<forall>j < b + i * 32. j \<in> key_alloc w)"
proof -
  from find_key_Some [OF assms] have h: "i < length (thread_key w)" "b < 32" "bit (thread_key w ! i) b"
    "\<forall>c < b. \<not> bit (thread_key w ! i) c" "\<forall>j < i. thread_key w ! j = 0" by auto
  have dm: "(b + i * 32) div 32 = i" "(b + i * 32) mod 32 = b" using h(2) by auto
  have lt: "b + i * 32 < 32 * length (thread_key w)" using h(1,2) by linarith
  have "j \<in> key_alloc w" if "j < b + i * 32" for j
  proof -
    have "j = 32 * (j div 32) + j mod 32" by simp
    then have "j div 32 < i \<or> j div 32 = i \<and> j mod 32 < b" using that h(2) by linarith
    then have "\<not> bit (thread_key w ! (j div 32)) (j mod 32)" using h(4,5) by auto
    then show ?thesis using that lt by (simp add: key_alloc_def)
  qed
  then show ?thesis using lt h(3) dm by (simp add: key_alloc_def)
qed

lemma key_alloc_all: "find_key (thread_key w) 0 = None \<longleftrightarrow> key_alloc w = {..<32 * length (thread_key w)}"
proof
  assume "find_key (thread_key w) 0 = None"
  then have z: "\<forall>m \<in> set (thread_key w). m = 0" by (simp add: find_key_None)
  have "thread_key w ! (k div 32) = 0" if "k < 32 * length (thread_key w)" for k
  proof -
    have "k div 32 < length (thread_key w)" using that by (simp add: less_mult_imp_div_less mult.commute)
    then show ?thesis using z nth_mem by blast
  qed
  then show "key_alloc w = {..<32 * length (thread_key w)}" by (auto simp: key_alloc_def)
next
  assume a: "key_alloc w = {..<32 * length (thread_key w)}"
  show "find_key (thread_key w) 0 = None"
  proof (rule ccontr)
    assume "find_key (thread_key w) 0 \<noteq> None"
    then obtain i b where "find_key (thread_key w) 0 = Some (i, b)" by auto
    from find_key_least [OF this] a show False by auto
  qed
qed

lemma key_alloc_clear:
  assumes "i < length (thread_key w)" "b < 32" "w' = w\<lparr>thread_key := (thread_key w)[i := (thread_key w ! i) AND NOT (push_bit b 1)]\<rparr>"
  shows "key_alloc w' = insert (b + i * 32) (key_alloc w)"
proof (rule set_eqI)
  fix k
  have dm: "(b + i * 32) div 32 = i" "(b + i * 32) mod 32 = b" using assms(2) by auto
  have eq: "k = b + i * 32 \<longleftrightarrow> k div 32 = i \<and> k mod 32 = b" using dm by (metis mod_div_mult_eq add.commute)
  have lt: "b + i * 32 < 32 * length (thread_key w)" using assms(1,2) by linarith
  show "k \<in> key_alloc w' \<longleftrightarrow> k \<in> insert (b + i * 32) (key_alloc w)"
    using assms(1,2) lt eq by (auto simp: key_alloc_def assms(3) nth_list_update bit_clear_flag)
qed

section \<open>Planting NULL\<close>

text \<open>The effect of one slot and of the loop, on the data of the threads of the table.\<close>

definition data_len :: "nat \<Rightarrow> 'k tworld \<Rightarrow> bool" where
  "data_len n w \<longleftrightarrow> (\<forall>a. Some a \<in> set (thread_table w) \<longrightarrow> (\<exists>t. infos w a = Some t \<and> length (thread_data t) = n))"

definition plant :: "nat \<Rightarrow> nat set \<Rightarrow> 'k tworld \<Rightarrow> 'k tworld" where
  "plant k A w = w\<lparr>infos := (\<lambda>a. if a \<in> A
     then map_option (\<lambda>t. t\<lparr>thread_data := (thread_data t)[k := 0]\<rparr>) (infos w a) else infos w a)\<rparr>"

lemma plant_fields:
  "key_destructor (unlock_threads E (plant k A w)) = key_destructor w"
  "thread_table (unlock_threads E (plant k A w)) = thread_table w"
  "infos (unlock_threads E (plant k A w)) a = (if a \<in> A
     then map_option (\<lambda>t. t\<lparr>thread_data := (thread_data t)[k := 0]\<rparr>) (infos w a) else infos w a)"
  by (simp_all add: plant_def unlock_threads_def)

lemma clear_loop:
  assumes len: "data_len n w" "k < n" and js: "set js \<subseteq> {..<length (thread_table w)}"
  shows "foldm (clear_data k) js w = Some (plant k {a. \<exists>j \<in> set js. thread_table w ! j = Some a} w)"
  using js
proof (induction js rule: rev_induct)
  case Nil
  show ?case by (simp add: plant_def)
next
  case (snoc j js)
  let ?A = "{a. \<exists>i \<in> set js. thread_table w ! i = Some a}"
  let ?w = "plant k ?A w"
  have run: "foldm (clear_data k) js w = Some ?w" and j: "j < length (thread_table w)"
    using snoc by simp_all
  have tt: "thread_table ?w = thread_table w" by (simp add: plant_def)
  show ?case
  proof (cases "thread_table w ! j")
    case None
    then have "clear_data k j ?w = Some ?w" using j tt by (simp add: clear_data_def arr_get_def)
    moreover have "{a. \<exists>i \<in> set (js @ [j]). thread_table w ! i = Some a} = ?A"
      using None by auto
    ultimately show ?thesis using run by (simp add: foldm_append)
  next
    case (Some a)
    have "Some a \<in> set (thread_table w)" using j Some nth_mem by metis
    then obtain t where t: "infos w a = Some t" "length (thread_data t) = n" using len(1) by (auto simp: data_len_def)
    let ?t = "t\<lparr>thread_data := (thread_data t)[k := 0]\<rparr>"
    have t1: "infos ?w a = Some (if a \<in> ?A then ?t else t)" using t(1) by (simp add: plant_def)
    have "clear_data k j ?w = Some (set_info a ?t ?w)"
      using j tt Some t1 t(2) len(2) by (cases "a \<in> ?A") (simp_all add: clear_data_def arr_get_def arr_set_def)
    moreover have "set_info a ?t ?w = plant k (insert a ?A) w"
      using t(1) by (simp add: plant_def set_info_def fun_eq_iff)
    moreover have "{a. \<exists>i \<in> set (js @ [j]). thread_table w ! i = Some a} = insert a ?A" using Some by auto
    ultimately show ?thesis using run by (simp add: foldm_append)
  qed
qed

lemma set_table_nth: "{a. \<exists>j \<in> set [0..<length tbl]. tbl ! j = Some a} = {a. Some a \<in> set tbl}"
  by (auto simp: in_set_conv_nth)

text \<open>What \<open>pthread_key_create\<close> does, on both branches.\<close>

lemma key_create_full:
  assumes ok: "keys_ok E w" and l: "lock_threads E w = Some w1" and full: "key_alloc w = {..<KEYS_MAX E}"
  shows "pthread_key_create E d w = Some (Inl EAGAIN, unlock_threads E w1)"
proof -
  obtain k where w1: "w1 = w\<lparr>kst := k\<rparr>" using lock_threads_kst [OF l] by blast
  have "take (KEYS_MAX E div 32) (thread_key w1) = thread_key w" using ok w1 by (simp add: keys_ok_def)
  moreover have "find_key (thread_key w) 0 = None" using ok full key_alloc_all [of w] by (simp add: keys_ok_def)
  ultimately show ?thesis by (simp add: pthread_key_create_def l)
qed

lemma key_create_free:
  assumes ok: "keys_ok E w" and l: "lock_threads E w = Some w1" and free: "key_alloc w \<noteq> {..<KEYS_MAX E}"
  shows "\<exists>k w'. pthread_key_create E d w = Some (Inr k, w') \<and> k < KEYS_MAX E \<and> k \<notin> key_alloc w \<and>
    (\<forall>j < k. j \<in> key_alloc w) \<and> key_alloc w' = insert k (key_alloc w) \<and> keys_ok E w' \<and>
    key_destructor w' = (key_destructor w)[k := d] \<and> thread_table w' = thread_table w \<and>
    (\<forall>a t. Some a \<in> set (thread_table w) \<longrightarrow> infos w a = Some t \<longrightarrow>
       infos w' a = Some (t\<lparr>thread_data := (thread_data t)[k := 0]\<rparr>)) \<and>
    (\<forall>a. Some a \<notin> set (thread_table w) \<longrightarrow> infos w' a = infos w a)"
proof -
  obtain k0 where w1: "w1 = w\<lparr>kst := k0\<rparr>" using lock_threads_kst [OF l] by blast
  have tk: "take (KEYS_MAX E div 32) (thread_key w1) = thread_key w" using ok w1 by (simp add: keys_ok_def)
  obtain i b where f: "find_key (thread_key w) 0 = Some (i, b)"
    using ok free key_alloc_all [of w] by (cases "find_key (thread_key w) 0") (auto simp: keys_ok_def)
  let ?k = "b + i * 32"
  have h: "i < length (thread_key w)" "b < 32" using find_key_Some [OF f] by auto
  have least: "?k < KEYS_MAX E" "?k \<notin> key_alloc w" "\<forall>j < ?k. j \<in> key_alloc w"
    using find_key_least [OF f] ok by (auto simp: keys_ok_def)
  let ?u = "w1\<lparr>thread_key := (thread_key w)[i := (thread_key w ! i) AND NOT (push_bit b 1)],
    key_destructor := (key_destructor w)[?k := d]\<rparr>"
  let ?A = "{a. Some a \<in> set (thread_table w)}"
  let ?v = "plant ?k ?A ?u"
  have "data_len (KEYS_MAX E) w" using keys_ok_data [OF ok] by (simp add: data_len_def)
  then have "data_len (KEYS_MAX E) ?u" by (simp add: data_len_def w1)
  moreover have "set [0..<THREADS_MAX] \<subseteq> {..<length (thread_table ?u)}" using ok w1 by (auto simp: keys_ok_def)
  ultimately have "foldm (clear_data ?k) [0..<THREADS_MAX] ?u =
      Some (plant ?k {a. \<exists>j \<in> set [0..<THREADS_MAX]. thread_table ?u ! j = Some a} ?u)"
    using least(1) by (intro clear_loop)
  then have fo: "foldm (clear_data ?k) [0..<THREADS_MAX] ?u = Some ?v"
    using set_table_nth [of "thread_table w"] ok w1 by (simp add: keys_ok_def del: set_upt)
  have run: "pthread_key_create E d w = Some (Inr ?k, unlock_threads E ?v)"
    using fo least(1) ok w1 by (simp add: pthread_key_create_def l tk f Let_def arr_set_def keys_ok_def)
  have ka: "key_alloc ?v = insert ?k (key_alloc w)"
    using key_alloc_clear [OF h, of "w\<lparr>thread_key := (thread_key w)[i := (thread_key w ! i) AND NOT (push_bit b 1)]\<rparr>"] w1
    by (simp add: key_alloc_def plant_def)
  have ok': "keys_ok E ?v"
  proof -
    have "\<exists>t. infos ?v a = Some t \<and> length (thread_data t) = KEYS_MAX E" if "Some a \<in> set (thread_table w)" for a
      using keys_ok_data [OF ok that] that by (auto simp: plant_def w1)
    then show ?thesis using ok w1 unfolding keys_ok_def by (simp add: plant_def)
  qed
  show ?thesis
    by (rule exI [of _ ?k], rule exI [of _ "unlock_threads E ?v"])
      (use run least ka ok' in \<open>simp add: plant_fields w1\<close>)
qed

section \<open>The data of the threads\<close>

text \<open>A live thread of the table may use an allocated key.\<close>

definition key_usable :: "'k tenv \<Rightarrow> 'k tworld \<Rightarrow> nat \<Rightarrow> nat \<Rightarrow> bool" where
  "key_usable E w a k \<longleftrightarrow> keys_ok E w \<and> Some a \<in> set (thread_table w) \<and> k \<in> key_alloc w"

definition put_specific :: "nat \<Rightarrow> nat \<Rightarrow> dword \<Rightarrow> 'k tworld \<Rightarrow> 'k tworld option" where
  "put_specific a k v w = map_option snd (pthread_setspecific a k v w)"

lemma key_usable_facts:
  assumes "key_usable E w a k"
  shows "key_is_free w k = Some False"
    "\<exists>t. infos w a = Some t \<and> k < length (thread_data t)"
proof -
  have k: "k < 32 * length (thread_key w)" "\<not> bit (thread_key w ! (k div 32)) (k mod 32)"
    using assms by (auto simp: key_usable_def key_alloc_def)
  have "k div 32 < length (thread_key w)" using k(1) by (simp add: less_mult_imp_div_less mult.commute)
  then show "key_is_free w k = Some False" using k(2) by (simp add: key_is_free_def arr_get_def)
  show "\<exists>t. infos w a = Some t \<and> k < length (thread_data t)"
    using assms k(1) by (auto simp: key_usable_def keys_ok_def)
qed

lemma setspecific_run:
  assumes "key_usable E w a k" "infos w a = Some t"
  shows "pthread_setspecific a k v w = Some (None, set_info a (t\<lparr>thread_data := (thread_data t)[k := v]\<rparr>) w)"
  using key_usable_facts [OF assms(1)] assms(2) by (auto simp: pthread_setspecific_def arr_set_def)

lemma getspecific_run:
  assumes "key_usable E w a k" "infos w a = Some t"
  shows "pthread_getspecific a k w = Some (thread_data t ! k)"
  using key_usable_facts [OF assms(1)] assms(2) by (auto simp: pthread_getspecific_def arr_get_def)

lemma usable_set_info:
  assumes "infos w a = Some t" "length (thread_data t') = length (thread_data t)"
  shows "key_usable E (set_info a t' w) b j = key_usable E w b j"
  using assms by (auto simp: key_usable_def keys_ok_def key_alloc_def set_info_def)

interpretation specific: keyed_data put_specific pthread_getspecific "key_usable E" for E
proof unfold_locales
  fix w :: "'a tworld" and a k v
  assume u: "key_usable E w a k"
  then obtain t where t: "infos w a = Some t" "k < length (thread_data t)" using key_usable_facts by blast
  let ?w = "set_info a (t\<lparr>thread_data := (thread_data t)[k := v]\<rparr>) w"
  have "key_usable E ?w a k" using u usable_set_info [OF t(1)] by simp
  then have "pthread_getspecific a k ?w = Some v" using getspecific_run [of E ?w a k] t(2) by (simp add: set_info_def)
  then show "\<exists>s'. put_specific a k v w = Some s' \<and> pthread_getspecific a k s' = Some v"
    using setspecific_run [OF u t(1)] by (simp add: put_specific_def)
next
  fix w s' :: "'a tworld" and a k v b j
  assume u: "key_usable E w a k" and p: "put_specific a k v w = Some s'" and ub: "key_usable E w b j"
    and ne: "(b, j) \<noteq> (a, k)"
  obtain t where t: "infos w a = Some t" using u key_usable_facts by blast
  obtain tb where tb: "infos w b = Some tb" using ub key_usable_facts by blast
  have s': "s' = set_info a (t\<lparr>thread_data := (thread_data t)[k := v]\<rparr>) w"
    using p setspecific_run [OF u t] by (simp add: put_specific_def)
  have "key_usable E s' b j" using ub usable_set_info [OF t] s' by simp
  then show "pthread_getspecific b j s' = pthread_getspecific b j w"
    using getspecific_run [OF ub tb] getspecific_run [of E s' b j] ne t tb
    by (cases "b = a") (auto simp: s' set_info_def)
next
  fix w s' :: "'a tworld" and a k v b j
  assume u: "key_usable E w a k" and p: "put_specific a k v w = Some s'"
  obtain t where t: "infos w a = Some t" using u key_usable_facts by blast
  have "s' = set_info a (t\<lparr>thread_data := (thread_data t)[k := v]\<rparr>) w"
    using p setspecific_run [OF u t] by (simp add: put_specific_def)
  then show "key_usable E s' b j = key_usable E w b j" using usable_set_info [OF t] by simp
qed

section \<open>Cleanup handlers\<close>

text \<open>Handlers that only change the state of the application, modelled by \<open>kst\<close>.\<close>

definition pure_handlers :: "'k tenv \<Rightarrow> (procptr \<Rightarrow> dword \<Rightarrow> 'k \<Rightarrow> 'k) \<Rightarrow> bool" where
  "pure_handlers E f \<longleftrightarrow> (\<forall>p x w. call_routine E p x w = Some (w\<lparr>kst := f p x (kst w)\<rparr>))"

definition push_handler :: "nat \<Rightarrow> nat \<times> procptr \<times> dword \<Rightarrow> 'k tworld \<Rightarrow> 'k tworld option" where
  "push_handler th h w = (case h of (b, p, x) \<Rightarrow> pthread_cleanup_push_inner th b p x w)"

fun handler_chain :: "(nat \<Rightarrow> cbuf option) \<Rightarrow> nat option \<Rightarrow> (nat \<times> procptr \<times> dword) list \<Rightarrow> bool" where
  "handler_chain bf p [] \<longleftrightarrow> p = None"
| "handler_chain bf p ((b, r, x) # hs) \<longleftrightarrow> p = Some b \<and>
     (\<exists>q. bf b = Some \<lparr>cb_routine = r, cb_arg = x, cb_prev = q\<rparr> \<and> handler_chain bf q hs)"

lemma handler_chain_upd:
  "b \<notin> fst ` set hs \<Longrightarrow> handler_chain (bf(b := v)) p hs = handler_chain bf p hs"
  by (induction hs arbitrary: p) (auto split: prod.splits)

lemma push_all:
  assumes "infos w th = Some t" "handler_chain (bufs w) (cancelbuffer t) old" "distinct (map fst (old @ hs))"
  shows "\<exists>w' t'. foldm (push_handler th) hs w = Some w' \<and> infos w' th = Some t' \<and> kst w' = kst w \<and>
    handler_chain (bufs w') (cancelbuffer t') (rev hs @ old)"
  using assms
proof (induction hs arbitrary: w t old)
  case (Cons h hs)
  obtain b r x where h: "h = (b, r, x)" by (cases h)
  let ?t = "t\<lparr>cancelbuffer := Some b\<rparr>"
  let ?w = "set_info th ?t (w\<lparr>bufs := (bufs w)(b \<mapsto> \<lparr>cb_routine = r, cb_arg = x, cb_prev = cancelbuffer t\<rparr>)\<rparr>)"
  have run: "push_handler th h w = Some ?w"
    using Cons.prems(1) by (simp add: h push_handler_def pthread_cleanup_push_inner_def)
  have "b \<notin> fst ` set old" using Cons.prems(3) h by auto
  then have "handler_chain (bufs ?w) (cancelbuffer ?t) (h # old)"
    using Cons.prems(2) by (simp add: h set_info_def handler_chain_upd)
  moreover have "infos ?w th = Some ?t" by (simp add: set_info_def)
  moreover have "distinct (map fst ((h # old) @ hs))" using Cons.prems(3) by auto
  ultimately obtain w' t' where "foldm (push_handler th) hs ?w = Some w'" "infos w' th = Some t'" "kst w' = kst ?w"
    "handler_chain (bufs w') (cancelbuffer t') (rev hs @ h # old)" using Cons.IH by blast
  then show ?case using run by (simp add: set_info_def)
qed simp

lemma run_cleanup_chain:
  assumes p: "pure_handlers E f" and "infos w th = Some t" "handler_chain (bufs w) (cancelbuffer t) hs"
  shows "run_cleanup E th w = Some ((set_info th (t\<lparr>cancelbuffer := None\<rparr>) w)
    \<lparr>kst := fold (\<lambda>(b, r, x). f r x) hs (kst w)\<rparr>)"
  using assms(2,3)
proof (induction hs arbitrary: w t)
  case Nil
  then have "t\<lparr>cancelbuffer := None\<rparr> = t" by simp
  with Nil show ?case by (subst run_cleanup.simps) (simp add: set_info_def fun_upd_idem)
next
  case (Cons h hs)
  obtain b r x where h: "h = (b, r, x)" by (cases h)
  from Cons.prems(2) obtain q where q: "cancelbuffer t = Some b" "bufs w b = Some \<lparr>cb_routine = r, cb_arg = x, cb_prev = q\<rparr>"
    "handler_chain (bufs w) q hs" by (auto simp: h)
  let ?t = "t\<lparr>cancelbuffer := q\<rparr>"
  let ?w = "(set_info th ?t w)\<lparr>kst := f r x (kst w)\<rparr>"
  have step: "run_cleanup E th w = run_cleanup E th ?w"
    using Cons.prems(1) q p by (subst run_cleanup.simps) (simp add: pure_handlers_def set_info_def)
  have "infos ?w th = Some ?t" "handler_chain (bufs ?w) (cancelbuffer ?t) hs"
    using q(3) by (simp_all add: set_info_def)
  from Cons.IH [OF this] show ?case by (simp add: step h set_info_def)
qed

section \<open>Destructors\<close>

text \<open>With handlers that only change the application's state, the passes over the keys return.\<close>

definition destr_frame :: "'k tenv \<Rightarrow> ('k \<Rightarrow> bool) \<Rightarrow> 'k tworld \<Rightarrow> 'k tworld \<Rightarrow> bool" where
  "destr_frame E P w w' \<longleftrightarrow> keys_ok E w' \<and> thread_table w' = thread_table w \<and>
     vxpthread_mutex w' = vxpthread_mutex w \<and> P (kst w')"

lemma keys_ok_set_info:
  assumes "keys_ok E w" "infos w a = Some t" "length (thread_data t') = length (thread_data t)"
  shows "keys_ok E (set_info a t' w)"
  using assms unfolding keys_ok_def set_info_def by fastforce

lemma destroy_key_total:
  assumes p: "pure_handlers E f" and P: "\<And>r x k. P k \<Longrightarrow> P (f r x k)"
    and fr: "destr_frame E P w0 w" and th: "Some th \<in> set (thread_table w0)" and key: "key < KEYS_MAX E"
  shows "\<exists>c' w'. destroy_key E th key (c, w) = Some (c', w') \<and> destr_frame E P w0 w'"
proof -
  have ok: "keys_ok E w" "Some th \<in> set (thread_table w)" using fr th by (simp_all add: destr_frame_def)
  from keys_ok_data [OF ok] obtain t where t: "infos w th = Some t" "length (thread_data t) = KEYS_MAX E" by blast
  have "key div 32 < length (thread_key w)" using key ok(1)
    by (simp add: keys_ok_def less_mult_imp_div_less mult.commute)
  then obtain b where b: "key_is_free w key = Some b" by (simp add: key_is_free_def arr_get_def)
  obtain d where d: "arr_get (key_destructor w) key = Some d" using key ok(1) by (simp add: arr_get_def keys_ok_def)
  let ?t = "t\<lparr>thread_data := (thread_data t)[key := 0]\<rparr>"
  have v: "arr_get (thread_data t) key = Some (thread_data t ! key)" using key t(2) by (simp add: arr_get_def)
  let ?w = "(set_info th ?t w)\<lparr>kst := f d (thread_data t ! key) (kst w)\<rparr>"
  have "keys_ok E (set_info th ?t w)" using keys_ok_set_info [OF ok(1) t(1), of ?t] by simp
  then have "destr_frame E P w0 ?w"
    using fr P by (simp add: destr_frame_def) (simp add: set_info_def)
  moreover have "destroy_key E th key (c, w) = Some (if b \<or> d = 0 \<or> thread_data t ! key = 0 then (c, w) else (True, ?w))"
    using p by (simp add: destroy_key_def b d t(1) v pure_handlers_def set_info_def)
  ultimately show ?thesis using fr by auto
qed

lemma destructor_pass_total:
  assumes p: "pure_handlers E f" and P: "\<And>r x k. P k \<Longrightarrow> P (f r x k)"
    and fr: "destr_frame E P w0 w" and th: "Some th \<in> set (thread_table w0)"
  shows "\<exists>c' w'. destructor_pass E th w = Some (c', w') \<and> destr_frame E P w0 w'"
proof -
  have "\<exists>c' w'. foldm (destroy_key E th) ks (c, w) = Some (c', w') \<and> destr_frame E P w0 w'"
    if "\<forall>k \<in> set ks. k < KEYS_MAX E" "destr_frame E P w0 w" for ks c w
    using that
  proof (induction ks arbitrary: c w)
    case (Cons k ks)
    from destroy_key_total [OF p P Cons.prems(2) th, of k c] Cons.prems(1) obtain c1 w1 where
      "destroy_key E th k (c, w) = Some (c1, w1)" "destr_frame E P w0 w1" by auto
    with Cons.IH [of w1 c1] Cons.prems(1) show ?case by auto
  qed simp
  from this [of "[0..<KEYS_MAX E]" w False] fr show ?thesis by (auto simp: destructor_pass_def)
qed

lemma destructor_loop_total:
  assumes p: "pure_handlers E f" and P: "\<And>r x k. P k \<Longrightarrow> P (f r x k)" and th: "Some th \<in> set (thread_table w0)"
  shows "destr_frame E P w0 w \<Longrightarrow> \<exists>w'. destructor_loop E th n w = Some w' \<and> destr_frame E P w0 w'"
proof (induction n arbitrary: w)
  case (Suc n)
  from destructor_pass_total [OF p P Suc.prems th] obtain c w1 where
    "destructor_pass E th w = Some (c, w1)" "destr_frame E P w0 w1" by blast
  with Suc.IH [of w1] show ?case by simp
qed simp

lemma pure_handlers_ok: "pure_handlers E f \<Longrightarrow> handlers_ok E"
  by (auto simp: pure_handlers_def handlers_ok_def)

end
