(* ===== verification/ThreadData.thy ===== *)
theory ThreadData
  imports VxKeys
begin

text \<open>
  Users of thread-specific data: the thread-local objects of PurC on pthreads
  (lecture-5/purc-tls.h), and the message queue of a MiniGUI thread (the inline functions of
  minigui-internals.h), both on the keys of the VxWorks layer.
\<close>

section \<open>Thread-local objects of PurC\<close>

text \<open>The statics the macro declares; \<open>calloc\<close> is a parameter \<open>C\<close> that returns 0 when it fails, and the
  destructor (it frees the object) a pointer.\<close>

record tls =
  tls_once_control :: bool
  tls_key :: nat

text \<open>\<open>make_key\<close> does not look at the result: when no key is left, the key stays what it was.\<close>

definition tls_make_key :: "'k tenv \<Rightarrow> procptr \<Rightarrow> tls \<Rightarrow> 'k tworld \<Rightarrow> (tls \<times> 'k tworld) option" where
  "tls_make_key E destroy_value t w = do {
     (r, w1) \<leftarrow> pthread_key_create E destroy_value w;
     Some (case r of Inr k \<Rightarrow> t\<lparr>tls_key := k\<rparr> | Inl _ \<Rightarrow> t, w1) }"

text \<open>\<open>pthread_once\<close> of the VxWorks layer with \<open>make_key\<close> as its routine.\<close>

definition tls_once :: "'k tenv \<Rightarrow> procptr \<Rightarrow> tls \<Rightarrow> 'k tworld \<Rightarrow> (tls \<times> 'k tworld) option" where
  "tls_once E destroy_value t w = do {
     w1 \<leftarrow> lock_threads E w;
     let w2 = unlock_threads E w1;
     if tls_once_control t then Some (t, w2) else tls_make_key E destroy_value (t\<lparr>tls_once_control := True\<rparr>) w2 }"

definition tls_alloc :: "('k \<Rightarrow> dword \<times> 'k) \<Rightarrow> nat \<Rightarrow> tls \<Rightarrow> 'k tworld \<Rightarrow> (dword \<times> 'k tworld) option" where
  "tls_alloc C self t w =
     (case C (kst w) of (v, k) \<Rightarrow>
        if v = 0 then Some (0, w\<lparr>kst := k\<rparr>)
        else do { (_, w1) \<leftarrow> pthread_setspecific self (tls_key t) v (w\<lparr>kst := k\<rparr>); Some (v, w1) })"

text \<open>The body of the getter once the key is there.\<close>

definition tls_value :: "('k \<Rightarrow> dword \<times> 'k) \<Rightarrow> nat \<Rightarrow> tls \<times> 'k tworld \<Rightarrow> (dword \<times> tls \<times> 'k tworld) option" where
  "tls_value C self s = do {
     v \<leftarrow> pthread_getspecific self (tls_key (fst s)) (snd s);
     if v \<noteq> 0 then Some (v, s)
     else do { (v', w') \<leftarrow> tls_alloc C self (fst s) (snd s); Some (v', fst s, w') } }"

definition tls_get :: "'k tenv \<Rightarrow> ('k \<Rightarrow> dword \<times> 'k) \<Rightarrow> procptr \<Rightarrow> nat \<Rightarrow> tls \<times> 'k tworld \<Rightarrow> (dword \<times> tls \<times> 'k tworld) option" where
  "tls_get E C destroy_value self s = do {
     s1 \<leftarrow> tls_once E destroy_value (fst s) (snd s);
     tls_value C self s1 }"

fun tls_gets :: "'k tenv \<Rightarrow> ('k \<Rightarrow> dword \<times> 'k) \<Rightarrow> procptr \<Rightarrow> nat list \<Rightarrow> tls \<times> 'k tworld \<Rightarrow>
    (dword list \<times> tls \<times> 'k tworld) option" where
  "tls_gets E C d [] s = Some ([], s)"
| "tls_gets E C d (a # as) s = do {
     (v, s1) \<leftarrow> tls_get E C d a s;
     (vs, s2) \<leftarrow> tls_gets E C d as s1;
     Some (v # vs, s2) }"

section \<open>The queue of a MiniGUI thread\<close>

definition createThreadInfoKey :: "'k tenv \<Rightarrow> 'k tworld \<Rightarrow> (bool \<times> nat option \<times> 'k tworld) option" where
  "createThreadInfoKey E w = do {
     (r, w1) \<leftarrow> pthread_key_create E 0 w;
     Some (case r of Inl _ \<Rightarrow> (False, None, w1) | Inr k \<Rightarrow> (True, Some k, w1)) }"

definition deleteThreadInfoKey :: "'k tenv \<Rightarrow> nat \<Rightarrow> 'k tworld \<Rightarrow> 'k tworld option" where
  "deleteThreadInfoKey E key w = pthread_key_delete E key w"

text \<open>On VxWorks the data -1 stands for none, too.\<close>

definition threadQueuePtr :: "nat \<Rightarrow> nat \<Rightarrow> 'k tworld \<Rightarrow> dword option" where
  "threadQueuePtr self key w = do {
     v \<leftarrow> pthread_getspecific self key w;
     Some (if v = -1 then 0 else v) }"

text \<open>The timer slots of the queue (at a fixed place in it), with the queue.\<close>

definition threadTimerSlots :: "(dword \<Rightarrow> dword) \<Rightarrow> nat \<Rightarrow> nat \<Rightarrow> 'k tworld \<Rightarrow> (dword \<times> dword) option option" where
  "threadTimerSlots timer_slots_of self key w = do {
     q \<leftarrow> threadQueuePtr self key w;
     Some (if q \<noteq> 0 then Some (timer_slots_of q, q) else None) }"

section \<open>What a thread-local object is\<close>

text \<open>The mutex of the threads is idle between the calls (\<open>I\<close>), and \<open>calloc\<close> fails or returns a block that is
  not in use (\<open>U\<close>), which taking and giving the mutex does not change.\<close>

definition tls_env_ok :: "'k tenv \<Rightarrow> ('k \<Rightarrow> dword \<times> 'k) \<Rightarrow> nat \<Rightarrow> ('k \<Rightarrow> bool) \<Rightarrow> ('k \<Rightarrow> dword set) \<Rightarrow> bool" where
  "tls_env_ok E C m I U \<longleftrightarrow> (\<forall>k. I k \<longrightarrow>
     (\<exists>r k1. semTake (sems (kern E)) True m k = Some (r, k1) \<and> I (snd (semGive (sems (kern E)) m k1)) \<and>
        U (snd (semGive (sems (kern E)) m k1)) = U k) \<and>
     I (snd (C k)) \<and> (fst (C k) = 0 \<and> U (snd (C k)) = U k \<or> fst (C k) \<notin> U k \<and> U (snd (C k)) = insert (fst (C k)) (U k)))"

lemma tls_lock:
  assumes "tls_env_ok E C (vxpthread_mutex w) I U" "I (kst w)"
  obtains w1 k where "lock_threads E w = Some w1" "unlock_threads E w1 = w\<lparr>kst := k\<rparr>" "I k" "U k = U (kst w)"
proof -
  from assms obtain r k1 where "semTake (sems (kern E)) True (vxpthread_mutex w) (kst w) = Some (r, k1)"
    "I (snd (semGive (sems (kern E)) (vxpthread_mutex w) k1))" "U (snd (semGive (sems (kern E)) (vxpthread_mutex w) k1)) = U (kst w)"
    unfolding tls_env_ok_def by blast
  then show thesis using that [of "w\<lparr>kst := k1\<rparr>" "snd (semGive (sems (kern E)) (vxpthread_mutex w) k1)"]
    by (simp add: lock_threads_def unlock_threads_def)
qed

lemma getspecific_kst [simp]: "pthread_getspecific a k (w\<lparr>kst := x\<rparr>) = pthread_getspecific a k w"
proof -
  have "key_is_free (w\<lparr>kst := x\<rparr>) = key_is_free w" "infos (w\<lparr>kst := x\<rparr>) = infos w"
    by (simp_all add: key_is_free_def fun_eq_iff)
  then show ?thesis by (simp only: pthread_getspecific_def)
qed

lemma key_usable_kst [simp]: "key_usable E (w\<lparr>kst := x\<rparr>) a k = key_usable E w a k"
  by (simp add: key_usable_def keys_ok_def key_alloc_def)

text \<open>The invariant: every thread of the table can use the key, its data there is the object \<open>val\<close> of the
  thread or NULL, and objects are in use and belong to one thread.\<close>

definition tls_inv :: "'k tenv \<Rightarrow> nat \<Rightarrow> ('k \<Rightarrow> bool) \<Rightarrow> ('k \<Rightarrow> dword set) \<Rightarrow> (nat \<Rightarrow> dword) \<Rightarrow> tls \<times> 'k tworld \<Rightarrow> bool" where
  "tls_inv E m I U val s \<longleftrightarrow> tls_once_control (fst s) \<and> vxpthread_mutex (snd s) = m \<and> I (kst (snd s)) \<and>
     (\<forall>a. Some a \<in> set (thread_table (snd s)) \<longrightarrow> key_usable E (snd s) a (tls_key (fst s)) \<and>
        pthread_getspecific a (tls_key (fst s)) (snd s) = Some (val a) \<and> (val a \<noteq> 0 \<longrightarrow> val a \<in> U (kst (snd s)))) \<and>
     (\<forall>a b. Some a \<in> set (thread_table (snd s)) \<longrightarrow> Some b \<in> set (thread_table (snd s)) \<longrightarrow> val a \<noteq> 0 \<longrightarrow> val a = val b \<longrightarrow> a = b)"

text \<open>From the invariant, a get returns the object of the thread, making one when there is none.\<close>

lemma tls_value_step:
  assumes env: "tls_env_ok E C m I U" and inv: "tls_inv E m I U val (t, w)" and a: "Some a \<in> set (thread_table w)"
  shows "\<exists>v w'. tls_value C a (t, w) = Some (v, t, w') \<and> thread_table w' = thread_table w \<and>
    tls_inv E m I U (val(a := v)) (t, w') \<and> (val a \<noteq> 0 \<longrightarrow> v = val a)"
proof -
  have ga: "pthread_getspecific a (tls_key t) w = Some (val a)" "key_usable E w a (tls_key t)" "I (kst w)"
    using inv a by (simp_all add: tls_inv_def)
  show ?thesis
  proof (cases "val a = 0")
    case False
    then have "tls_value C a (t, w) = Some (val a, t, w)" using ga by (simp add: tls_value_def)
    then show ?thesis using inv by (intro exI [of _ "val a"]) simp
  next
    case nul: True
    obtain v k2 where C: "C (kst w) = (v, k2)" by force
    with env ga(3) have I2: "I k2" "v = 0 \<and> U k2 = U (kst w) \<or> v \<notin> U (kst w) \<and> U k2 = insert v (U (kst w))"
      unfolding tls_env_ok_def by (metis fst_conv snd_conv)+
    show ?thesis
    proof (cases "v = 0")
      case True
      then have "tls_value C a (t, w) = Some (0, t, w\<lparr>kst := k2\<rparr>)"
        using ga nul C by (simp add: tls_value_def tls_alloc_def)
      moreover have "U (kst w) \<subseteq> U k2" using I2(2) by auto
      then have "tls_inv E m I U val (t, w\<lparr>kst := k2\<rparr>)" using inv I2(1) by (auto simp: tls_inv_def)
      moreover have "val(a := 0) = val" using nul by auto
      ultimately show ?thesis using nul by (intro exI [of _ 0]) simp
    next
      case False
      with I2(2) have v: "v \<notin> U (kst w)" "U k2 = insert v (U (kst w))" by auto
      obtain ti where ti: "infos w a = Some ti" "tls_key t < length (thread_data ti)" using key_usable_facts(2) [OF ga(2)] by blast
      let ?ti = "ti\<lparr>thread_data := (thread_data ti)[tls_key t := v]\<rparr>"
      let ?w = "set_info a ?ti (w\<lparr>kst := k2\<rparr>)"
      have set: "pthread_setspecific a (tls_key t) v (w\<lparr>kst := k2\<rparr>) = Some (None, ?w)"
        using setspecific_run [of E "w\<lparr>kst := k2\<rparr>" a "tls_key t" ti v] ga(2) ti(1) by simp
      then have "tls_value C a (t, w) = Some (v, t, ?w)"
        using ga nul C False by (simp add: tls_value_def tls_alloc_def)
      moreover have us: "key_usable E ?w b (tls_key t) = key_usable E w b (tls_key t)" for b
        using usable_set_info [of "w\<lparr>kst := k2\<rparr>" a ti ?ti] ti(1) by simp
      have get: "pthread_getspecific b (tls_key t) ?w = Some ((val(a := v)) b)" if b: "Some b \<in> set (thread_table w)" for b
      proof (cases "b = a")
        case True
        have "infos ?w a = Some ?ti" by (simp add: set_info_def)
        from getspecific_run [OF _ this, of E "tls_key t"] us ga(2) ti(2) show ?thesis by (simp add: True)
      next
        case False
        have ub: "key_usable E w b (tls_key t)" "pthread_getspecific b (tls_key t) w = Some (val b)"
          using inv b by (simp_all add: tls_inv_def)
        obtain tb where tb: "infos w b = Some tb" using key_usable_facts(2) [OF ub(1)] by blast
        have "infos ?w b = Some tb" using tb False by (simp add: set_info_def)
        from getspecific_run [OF _ this, of E "tls_key t"] us ub getspecific_run [OF ub(1) tb] False show ?thesis by simp
      qed
      have fields: "thread_table ?w = thread_table w" "vxpthread_mutex ?w = vxpthread_mutex w" "kst ?w = k2"
        by (simp_all add: set_info_def)
      have "tls_inv E m I U (val(a := v)) (t, ?w)"
        using inv I2(1) v us get unfolding tls_inv_def fst_conv snd_conv fields by auto
      ultimately show ?thesis using nul fields(1) by blast
    qed
  qed
qed

text \<open>The first get creates the key, with NULL in every thread; the later ones find it.\<close>

definition tls_fresh :: "'k tenv \<Rightarrow> ('k \<Rightarrow> bool) \<Rightarrow> tls \<times> 'k tworld \<Rightarrow> bool" where
  "tls_fresh E I s \<longleftrightarrow> \<not> tls_once_control (fst s) \<and> I (kst (snd s)) \<and> keys_ok E (snd s) \<and> key_alloc (snd s) \<noteq> {..<KEYS_MAX E}"

lemma clear_data_kst: "clear_data k j w = Some w' \<Longrightarrow> kst w' = kst w \<and> vxpthread_mutex w' = vxpthread_mutex w"
  by (auto simp: clear_data_def set_info_def split: bind_splits option.splits)

lemma clear_all_kst: "foldm (clear_data k) js w = Some w' \<Longrightarrow> kst w' = kst w \<and> vxpthread_mutex w' = vxpthread_mutex w"
  by (induction js arbitrary: w) (auto split: bind_splits dest: clear_data_kst)

lemma key_create_kst:
  assumes "pthread_key_create E d w = Some (r, w')" "lock_threads E w = Some w1"
  shows "kst w' = kst (unlock_threads E w1) \<and> vxpthread_mutex w' = vxpthread_mutex w1"
  using assms by (auto simp: pthread_key_create_def Let_def unlock_threads_def split: bind_splits option.splits prod.splits
    dest!: clear_all_kst)

lemma tls_first:
  assumes env: "tls_env_ok E C (vxpthread_mutex w) I U" and f: "tls_fresh E I (t, w)"
  shows "\<exists>t' w'. tls_once E d t w = Some (t', w') \<and> thread_table w' = thread_table w \<and>
    tls_inv E (vxpthread_mutex w) I U (\<lambda>_. 0) (t', w')"
proof -
  from f have f: "\<not> tls_once_control t" "I (kst w)" "keys_ok E w" "key_alloc w \<noteq> {..<KEYS_MAX E}"
    by (simp_all add: tls_fresh_def)
  obtain wl k where l: "lock_threads E w = Some wl" "unlock_threads E wl = w\<lparr>kst := k\<rparr>" "I k"
    using tls_lock [OF env f(2)] by blast
  let ?w = "w\<lparr>kst := k\<rparr>"
  have w: "keys_ok E ?w" "key_alloc ?w \<noteq> {..<KEYS_MAX E}" using f(3,4) by (simp_all add: key_alloc_def)
  obtain wm k' where m: "lock_threads E ?w = Some wm" "unlock_threads E wm = ?w\<lparr>kst := k'\<rparr>" "I k'"
    using tls_lock [of E C ?w I U thesis] env l(3) by simp
  obtain key w' where c: "pthread_key_create E d ?w = Some (Inr key, w')" "key \<in> key_alloc w'" "keys_ok E w'"
    "thread_table w' = thread_table w" "key < KEYS_MAX E"
    "\<forall>a u. Some a \<in> set (thread_table w) \<longrightarrow> infos w a = Some u \<longrightarrow> infos w' a = Some (u\<lparr>thread_data := (thread_data u)[key := 0]\<rparr>)"
    using key_create_free [OF w(1) m(1) w(2), of d] by auto
  have k': "kst w' = k'" "vxpthread_mutex w' = vxpthread_mutex w"
    using key_create_kst [OF c(1) m(1)] m(1,2) by (auto simp: lock_threads_def split: bind_splits)
  have us: "key_usable E w' a key" if "Some a \<in> set (thread_table w)" for a
    using c that by (simp add: key_usable_def)
  have get: "pthread_getspecific a key w' = Some 0" if a: "Some a \<in> set (thread_table w)" for a
  proof -
    obtain u where u: "infos w a = Some u" "length (thread_data u) = KEYS_MAX E" using keys_ok_data [OF f(3) a] by blast
    then have "infos w' a = Some (u\<lparr>thread_data := (thread_data u)[key := 0]\<rparr>)" using c(6) a by blast
    from getspecific_run [OF us [OF a] this] show ?thesis using c(5) u(2) by simp
  qed
  have "tls_once E d t w = Some (t\<lparr>tls_once_control := True, tls_key := key\<rparr>, w')"
    using f(1) l(1,2) c(1) by (simp add: tls_once_def tls_make_key_def)
  moreover have "tls_inv E (vxpthread_mutex w) I U (\<lambda>_. 0) (t\<lparr>tls_once_control := True, tls_key := key\<rparr>, w')"
    using us get k' m(3) c(4) unfolding tls_inv_def by simp
  ultimately show ?thesis using c(4) by blast
qed

lemma tls_later:
  assumes env: "tls_env_ok E C m I U" and inv: "tls_inv E m I U val (t, w)"
  shows "\<exists>w'. tls_once E d t w = Some (t, w') \<and> thread_table w' = thread_table w \<and> tls_inv E m I U val (t, w')"
proof -
  have i: "tls_env_ok E C (vxpthread_mutex w) I U" "I (kst w)" "tls_once_control t"
    using env inv by (simp_all add: tls_inv_def)
  obtain wl k where l: "lock_threads E w = Some wl" "unlock_threads E wl = w\<lparr>kst := k\<rparr>" "I k" "U k = U (kst w)"
    using tls_lock [OF i(1,2)] by blast
  then have "tls_once E d t w = Some (t, w\<lparr>kst := k\<rparr>)" using i(3) by (simp add: tls_once_def)
  moreover have "tls_inv E m I U val (t, w\<lparr>kst := k\<rparr>)" using inv l by (simp add: tls_inv_def)
  ultimately show ?thesis by auto
qed

text \<open>Every get of a sequence returns what the thread has at the end, unless it returns NULL; \<open>val\<close> and \<open>val'\<close>
  are the objects before and after.\<close>

definition tls_got :: "(nat \<Rightarrow> dword) \<Rightarrow> nat list \<Rightarrow> dword list \<Rightarrow> (nat \<Rightarrow> dword) \<Rightarrow> bool" where
  "tls_got val as vs val' \<longleftrightarrow> length vs = length as \<and> (\<forall>a. val a \<noteq> 0 \<longrightarrow> val' a = val a) \<and>
      (\<forall>i < length as. vs ! i = 0 \<or> vs ! i = val' (as ! i)) \<and> (\<forall>i < length as. val (as ! i) \<noteq> 0 \<longrightarrow> vs ! i = val (as ! i)) \<and>
      (\<forall>i j. i < j \<longrightarrow> j < length as \<longrightarrow> as ! i = as ! j \<longrightarrow> vs ! i \<noteq> 0 \<longrightarrow> vs ! j = vs ! i)"

lemma tls_got_Cons:
  assumes "tls_got (val(a := v)) as vs val'" and v: "val a \<noteq> 0 \<longrightarrow> v = val a"
  shows "tls_got val (a # as) (v # vs) val'"
proof -
  from assms(1) have r: "length vs = length as" "\<And>b. (val(a := v)) b \<noteq> 0 \<Longrightarrow> val' b = (val(a := v)) b"
    "\<And>i. i < length as \<Longrightarrow> vs ! i = 0 \<or> vs ! i = val' (as ! i)"
    "\<And>i. i < length as \<Longrightarrow> (val(a := v)) (as ! i) \<noteq> 0 \<Longrightarrow> vs ! i = (val(a := v)) (as ! i)"
    "\<And>i j. i < j \<Longrightarrow> j < length as \<Longrightarrow> as ! i = as ! j \<Longrightarrow> vs ! i \<noteq> 0 \<Longrightarrow> vs ! j = vs ! i"
    unfolding tls_got_def by blast+
  have 1: "val' b = val b" if "val b \<noteq> 0" for b using r(2) [of b] v that by (cases "b = a") auto
  have 2: "(v # vs) ! i = 0 \<or> (v # vs) ! i = val' ((a # as) ! i)" if "i < length (a # as)" for i
    using r(2) [of a] r(3) [of "i - 1"] that by (cases i) auto
  have 3: "(v # vs) ! i = val ((a # as) ! i)" if "i < length (a # as)" "val ((a # as) ! i) \<noteq> 0" for i
  proof (cases i)
    case (Suc j)
    then show ?thesis using that r(4) [of j] v by (cases "as ! j = a") auto
  qed (use that v in simp)
  have 4: "(v # vs) ! j = (v # vs) ! i"
    if h: "i < j" "j < length (a # as)" "(a # as) ! i = (a # as) ! j" "(v # vs) ! i \<noteq> 0" for i j
  proof -
    obtain k where k: "j = Suc k" "k < length as" using h by (cases j) auto
    show ?thesis
    proof (cases i)
      case 0
      then show ?thesis using h k r(4) [of k] by auto
    next
      case (Suc l)
      then show ?thesis using h k r(5) [of l k] by auto
    qed
  qed
  show ?thesis unfolding tls_got_def using r(1) 1 2 3 4 by (intro conjI allI impI) auto
qed

lemma tls_gets_run:
  assumes env: "tls_env_ok E C m I U"
  shows "tls_inv E m I U val (t, w) \<Longrightarrow> \<forall>a \<in> set as. Some a \<in> set (thread_table w) \<Longrightarrow>
    \<exists>vs w' val'. tls_gets E C d as (t, w) = Some (vs, t, w') \<and> tls_inv E m I U val' (t, w') \<and>
      thread_table w' = thread_table w \<and> tls_got val as vs val'"
proof (induction as arbitrary: val w)
  case Nil
  then show ?case by (auto simp: tls_got_def)
next
  case (Cons a as)
  have a: "Some a \<in> set (thread_table w)" using Cons.prems(2) by simp
  obtain w1 where o1: "tls_once E d t w = Some (t, w1)" "thread_table w1 = thread_table w" "tls_inv E m I U val (t, w1)"
    using tls_later [OF env Cons.prems(1)] by blast
  obtain v w2 where v: "tls_value C a (t, w1) = Some (v, t, w2)" "thread_table w2 = thread_table w1"
    "tls_inv E m I U (val(a := v)) (t, w2)" "val a \<noteq> 0 \<longrightarrow> v = val a"
    using tls_value_step [OF env o1(3)] a o1(2) by metis
  have "\<forall>a \<in> set as. Some a \<in> set (thread_table w2)" using Cons.prems(2) v(2) o1(2) by simp
  from Cons.IH [OF v(3) this] obtain vs w' val' where r: "tls_gets E C d as (t, w2) = Some (vs, t, w')"
    "tls_inv E m I U val' (t, w')" "thread_table w' = thread_table w2" "tls_got (val(a := v)) as vs val'" by blast
  have "tls_gets E C d (a # as) (t, w) = Some (v # vs, t, w')"
    using o1(1) v(1) r(1) by (simp add: tls_get_def)
  moreover note tls_got_Cons [OF r(4) v(4)] r(2)
  moreover have "thread_table w' = thread_table w" using r(3) v(2) o1(2) by simp
  ultimately show ?case by blast
qed

end
