(* ===== verification/VxProps.thy ===== *)
theory VxProps
  imports VxKeys
begin

text \<open>
  The properties of the thread layer: the invariant of the thread table over every sequence of
  calls, what creating, joining, ending and detaching a thread do, where the code leaves its
  table or blocks for ever, and the laws of keys and cleanup handlers.
\<close>

section \<open>The table over all calls\<close>

definition thr_init :: "'k tworld \<Rightarrow> bool" where
  "thr_init w \<longleftrightarrow> thread_table w = replicate THREADS_MAX None \<and> pthread_count w = 0 \<and>
     pthreads_exited w = 0 \<and> pthreads_tobejoined w = 0 \<and> thread_id_cookie w = THREAD_ID_COOKIE_INC"

lemma tabs_init: "thr_init w \<Longrightarrow> tabs w = (\<lambda>_. None)"
  by (rule ext) (simp add: thr_init_def tabs_def)

lemma thr_init_ok: "thr_init w \<Longrightarrow> table_ok w"
  using tabs_init [of w]
  by (simp add: table_ok_def thr_init_def counters_ok_def slots_in_def
      THREAD_ID_COOKIE_INC_def THREAD_ID_COOKIE_MASK_def)


section \<open>A sample world\<close>

definition sample_kern :: "(nat \<times> bool) option list vxkernel" where
  "sample_kern = \<lparr>sems = listlib, k_malloc = (\<lambda>n k. (0x10000, k)), k_free = (\<lambda>m k. k),
     taskInit = (\<lambda>a n p b s k. (True, k)), taskActivate = (\<lambda>a k. k), taskDelete = (\<lambda>a k. k),
     taskPrioritySet = (\<lambda>a p k. k), taskStatusString = (\<lambda>a k. Some ''DEAD'')\<rparr>"

definition sample_tenv :: "(nat \<times> bool) option list tenv" where
  "sample_tenv = \<lparr>kern = sample_kern, call_routine = (\<lambda>p x w. Some w), others_until = (\<lambda>s w. None),
     KEYS_MAX = 32, DESTRUCTOR_ITERATIONS = 4, MAIN_PTH_MIN_STACK_SIZE = 4096, STACK_MIN = 1024,
     PTHREAD_CANCELED = 1, main_entry_ptr = 2, stack_down = True, info_down = 512, info_up = 528,
     ptr_size = 8, old_name = (\<lambda>a. replicate 12 (CHR ''x'')), old_data = (\<lambda>a. replicate 32 7)\<rparr>"

definition sample_attr :: pattr where
  "sample_attr = \<lparr>a_detachstate = CREATE_JOINABLE, a_scope = SCOPE_SYSTEM, a_inheritsched = INHERIT_SCHED,
     a_schedpolicy = SCHED_FIFO, a_schedparam = default_param, stackaddr_valid = False, a_stackaddr = 0,
     stacksize_valid = False, a_stacksize = 0\<rparr>"

definition sample_info :: tinfo where
  "sample_info = \<lparr>task_id = 0x9000, joiner = 2, t_name = ''main'', tstate = STATE_RUNNING,
     cancelstate = CANCEL_ENABLE, canceltype = CANCEL_DEFERRED, cancelpending = False, freestack = False,
     tid = 0x800, attr = sample_attr, t_retval = 0, start_routine = 5, start_arg = 0, stackmem = 0,
     cancelbuffer = None, thread_data = replicate 32 0\<rparr>"

definition empty_tworld :: "(nat \<times> bool) option list tworld" where
  "empty_tworld = \<lparr>infos = (\<lambda>_. None), bufs = (\<lambda>_. None), thread_table = replicate THREADS_MAX None,
     pthread_count = 0, pthreads_exited = 0, pthreads_tobejoined = 0, thread_key = [0xFFFFFFFF],
     key_destructor = replicate 32 0, thread_info_next = 0, thread_id_cookie = THREAD_ID_COOKIE_INC,
     name_count = 0, vxpthread_mutex = 1, kst = [Some (1, True)]\<rparr>"

lemma empty_tworld_ok: "table_ok empty_tworld" "thr_init empty_tworld"
proof -
  show i: "thr_init empty_tworld" by (simp add: thr_init_def empty_tworld_def)
  then show "table_ok empty_tworld" by (rule thr_init_ok)
qed

text \<open>A world with a running main thread in slot 0 and the thread \<open>t\<close> in slot 1.\<close>

definition two_threads :: "tinfo \<Rightarrow> (nat \<times> bool) option list tworld" where
  "two_threads t = empty_tworld\<lparr>infos := [0x9000 \<mapsto> sample_info, 0xA000 \<mapsto> t],
     thread_table := (replicate THREADS_MAX None)[0 := Some 0x9000, 1 := Some 0xA000], pthread_count := 2,
     pthreads_exited := (if tstate t = STATE_EXITED then 1 else 0),
     pthreads_tobejoined := (if tstate t = STATE_JOIN then 1 else 0),
     kst := [Some (1, True), Some (1, True), Some (1, True)]\<rparr>"

definition other_info :: tinfo where
  "other_info = sample_info\<lparr>task_id := 0xA000, joiner := 3, tid := 0x801\<rparr>"

lemma two_threads_fields:
  "thread_table (two_threads t) ! 0 = Some 0x9000" "thread_table (two_threads t) ! 1 = Some 0xA000"
  "1 < i \<Longrightarrow> i < THREADS_MAX \<Longrightarrow> thread_table (two_threads t) ! i = None"
  "length (thread_table (two_threads t)) = THREADS_MAX"
  "infos (two_threads t) 0x9000 = Some sample_info" "infos (two_threads t) 0xA000 = Some t"
  by (simp_all add: two_threads_def THREADS_MAX_def)

lemma two_threads_ok:
  assumes "tid t = 0x801" "tstate t \<noteq> STATE_FREE"
  shows "table_ok (two_threads t)" "at_slot (two_threads t) 1 0xA000" "live (two_threads t) 0 0x9000"
    "tabs (two_threads t) = [0 \<mapsto> (STATE_RUNNING, 0x800), 1 \<mapsto> (tstate t, 0x801)]"
proof -
  have cases: "i = 0 \<or> i = 1 \<or> 1 < i" for i :: nat by auto
  show tb: "tabs (two_threads t) = [0 \<mapsto> (STATE_RUNNING, 0x800), 1 \<mapsto> (tstate t, 0x801)]"
  proof
    fix i
    show "tabs (two_threads t) i = [0 \<mapsto> (STATE_RUNNING, 0x800), 1 \<mapsto> (tstate t, 0x801)] i"
      using cases [of i] assms(1) two_threads_fields [where t = t]
      by (auto simp: tabs_def THREADS_MAX_def sample_info_def)
  qed
  show "at_slot (two_threads t) 1 0xA000" "live (two_threads t) 0 0x9000"
    using two_threads_fields [where t = t] by (simp_all add: at_slot_def live_def THREADS_MAX_def sample_info_def)
  have s: "slots_in P (tabs (two_threads t)) = (if P STATE_RUNNING then {0} else {}) \<union> (if P (tstate t) then {1} else {})" for P
    by (auto simp: slots_in_def tb split: if_splits)
  have "counters_ok (two_threads t)"
    unfolding counters_ok_def s by (simp add: two_threads_def)
  moreover have "thread_id_cookie (two_threads t) AND THREAD_ID_COOKIE_MASK = 0"
    by (simp add: two_threads_def empty_tworld_def THREAD_ID_COOKIE_INC_def THREAD_ID_COOKIE_MASK_def)
  moreover have "slot_ok (two_threads t) i a" if "i < THREADS_MAX" "thread_table (two_threads t) ! i = Some a" for i a
    using cases [of i] that assms two_threads_fields [where t = t]
    by (auto simp: slot_ok_def sample_info_def THREAD_ID_COOKIE_INC_def THREAD_ID_COOKIE_MASK_def)
  ultimately show "table_ok (two_threads t)" using two_threads_fields(4) by (simp add: table_ok_def)
qed

lemma sample_lock: "vxpthread_mutex w = 1 \<Longrightarrow> kst w = Some (1, True) # k \<Longrightarrow>
    lock_threads sample_tenv w = Some (w\<lparr>kst := Some (0, True) # k\<rparr>)"
  by (simp add: lock_threads_def sample_tenv_def sample_kern_def listlib_def lcnt_def lbin_def)


section \<open>Creation\<close>

lemma reap_rest:
  assumes ok: "table_ok w" and d: "dead_reported E w"
  shows "table_ok (w\<lparr>kst := k\<rparr>)" "dead_reported E (w\<lparr>kst := k\<rparr>)"
  using assms by (simp_all add: dead_reported_def)

text \<open>What leads to the locked part of \<open>pthread_create\<close>.\<close>

lemma create_to_locked:
  assumes ok: "table_ok w" and d: "dead_reported E w" and r0: "routine \<noteq> 0"
    and g: "get_stack E (attr_used at u) w = (mem, w0)" "mem \<noteq> 0"
    and l: "lock_threads E w0 = Some w1"
  shows "\<exists>w2. table_ok w2 \<and> reap_frame w w2 \<and> tabs w2 = reaped (tabs w) \<and>
    pthread_create E True at routine arg u w =
      (case create_locked E (attr_used at u) routine arg (\<not> stackaddr_valid (attr_used at u)) mem
        (stack_size_of (attr_used at u)) w2 of
        None \<Rightarrow> None
      | Some (e, res, w3) \<Rightarrow> (case res of None \<Rightarrow> Some (e, None, w3)
        | Some (a, t) \<Rightarrow> Some (None, Some t, w3\<lparr>kst := taskActivate (kern E) a (kst w3)\<rparr>)))"
proof -
  obtain k0 where k0: "w0 = w\<lparr>kst := k0\<rparr>" using get_stack_kst [of E "attr_used at u" w] g by auto
  obtain k1 where w1: "w1 = w\<lparr>kst := k1\<rparr>" using lock_threads_kst [OF l] k0 by auto
  from pthread_reap_dead [OF reap_rest [OF ok d], of k1] w1 obtain w2 where
    w2: "pthread_reap E w1 = Some w2" "table_ok w2" "reap_frame w1 w2" "tabs w2 = reaped (tabs w)" by auto
  have "reap_frame w w2" using w2(3) w1 by (simp add: reap_frame_def)
  moreover have "pthread_create E True at routine arg u w =
      (case create_locked E (attr_used at u) routine arg (\<not> stackaddr_valid (attr_used at u)) mem
        (stack_size_of (attr_used at u)) w2 of
        None \<Rightarrow> None
      | Some (e, res, w3) \<Rightarrow> (case res of None \<Rightarrow> Some (e, None, w3)
        | Some (a, t) \<Rightarrow> Some (None, Some t, w3\<lparr>kst := taskActivate (kern E) a (kst w3)\<rparr>)))"
    using g r0 l w2(1) by (simp add: pthread_create_def attr_used_eq bind_eq_None_conv split: option.split)
  ultimately show ?thesis using w2 by blast
qed

text \<open>The slot the search finds, in terms of the abstract table.\<close>

lemma free_slot_tabs:
  assumes ok: "table_ok w" and nx: "thread_info_next w < THREADS_MAX" and k: "k < THREADS_MAX" "tabs w k = None"
  shows "\<exists>d < THREADS_MAX. let slot = (thread_info_next w + d) mod THREADS_MAX in
    find_free (thread_table w) (thread_info_next w) (thread_info_next w) = Some (Some slot) \<and>
    thread_table w ! slot = None \<and> slot < THREADS_MAX \<and>
    (\<forall>e < d. tabs w ((thread_info_next w + e) mod THREADS_MAX) \<noteq> None)"
proof -
  have l: "length (thread_table w) = THREADS_MAX" using ok by (simp add: table_ok_def)
  have tb: "tabs w i = None \<longleftrightarrow> thread_table w ! i = None" if "i < THREADS_MAX" for i
    using that l by (simp add: tabs_def split: option.split)
  have m: "(thread_info_next w + e) mod THREADS_MAX < THREADS_MAX" for e by (simp add: THREADS_MAX_def)
  from find_free_first [OF l nx k(1)] k tb [OF k(1)] tb [OF m] m show ?thesis by (auto simp: Let_def)
qed

lemma get_stack_at:
  "stack_fresh E at w \<Longrightarrow> get_stack E at w = (mem, w0) \<Longrightarrow> place_info E mem (stack_size_of at) = Some (a, sb, sz) \<Longrightarrow>
     Some a \<notin> set (thread_table w)"
  by (simp add: stack_fresh_def)

text \<open>
  The conditions under which a creation gets as far as its task: memory for the stack that can
  hold the control structure, the mutex, and a free slot after reaping.
\<close>

definition can_create :: "'k tenv \<Rightarrow> pattr \<Rightarrow> 'k tworld \<Rightarrow> nat \<Rightarrow> nat \<Rightarrow> nat \<Rightarrow> bool" where
  "can_create E at w a sb sz \<longleftrightarrow>
     table_ok w \<and> dead_reported E w \<and> stack_fresh E at w \<and> thread_info_next w < THREADS_MAX \<and>
     (\<exists>k < THREADS_MAX. reaped (tabs w) k = None) \<and>
     fst (get_stack E at w) \<noteq> 0 \<and> lock_threads E (snd (get_stack E at w)) \<noteq> None \<and>
     place_info E (fst (get_stack E at w)) (stack_size_of at) = Some (a, sb, sz)"

lemma create_run:
  fixes w :: "'k tworld"
  assumes c: "can_create E (attr_used at u) w a sb sz" and r0: "routine \<noteq> 0"
  shows "\<exists>d (w2 :: 'k tworld) b w'. d < THREADS_MAX \<and> (let slot = (thread_info_next w + d) mod THREADS_MAX; t = new_id w slot in
    table_ok w2 \<and> tabs w2 = reaped (tabs w) \<and> reaped (tabs w) slot = None \<and>
    (\<forall>e < d. reaped (tabs w) ((thread_info_next w + e) mod THREADS_MAX) \<noteq> None) \<and>
    pthread_create E True at routine arg u w = Some (if b then None else Some EINVAL, if b then Some t else None, w') \<and>
    ((\<forall>n k. fst (taskInit (kern E) a n (priority (a_schedparam (attr_used at u))) sb sz k)) \<longrightarrow> b) \<and>
    ((\<forall>n k. \<not> fst (taskInit (kern E) a n (priority (a_schedparam (attr_used at u))) sb sz k)) \<longrightarrow> \<not> b) \<and>
    thread_info_next w' = slot + 1 \<and> thread_table w' = (thread_table w2)[slot := Some a] \<and>
    (\<not> b \<longrightarrow> pthread_count w' = pthread_count w2 \<and> pthreads_exited w' = pthreads_exited w2 \<and>
       (\<not> stackaddr_valid (attr_used at u) \<longrightarrow> infos w' a = None)) \<and>
    (b \<longrightarrow> table_ok w' \<and> tabs w' = (reaped (tabs w))(slot := Some (new_state (attr_used at u), t)) \<and>
      (\<exists>x. infos w' = (infos w2)(a := Some x) \<and> start_routine x = routine \<and> start_arg x = arg \<and>
        thread_data x = replicate (KEYS_MAX E div ptr_size E) 0 @ drop (KEYS_MAX E div ptr_size E) (old_data E a))))"
proof -
  let ?at = "attr_used at u"
  obtain mem w0 where g: "get_stack E ?at w = (mem, w0)" by fastforce
  from c g have h: "table_ok w" "dead_reported E w" "stack_fresh E ?at w" "thread_info_next w < THREADS_MAX"
    "mem \<noteq> 0" "place_info E mem (stack_size_of ?at) = Some (a, sb, sz)" by (simp_all add: can_create_def)
  obtain k where k: "k < THREADS_MAX" "reaped (tabs w) k = None" using c by (auto simp: can_create_def)
  obtain w1 where l: "lock_threads E w0 = Some w1" using c g by (auto simp: can_create_def)
  from create_to_locked [OF h(1,2) r0 g h(5) l, of arg] obtain w2 where w2: "table_ok w2" "reap_frame w w2"
    "tabs w2 = reaped (tabs w)" and run: "pthread_create E True at routine arg u w =
      (case create_locked E ?at routine arg (\<not> stackaddr_valid ?at) mem (stack_size_of ?at) w2 of
        None \<Rightarrow> None
      | Some (e, res, w3) \<Rightarrow> (case res of None \<Rightarrow> Some (e, None, w3)
        | Some (a, t) \<Rightarrow> Some (None, Some t, w3\<lparr>kst := taskActivate (kern E) a (kst w3)\<rparr>)))"
    by blast
  have nx: "thread_info_next w2 = thread_info_next w" "thread_id_cookie w2 = thread_id_cookie w"
    using w2(2) by (simp_all add: reap_frame_def)
  have fr: "Some a \<notin> set (thread_table w2)" using reap_frame_fresh [OF w2(2) get_stack_at [OF h(3) g h(6)]] .
  from free_slot_tabs [OF w2(1), of k] k h(4) nx w2(3) obtain d where d: "d < THREADS_MAX"
    and f: "find_free (thread_table w2) (thread_info_next w2) (thread_info_next w2) =
        Some (Some ((thread_info_next w + d) mod THREADS_MAX))"
      "thread_table w2 ! ((thread_info_next w + d) mod THREADS_MAX) = None"
      "(thread_info_next w + d) mod THREADS_MAX < THREADS_MAX"
    and before: "\<forall>e < d. reaped (tabs w) ((thread_info_next w + e) mod THREADS_MAX) \<noteq> None"
    by (auto simp: Let_def)
  let ?slot = "(thread_info_next w + d) mod THREADS_MAX"
  have id: "new_id w2 ?slot = new_id w ?slot" using nx by (simp add: new_id_def)
  have none: "reaped (tabs w) ?slot = None"
    using f(2,3) w2(1) unfolding w2(3) [symmetric] by (simp add: tabs_def table_ok_def)
  from create_locked_run [OF w2(1) f(1,3,2) h(6) fr, of ?at routine arg "\<not> stackaddr_valid ?at"] obtain b w3 where
    r3: "create_locked E ?at routine arg (\<not> stackaddr_valid ?at) mem (stack_size_of ?at) w2 =
        Some (if b then None else Some EINVAL, if b then Some (a, new_id w ?slot) else None, w3)"
    and rest: "((\<forall>n k. fst (taskInit (kern E) a n (priority (a_schedparam ?at)) sb sz k)) \<longrightarrow> b)"
      "((\<forall>n k. \<not> fst (taskInit (kern E) a n (priority (a_schedparam ?at)) sb sz k)) \<longrightarrow> \<not> b)"
      "thread_info_next w3 = ?slot + 1" "thread_table w3 = (thread_table w2)[?slot := Some a]"
      "\<not> b \<longrightarrow> pthread_count w3 = pthread_count w2 \<and> pthreads_exited w3 = pthreads_exited w2 \<and>
        (\<not> stackaddr_valid ?at \<longrightarrow> infos w3 a = None)"
      "b \<longrightarrow> table_ok w3 \<and> tabs w3 = (tabs w2)(?slot := Some (new_state ?at, new_id w ?slot)) \<and>
        (\<exists>t. infos w3 = (infos w2)(a := Some t) \<and> start_routine t = routine \<and> start_arg t = arg \<and>
          thread_data t = replicate (KEYS_MAX E div ptr_size E) 0 @ drop (KEYS_MAX E div ptr_size E) (old_data E a))"
    unfolding id by blast
  let ?w' = "if b then w3\<lparr>kst := taskActivate (kern E) a (kst w3)\<rparr> else w3"
  have run': "pthread_create E True at routine arg u w =
      Some (if b then None else Some EINVAL, if b then Some (new_id w ?slot) else None, ?w')"
    by (simp add: run r3)
  have fin: "thread_info_next ?w' = ?slot + 1" "thread_table ?w' = (thread_table w2)[?slot := Some a]"
    "\<not> b \<longrightarrow> pthread_count ?w' = pthread_count w2 \<and> pthreads_exited ?w' = pthreads_exited w2 \<and>
      (\<not> stackaddr_valid ?at \<longrightarrow> infos ?w' a = None)"
    "b \<longrightarrow> table_ok ?w' \<and> tabs ?w' = (reaped (tabs w))(?slot := Some (new_state ?at, new_id w ?slot)) \<and>
      (\<exists>t. infos ?w' = (infos w2)(a := Some t) \<and> start_routine t = routine \<and> start_arg t = arg \<and>
        thread_data t = replicate (KEYS_MAX E div ptr_size E) 0 @ drop (KEYS_MAX E div ptr_size E) (old_data E a))"
    using rest(3-6) w2(3) by (cases b; simp)+
  show ?thesis
    unfolding Let_def
    by (rule exI [of _ d], rule exI [of _ w2], rule exI [of _ b], rule exI [of _ ?w'])
      (intro conjI d w2(1,3) none before run' rest(1,2) fin)
qed

section \<open>Properties of creation\<close>

lemma info_id_new:
  assumes "table_ok w" "at_slot w i a" "infos w a = Some x" "tabs w i = Some (s, t)" "s \<noteq> STATE_EXITED"
  shows "pthread_info_id t w = Some (Some a)"
proof -
  from at_slot_info [OF assms(1,2)] assms(3,4) have h: "s = tstate x" "t = tid x" "tstate x \<noteq> STATE_FREE"
    "unat (tid x AND THREAD_ID_COOKIE_MASK) = i" by auto
  then show ?thesis using assms
    by (simp add: pthread_info_id_def arr_get_def at_slot_def table_ok_def)
qed

lemma create_registers:
  fixes w :: "'k tworld"
  assumes c: "can_create E (attr_used at u) w a sb sz" and r0: "routine \<noteq> 0"
    and init: "\<forall>n k. fst (taskInit (kern E) a n (priority (a_schedparam (attr_used at u))) sb sz k)"
  shows "\<exists>d w'. let slot = (thread_info_next w + d) mod THREADS_MAX; t = new_id w slot in
    d < THREADS_MAX \<and> reaped (tabs w) slot = None \<and>
    (\<forall>e < d. reaped (tabs w) ((thread_info_next w + e) mod THREADS_MAX) \<noteq> None) \<and>
    pthread_create E True at routine arg u w = Some (None, Some t, w') \<and>
    tabs w' = (reaped (tabs w))(slot := Some (new_state (attr_used at u), t)) \<and>
    pthread_info_id t w' = Some (Some a) \<and> thread_info_next w' = slot + 1 \<and> table_ok w'"
proof -
  from create_run [OF c r0, of arg] obtain d w2 b w' where
    d: "d < THREADS_MAX" and h: "let slot = (thread_info_next w + d) mod THREADS_MAX; t = new_id w slot in
    table_ok (w2 :: 'k tworld) \<and> tabs w2 = reaped (tabs w) \<and> reaped (tabs w) slot = None \<and>
    (\<forall>e < d. reaped (tabs w) ((thread_info_next w + e) mod THREADS_MAX) \<noteq> None) \<and>
    pthread_create E True at routine arg u w = Some (if b then None else Some EINVAL, if b then Some t else None, w') \<and>
    ((\<forall>n k. fst (taskInit (kern E) a n (priority (a_schedparam (attr_used at u))) sb sz k)) \<longrightarrow> b) \<and>
    ((\<forall>n k. \<not> fst (taskInit (kern E) a n (priority (a_schedparam (attr_used at u))) sb sz k)) \<longrightarrow> \<not> b) \<and>
    thread_info_next w' = slot + 1 \<and> thread_table w' = (thread_table w2)[slot := Some a] \<and>
    (\<not> b \<longrightarrow> pthread_count w' = pthread_count w2 \<and> pthreads_exited w' = pthreads_exited w2 \<and>
       (\<not> stackaddr_valid (attr_used at u) \<longrightarrow> infos w' a = None)) \<and>
    (b \<longrightarrow> table_ok w' \<and> tabs w' = (reaped (tabs w))(slot := Some (new_state (attr_used at u), t)) \<and>
      (\<exists>x. infos w' = (infos w2)(a := Some x) \<and> start_routine x = routine \<and> start_arg x = arg \<and>
        thread_data x = replicate (KEYS_MAX E div ptr_size E) 0 @ drop (KEYS_MAX E div ptr_size E) (old_data E a)))"
    by blast
  let ?slot = "(thread_info_next w + d) mod THREADS_MAX"
  have b: "b" using h init unfolding Let_def by blast
  have slot: "?slot < THREADS_MAX" by (simp add: THREADS_MAX_def)
  from h b obtain x where w': "table_ok w'" "tabs w' = (reaped (tabs w))(?slot := Some (new_state (attr_used at u), new_id w ?slot))"
    "infos w' a = Some x" "thread_table w' = (thread_table w2)[?slot := Some a]" "table_ok w2"
    unfolding Let_def by auto
  have "at_slot w' ?slot a" using w'(4,5) slot by (simp add: at_slot_def table_ok_def)
  from info_id_new [OF w'(1) this w'(3)] w'(2) have "pthread_info_id (new_id w ?slot) w' = Some (Some a)"
    by (simp add: new_state_def)
  then show ?thesis using h b d w'(1) unfolding Let_def by (intro exI [of _ d] exI [of _ w']) simp
qed

text \<open>C15. When memory for the stack is available and the kernel can initialise the task,
  \<open>pthread_create\<close> takes the first slot that is free, from \<open>thread_info_next\<close> on and around the
  table, after all exited threads have been reaped; the new thread is registered under an
  identifier that no other slot can have, in the state its attribute asks for, and is found under it.\<close>

theorem pthread_create_registers:
  assumes "can_create E (attr_used at u) w a sb sz" "routine \<noteq> 0"
    and "\<forall>n k. fst (taskInit (kern E) a n (priority (a_schedparam (attr_used at u))) sb sz k)"
  shows "\<exists>d w'. let slot = (thread_info_next w + d) mod THREADS_MAX; t = new_id w slot in
    d < THREADS_MAX \<and> reaped (tabs w) slot = None \<and>
    (\<forall>e < d. reaped (tabs w) ((thread_info_next w + e) mod THREADS_MAX) \<noteq> None) \<and>
    pthread_create E True at routine arg u w = Some (None, Some t, w') \<and>
    tabs w' = (reaped (tabs w))(slot := Some (new_state (attr_used at u), t)) \<and>
    pthread_info_id t w' = Some (Some a) \<and> thread_info_next w' = slot + 1 \<and> table_ok w'"
  by (rule create_registers [OF assms])

lemma reaped_none: "(\<And>i t. f i \<noteq> Some (STATE_EXITED, t)) \<Longrightarrow> reaped f = f"
  by (rule ext) (rule reaped_id)

lemma sample_can_create:
  "can_create sample_tenv sample_attr (empty_tworld\<lparr>thread_info_next := n\<rparr>) 0x10E00 0x10E00 0xE00" if "n < THREADS_MAX"
proof -
  let ?w = "empty_tworld\<lparr>thread_info_next := n\<rparr>"
  have g: "get_stack sample_tenv sample_attr ?w = (0x10000, ?w)"
    by (simp add: get_stack_def sample_attr_def sample_tenv_def sample_kern_def empty_tworld_def)
  have pl: "place_info sample_tenv 0x10000 (stack_size_of sample_attr) = Some (0x10E00, 0x10E00, 0xE00)"
    by (simp add: place_info_def sample_tenv_def stack_size_of_def sample_attr_def PTHREAD_STACK_DEFAULT_def Let_def)
  have i: "thr_init ?w" using empty_tworld_ok(2) by (simp add: thr_init_def)
  have "lock_threads sample_tenv ?w \<noteq> None"
    using sample_lock [of ?w "[]"] by (simp add: empty_tworld_def)
  moreover have "reaped (tabs ?w) 0 = None" by (simp add: tabs_init [OF i] reaped_def)
  moreover have "stack_fresh sample_tenv sample_attr ?w"
    using i by (simp add: stack_fresh_def thr_init_def)
  moreover have "dead_reported sample_tenv ?w" "thread_info_next ?w = n"
    by (simp_all add: dead_reported_def empty_tworld_def)
  ultimately show ?thesis using thr_init_ok [OF i] that pl unfolding can_create_def g
    by (intro conjI exI [of _ 0]) (simp_all add: THREADS_MAX_def)
qed

lemma sample_init: "\<forall>n k. fst (taskInit (kern sample_tenv) a n p sb sz k)"
  by (simp add: sample_tenv_def sample_kern_def)

theorem pthread_create_registers_witness:
  "\<exists>w'. pthread_create sample_tenv True (Some sample_attr) 5 6 sample_attr empty_tworld = Some (None, Some 0x800, w') \<and>
    pthread_info_id 0x800 w' = Some (Some 0x10E00)"
proof -
  have c: "can_create sample_tenv (attr_used (Some sample_attr) sample_attr) empty_tworld 0x10E00 0x10E00 0xE00"
    using sample_can_create [of 0] by (simp add: attr_used_def THREADS_MAX_def empty_tworld_def)
  have n: "thread_info_next empty_tworld = 0" "new_id empty_tworld 0 = 0x800"
    by (simp_all add: empty_tworld_def new_id_def THREAD_ID_COOKIE_INC_def)
  from pthread_create_registers [OF c _ sample_init, of 5 6] obtain d w' where
    h: "let slot = d mod THREADS_MAX; t = new_id empty_tworld slot in
    d < THREADS_MAX \<and> reaped (tabs empty_tworld) slot = None \<and>
    (\<forall>e < d. reaped (tabs empty_tworld) (e mod THREADS_MAX) \<noteq> None) \<and>
    pthread_create sample_tenv True (Some sample_attr) 5 6 sample_attr empty_tworld = Some (None, Some t, w') \<and>
    pthread_info_id t w' = Some (Some 0x10E00)"
    unfolding Let_def n by (auto simp: n)
  have "reaped (tabs empty_tworld) (0 mod THREADS_MAX) = None"
    by (simp add: tabs_init [OF empty_tworld_ok(2)] reaped_def)
  then have "d = 0" using h unfolding Let_def by (metis gr0I)
  with h show ?thesis unfolding Let_def by (auto simp: n)
qed



end
