(* ===== verification/VxLifeProps.thy ===== *)
theory VxLifeProps
  imports VxProps
begin

text \<open>
  Properties of the thread layer, continued: where the table is left out of order, joining and
  detaching, cancellation, cleanup handlers, exit, and thread-specific data.
\<close>

section \<open>Creation out of order\<close>

lemma create_past_end:
  assumes ok: "table_ok w" and nx: "thread_info_next w = THREADS_MAX" and r0: "routine \<noteq> 0"
    and m: "fst (get_stack E (attr_used at u) w) \<noteq> 0"
  shows "pthread_create E True at routine arg u w = None"
proof -
  let ?at = "attr_used at u"
  obtain mem w0 where g: "get_stack E ?at w = (mem, w0)" by fastforce
  obtain k0 where k0: "w0 = w\<lparr>kst := k0\<rparr>" using get_stack_kst [of E ?at w] g by auto
  have cl: "create_locked E ?at routine arg fs mem len w2 = None"
    if lk: "lock_threads E w0 = Some w1" and rp: "pthread_reap E w1 = Some w2" for w1 w2 fs len
  proof -
    obtain k1 where w1: "w1 = w\<lparr>kst := k1\<rparr>" using lock_threads_kst [OF lk] k0 by auto
    have "table_ok w2" "reap_frame w1 w2" using pthread_reap_ok [OF _ rp] ok w1 by auto
    then have "length (thread_table w2) = THREADS_MAX" "thread_info_next w2 = THREADS_MAX"
      using nx w1 by (simp_all add: table_ok_def reap_frame_def)
    then have "find_free (thread_table w2) (thread_info_next w2) (thread_info_next w2) = None"
      by (subst find_free.simps) (simp add: arr_get_def)
    then show ?thesis by (simp add: create_locked_def)
  qed
  show ?thesis
    using m g r0 cl
    by (cases "lock_threads E w0"; cases "pthread_reap E (the (lock_threads E w0))")
      (simp_all add: pthread_create_def attr_used_eq)
qed

text \<open>C16. The slot number after the one used last is kept without wrapping it around: once a thread has
  been created in slot 63, every later \<open>pthread_create\<close> that gets its stack reads the table out of
  range, although slots may be free.\<close>

theorem create_after_last_slot_faults:
  fixes w :: "'k tworld"
  assumes "can_create E (attr_used at u) w a sb sz" "routine \<noteq> 0"
    and "\<forall>n k. fst (taskInit (kern E) a n (priority (a_schedparam (attr_used at u))) sb sz k)"
    and "thread_info_next w = 63" "reaped (tabs w) 63 = None"
  shows "\<exists>t w'. pthread_create E True at routine arg u w = Some (None, Some t, w') \<and>
    (\<forall>at2 routine2 arg2 u2. routine2 \<noteq> 0 \<and> fst (get_stack E (attr_used at2 u2) w') \<noteq> 0 \<longrightarrow>
       pthread_create E True at2 routine2 arg2 u2 w' = None)"
proof -
  from create_registers [OF assms(1-3), of arg] obtain d w' where
    h: "\<forall>e < d. reaped (tabs w) ((63 + e) mod THREADS_MAX) \<noteq> None"
      "pthread_create E True at routine arg u w = Some (None, Some (new_id w ((63 + d) mod THREADS_MAX)), w')"
      "thread_info_next w' = (63 + d) mod THREADS_MAX + 1" "table_ok w'"
    unfolding Let_def assms(4) by blast
  have "reaped (tabs w) ((63 + 0) mod THREADS_MAX) = None" using assms(5) by (simp add: THREADS_MAX_def)
  then have "d = 0" using h(1) by (metis gr0I)
  then have "thread_info_next w' = THREADS_MAX" using h(3) by (simp add: THREADS_MAX_def)
  with create_past_end [OF h(4)] h(2) show ?thesis by blast
qed

theorem create_after_last_slot_faults_witness:
  "\<exists>t w'. pthread_create sample_tenv True (Some sample_attr) 5 6 sample_attr (empty_tworld\<lparr>thread_info_next := 63\<rparr>) =
      Some (None, Some t, w') \<and>
    pthread_create sample_tenv True (Some sample_attr) 5 6 sample_attr w' = None"
proof -
  let ?w = "empty_tworld\<lparr>thread_info_next := 63\<rparr>"
  have c: "can_create sample_tenv (attr_used (Some sample_attr) sample_attr) ?w 0x10E00 0x10E00 0xE00"
    using sample_can_create [of 63] by (simp add: attr_used_def THREADS_MAX_def)
  have i: "thr_init ?w" using empty_tworld_ok(2) by (simp add: thr_init_def)
  have "reaped (tabs ?w) 63 = None" by (simp add: tabs_init [OF i] reaped_def)
  from create_after_last_slot_faults [OF c _ sample_init _ this, of 5 6] obtain t w' where
    w': "pthread_create sample_tenv True (Some sample_attr) 5 6 sample_attr ?w = Some (None, Some t, w')"
    "\<forall>at2 routine2 arg2 u2. routine2 \<noteq> 0 \<and> fst (get_stack sample_tenv (attr_used at2 u2) w') \<noteq> 0 \<longrightarrow>
       pthread_create sample_tenv True at2 routine2 arg2 u2 w' = None" by auto
  have "fst (get_stack sample_tenv (attr_used (Some sample_attr) sample_attr) w') \<noteq> 0"
    by (simp add: get_stack_def attr_used_def sample_attr_def sample_tenv_def sample_kern_def)
  with w' show ?thesis by fastforce
qed

text \<open>When the kernel cannot initialise the task, \<open>pthread_create\<close> frees the stack, and with it the
  control structure, but leaves its address in the table: the thread is not counted, and looking
  up any identifier of that slot reads freed memory.\<close>

theorem create_failure_dangles:
  fixes w :: "'k tworld"
  assumes "can_create E (attr_used at u) w a sb sz" "routine \<noteq> 0" "\<not> stackaddr_valid (attr_used at u)"
    and "\<forall>n k. \<not> fst (taskInit (kern E) a n (priority (a_schedparam (attr_used at u))) sb sz k)"
  shows "\<exists>slot w'. slot < THREADS_MAX \<and> pthread_create E True at routine arg u w = Some (Some EINVAL, None, w') \<and>
    thread_table w' ! slot = Some a \<and> infos w' a = None \<and>
    pthread_count w' = int (card {i. reaped (tabs w) i \<noteq> None}) \<and>
    (\<forall>t. unat (t AND THREAD_ID_COOKIE_MASK) = slot \<longrightarrow> pthread_info_id t w' = None)"
proof -
  from create_run [OF assms(1,2), of arg] obtain d and w2 :: "'k tworld" and b w' where
    h: "table_ok w2" "tabs w2 = reaped (tabs w)"
      "pthread_create E True at routine arg u w = Some (if b then None else Some EINVAL,
         if b then Some (new_id w ((thread_info_next w + d) mod THREADS_MAX)) else None, w')"
      "((\<forall>n k. \<not> fst (taskInit (kern E) a n (priority (a_schedparam (attr_used at u))) sb sz k)) \<longrightarrow> \<not> b)"
      "thread_table w' = (thread_table w2)[(thread_info_next w + d) mod THREADS_MAX := Some a]"
      "\<not> b \<longrightarrow> pthread_count w' = pthread_count w2 \<and> pthreads_exited w' = pthreads_exited w2 \<and>
         (\<not> stackaddr_valid (attr_used at u) \<longrightarrow> infos w' a = None)"
    unfolding Let_def by blast
  let ?slot = "(thread_info_next w + d) mod THREADS_MAX"
  have b: "\<not> b" using h(4) assms(4) by blast
  have slot: "?slot < THREADS_MAX" by (simp add: THREADS_MAX_def)
  have l: "length (thread_table w2) = THREADS_MAX" using h(1) by (simp add: table_ok_def)
  have s: "thread_table w' ! ?slot = Some a" using h(5) l slot by simp
  have n: "infos w' a = None" using h(6) b assms(3) by blast
  have "{i. tabs w2 i \<noteq> None} = slots_in (\<lambda>_. True) (tabs w2)" by (auto simp: slots_in_def)
  then have "pthread_count w' = int (card {i. reaped (tabs w) i \<noteq> None})"
    using h(1,6) b by (simp add: table_ok_def counters_ok_def h(2))
  moreover have "pthread_info_id t w' = None" if "unat (t AND THREAD_ID_COOKIE_MASK) = ?slot" for t
    using that s n h(5) l slot by (simp add: pthread_info_id_def arr_get_def)
  ultimately show ?thesis using h(3) b s n slot by (intro exI [of _ ?slot] exI [of _ w']) auto
qed

definition failing_tenv :: "(nat \<times> bool) option list tenv" where
  "failing_tenv = sample_tenv\<lparr>kern := sample_kern\<lparr>taskInit := (\<lambda>a n p b s k. (False, k))\<rparr>\<rparr>"

theorem create_failure_dangles_witness:
  "\<exists>slot w'. slot < THREADS_MAX \<and>
    pthread_create failing_tenv True (Some sample_attr) 5 6 sample_attr empty_tworld = Some (Some EINVAL, None, w') \<and>
    thread_table w' ! slot = Some 0x10E00 \<and> infos w' 0x10E00 = None"
proof -
  have c0: "can_create sample_tenv sample_attr empty_tworld 0x10E00 0x10E00 0xE00"
    using sample_can_create [of 0] by (simp add: THREADS_MAX_def empty_tworld_def)
  have "get_stack failing_tenv sample_attr = get_stack sample_tenv sample_attr"
    "place_info failing_tenv = place_info sample_tenv" "lock_threads failing_tenv = lock_threads sample_tenv"
    by (simp_all add: fun_eq_iff get_stack_def place_info_def lock_threads_def failing_tenv_def sample_tenv_def
        sample_kern_def)
  moreover have "dead_reported failing_tenv empty_tworld" by (simp add: dead_reported_def empty_tworld_def)
  ultimately have c: "can_create failing_tenv (attr_used (Some sample_attr) sample_attr) empty_tworld 0x10E00 0x10E00 0xE00"
    using c0 by (simp add: can_create_def stack_fresh_def attr_used_def)
  from create_failure_dangles [OF c, of 5 6] show ?thesis
    by (fastforce simp: attr_used_def sample_attr_def failing_tenv_def sample_kern_def)
qed

section \<open>Joining and detaching\<close>

lemma testcancel_none: "checkforcancel self w = Some False \<Longrightarrow> pthread_testcancel E self w = Some (False, w)"
  by (simp add: pthread_testcancel_def)

lemma checkforcancel_cong: "infos w' self = infos w self \<Longrightarrow> checkforcancel self w' = checkforcancel self w"
  by (simp add: checkforcancel_def)

lemma checkforcancel_kst [simp]: "checkforcancel self (unlock_threads E w) = checkforcancel self w"
  by (rule checkforcancel_cong) (simp add: unlock_threads_def)

lemma info_id_slot:
  assumes "table_ok w" "at_slot w i a" "infos w a = Some t" "tstate t \<noteq> STATE_EXITED"
  shows "pthread_info_id (tid t) w = Some (Some a)"
  using info_id_new [OF assms(1-3), of "tstate t" "tid t"] at_slot_info [OF assms(1,2)] assms(3,4) by auto

text \<open>What \<open>dead_reported\<close> needs to know of a thread that is about to be reaped.\<close>

definition reports_dead :: "'k tenv \<Rightarrow> tinfo \<Rightarrow> bool" where
  "reports_dead E t \<longleftrightarrow> (\<forall>k. taskStatusString (kern E) (task_id t) k = Some ''DEAD'')"

text \<open>C17. Joining a thread that has ended returns the value it ended with and removes it from the table,
  together with every other exited thread; afterwards its identifier names no thread.\<close>

theorem pthread_join_result:
  assumes ok: "table_ok w" and d: "dead_reported E w" "reports_dead E t"
    and l: "lock_threads E w = Some w1" and c: "checkforcancel self w = Some False"
    and self: "live w k self"
    and a: "at_slot w i a" "infos w a = Some t" "tstate t = STATE_JOIN"
  shows "\<exists>w'. pthread_join E self (tid t) w = Some (Returns (None, Some (t_retval t)), w') \<and>
    tabs w' = (reaped (tabs w))(i := None) \<and> table_ok w' \<and> pthread_info_id (tid t) w' = Some None"
proof -
  have ne: "a \<noteq> self" using a self by (auto simp: live_def)
  obtain k1 where w1: "w1 = w\<lparr>kst := k1\<rparr>" using lock_threads_kst [OF l] by blast
  from pthread_reap_dead [of w1 E] ok d(1) w1 obtain w2 where w2: "pthread_reap E w1 = Some w2" "table_ok w2"
    "reap_frame w1 w2" "tabs w2 = reaped (tabs w)" by (auto simp: dead_reported_def)
  have ok1: "table_ok w1" using ok w1 by simp
  have a1: "at_slot w1 i a" "infos w1 a = Some t" using a w1 by (simp_all add: at_slot_def)
  have a2: "at_slot w2 i a" "infos w2 a = Some t"
    using reap_keeps [OF ok1 w2(2,3) _ a1] a(3) pthread_reap_ok [OF ok1 w2(1)] by auto
  obtain s where s: "infos w self = Some s" "tstate s \<in> {STATE_RUNNING, STATE_DETACHED}" using self by (auto simp: live_def)
  have "live w1 k self" using self w1 by (simp add: live_def at_slot_def)
  then have s2: "infos w2 self = Some s"
    using reap_keeps [OF ok1 w2(2,3), of k self s] pthread_reap_ok [OF ok1 w2(1)] s w1 by (auto simp: live_def)
  let ?e = "set_info a (t\<lparr>tstate := STATE_EXITED\<rparr>)
    (w2\<lparr>pthreads_exited := pthreads_exited w2 + 1, pthreads_tobejoined := pthreads_tobejoined w2 - 1\<rparr>)"
  have e: "table_ok ?e \<and> tabs ?e = (tabs w2)(i := Some (tstate (t\<lparr>tstate := STATE_EXITED\<rparr>), tid t))"
    by (rule change_state [OF w2(2) a2, of "t\<lparr>tstate := STATE_EXITED\<rparr>"]) (use a(3) in \<open>auto simp: set_info_def\<close>)
  have "dead_reported E w2" using dead_reported_frame [of E w1 w2] d(1) w1 w2(3) by (simp add: dead_reported_def)
  then have "dead_reported E ?e" using d(2) by (auto simp: dead_reported_def set_info_def reports_dead_def)
  from pthread_reap_dead [OF _ this] e obtain w4 where w4: "pthread_reap E ?e = Some w4" "table_ok w4"
    "reap_frame ?e w4" "tabs w4 = reaped ((tabs w2)(i := Some (STATE_EXITED, tid t)))" by auto
  have tb: "tabs w4 = (reaped (tabs w))(i := None)"
    unfolding w4(4) w2(4) by (rule ext) (simp add: reaped_def split: option.splits prod.splits)
  have s4: "infos w4 self = Some s"
  proof -
    have "infos ?e self = Some s" using s2 ne by (simp add: set_info_def)
    then show ?thesis using reap_frame_info [OF w4(3)] s(2) by auto
  qed
  have run: "pthread_join E self (tid t) w = Some (Returns (None, Some (t_retval t)), unlock_threads E w4)"
    using ne a2 a(3) w4(1) s(1) s4 c info_id_slot [OF w2(2) a2]
      checkforcancel_cong [of w4 self w]
    by (simp add: pthread_join_def testcancel_none l w2(1) join_state_def join_done_def)
  have m: "unat (tid t AND THREAD_ID_COOKIE_MASK) = i" "i < THREADS_MAX"
    using at_slot_info [OF ok a(1)] a by (auto simp: at_slot_def)
  from info_id_tabs [of "unlock_threads E w4" "tid t"] w4(2) m tb
  have "pthread_info_id (tid t) (unlock_threads E w4) = Some None" by auto
  then show ?thesis using run tb w4(2) by auto
qed

lemma sample_dead: "dead_reported sample_tenv w" "reports_dead sample_tenv t"
  by (simp_all add: dead_reported_def reports_dead_def sample_tenv_def sample_kern_def)

lemma two_threads_lock: "lock_threads sample_tenv (two_threads t) =
    Some ((two_threads t)\<lparr>kst := [Some (0, True), Some (1, True), Some (1, True)]\<rparr>)"
  using sample_lock [of "two_threads t" "[Some (1, True), Some (1, True)]"]
  by (simp add: two_threads_def empty_tworld_def)

lemma two_threads_main: "checkforcancel 0x9000 (two_threads t) = Some False"
  using two_threads_fields(5) by (simp add: checkforcancel_def sample_info_def)

theorem pthread_join_result_witness:
  "\<exists>w'. pthread_join sample_tenv 0x9000 0x801 (two_threads (other_info\<lparr>tstate := STATE_JOIN, t_retval := 42\<rparr>)) =
      Some (Returns (None, Some 42), w') \<and> pthread_info_id 0x801 w' = Some None"
proof -
  let ?t = "other_info\<lparr>tstate := STATE_JOIN, t_retval := 42\<rparr>"
  have t: "tid ?t = 0x801" "tstate ?t = STATE_JOIN" by (simp_all add: other_info_def)
  then have "tstate ?t \<noteq> STATE_FREE" by simp
  note ok = two_threads_ok [OF t(1) this]
  from pthread_join_result [OF ok(1) sample_dead two_threads_lock two_threads_main ok(3,2) two_threads_fields(6) t(2)] t(1)
  show ?thesis by auto
qed

lemma reap_slot_tobejoined:
  "reap_slot E i (w\<lparr>pthreads_tobejoined := n\<rparr>) =
     map_option (\<lambda>w'. w'\<lparr>pthreads_tobejoined := n\<rparr>) (reap_slot E i w)"
  by (simp add: reap_slot_def Let_def split: option.split bind_split)

lemma reap_tobejoined:
  "pthread_reap E (w\<lparr>pthreads_tobejoined := n\<rparr>) =
     map_option (\<lambda>w'. w'\<lparr>pthreads_tobejoined := n\<rparr>) (pthread_reap E w)"
proof -
  have "reap_from E is (w\<lparr>pthreads_tobejoined := n\<rparr>) =
      map_option (\<lambda>w'. w'\<lparr>pthreads_tobejoined := n\<rparr>) (reap_from E is w)" for "is"
  proof (induction "is" arbitrary: w)
    case (Cons i "is")
    then show ?case
      by (cases "reap_slot E i w") (simp_all add: reap_slot_tobejoined)
  qed simp
  then show ?thesis by (simp add: pthread_reap_def)
qed

lemma tabs_tobejoined [simp]: "tabs (w\<lparr>pthreads_tobejoined := n\<rparr>) = tabs w"
  by (rule tabs_cong) simp_all

text \<open>Detaching a thread that has already ended and waits to be joined succeeds, but marks it as
  running detached: it stays counted as joinable although no slot is, and no later reaping ever
  frees its slot.\<close>

theorem detach_of_ended_leaks:
  assumes ok: "table_ok w" and d: "dead_reported E w" and l: "lock_threads E w = Some w1"
    and a: "at_slot w i a" "infos w a = Some t" "tstate t = STATE_JOIN"
  shows "\<exists>w'. pthread_detach E (tid t) w = Some (None, w') \<and> tabs w' i = Some (STATE_DETACHED, tid t) \<and>
    pthreads_tobejoined w' = int (card {j. \<exists>u. tabs w' j = Some (STATE_JOIN, u)}) + 1 \<and>
    (\<forall>w''. pthread_reap E w' = Some w'' \<longrightarrow> tabs w'' i = Some (STATE_DETACHED, tid t))"
proof -
  obtain k1 where w1: "w1 = w\<lparr>kst := k1\<rparr>" using lock_threads_kst [OF l] by blast
  let ?n = "pthreads_tobejoined w"
  let ?t = "t\<lparr>tstate := STATE_DETACHED\<rparr>"
  define v where "v = (give_joiner E t (set_info a ?t w1))\<lparr>pthreads_tobejoined := ?n - 1\<rparr>"
  have ok1: "table_ok w1" and a1: "at_slot w1 i a" "infos w1 a = Some t" using ok a w1 by (simp_all add: at_slot_def)
  have v: "table_ok v \<and> tabs v = (tabs w1)(i := Some (tstate ?t, tid t))"
    by (rule change_state [OF ok1 a1, of ?t]) (use a(3) w1 in \<open>simp_all add: v_def give_joiner_def set_info_def\<close>)
  have "dead_reported E v" using d w1 by (auto simp: v_def dead_reported_def give_joiner_def set_info_def)
  from pthread_reap_dead [OF _ this] v obtain v' where v': "pthread_reap E v = Some v'" "table_ok v'"
    "reap_frame v v'" "tabs v' = reaped (tabs v)" by auto
  have vn: "v\<lparr>pthreads_tobejoined := ?n\<rparr> = give_joiner E t (set_info a ?t w1)"
    by (simp add: v_def w1 give_joiner_def set_info_def)
  let ?w' = "unlock_threads E (v'\<lparr>pthreads_tobejoined := ?n\<rparr>)"
  have "pthread_reap E (give_joiner E t (set_info a ?t w1)) = Some (v'\<lparr>pthreads_tobejoined := ?n\<rparr>)"
    using reap_tobejoined [of E ?n v] v'(1) vn by simp
  then have run: "pthread_detach E (tid t) w = Some (None, ?w')"
    using info_id_slot [OF ok1 a1] a(3) a1(2) by (simp add: pthread_detach_def l)
  have tb: "tabs v' i = Some (STATE_DETACHED, tid t)" using v'(4) v by (simp add: reaped_def)
  have "pthreads_tobejoined v = ?n - 1" by (simp add: v_def)
  moreover have "pthreads_tobejoined v' = pthreads_tobejoined v"
  proof -
    have "slots_in (\<lambda>s. s = STATE_JOIN) (tabs v') = slots_in (\<lambda>s. s = STATE_JOIN) (tabs v)"
      unfolding v'(4) by (auto simp: slots_in_def reaped_def split: option.splits prod.splits if_splits)
    then show ?thesis using v v'(2) by (simp add: table_ok_def counters_ok_def)
  qed
  moreover have "{j. \<exists>u. tabs ?w' j = Some (STATE_JOIN, u)} = slots_in (\<lambda>s. s = STATE_JOIN) (tabs v')"
    by (auto simp: slots_in_def)
  ultimately have n: "pthreads_tobejoined ?w' = int (card {j. \<exists>u. tabs ?w' j = Some (STATE_JOIN, u)}) + 1"
    using v'(2) by (simp add: table_ok_def counters_ok_def unlock_threads_def)
  have "tabs w'' i = Some (STATE_DETACHED, tid t)" if r: "pthread_reap E ?w' = Some w''" for w''
  proof -
    define k2 where "k2 = snd (semGive (sems (kern E)) (vxpthread_mutex v') (kst v'))"
    then have u: "?w' = (v'\<lparr>kst := k2\<rparr>)\<lparr>pthreads_tobejoined := ?n\<rparr>" by (simp add: unlock_threads_def)
    with r reap_tobejoined [of E ?n "v'\<lparr>kst := k2\<rparr>"] obtain w3 where
      "pthread_reap E (v'\<lparr>kst := k2\<rparr>) = Some w3" "w'' = w3\<lparr>pthreads_tobejoined := ?n\<rparr>" by auto
    moreover from this have "tabs w3 i = tabs v' i \<or> (\<exists>t. tabs v' i = Some (STATE_EXITED, t)) \<and> tabs w3 i = None"
      using pthread_reap_ok [of "v'\<lparr>kst := k2\<rparr>" E w3] v'(2) by simp
    ultimately show ?thesis using tb by auto
  qed
  with run n tb show ?thesis by auto
qed

theorem detach_of_ended_leaks_witness:
  "\<exists>w'. pthread_detach sample_tenv 0x801 (two_threads (other_info\<lparr>tstate := STATE_JOIN\<rparr>)) = Some (None, w') \<and>
    tabs w' 1 = Some (STATE_DETACHED, 0x801)"
proof -
  let ?t = "other_info\<lparr>tstate := STATE_JOIN\<rparr>"
  have t: "tid ?t = 0x801" "tstate ?t = STATE_JOIN" by (simp_all add: other_info_def)
  then have "tstate ?t \<noteq> STATE_FREE" by simp
  note ok = two_threads_ok [OF t(1) this]
  from detach_of_ended_leaks [OF ok(1) sample_dead(1) two_threads_lock ok(2) two_threads_fields(6) t(2)] t(1)
  show ?thesis by auto
qed

section \<open>Cancellation\<close>

text \<open>C18. Cancelling a thread whose cancellation is enabled and asynchronous never returns: the caller
  runs the exit of that thread while it holds the global mutex, and waits for it.\<close>

theorem cancel_async_blocks:
  assumes L: "semlib_ok (sems (kern E)) cnt bin"
    and m: "cnt (kst w) (vxpthread_mutex w) = Some 1"
    and h: "handlers_keep E (\<lambda>v. vxpthread_mutex v = vxpthread_mutex w \<and> cnt (kst v) (vxpthread_mutex v) = Some 0)"
    and a: "pthread_info_id t w = Some (Some a)" "infos w a = Some i"
      "cancelstate i = CANCEL_ENABLE" "canceltype i = CANCEL_ASYNCHRONOUS"
  shows "pthread_cancel E self t w = None"
proof -
  let ?I = "\<lambda>v. vxpthread_mutex v = vxpthread_mutex w \<and> cnt (kst v) (vxpthread_mutex v) = Some 0"
  from semTake_ok [OF L, of "kst w" "vxpthread_mutex w" 0] m obtain k1 where
    k1: "semTake (sems (kern E)) True (vxpthread_mutex w) (kst w) = Some (OK, k1)"
    "cnt k1 = (cnt (kst w))(vxpthread_mutex w := Some 0)" by auto
  let ?w1 = "w\<lparr>kst := k1\<rparr>"
  have l: "lock_threads E w = Some ?w1" by (simp add: lock_threads_def k1(1))
  have id: "pthread_info_id t ?w1 = Some (Some a)"
    using a(1) by simp
  let ?w2 = "set_info a (i\<lparr>cancelpending := True\<rparr>) ?w1"
  have I: "?I ?w2" using k1(2) by (simp add: set_info_def)
  have "vxpth_pthread_exit E a (PTHREAD_CANCELED E) ?w2 = None"
  proof -
    have "lock_threads E w4 = None"
      if "run_cleanup E a ?w2 = Some w3" "destructor_loop E a (DESTRUCTOR_ITERATIONS E + 1) w3 = Some w4" for w3 w4
    proof -
      have "?I w3" using run_cleanup_keep [OF that(1), of ?I] h I by blast
      then have I4: "?I w4" using destructor_loop_keep [OF h that(2)] by blast
      then have "cnt (kst w4) (vxpthread_mutex w4) = Some 0" by (rule conjunct2)
      from semTake_blocked [OF L this] show ?thesis by (simp add: lock_threads_def)
    qed
    then show ?thesis
      by (cases "run_cleanup E a ?w2";
          cases "destructor_loop E a (DESTRUCTOR_ITERATIONS E + 1) (the (run_cleanup E a ?w2))")
        (simp_all add: vxpth_pthread_exit_def del: destructor_loop.simps)
  qed
  then show ?thesis
    unfolding pthread_cancel_def l bind.bind_lunit id option.case by (simp add: a(2-4) Let_def)
qed

theorem cancel_async_blocks_witness:
  "pthread_cancel sample_tenv 0x9000 0x801 (two_threads (other_info\<lparr>canceltype := CANCEL_ASYNCHRONOUS\<rparr>)) = None"
proof -
  let ?t = "other_info\<lparr>canceltype := CANCEL_ASYNCHRONOUS\<rparr>"
  let ?w = "two_threads ?t"
  have t: "tid ?t = 0x801" "tstate ?t \<noteq> STATE_FREE" "tstate ?t \<noteq> STATE_EXITED"
    by (simp_all add: other_info_def sample_info_def)
  note ok = two_threads_ok [OF t(1,2)]
  have id: "pthread_info_id 0x801 ?w = Some (Some 0xA000)"
    using info_id_slot [OF ok(1,2) two_threads_fields(6) t(3)] t(1) by simp
  have h: "handlers_keep sample_tenv
      (\<lambda>v. vxpthread_mutex v = vxpthread_mutex ?w \<and> lcnt (kst v) (vxpthread_mutex v) = Some 0)"
    by (auto simp: handlers_keep_def sample_tenv_def set_info_def)
  show ?thesis
    by (rule cancel_async_blocks [of _ lcnt lbin, OF _ _ h id two_threads_fields(6)])
      (simp_all add: sample_tenv_def sample_kern_def listlib_ok other_info_def sample_info_def two_threads_def
        empty_tworld_def lcnt_def)
qed

section \<open>Cleanup handlers and exit\<close>

text \<open>C19. Cleanup handlers pushed one after the other run in the reverse order when the thread ends, each
  once with its own argument, and the list of handlers is empty afterwards.\<close>

theorem cleanup_handlers_lifo:
  assumes "pure_handlers E f" "infos w th = Some t" "cancelbuffer t = None" "distinct (map fst hs)"
  shows "\<exists>w1 w2 t2. foldm (push_handler th) hs w = Some w1 \<and> run_cleanup E th w1 = Some w2 \<and>
    kst w2 = fold (\<lambda>(b, r, x). f r x) (rev hs) (kst w) \<and> infos w2 th = Some t2 \<and> cancelbuffer t2 = None"
proof -
  have "handler_chain (bufs w) (cancelbuffer t) []" using assms(3) by simp
  from push_all [OF assms(2) this, of hs] assms(4) obtain w1 t1 where
    w1: "foldm (push_handler th) hs w = Some w1" "infos w1 th = Some t1" "kst w1 = kst w"
      "handler_chain (bufs w1) (cancelbuffer t1) (rev hs)" by auto
  from run_cleanup_chain [OF assms(1) w1(2,4)] w1(1,3) show ?thesis by (simp add: set_info_def)
qed

text \<open>Handlers that write their argument into the kernel state of the sample.\<close>

definition logging_tenv :: "(nat \<times> bool) option list tenv" where
  "logging_tenv = sample_tenv\<lparr>call_routine := (\<lambda>p x w. Some (w\<lparr>kst := kst w @ [Some (unat x, False)]\<rparr>))\<rparr>"

theorem cleanup_handlers_lifo_witness:
  "\<exists>w1 w2. foldm (push_handler 0x9000) [(1, 5, 10), (2, 5, 20)] (two_threads other_info) = Some w1 \<and>
    run_cleanup logging_tenv 0x9000 w1 = Some w2 \<and>
    kst w2 = kst (two_threads other_info) @ [Some (20, False), Some (10, False)]"
proof -
  have p: "pure_handlers logging_tenv (\<lambda>p x k. k @ [Some (unat x, False)])"
    by (simp add: pure_handlers_def logging_tenv_def)
  from cleanup_handlers_lifo [OF p two_threads_fields(5), of "[(1, 5, 10), (2, 5, 20)]" other_info]
  show ?thesis by (auto simp: sample_info_def)
qed



section \<open>Thread-specific data\<close>

text \<open>C21. \<open>pthread_key_create\<close> allocates the least key that is not allocated, records its destructor, and
  makes every thread of the table read NULL under it; no other allocated key changes.\<close>

theorem key_create_least:
  assumes "keys_ok E w" "lock_threads E w = Some w1" "key_alloc w \<noteq> {..<KEYS_MAX E}"
  shows "\<exists>k w'. pthread_key_create E d w = Some (Inr k, w') \<and> k < KEYS_MAX E \<and> k \<notin> key_alloc w \<and>
    (\<forall>j < k. j \<in> key_alloc w) \<and> key_alloc w' = insert k (key_alloc w) \<and>
    key_destructor w' = (key_destructor w)[k := d] \<and>
    (\<forall>a. Some a \<in> set (thread_table w) \<longrightarrow> pthread_getspecific a k w' = Some 0 \<and>
       (\<forall>j \<in> key_alloc w. pthread_getspecific a j w' = pthread_getspecific a j w))"
proof -
  from key_create_free [OF assms, of d] obtain k w' where
    r: "pthread_key_create E d w = Some (Inr k, w')" "k < KEYS_MAX E" "k \<notin> key_alloc w" "\<forall>j < k. j \<in> key_alloc w"
      "key_alloc w' = insert k (key_alloc w)" "keys_ok E w'" "key_destructor w' = (key_destructor w)[k := d]"
      "thread_table w' = thread_table w"
    and i: "\<forall>a t. Some a \<in> set (thread_table w) \<longrightarrow> infos w a = Some t \<longrightarrow>
       infos w' a = Some (t\<lparr>thread_data := (thread_data t)[k := 0]\<rparr>)" by blast
  have "pthread_getspecific a k w' = Some 0 \<and> (\<forall>j \<in> key_alloc w. pthread_getspecific a j w' = pthread_getspecific a j w)"
    if a: "Some a \<in> set (thread_table w)" for a
  proof -
    obtain t where t: "infos w a = Some t" "length (thread_data t) = KEYS_MAX E" using keys_ok_data [OF assms(1) a] by blast
    have t': "infos w' a = Some (t\<lparr>thread_data := (thread_data t)[k := 0]\<rparr>)" using i a t(1) by blast
    have u': "key_usable E w' a j" if "j \<in> insert k (key_alloc w)" for j
      using that a r(5,6,8) by (simp add: key_usable_def)
    have u: "key_usable E w a j" if "j \<in> key_alloc w" for j
      using that a assms(1) by (simp add: key_usable_def)
    have "pthread_getspecific a j w' = pthread_getspecific a j w" if "j \<in> key_alloc w" for j
    proof -
      have "j \<noteq> k" using that r(3) by blast
      then show ?thesis using getspecific_run [OF u' t'] getspecific_run [OF u t(1)] that by simp
    qed
    then show ?thesis using getspecific_run [OF u' t'] r(2) t(2) by simp
  qed
  with r show ?thesis by blast
qed

lemma sample_keys:
  "keys_ok sample_tenv (two_threads other_info)" "key_alloc (two_threads other_info) = {}"
proof -
  show "keys_ok sample_tenv (two_threads other_info)"
    by (auto simp: keys_ok_def sample_tenv_def two_threads_def empty_tworld_def other_info_def sample_info_def
        THREADS_MAX_def in_set_conv_nth nth_list_update split: if_splits)
  have "bit (0xFFFFFFFF :: uint) k" if "k < 32" for k
  proof -
    have "(0xFFFFFFFF :: uint) = -1" by simp
    then show ?thesis unfolding \<open>(0xFFFFFFFF :: uint) = -1\<close> using that by simp
  qed
  then show "key_alloc (two_threads other_info) = {}"
    by (auto simp: key_alloc_def two_threads_def empty_tworld_def)
qed

lemma keys_ok_thread_key:
  "keys_ok E w \<Longrightarrow> length l = length (thread_key w) \<Longrightarrow> keys_ok E (w\<lparr>thread_key := l\<rparr>)"
  by (auto simp: keys_ok_def)

theorem key_create_least_witness:
  "\<exists>k w'. pthread_key_create sample_tenv 77 (two_threads other_info) = Some (Inr k, w') \<and>
    key_alloc w' = {k} \<and> pthread_getspecific 0xA000 k w' = Some 0"
proof -
  have m: "Some 0xA000 \<in> set (thread_table (two_threads other_info))"
    using two_threads_fields(2,4) nth_mem [of 1 "thread_table (two_threads other_info)"] by (simp add: THREADS_MAX_def)
  have "0 \<in> {..<KEYS_MAX sample_tenv}" by (simp add: sample_tenv_def)
  then have "key_alloc (two_threads other_info) \<noteq> {..<KEYS_MAX sample_tenv}"
    using sample_keys(2) by (metis empty_iff)
  from key_create_least [OF sample_keys(1) two_threads_lock this, of 77] m show ?thesis
    unfolding sample_keys(2) by blast
qed

text \<open>What one thread stores under its keys, it reads back: after any sequence of stores by any threads
  of the table, \<open>pthread_getspecific\<close> returns the last value that thread stored under that key, and
  the old value when it stored none.\<close>

theorem specific_roundtrip:
  assumes "\<forall>x \<in> set xs. key_usable E w (fst x) (fst (snd x))" "key_usable E w b j"
  shows "\<exists>w'. foldm (\<lambda>(a, k, v). put_specific a k v) xs w = Some w' \<and>
    pthread_getspecific b j w' =
      (case map_of (rev (map (\<lambda>(a, k, v). ((a, k), v)) xs)) (b, j) of
         Some v \<Rightarrow> Some v | None \<Rightarrow> pthread_getspecific b j w)"
  by (rule specific.stores_read_back [OF assms])

theorem specific_roundtrip_witness:
  "\<exists>w'. foldm (\<lambda>(a, k, v). put_specific a k v) [(0x9000, 1, 5), (0xA000, 1, 6), (0x9000, 1, 7)]
      ((two_threads other_info)\<lparr>thread_key := [0xFFFFFFFC]\<rparr>) = Some w' \<and> pthread_getspecific 0x9000 1 w' = Some 7"
proof -
  let ?w = "(two_threads other_info)\<lparr>thread_key := [0xFFFFFFFC]\<rparr>"
  have m: "Some 0x9000 \<in> set (thread_table ?w)" "Some 0xA000 \<in> set (thread_table ?w)"
    using two_threads_fields(1,2,4) [where t = other_info] nth_mem [of 0 "thread_table ?w"] nth_mem [of 1 "thread_table ?w"]
    by (simp_all add: THREADS_MAX_def)
  have k: "keys_ok sample_tenv ?w" by (rule keys_ok_thread_key [OF sample_keys(1)]) (simp add: two_threads_def empty_tworld_def)
  have "1 \<in> key_alloc ?w" by (simp add: key_alloc_def)
  then have u: "key_usable sample_tenv ?w 0x9000 1" "key_usable sample_tenv ?w 0xA000 1"
    using m k by (simp_all add: key_usable_def)
  show ?thesis
    using specific_roundtrip [of "[(0x9000, 1, 5), (0xA000, 1, 6), (0x9000, 1, 7)]" sample_tenv ?w "0x9000" 1] u
    by (simp add: map_add_def)
qed

end
