(* ===== verification/TlsProps.thy ===== *)
theory TlsProps
  imports ThreadData VxLifeProps
begin

text \<open>
  The thread-local objects of PurC, over the keys and the thread table of the VxWorks layer.
\<close>


section \<open>A sample\<close>








end
