(* ===== verification/Sock.thy ===== *)
theory Sock
  imports Prelude
begin

text \<open>
  What the server and its clients share: bytes, the little-endian integers of the target, and
  the socket functions of MiniGUI's sockio.c, which is not in the repository, as a parameter
  with the laws the protocol relies on.
\<close>

section \<open>Bytes\<close>

type_synonym byte = "8 word"

primrec le_bytes :: "nat \<Rightarrow> nat \<Rightarrow> byte list" where
  "le_bytes 0 v = []"
| "le_bytes (Suc n) v = of_nat (v mod 256) # le_bytes n (v div 256)"

fun le_nat :: "byte list \<Rightarrow> nat" where
  "le_nat [] = 0"
| "le_nat (b # bs) = unat b + 256 * le_nat bs"

lemma length_le_bytes [simp]: "length (le_bytes n v) = n"
  by (induction n arbitrary: v) simp_all

lemma unat_byte: "unat (of_nat (v mod 256) :: byte) = v mod 256"
  by (simp add: unsigned_of_nat take_bit_eq_mod)

lemma le_nat_le_bytes: "v < 256 ^ n \<Longrightarrow> le_nat (le_bytes n v) = v"
proof (induction n arbitrary: v)
  case (Suc n)
  then have "v div 256 < 256 ^ n" by (simp add: less_mult_imp_div_less mult.commute)
  then show ?case using Suc.IH by (simp add: unat_byte)
qed simp

text \<open>Objects of 4 and 8 bytes, and reading one at an offset: reading past the memory is a fault.\<close>

definition put_uint :: "uint \<Rightarrow> byte list" where "put_uint v = le_bytes 4 (unat v)"
definition put_size :: "dword \<Rightarrow> byte list" where "put_size v = le_bytes 8 (unat v)"

definition rd_nat :: "nat \<Rightarrow> nat \<Rightarrow> byte list \<Rightarrow> nat option" where
  "rd_nat off n bs = (if off + n \<le> length bs then Some (le_nat (take n (drop off bs))) else None)"

definition rd_uint :: "nat \<Rightarrow> byte list \<Rightarrow> uint option" where
  "rd_uint off bs = map_option of_nat (rd_nat off 4 bs)"

definition rd_size :: "nat \<Rightarrow> byte list \<Rightarrow> dword option" where
  "rd_size off bs = map_option of_nat (rd_nat off 8 bs)"

definition rd_int :: "nat \<Rightarrow> byte list \<Rightarrow> int option" where
  "rd_int off bs = map_option sint (rd_uint off bs)"

definition put_int :: "int \<Rightarrow> byte list" where "put_int i = put_uint (word_of_int i)"

lemma put_length [simp]: "length (put_uint u) = 4" "length (put_size v) = 8" "length (put_int i) = 4"
  by (simp_all add: put_uint_def put_size_def put_int_def)

lemma rd_nat_at: "length xs = off \<Longrightarrow> rd_nat off (length bs) (xs @ bs @ ys) = Some (le_nat bs)"
  by (simp add: rd_nat_def)

lemma rd_uint_put: "rd_uint (length xs) (xs @ put_uint u @ ys) = Some u"
proof -
  have "unat u < 256 ^ 4" using unsigned_less [of u] by simp
  then show ?thesis using rd_nat_at [OF refl, of xs "put_uint u" ys]
    by (simp add: rd_uint_def put_uint_def le_nat_le_bytes)
qed

lemma rd_size_put: "rd_size (length xs) (xs @ put_size v @ ys) = Some v"
proof -
  have "unat v < 256 ^ 8" using unsigned_less [of v] by simp
  then show ?thesis using rd_nat_at [OF refl, of xs "put_size v" ys]
    by (simp add: rd_size_def put_size_def le_nat_le_bytes)
qed

lemma rd_uint_put0 [simp]: "rd_uint 0 (put_uint u @ ys) = Some u" "rd_uint 0 (put_uint u) = Some u"
  using rd_uint_put [of "[]" u ys] rd_uint_put [of "[]" u "[]"] by simp_all

lemma rd_size_put0 [simp]: "rd_size 0 (put_size v @ ys) = Some v" "rd_size 0 (put_size v) = Some v"
  using rd_size_put [of "[]" v ys] rd_size_put [of "[]" v "[]"] by simp_all

lemma rd_int_put [simp]:
  "- (2 ^ 31) \<le> i \<Longrightarrow> i < 2 ^ 31 \<Longrightarrow> rd_int 0 (put_int i @ ys) = Some i"
  by (simp add: rd_int_def put_int_def signed_of_int signed_take_bit_int_eq_self)

text \<open>A C string in memory: the bytes up to the first NUL.\<close>

definition c_string :: "byte list \<Rightarrow> byte list option" where
  "c_string bs = (if 0 \<in> set bs then Some (takeWhile (\<lambda>b. b \<noteq> 0) bs) else None)"

section \<open>Sockets\<close>

text \<open>
  The codes of sockio.h are not in the repository; \<open>SockVal\<close> is any other int. \<open>sock_failed\<close> is
  the test \<open>n < 0\<close> of the code.
\<close>

datatype sockres = SOCKERR_OK | SOCKERR_IO | SOCKERR_CLOSED | SOCKERR_INVARG | SockVal int

fun sock_failed :: "sockres \<Rightarrow> bool" where
  "sock_failed SOCKERR_OK = False"
| "sock_failed (SockVal n) = (n < 0)"
| "sock_failed _ = True"

text \<open>
  \<open>None\<close> is a call that never returns. \<open>sock_sendmsg\<close> and \<open>sock_recvmsg\<close> work on the
  concatenation of the buffers of their vector; the last argument of \<open>sock_recvmsg\<close> says whether
  there is room for control data, its result holds the descriptor when control data of the length
  of one descriptor arrived.
\<close>

record 'k sockio =
  sock_read :: "int \<Rightarrow> nat \<Rightarrow> 'k \<Rightarrow> (sockres \<times> byte list \<times> 'k) option"
  sock_write :: "int \<Rightarrow> byte list \<Rightarrow> 'k \<Rightarrow> (sockres \<times> 'k) option"
  sock_sendmsg :: "int \<Rightarrow> byte list \<Rightarrow> int option \<Rightarrow> 'k \<Rightarrow> (sockres \<times> 'k) option"
  sock_recvmsg :: "int \<Rightarrow> nat \<Rightarrow> bool \<Rightarrow> 'k \<Rightarrow> (sockres \<times> byte list \<times> int option \<times> 'k) option"

text \<open>
  The documented behaviour between two connected sockets on which no error occurs: what one end
  writes arrives in order at the other, and a read of the size of what was written returns it.
\<close>

type_synonym packet = "byte list \<times> int option"

definition sockets_ok :: "'k sockio \<Rightarrow> ('k \<Rightarrow> int \<Rightarrow> packet list) \<Rightarrow> (int \<Rightarrow> int option) \<Rightarrow> bool" where
  "sockets_ok S inq peer \<longleftrightarrow>
     (\<forall>k a b bs. peer a = Some b \<and> bs \<noteq> [] \<longrightarrow>
        (\<exists>k'. sock_write S a bs k = Some (SOCKERR_OK, k') \<and> inq k' = (inq k)(b := inq k b @ [(bs, None)]))) \<and>
     (\<forall>k a b bs fd. peer a = Some b \<and> bs \<noteq> [] \<longrightarrow>
        (\<exists>k'. sock_sendmsg S a bs fd k = Some (SOCKERR_OK, k') \<and> inq k' = (inq k)(b := inq k b @ [(bs, fd)]))) \<and>
     (\<forall>k a bs ps. inq k a = (bs, None) # ps \<and> bs \<noteq> [] \<longrightarrow>
        (\<exists>k'. sock_read S a (length bs) k = Some (SOCKERR_OK, bs, k') \<and> inq k' = (inq k)(a := ps))) \<and>
     (\<forall>k a bs fd ps room. inq k a = (bs, fd) # ps \<and> bs \<noteq> [] \<longrightarrow>
        (\<exists>k'. sock_recvmsg S a (length bs) room k = Some (SOCKERR_OK, bs, if room then fd else None, k') \<and>
           inq k' = (inq k)(a := ps)))"

lemma sock_laws:
  assumes "sockets_ok S inq peer"
  shows "peer a = Some b \<Longrightarrow> bs \<noteq> [] \<Longrightarrow>
      \<exists>k'. sock_write S a bs k = Some (SOCKERR_OK, k') \<and> inq k' = (inq k)(b := inq k b @ [(bs, None)])"
    "peer a = Some b \<Longrightarrow> bs \<noteq> [] \<Longrightarrow>
      \<exists>k'. sock_sendmsg S a bs fd k = Some (SOCKERR_OK, k') \<and> inq k' = (inq k)(b := inq k b @ [(bs, fd)])"
    "inq k a = (bs, None) # ps \<Longrightarrow> bs \<noteq> [] \<Longrightarrow>
      \<exists>k'. sock_read S a (length bs) k = Some (SOCKERR_OK, bs, k') \<and> inq k' = (inq k)(a := ps)"
    "inq k a = (bs, fd) # ps \<Longrightarrow> bs \<noteq> [] \<Longrightarrow>
      \<exists>k'. sock_recvmsg S a (length bs) room k = Some (SOCKERR_OK, bs, if room then fd else None, k') \<and>
        inq k' = (inq k)(a := ps)"
  using assms unfolding sockets_ok_def by blast+

text \<open>A pair of connected sockets, descriptors 3 and 4.\<close>

definition pipe_peer :: "int \<Rightarrow> int option" where
  "pipe_peer a = (if a = 3 then Some 4 else if a = 4 then Some 3 else None)"

definition pipe_send :: "int \<Rightarrow> byte list \<Rightarrow> int option \<Rightarrow> (int \<Rightarrow> packet list) \<Rightarrow> (sockres \<times> (int \<Rightarrow> packet list)) option" where
  "pipe_send a bs fd k =
     (case pipe_peer a of None \<Rightarrow> Some (SOCKERR_IO, k)
      | Some b \<Rightarrow> Some (SOCKERR_OK, k(b := k b @ [(bs, fd)])))"

definition pipe_recv :: "int \<Rightarrow> nat \<Rightarrow> bool \<Rightarrow> (int \<Rightarrow> packet list) \<Rightarrow>
    (sockres \<times> byte list \<times> int option \<times> (int \<Rightarrow> packet list)) option" where
  "pipe_recv a n room k =
     (case k a of [] \<Rightarrow> None
      | (bs, fd) # ps \<Rightarrow>
          if length bs = n then Some (SOCKERR_OK, bs, if room then fd else None, k(a := ps))
          else Some (SOCKERR_IO, [], None, k))"

definition pipe_sockio :: "(int \<Rightarrow> packet list) sockio" where
  "pipe_sockio = \<lparr>sock_read = (\<lambda>a n k. map_option (\<lambda>(r, bs, fd, k'). (r, bs, k')) (pipe_recv a n False k)),
     sock_write = (\<lambda>a bs k. pipe_send a bs None k), sock_sendmsg = pipe_send, sock_recvmsg = pipe_recv\<rparr>"

lemma pipe_sockio_ok: "sockets_ok pipe_sockio (\<lambda>k. k) pipe_peer"
  by (simp add: sockets_ok_def pipe_sockio_def pipe_send_def pipe_recv_def)

end
