(* ===== verification/ReqTypes.thy ===== *)
theory ReqTypes
  imports Sock MsgTypes
begin

text \<open>
  The data of the request protocol of MiniGUI-Processes (lecture-4/minigui-server.c and
  minigui-client.c): the structures requests and replies carry, the tables of the server, and the
  functions of MiniGUI that the handlers call. The configuration is the compositing schema with
  cursors and the clipboard.
\<close>

section \<open>Structures on the wire\<close>

text \<open>\<open>MOVETOLAYERINFO\<close> and \<open>LAYEROPINFO\<close> name a layer by handle or by name.\<close>

record layer_target =
  handle_name :: bool
  lt_handle :: dword
  lt_name :: "byte list"

datatype layer_opid = ID_LAYEROP_DELETE | ID_LAYEROP_SETTOP | Other_layerop int

record join_info =
  layer_name :: "byte list"
  client_name :: "byte list"
  max_nr_topmosts :: int
  max_nr_normals :: int

record joined_info =
  j_cli_id :: int
  j_layer :: dword
  zi_shmid :: int
  def_zi_shmid :: int

record layer_info_data =
  li_handle :: dword
  li_nr_clients :: int
  li_is_topmost :: bool
  li_cli_active :: int

text \<open>
  The layout of the structures is in headers that are not in the repository: for each one, how it
  is written and read, and the sizes the handlers use. \<open>wr_join_names\<close> stores the two names into
  a \<open>JOINLAYERINFO\<close> in memory.
\<close>

record layouts =
  put_msg :: "msg \<Rightarrow> byte list"
  rd_msg :: "byte list \<Rightarrow> msg option"
  put_movetolayer :: "layer_target \<Rightarrow> byte list"
  rd_movetolayer :: "byte list \<Rightarrow> layer_target option"
  put_layerop :: "layer_opid \<times> layer_target \<Rightarrow> byte list"
  rd_layerop :: "byte list \<Rightarrow> (layer_opid \<times> layer_target) option"
  put_join :: "join_info \<Rightarrow> byte list"
  rd_join :: "byte list \<Rightarrow> join_info option"
  wr_join_names :: "byte list \<Rightarrow> byte list \<Rightarrow> byte list \<Rightarrow> byte list"
  put_joined :: "joined_info \<Rightarrow> byte list"
  rd_joined :: "byte list \<Rightarrow> joined_info option"
  put_layer_info :: "layer_info_data \<Rightarrow> byte list"
  rd_layer_info :: "byte list \<Rightarrow> layer_info_data option"
  put_moved :: "dword \<times> int \<Rightarrow> byte list"
  rd_moved :: "byte list \<Rightarrow> (dword \<times> int) option"
  put_sharedsurf :: "uint \<Rightarrow> dword \<Rightarrow> byte list"
  RECT_SIZE :: nat
  CALCPOS_RC :: nat
  ZORDEROPINFO_SIZE :: nat
  ZORDERMASKRECT_SIZE :: nat
  IME_TARGET_SIZE :: nat
  MSG_SIZE :: nat
  JOINED_SIZE :: nat
  LAYERINFO_SIZE :: nat
  MOVED_SIZE :: nat

text \<open>\<open>INV_LAYER_HANDLE\<close> is the NULL handle.\<close>

definition INV_LAYER_HANDLE :: dword where "INV_LAYER_HANDLE = 0"

definition MSG_CALC_POSITION :: uint where "MSG_CALC_POSITION = 0x014B"
definition MSG_WAKEUP_CLIENT :: uint where "MSG_WAKEUP_CLIENT = 0x014C"
definition MSG_UPDATECLIWIN :: uint where "MSG_UPDATECLIWIN = 0x0148"
definition MSG_IME_OPEN :: uint where "MSG_IME_OPEN = 0x0153"
definition MSG_IME_CLOSE :: uint where "MSG_IME_CLOSE = 0x0154"
definition MSG_IME_SETSTATUS :: uint where "MSG_IME_SETSTATUS = 0x0156"
definition MSG_IME_GETSTATUS :: uint where "MSG_IME_GETSTATUS = 0x0157"
definition MSG_IME_SET_TARGET_INFO :: uint where "MSG_IME_SET_TARGET_INFO = 0x015C"
definition MSG_IME_GET_TARGET_INFO :: uint where "MSG_IME_GET_TARGET_INFO = 0x015D"

text \<open>\<open>LOSWORD\<close> and \<open>HISWORD\<close>: the low and the high half of 32 bits as signed words.\<close>

definition lo_sword :: "dword \<Rightarrow> int" where "lo_sword l = sint (ucast l :: 16 word)"
definition hi_sword :: "dword \<Rightarrow> int" where "hi_sword l = sint (ucast (drop_bit 16 l) :: 16 word)"

section \<open>The server's state\<close>

datatype release = NoRelease | DestroyCursor_release | Sem_release | HWSurface_release | MLShadow_release

record gres =
  gr_next :: "nat option"
  gr_prev :: "nat option"
  gr_key :: dword
  gr_res :: dword
  gr_release :: release

record mg_client =
  cl_global_res :: "nat option"
  cl_layer :: dword
  last_live_time :: uint
  has_dirty :: bool

datatype handler =
    H_load_cursor | H_create_cursor | H_destroy_cursor | H_clip_cursor | H_get_clip_cursor
  | H_set_cursor | H_get_current_cursor | H_show_cursor | H_set_cursor_pos | H_layer_info
  | H_join_layer | H_layer_op | H_zorder_op | H_im_live | H_open_ime_wnd | H_set_ime_stat
  | H_get_ime_stat | H_register_hook | H_clipboard_op | H_change_zorder_maskrect
  | H_get_ime_targetinfo | H_set_ime_targetinfo | H_copy_cursor | H_get_shared_surface
  | H_load_cursor_png_file | H_load_cursor_png_mem | H_alloc_sem | H_free_sem | H_move_to_layer
  | H_calc_position | H_authenticate_client | H_user procptr

record req_request =
  rq_handler :: "handler option"
  rq_version :: int

text \<open>\<open>srv_ext\<close> is everything outside the file that no function here looks into.\<close>

record 'k sworld =
  mgIsServer :: bool
  mgClients :: "mg_client list"
  gress :: "nat \<Rightarrow> gres option"
  handlers :: "req_request list"
  data_buff :: "byte list"
  nr_layers :: int
  nr_clients_named :: int
  ime_wnd :: hwnd
  srv_ext :: 'k

section \<open>What the server's handlers call\<close>

record 'k srvenv =
  sio :: "'k sockio"
  lay :: layouts
  s_malloc :: "(nat \<Rightarrow> gres option) \<Rightarrow> nat option"
  buf_malloc :: "nat \<Rightarrow> 'k \<Rightarrow> byte list option \<times> 'k"
  buf_free :: "'k \<Rightarrow> 'k"
  garbage :: dword
  LoadCursorFromFile :: "byte list \<Rightarrow> 'k \<Rightarrow> dword \<times> 'k"
  LoadCursorFromPNGFile :: "byte list \<Rightarrow> int \<Rightarrow> int \<Rightarrow> 'k \<Rightarrow> dword \<times> 'k"
  LoadCursorFromPNGMem :: "byte list \<Rightarrow> int \<Rightarrow> int \<Rightarrow> 'k \<Rightarrow> dword \<times> 'k"
  CreateCursor :: "int list \<Rightarrow> byte list \<Rightarrow> byte list \<Rightarrow> int \<Rightarrow> 'k \<Rightarrow> dword \<times> 'k"
  CopyCursor :: "dword \<Rightarrow> 'k \<Rightarrow> dword \<times> 'k"
  DestroyCursor :: "dword \<Rightarrow> 'k \<Rightarrow> bool \<times> 'k"
  ClipCursor :: "byte list \<Rightarrow> 'k \<Rightarrow> 'k"
  GetClipCursor :: "'k \<Rightarrow> byte list"
  SetCursorEx :: "dword \<Rightarrow> 'k \<Rightarrow> dword \<times> 'k"
  GetCurrentCursor :: "'k \<Rightarrow> dword"
  ShowCursor :: "uint \<Rightarrow> 'k \<Rightarrow> int \<times> 'k"
  SetCursorPos :: "int \<Rightarrow> int \<Rightarrow> 'k \<Rightarrow> 'k"
  alloc_surf_sem :: "'k \<Rightarrow> int \<times> 'k"
  free_surf_sem :: "int \<Rightarrow> 'k \<Rightarrow> int \<times> 'k"
  sem_key :: dword
  hw_free :: "dword \<Rightarrow> 'k \<Rightarrow> 'k"
  mls_del_surface :: "dword \<Rightarrow> 'k \<Rightarrow> 'k"
  find_layer_by_name :: "byte list \<Rightarrow> 'k \<Rightarrow> dword"
  is_valid_layer :: "dword \<Rightarrow> 'k \<Rightarrow> bool"
  zorder_shmid :: "dword \<Rightarrow> 'k \<Rightarrow> int"
  topmost_layer_name :: "'k \<Rightarrow> byte list"
  get_layer_info :: "nat \<Rightarrow> byte list \<Rightarrow> 'k \<Rightarrow> layer_info_data"
  move_client_to_layer :: "nat \<Rightarrow> dword \<Rightarrow> 'k sworld \<Rightarrow> bool \<times> 'k sworld"
  client_join_layer :: "nat \<Rightarrow> byte list \<Rightarrow> 'k sworld \<Rightarrow> joined_info \<times> 'k sworld"
  ServerDeleteLayer :: "dword \<Rightarrow> 'k sworld \<Rightarrow> bool \<times> 'k sworld"
  ServerSetTopmostLayer :: "dword \<Rightarrow> 'k sworld \<Rightarrow> bool \<times> 'k sworld"
  do_zorder_operation :: "nat \<Rightarrow> byte list \<Rightarrow> byte list \<Rightarrow> int \<Rightarrow> 'k sworld \<Rightarrow> dword \<times> 'k sworld"
  do_zorder_maskrect :: "nat \<Rightarrow> byte list \<Rightarrow> byte list \<Rightarrow> 'k sworld \<Rightarrow> dword \<times> 'k sworld"
  do_reghook :: "nat \<Rightarrow> byte list \<Rightarrow> 'k sworld \<Rightarrow> int \<times> 'k sworld"
  desktop_SendMessage :: "uint \<Rightarrow> dword \<Rightarrow> dword \<Rightarrow> byte list \<Rightarrow> 'k \<Rightarrow> dword \<times> byte list \<times> 'k"
  notify_window :: "hwnd \<Rightarrow> uint \<Rightarrow> dword \<Rightarrow> dword \<Rightarrow> 'k \<Rightarrow> 'k"
  fake_screen :: "'k \<Rightarrow> (uint \<times> (dword \<times> int) option) option"
  SYSSF_WALLPAPER :: "byte list"
  clipboard_op :: "nat \<Rightarrow> int \<Rightarrow> byte list \<Rightarrow> nat \<Rightarrow> 'k sworld \<Rightarrow> (sockres \<times> 'k sworld) option"
  user_handler :: "procptr \<Rightarrow> nat \<Rightarrow> int \<Rightarrow> byte list \<Rightarrow> nat \<Rightarrow> 'k sworld \<Rightarrow> (sockres \<times> 'k sworld) option"
  user_handler_v1 :: "procptr \<Rightarrow> nat \<Rightarrow> int \<Rightarrow> byte list \<Rightarrow> nat \<Rightarrow> int \<Rightarrow> 'k sworld \<Rightarrow> (sockres \<times> 'k sworld) option"
  remove_client :: "nat \<Rightarrow> int \<Rightarrow> 'k sworld \<Rightarrow> 'k sworld option"
  check_dirty_znode :: "nat \<Rightarrow> 'k sworld \<Rightarrow> 'k sworld"
  close_fd :: "int \<Rightarrow> 'k \<Rightarrow> 'k"
  MAX_REQID :: int
  MAX_SYS_REQID :: int
  REQMASK_FLAGS :: uint
  REQID_IAMLIVE :: int

end
