(* ===== verification/GlobalRes.thy ===== *)
theory GlobalRes
  imports ReqTypes LinkedList
begin

text \<open>
  The resources a client owns on the server (lecture-4/minigui-server.c): a doubly linked list
  per client, entered at the head by the handlers that allocate, unlinked by those that free, and
  released as a whole when the client goes.
\<close>

section \<open>The operations\<close>

definition my_release_sem :: "'k srvenv \<Rightarrow> dword \<Rightarrow> 'k \<Rightarrow> 'k" where
  "my_release_sem E res k = snd (free_surf_sem E (sint (ucast res :: uint)) k)"

text \<open>The release of a hardware surface only frees the record.\<close>

definition release_hw_surface :: "'k srvenv \<Rightarrow> dword \<Rightarrow> 'k \<Rightarrow> 'k" where
  "release_hw_surface E allocated k = hw_free E allocated k"

definition run_release :: "'k srvenv \<Rightarrow> release \<Rightarrow> dword \<Rightarrow> 'k \<Rightarrow> 'k" where
  "run_release E rel res k =
     (case rel of NoRelease \<Rightarrow> k
      | DestroyCursor_release \<Rightarrow> snd (DestroyCursor E res k)
      | Sem_release \<Rightarrow> my_release_sem E res k
      | HWSurface_release \<Rightarrow> release_hw_surface E res k
      | MLShadow_release \<Rightarrow> mls_del_surface E res k)"

definition set_client :: "nat \<Rightarrow> mg_client \<Rightarrow> 'k sworld \<Rightarrow> 'k sworld" where
  "set_client cli c w = w\<lparr>mgClients := (mgClients w)[cli := c]\<rparr>"

definition add_global_res :: "'k srvenv \<Rightarrow> nat \<Rightarrow> dword \<Rightarrow> dword \<Rightarrow> release \<Rightarrow> 'k sworld \<Rightarrow> 'k sworld option" where
  "add_global_res E cli key res rel w =
     (case s_malloc E (gress w) of
        None \<Rightarrow> Some w
      | Some a \<Rightarrow> do {
          c \<leftarrow> arr_get (mgClients w) cli;
          case cl_global_res c of
            None \<Rightarrow> Some (set_client cli (c\<lparr>cl_global_res := Some a\<rparr>)
              (w\<lparr>gress := (gress w)(a \<mapsto> \<lparr>gr_next = None, gr_prev = None, gr_key = key, gr_res = res, gr_release = rel\<rparr>)\<rparr>))
          | Some h \<Rightarrow> do {
              old \<leftarrow> gress w h;
              Some (set_client cli (c\<lparr>cl_global_res := Some a\<rparr>)
                (w\<lparr>gress := (gress w)(a \<mapsto> \<lparr>gr_next = Some h, gr_prev = None, gr_key = key, gr_res = res, gr_release = rel\<rparr>,
                                       h \<mapsto> old\<lparr>gr_prev := Some a\<rparr>)\<rparr>)) } })"

text \<open>Taking a node out of the list: its neighbours, and the client when it was the head.\<close>

definition set_gr_next :: "nat option \<Rightarrow> nat option \<Rightarrow> (nat \<Rightarrow> gres option) \<Rightarrow> (nat \<Rightarrow> gres option) option" where
  "set_gr_next p n h = (case p of None \<Rightarrow> Some h | Some a \<Rightarrow> do { g \<leftarrow> h a; Some (h(a \<mapsto> g\<lparr>gr_next := n\<rparr>)) })"

definition set_gr_prev :: "nat option \<Rightarrow> nat option \<Rightarrow> (nat \<Rightarrow> gres option) \<Rightarrow> (nat \<Rightarrow> gres option) option" where
  "set_gr_prev n p h = (case n of None \<Rightarrow> Some h | Some a \<Rightarrow> do { g \<leftarrow> h a; Some (h(a \<mapsto> g\<lparr>gr_prev := p\<rparr>)) })"

definition unlink_res :: "nat \<Rightarrow> nat \<Rightarrow> gres \<Rightarrow> 'k sworld \<Rightarrow> 'k sworld option" where
  "unlink_res cli a g w = do {
     h1 \<leftarrow> set_gr_next (gr_prev g) (gr_next g) (gress w);
     h2 \<leftarrow> set_gr_prev (gr_next g) (gr_prev g) h1;
     c \<leftarrow> arr_get (mgClients w) cli;
     let w1 = w\<lparr>gress := h2(a := None)\<rparr>;
     Some (if Some a = cl_global_res c then set_client cli (c\<lparr>cl_global_res := gr_next g\<rparr>) w1 else w1) }"

partial_function (option) del_res_from ::
    "'k srvenv \<Rightarrow> nat \<Rightarrow> dword \<Rightarrow> dword \<Rightarrow> nat option \<Rightarrow> 'k sworld \<Rightarrow> 'k sworld option" where
  "del_res_from E cli key res p w =
     (case p of
        None \<Rightarrow> Some w
      | Some a \<Rightarrow> do {
          g \<leftarrow> gress w a;
          if gr_key g = key \<and> gr_res g = res
          then unlink_res cli a g (w\<lparr>srv_ext := run_release E (gr_release g) (gr_res g) (srv_ext w)\<rparr>)
          else del_res_from E cli key res (gr_next g) w })"

definition del_global_res :: "'k srvenv \<Rightarrow> nat \<Rightarrow> dword \<Rightarrow> dword \<Rightarrow> 'k sworld \<Rightarrow> 'k sworld option" where
  "del_global_res E cli key res w = do {
     c \<leftarrow> arr_get (mgClients w) cli;
     del_res_from E cli key res (cl_global_res c) w }"

partial_function (option) release_from :: "'k srvenv \<Rightarrow> nat option \<Rightarrow> 'k sworld \<Rightarrow> 'k sworld option" where
  "release_from E p w =
     (case p of
        None \<Rightarrow> Some w
      | Some a \<Rightarrow> do {
          g \<leftarrow> gress w a;
          release_from E (gr_next g)
            (w\<lparr>gress := (gress w)(a := None), srv_ext := run_release E (gr_release g) (gr_res g) (srv_ext w)\<rparr>) })"

definition mg_release_global_res :: "'k srvenv \<Rightarrow> nat \<Rightarrow> 'k sworld \<Rightarrow> 'k sworld option" where
  "mg_release_global_res E cli w = do {
     c \<leftarrow> arr_get (mgClients w) cli;
     release_from E (cl_global_res c) w }"

section \<open>The list behind the pointers\<close>

text \<open>\<open>dseg h prev p as l r\<close>: from \<open>p\<close> the next fields visit \<open>as\<close> and arrive at \<open>r\<close>, the previous
  fields point back, the first one to \<open>prev\<close>; \<open>l\<close> is the last node (or \<open>prev\<close>).\<close>

fun dseg :: "(nat \<Rightarrow> gres option) \<Rightarrow> nat option \<Rightarrow> nat option \<Rightarrow> nat list \<Rightarrow> nat option \<Rightarrow> nat option \<Rightarrow> bool" where
  "dseg h prev p [] l r = (p = r \<and> prev = l)"
| "dseg h prev p (a # as) l r =
     (p = Some a \<and> (case h a of None \<Rightarrow> False
        | Some g \<Rightarrow> gr_prev g = prev \<and> dseg h (Some a) (gr_next g) as l r))"

lemma dseg_append [list_simps]:
  "dseg h q p (as @ bs) l r \<longleftrightarrow> (\<exists>k m. dseg h q p as k m \<and> dseg h k m bs l r)"
  by (induction as arbitrary: q p) (auto split: option.splits)

lemma dseg_upd [list_simps]: "a \<notin> set as \<Longrightarrow> dseg (h(a := x)) q p as l r = dseg h q p as l r"
  by (induction as arbitrary: q p) (auto split: option.splits)

lemma dseg_mem: "dseg h q p as l r \<Longrightarrow> a \<in> set as \<Longrightarrow> \<exists>g. h a = Some g"
  by (induction as arbitrary: q p) (auto split: option.splits)

lemma dseg_cong: "(\<And>a. a \<in> set as \<Longrightarrow> h' a = h a) \<Longrightarrow> dseg h' q p as l r = dseg h q p as l r"
  by (induction as arbitrary: q p) (auto split: option.splits)

lemma dseg_set_next:
  "dseg h q p (as @ [x]) l r \<Longrightarrow> x \<notin> set as \<Longrightarrow> h x = Some g \<Longrightarrow>
     dseg (h(x \<mapsto> g\<lparr>gr_next := r'\<rparr>)) q p (as @ [x]) l r'"
  by (auto simp: dseg_append dseg_upd)

lemma dseg_set_prev:
  "dseg h q p (x # as) l r \<Longrightarrow> x \<notin> set as \<Longrightarrow> h x = Some g \<Longrightarrow>
     dseg (h(x \<mapsto> g\<lparr>gr_prev := q'\<rparr>)) q' p (x # as) l r"
  by (auto simp: dseg_upd)

type_synonym res_entry = "dword \<times> dword \<times> release"

definition entry_of :: "gres \<Rightarrow> res_entry" where
  "entry_of g = (gr_key g, gr_res g, gr_release g)"

lemma entry_of_links [simp]:
  "entry_of (g\<lparr>gr_next := n\<rparr>) = entry_of g" "entry_of (g\<lparr>gr_prev := n\<rparr>) = entry_of g"
  by (simp_all add: entry_of_def)

lemma payload_links:
  "h x = Some g \<Longrightarrow> payload entry_of (h(x \<mapsto> g\<lparr>gr_next := n\<rparr>)) as = payload entry_of h as"
  "h x = Some g \<Longrightarrow> payload entry_of (h(x \<mapsto> g\<lparr>gr_prev := n\<rparr>)) as = payload entry_of h as"
  by (auto simp: payload_def)

text \<open>Unlinking a node: the rest of the list stays linked, no other node changes its entry.\<close>

lemma unlink_next:
  assumes "dseg h None p xs k m" "distinct xs"
    and "k = None \<or> h (the k) \<noteq> None"
  shows "\<exists>h1. set_gr_next k n h = Some h1 \<and> dseg h1 None (if xs = [] then n else p) xs k n \<and>
    (\<forall>x. x \<notin> set xs \<longrightarrow> h1 x = h x) \<and> (\<forall>as. payload entry_of h1 as = payload entry_of h as)"
proof (cases xs rule: rev_cases)
  case Nil
  then show ?thesis using assms(1) by (simp add: set_gr_next_def)
next
  case (snoc ys y)
  then have k: "k = Some y" using assms(1) by (auto simp: dseg_append split: option.splits)
  then obtain g where g: "h y = Some g" using assms(3) by auto
  show ?thesis
    using dseg_set_next [of h None p ys y k m g n] assms(1,2) k g snoc payload_links(1) [of h y g n]
    by (auto simp: set_gr_next_def)
qed

lemma unlink_prev:
  assumes "dseg h k n ys l None" "distinct ys"
  shows "\<exists>h1. set_gr_prev n q h = Some h1 \<and> (\<exists>l'. dseg h1 q n ys l' None) \<and>
    (\<forall>x. x \<notin> set ys \<longrightarrow> h1 x = h x) \<and> (\<forall>as. payload entry_of h1 as = payload entry_of h as)"
proof (cases ys)
  case Nil
  then show ?thesis using assms(1) by (auto simp: set_gr_prev_def)
next
  case (Cons y zs)
  then obtain g where g: "h y = Some g" "n = Some y" using assms(1) by (auto split: option.splits)
  show ?thesis
    using dseg_set_prev [of h k n y zs l None g q] assms g Cons payload_links(2) [of h y g q]
    by (auto simp: set_gr_prev_def)
qed

lemma unlink_mid:
  assumes d: "dseg h None p (xs @ a # ys) l None" "distinct (xs @ a # ys)" and g: "h a = Some g"
  shows "\<exists>h2 l'. (do { h1 \<leftarrow> set_gr_next (gr_prev g) (gr_next g) h; set_gr_prev (gr_next g) (gr_prev g) h1 }) = Some h2 \<and>
    dseg (h2(a := None)) None (if xs = [] then gr_next g else p) (xs @ ys) l' None \<and>
    (\<forall>x. x \<notin> set (xs @ ys) \<longrightarrow> h2 x = h x) \<and> (\<forall>as. payload entry_of h2 as = payload entry_of h as)"
proof -
  have x: "dseg h None p xs (gr_prev g) (Some a)" and y: "dseg h (Some a) (gr_next g) ys l None"
    using d(1) g by (auto simp: dseg_append)
  have k: "gr_prev g = None \<or> h (the (gr_prev g)) \<noteq> None"
    using x by (cases xs rule: rev_cases) (auto simp: dseg_append split: option.splits)
  from unlink_next [OF x _ k, of "gr_next g"] d(2) obtain h1 where h1: "set_gr_next (gr_prev g) (gr_next g) h = Some h1"
    "dseg h1 None (if xs = [] then gr_next g else p) xs (gr_prev g) (gr_next g)"
    "\<forall>x. x \<notin> set xs \<longrightarrow> h1 x = h x" "\<forall>as. payload entry_of h1 as = payload entry_of h as" by auto
  have "dseg h1 (Some a) (gr_next g) ys l None"
    using y h1(3) d(2) by (subst dseg_cong [of ys h1 h]) auto
  from unlink_prev [OF this, of "gr_prev g"] d(2) obtain h2 l' where h2: "set_gr_prev (gr_next g) (gr_prev g) h1 = Some h2"
    "dseg h2 (gr_prev g) (gr_next g) ys l' None"
    "\<forall>x. x \<notin> set ys \<longrightarrow> h2 x = h1 x" "\<forall>as. payload entry_of h2 as = payload entry_of h1 as" by auto
  have "dseg h2 None (if xs = [] then gr_next g else p) xs (gr_prev g) (gr_next g)"
    using h1(2) h2(3) d(2) by (subst dseg_cong [of xs h2 h1]) auto
  then have "dseg h2 None (if xs = [] then gr_next g else p) (xs @ ys) l' None"
    unfolding dseg_append using h2(2) by blast
  then show ?thesis using h1 h2 d(2) by (auto simp: dseg_upd)
qed

section \<open>What a client owns\<close>

definition owned :: "'k sworld \<Rightarrow> nat \<Rightarrow> nat list \<Rightarrow> res_entry list \<Rightarrow> bool" where
  "owned w cli as rs \<longleftrightarrow> cli < length (mgClients w) \<and> distinct as \<and> rs = payload entry_of (gress w) as \<and>
     (\<exists>l. dseg (gress w) None (cl_global_res (mgClients w ! cli)) as l None)"

text \<open>The specification: a list, newest first.\<close>

definition matches :: "dword \<Rightarrow> dword \<Rightarrow> res_entry \<Rightarrow> bool" where
  "matches key res = (\<lambda>(k, r, rel). k = key \<and> r = res)"

fun drop_first :: "('a \<Rightarrow> bool) \<Rightarrow> 'a list \<Rightarrow> 'a list" where
  "drop_first P [] = []"
| "drop_first P (x # xs) = (if P x then xs else x # drop_first P xs)"

definition release_entry :: "'k srvenv \<Rightarrow> res_entry \<Rightarrow> 'k \<Rightarrow> 'k" where
  "release_entry E = (\<lambda>(k, r, rel). run_release E rel r)"

lemma release_entry_of: "release_entry E (entry_of g) k = run_release E (gr_release g) (gr_res g) k"
  by (simp add: release_entry_def entry_of_def)

datatype res_op = Add_res dword dword release | Del_res dword dword

primrec res_step :: "'k srvenv \<Rightarrow> nat \<Rightarrow> res_op \<Rightarrow> 'k sworld \<Rightarrow> 'k sworld option" where
  "res_step E cli (Add_res key res rel) w = add_global_res E cli key res rel w"
| "res_step E cli (Del_res key res) w = del_global_res E cli key res w"

primrec spec_step :: "'k srvenv \<Rightarrow> res_op \<Rightarrow> res_entry list \<times> 'k \<Rightarrow> res_entry list \<times> 'k" where
  "spec_step E (Add_res key res rel) s = ((key, res, rel) # fst s, snd s)"
| "spec_step E (Del_res key res) s =
     (drop_first (matches key res) (fst s),
      case List.find (matches key res) (fst s) of None \<Rightarrow> snd s | Some e \<Rightarrow> release_entry E e (snd s))"

definition malloc_ok :: "'k srvenv \<Rightarrow> bool" where
  "malloc_ok E \<longleftrightarrow> (\<forall>h. finite (dom h) \<longrightarrow> (\<exists>a. s_malloc E h = Some a \<and> h a = None))"

lemma payload_cons_upd:
  "a \<notin> set as \<Longrightarrow> payload dat (h(a := x)) as = payload dat h as"
  by simp

lemma add_global_res_owned:
  assumes "malloc_ok E" "finite (dom (gress w))" "owned w cli as rs"
  shows "\<exists>a w'. add_global_res E cli key res rel w = Some w' \<and> gress w a = None \<and>
    owned w' cli (a # as) ((key, res, rel) # rs) \<and> srv_ext w' = srv_ext w \<and>
    (\<forall>x. x \<notin> set (a # as) \<longrightarrow> gress w' x = gress w x)"
proof -
  obtain a where a: "s_malloc E (gress w) = Some a" "gress w a = None"
    using assms(1,2) unfolding malloc_ok_def by blast
  let ?c = "mgClients w ! cli"
  obtain l where o: "cli < length (mgClients w)" "distinct as" "rs = payload entry_of (gress w) as"
    "dseg (gress w) None (cl_global_res ?c) as l None" using assms(3) by (auto simp: owned_def)
  have na: "a \<notin> set as" using dseg_mem [OF o(4), of a] a(2) by auto
  show ?thesis
  proof (cases as)
    case Nil
    then have "cl_global_res ?c = None" using o(4) by simp
    then show ?thesis using a o Nil
      by (auto simp: add_global_res_def arr_get_in owned_def set_client_def entry_of_def)
  next
    case (Cons h hs)
    then obtain old where h: "cl_global_res ?c = Some h" "gress w h = Some old"
      using o(4) by (auto split: option.splits)
    let ?h1 = "(gress w)(a \<mapsto> \<lparr>gr_next = Some h, gr_prev = None, gr_key = key, gr_res = res, gr_release = rel\<rparr>)"
    let ?h2 = "?h1(h \<mapsto> old\<lparr>gr_prev := Some a\<rparr>)"
    have ne: "h \<noteq> a" using na Cons by simp
    have "dseg ?h1 None (Some h) (h # hs) l None" using o(4) na h(1) Cons by (simp only: dseg_upd not_False_eq_True)
    then have "dseg ?h2 (Some a) (Some h) as l None"
      using dseg_set_prev [of ?h1 None "Some h" h hs l None old "Some a"] o(2) Cons h(2) ne by auto
    moreover have "payload entry_of ?h2 as = rs"
      using payload_links(2) [of ?h1 h old "Some a" as] h(2) ne na o(3) by simp
    ultimately show ?thesis using a o h ne na Cons
      by (auto simp: add_global_res_def arr_get_in owned_def set_client_def entry_of_def)
  qed
qed

text \<open>Nothing but the client's own nodes is in memory beyond \<open>g0\<close>.\<close>

definition holds :: "(nat \<Rightarrow> gres option) \<Rightarrow> 'k sworld \<Rightarrow> nat \<Rightarrow> nat list \<Rightarrow> res_entry list \<Rightarrow> bool" where
  "holds g0 w cli as rs \<longleftrightarrow> owned w cli as rs \<and> (\<forall>x. x \<notin> set as \<longrightarrow> gress w x = g0 x) \<and> (\<forall>x \<in> set as. g0 x = None)"

lemma holds_finite: "holds g0 w cli as rs \<Longrightarrow> finite (dom g0) \<Longrightarrow> finite (dom (gress w))"
proof -
  assume h: "holds g0 w cli as rs" and f: "finite (dom g0)"
  have "dom (gress w) \<subseteq> dom g0 \<union> set as" using h by (auto simp: holds_def dom_def)
  then show ?thesis using f by (meson finite_Un finite_set finite_subset)
qed

lemma del_res_from_holds:
  assumes "holds g0 w cli (xs @ ys) rs" "\<exists>k l. dseg (gress w) k p ys l None"
    and "\<forall>e \<in> set (payload entry_of (gress w) xs). \<not> matches key res e"
  shows "\<exists>w' as. del_res_from E cli key res p w = Some w' \<and>
    holds g0 w' cli as (payload entry_of (gress w) xs @ drop_first (matches key res) (payload entry_of (gress w) ys)) \<and>
    srv_ext w' = (case List.find (matches key res) (payload entry_of (gress w) ys) of
      None \<Rightarrow> srv_ext w | Some e \<Rightarrow> release_entry E e (srv_ext w))"
  using assms
proof (induction ys arbitrary: xs p)
  case Nil
  then have "p = None" by auto
  then show ?case using Nil.prems(1)
    by (subst del_res_from.simps) (auto simp: holds_def owned_def)
next
  case (Cons a ys)
  then obtain k l where kl: "dseg (gress w) k p (a # ys) l None" by blast
  then obtain g where g: "p = Some a" "gress w a = Some g" "dseg (gress w) (Some a) (gr_next g) ys l None"
    by (auto split: option.splits)
  show ?case
  proof (cases "gr_key g = key \<and> gr_res g = res")
    case False
    have "\<exists>w' as. del_res_from E cli key res (gr_next g) w = Some w' \<and>
      holds g0 w' cli as (payload entry_of (gress w) (xs @ [a]) @ drop_first (matches key res) (payload entry_of (gress w) ys)) \<and>
      srv_ext w' = (case List.find (matches key res) (payload entry_of (gress w) ys) of
        None \<Rightarrow> srv_ext w | Some e \<Rightarrow> release_entry E e (srv_ext w))"
      by (rule Cons.IH) (use Cons.prems g False in \<open>auto simp: matches_def entry_of_def\<close>)
    then show ?thesis using g False
      by (subst del_res_from.simps) (auto simp: matches_def entry_of_def)
  next
    case True
    let ?w1 = "w\<lparr>srv_ext := run_release E (gr_release g) (gr_res g) (srv_ext w)\<rparr>"
    let ?c = "mgClients w ! cli"
    obtain l0 where o: "cli < length (mgClients w)" "distinct (xs @ a # ys)"
      "dseg (gress w) None (cl_global_res ?c) (xs @ a # ys) l0 None"
      using Cons.prems(1) by (auto simp: holds_def owned_def)
    from unlink_mid [OF o(3,2) g(2)] obtain h1 h2 l' where h:
      "set_gr_next (gr_prev g) (gr_next g) (gress w) = Some h1" "set_gr_prev (gr_next g) (gr_prev g) h1 = Some h2"
      "dseg (h2(a := None)) None (if xs = [] then gr_next g else cl_global_res ?c) (xs @ ys) l' None"
      "\<forall>x. x \<notin> set (xs @ ys) \<longrightarrow> h2 x = gress w x"
      "\<forall>as. payload entry_of h2 as = payload entry_of (gress w) as"
      by (auto split: bind_splits)
    have hd: "Some a = cl_global_res ?c \<longleftrightarrow> xs = []"
      using o(2,3) by (cases xs) (auto split: option.splits)
    let ?w2 = "if xs = [] then set_client cli (?c\<lparr>cl_global_res := gr_next g\<rparr>) (?w1\<lparr>gress := h2(a := None)\<rparr>)
      else ?w1\<lparr>gress := h2(a := None)\<rparr>"
    have run: "del_res_from E cli key res p w = Some ?w2"
      using g True h(1,2) o(1) hd
      by (subst del_res_from.simps) (auto simp: unlink_res_def arr_get_in)
    have pl: "payload entry_of (h2(a := None)) (xs @ ys) = payload entry_of (gress w) (xs @ ys)"
      using h(5) o(2) by simp
    have gr: "gress ?w2 = h2(a := None)" "srv_ext ?w2 = run_release E (gr_release g) (gr_res g) (srv_ext w)"
      by (simp_all add: set_client_def)
    have own: "owned ?w2 cli (xs @ ys) (payload entry_of (gress w) (xs @ ys))"
      using h(3) o(1,2) pl by (auto simp: owned_def set_client_def)
    have m: "matches key res (entry_of g)" using True by (simp add: matches_def entry_of_def)
    have "holds g0 ?w2 cli (xs @ ys) (payload entry_of (gress w) (xs @ ys))"
      using own Cons.prems(1) h(4) gr(1) unfolding holds_def by auto
    then show ?thesis using run gr(2) m g(2)
      by (intro exI [of _ ?w2] exI [of _ "xs @ ys"]) (simp add: release_entry_of)
  qed
qed

lemma release_from_holds:
  assumes "\<exists>k l. dseg (gress w) k p as l None" "distinct as"
  shows "\<exists>w'. release_from E p w = Some w' \<and> srv_ext w' = fold (release_entry E) (payload entry_of (gress w) as) (srv_ext w) \<and>
    gress w' = (\<lambda>x. if x \<in> set as then None else gress w x) \<and> mgClients w' = mgClients w"
  using assms
proof (induction as arbitrary: p w)
  case Nil
  then show ?case by (subst release_from.simps) (auto simp: fun_eq_iff)
next
  case (Cons a as)
  then obtain g l where g: "p = Some a" "gress w a = Some g" "dseg (gress w) (Some a) (gr_next g) as l None"
    by (auto split: option.splits)
  let ?w = "w\<lparr>gress := (gress w)(a := None), srv_ext := run_release E (gr_release g) (gr_res g) (srv_ext w)\<rparr>"
  have "\<exists>k l. dseg (gress ?w) k (gr_next g) as l None" using g(3) Cons.prems(2) by (auto simp: dseg_upd)
  moreover have "distinct as" using Cons.prems(2) by simp
  ultimately obtain w' where w': "release_from E (gr_next g) ?w = Some w'"
    "srv_ext w' = fold (release_entry E) (payload entry_of (gress ?w) as) (srv_ext ?w)"
    "gress w' = (\<lambda>x. if x \<in> set as then None else gress ?w x)" "mgClients w' = mgClients ?w" using Cons.IH [of ?w "gr_next g"] by blast
  have "payload entry_of (gress ?w) as = payload entry_of (gress w) as" using Cons.prems(2) by simp
  then have "srv_ext w' = fold (release_entry E) (payload entry_of (gress w) (a # as)) (srv_ext w)"
    using w'(2) g(2) by (simp add: release_entry_of)
  then show ?case using w'(1,3,4) g
    by (subst release_from.simps) (auto simp: fun_eq_iff)
qed

end
