(* ===== verification/Server.thy ===== *)
theory Server
  imports GlobalRes
begin

text \<open>
  The server's side of the request protocol (lecture-4/minigui-server.c): the replies, one
  definition per request handler, the table of handlers, and the reading and dispatching of a
  request. A handler gets the memory at \<open>buff\<close> (the static buffer with what earlier requests left
  in it, or an allocated one) and the length of the request; \<open>None\<close> is a fault.
\<close>

section \<open>Replies\<close>

definition ServerSendReplyEx :: "'k srvenv \<Rightarrow> int \<Rightarrow> byte list \<Rightarrow> int \<Rightarrow> 'k sworld \<Rightarrow> (sockres \<times> 'k sworld) option" where
  "ServerSendReplyEx E clifd reply fd_to_send w =
     (if \<not> mgIsServer w then Some (SOCKERR_IO, w)
      else do {
        (n, k) \<leftarrow> sock_write (sio E) clifd (put_msg (lay E) (zero_msg\<lparr>msg_hwnd := HWND_INVALID\<rparr>)) (srv_ext w);
        if sock_failed n then Some (SOCKERR_IO, w\<lparr>srv_ext := k\<rparr>)
        else do {
          (n, k) \<leftarrow> sock_sendmsg (sio E) clifd reply (if fd_to_send \<ge> 0 then Some fd_to_send else None) k;
          Some (n, w\<lparr>srv_ext := k\<rparr>) } })"

text \<open>\<open>ServerSendReply\<close>, the wrapper of minigui.h without a descriptor.\<close>

abbreviation ServerSendReply :: "'k srvenv \<Rightarrow> int \<Rightarrow> byte list \<Rightarrow> 'k sworld \<Rightarrow> (sockres \<times> 'k sworld) option" where
  "ServerSendReply E clifd reply w \<equiv> ServerSendReplyEx E clifd reply (-1) w"

text \<open>Recording a new cursor as the client's and replying its handle.\<close>

definition reply_cursor :: "'k srvenv \<Rightarrow> nat \<Rightarrow> int \<Rightarrow> dword \<Rightarrow> release \<Rightarrow> 'k sworld \<Rightarrow> (sockres \<times> 'k sworld) option" where
  "reply_cursor E cli clifd hcsr rel w = do {
     w1 \<leftarrow> (if hcsr \<noteq> 0 then add_global_res E cli hcsr hcsr rel w else Some w);
     ServerSendReply E clifd (put_size hcsr) w1 }"

text \<open>A handler that writes into its buffer: the static one keeps it (an allocated one is longer).\<close>

definition write_back :: "byte list \<Rightarrow> 'k sworld \<Rightarrow> 'k sworld" where
  "write_back buff w = (if length buff = length (data_buff w) then w\<lparr>data_buff := buff\<rparr> else w)"

section \<open>Cursors\<close>

definition load_cursor :: "'k srvenv \<Rightarrow> nat \<Rightarrow> int \<Rightarrow> byte list \<Rightarrow> nat \<Rightarrow> 'k sworld \<Rightarrow> (sockres \<times> 'k sworld) option" where
  "load_cursor E cli clifd buff len w = do {
     name \<leftarrow> c_string buff;
     let (hcsr, k) = LoadCursorFromFile E name (srv_ext w);
     reply_cursor E cli clifd hcsr DestroyCursor_release (w\<lparr>srv_ext := k\<rparr>) }"

definition load_cursor_png_file :: "'k srvenv \<Rightarrow> nat \<Rightarrow> int \<Rightarrow> byte list \<Rightarrow> nat \<Rightarrow> 'k sworld \<Rightarrow> (sockres \<times> 'k sworld) option" where
  "load_cursor_png_file E cli clifd buff len w =
     (if len \<le> 8 + 1 then ServerSendReply E clifd (put_size 0) w
      else do {
        x \<leftarrow> rd_int 0 buff; y \<leftarrow> rd_int 4 buff;
        name \<leftarrow> c_string (drop 8 buff);
        let (hcsr, k) = LoadCursorFromPNGFile E name x y (srv_ext w);
        reply_cursor E cli clifd hcsr DestroyCursor_release (w\<lparr>srv_ext := k\<rparr>) })"

text \<open>When the request is too short, the handle in the reply was never assigned.\<close>

definition load_cursor_png_mem :: "'k srvenv \<Rightarrow> nat \<Rightarrow> int \<Rightarrow> byte list \<Rightarrow> nat \<Rightarrow> 'k sworld \<Rightarrow> (sockres \<times> 'k sworld) option" where
  "load_cursor_png_mem E cli clifd buff len w =
     (if len < 8 + 67 then ServerSendReply E clifd (put_size (garbage E)) w
      else do {
        x \<leftarrow> rd_int 0 buff; y \<leftarrow> rd_int 4 buff;
        let (hcsr, k) = LoadCursorFromPNGMem E (take (len - 8) (drop 8 buff)) x y (srv_ext w);
        reply_cursor E cli clifd hcsr DestroyCursor_release (w\<lparr>srv_ext := k\<rparr>) })"

definition create_cursor :: "'k srvenv \<Rightarrow> nat \<Rightarrow> int \<Rightarrow> byte list \<Rightarrow> nat \<Rightarrow> 'k sworld \<Rightarrow> (sockres \<times> 'k sworld) option" where
  "create_cursor E cli clifd buff len w = do {
     t0 \<leftarrow> rd_int 0 buff; t1 \<leftarrow> rd_int 4 buff; t2 \<leftarrow> rd_int 8 buff; t3 \<leftarrow> rd_int 12 buff;
     t4 \<leftarrow> rd_int 16 buff; t5 \<leftarrow> rd_int 20 buff;
     if 24 + t5 < 0 \<or> int (length buff) < 24 + t5 then None
     else
       let (hcsr, k) = CreateCursor E [t0, t1, t2, t3] (drop 24 buff) (drop (nat (24 + t5)) buff) t4 (srv_ext w)
       in reply_cursor E cli clifd hcsr NoRelease (w\<lparr>srv_ext := k\<rparr>) }"

definition copy_cursor :: "'k srvenv \<Rightarrow> nat \<Rightarrow> int \<Rightarrow> byte list \<Rightarrow> nat \<Rightarrow> 'k sworld \<Rightarrow> (sockres \<times> 'k sworld) option" where
  "copy_cursor E cli clifd buff len w = do {
     h \<leftarrow> rd_size 0 buff;
     let (hcsr, k) = CopyCursor E h (srv_ext w);
     reply_cursor E cli clifd hcsr NoRelease (w\<lparr>srv_ext := k\<rparr>) }"

definition destroy_cursor :: "'k srvenv \<Rightarrow> nat \<Rightarrow> int \<Rightarrow> byte list \<Rightarrow> nat \<Rightarrow> 'k sworld \<Rightarrow> (sockres \<times> 'k sworld) option" where
  "destroy_cursor E cli clifd buff len w = do {
     hcsr \<leftarrow> rd_size 0 buff;
     let (ret_value, k) = DestroyCursor E hcsr (srv_ext w);
     w1 \<leftarrow> del_global_res E cli hcsr hcsr (w\<lparr>srv_ext := k\<rparr>);
     ServerSendReply E clifd (put_int (if ret_value then 1 else 0)) w1 }"

definition clip_cursor :: "'k srvenv \<Rightarrow> nat \<Rightarrow> int \<Rightarrow> byte list \<Rightarrow> nat \<Rightarrow> 'k sworld \<Rightarrow> (sockres \<times> 'k sworld) option" where
  "clip_cursor E cli clifd buff len w =
     (if RECT_SIZE (lay E) \<le> length buff
      then Some (SOCKERR_OK, w\<lparr>srv_ext := ClipCursor E (take (RECT_SIZE (lay E)) buff) (srv_ext w)\<rparr>)
      else None)"

definition get_clip_cursor :: "'k srvenv \<Rightarrow> nat \<Rightarrow> int \<Rightarrow> byte list \<Rightarrow> nat \<Rightarrow> 'k sworld \<Rightarrow> (sockres \<times> 'k sworld) option" where
  "get_clip_cursor E cli clifd buff len w = ServerSendReply E clifd (GetClipCursor E (srv_ext w)) w"

definition set_cursor :: "'k srvenv \<Rightarrow> nat \<Rightarrow> int \<Rightarrow> byte list \<Rightarrow> nat \<Rightarrow> 'k sworld \<Rightarrow> (sockres \<times> 'k sworld) option" where
  "set_cursor E cli clifd buff len w = do {
     hcsr \<leftarrow> rd_size 0 buff;
     let (old, k) = SetCursorEx E hcsr (srv_ext w);
     ServerSendReply E clifd (put_size old) (w\<lparr>srv_ext := k\<rparr>) }"

definition get_current_cursor :: "'k srvenv \<Rightarrow> nat \<Rightarrow> int \<Rightarrow> byte list \<Rightarrow> nat \<Rightarrow> 'k sworld \<Rightarrow> (sockres \<times> 'k sworld) option" where
  "get_current_cursor E cli clifd buff len w = ServerSendReply E clifd (put_size (GetCurrentCursor E (srv_ext w))) w"

definition show_cursor :: "'k srvenv \<Rightarrow> nat \<Rightarrow> int \<Rightarrow> byte list \<Rightarrow> nat \<Rightarrow> 'k sworld \<Rightarrow> (sockres \<times> 'k sworld) option" where
  "show_cursor E cli clifd buff len w = do {
     show_hide \<leftarrow> rd_uint 0 buff;
     let (ret_value, k) = ShowCursor E show_hide (srv_ext w);
     ServerSendReply E clifd (put_int ret_value) (w\<lparr>srv_ext := k\<rparr>) }"

definition set_cursor_pos :: "'k srvenv \<Rightarrow> nat \<Rightarrow> int \<Rightarrow> byte list \<Rightarrow> nat \<Rightarrow> 'k sworld \<Rightarrow> (sockres \<times> 'k sworld) option" where
  "set_cursor_pos E cli clifd buff len w = do {
     x \<leftarrow> rd_int 0 buff; y \<leftarrow> rd_int 4 buff;
     Some (SOCKERR_OK, w\<lparr>srv_ext := SetCursorPos E x y (srv_ext w)\<rparr>) }"

section \<open>Semaphores of shared surfaces\<close>

definition alloc_sem_for_shared_surf :: "'k srvenv \<Rightarrow> nat \<Rightarrow> int \<Rightarrow> byte list \<Rightarrow> nat \<Rightarrow> 'k sworld \<Rightarrow> (sockres \<times> 'k sworld) option" where
  "alloc_sem_for_shared_surf E cli clifd buff len w =
     (let (sem_num, k) = alloc_surf_sem E (srv_ext w); w1 = w\<lparr>srv_ext := k\<rparr> in do {
        w2 \<leftarrow> (if sem_num \<ge> 0 then add_global_res E cli (sem_key E) (word_of_int sem_num) Sem_release w1 else Some w1);
        ServerSendReply E clifd (put_int sem_num) w2 })"

definition free_sem_for_shared_surf :: "'k srvenv \<Rightarrow> nat \<Rightarrow> int \<Rightarrow> byte list \<Rightarrow> nat \<Rightarrow> 'k sworld \<Rightarrow> (sockres \<times> 'k sworld) option" where
  "free_sem_for_shared_surf E cli clifd buff len w = do {
     sem_num \<leftarrow> rd_int 0 buff;
     w1 \<leftarrow> del_global_res E cli (sem_key E) (word_of_int sem_num) w;
     ServerSendReply E clifd (put_int 0) w1 }"

section \<open>Layers and z-orders\<close>

definition target_layer :: "'k srvenv \<Rightarrow> nat \<Rightarrow> layer_target \<Rightarrow> 'k sworld \<Rightarrow> dword option" where
  "target_layer E cli info w =
     (if \<not> handle_name info then
        if lt_name info = [] then do { c \<leftarrow> arr_get (mgClients w) cli; Some (cl_layer c) }
        else Some (find_layer_by_name E (lt_name info) (srv_ext w))
      else Some (lt_handle info))"

definition move_to_layer :: "'k srvenv \<Rightarrow> nat \<Rightarrow> int \<Rightarrow> byte list \<Rightarrow> nat \<Rightarrow> 'k sworld \<Rightarrow> (sockres \<times> 'k sworld) option" where
  "move_to_layer E cli clifd buff len w = do {
     info \<leftarrow> rd_movetolayer (lay E) buff;
     dst \<leftarrow> target_layer E cli info w;
     if dst = 0 \<or> \<not> is_valid_layer E dst (srv_ext w)
     then ServerSendReply E clifd (put_moved (lay E) (INV_LAYER_HANDLE, 0)) w
     else
       let (moved, w1) = move_client_to_layer E cli dst w in
       ServerSendReply E clifd
         (put_moved (lay E) (if moved then (dst, zorder_shmid E dst (srv_ext w1)) else (INV_LAYER_HANDLE, 0))) w1 }"

definition calc_position :: "'k srvenv \<Rightarrow> nat \<Rightarrow> int \<Rightarrow> byte list \<Rightarrow> nat \<Rightarrow> 'k sworld \<Rightarrow> (sockres \<times> 'k sworld) option" where
  "calc_position E cli clifd buff len w =
     (let (r, buff', k) = desktop_SendMessage E MSG_CALC_POSITION (of_nat cli) 0 buff (srv_ext w) in
      if CALCPOS_RC (lay E) + RECT_SIZE (lay E) \<le> length buff'
      then ServerSendReply E clifd (take (RECT_SIZE (lay E)) (drop (CALCPOS_RC (lay E)) buff'))
             (write_back buff' (w\<lparr>srv_ext := k\<rparr>))
      else None)"

definition layer_info :: "'k srvenv \<Rightarrow> nat \<Rightarrow> int \<Rightarrow> byte list \<Rightarrow> nat \<Rightarrow> 'k sworld \<Rightarrow> (sockres \<times> 'k sworld) option" where
  "layer_info E cli clifd buff len w = do {
     name \<leftarrow> c_string buff;
     ServerSendReply E clifd (put_layer_info (lay E) (get_layer_info E cli name (srv_ext w))) w }"

fun decimal :: "nat \<Rightarrow> byte list" where
  "decimal n = (if n < 10 then [48 + of_nat n] else decimal (n div 10) @ [48 + of_nat (n mod 10)])"

text \<open>\<open>Client-%d\<close>, with a counter that starts at 0.\<close>

definition default_client_name :: "int \<Rightarrow> byte list" where
  "default_client_name n = [67, 108, 105, 101, 110, 116, 45] @ (if n < 0 then 45 # decimal (nat (- n)) else decimal (nat n))"

definition join_layer :: "'k srvenv \<Rightarrow> nat \<Rightarrow> int \<Rightarrow> byte list \<Rightarrow> nat \<Rightarrow> 'k sworld \<Rightarrow> (sockres \<times> 'k sworld) option" where
  "join_layer E cli clifd buff len w = do {
     info \<leftarrow> rd_join (lay E) buff;
     let (ln, w1) = (if layer_name info = [] then (topmost_layer_name E (srv_ext w), w\<lparr>nr_layers := nr_layers w + 1\<rparr>)
                     else (layer_name info, w));
     let (cn, w2) = (if client_name info = [] then
                       (default_client_name (nr_clients_named w1), w1\<lparr>nr_clients_named := nr_clients_named w1 + 1\<rparr>)
                     else (client_name info, w1));
     let buff' = wr_join_names (lay E) buff ln cn;
     let (joined, w3) = client_join_layer E cli buff' (write_back buff' w2);
     ServerSendReply E clifd (put_joined (lay E) joined) w3 }"

definition layer_op :: "'k srvenv \<Rightarrow> nat \<Rightarrow> int \<Rightarrow> byte list \<Rightarrow> nat \<Rightarrow> 'k sworld \<Rightarrow> (sockres \<times> 'k sworld) option" where
  "layer_op E cli clifd buff len w = do {
     (op, info) \<leftarrow> rd_layerop (lay E) buff;
     layer \<leftarrow> target_layer E cli info w;
     if layer = 0 \<or> \<not> is_valid_layer E layer (srv_ext w) then ServerSendReply E clifd (put_int 0) w
     else
       let (ret_value, w1) =
         (case op of ID_LAYEROP_DELETE \<Rightarrow> ServerDeleteLayer E layer w
          | ID_LAYEROP_SETTOP \<Rightarrow> ServerSetTopmostLayer E layer w
          | Other_layerop _ \<Rightarrow> (False, w))
       in ServerSendReply E clifd (put_int (if ret_value then 1 else 0)) w1 }"

definition zorder_op :: "'k srvenv \<Rightarrow> nat \<Rightarrow> int \<Rightarrow> byte list \<Rightarrow> nat \<Rightarrow> int \<Rightarrow> 'k sworld \<Rightarrow> (sockres \<times> 'k sworld) option" where
  "zorder_op E cli clifd buff len fd w =
     (let s = ZORDEROPINFO_SIZE (lay E);
          (ret_value, w1) = do_zorder_operation E cli (take s buff) (drop s buff) fd w
      in ServerSendReply E clifd (put_size ret_value) w1)"

definition change_zorder_maskrect :: "'k srvenv \<Rightarrow> nat \<Rightarrow> int \<Rightarrow> byte list \<Rightarrow> nat \<Rightarrow> 'k sworld \<Rightarrow> (sockres \<times> 'k sworld) option" where
  "change_zorder_maskrect E cli clifd buff len w =
     (let s = ZORDERMASKRECT_SIZE (lay E);
          (ret_value, w1) = do_zorder_maskrect E cli (take s buff) (drop s buff) w
      in ServerSendReply E clifd (put_size ret_value) w1)"

section \<open>Liveness, hooks, input methods and the rest\<close>

definition im_live :: "'k srvenv \<Rightarrow> nat \<Rightarrow> int \<Rightarrow> byte list \<Rightarrow> nat \<Rightarrow> 'k sworld \<Rightarrow> (sockres \<times> 'k sworld) option" where
  "im_live E cli clifd buff len w = do {
     time \<leftarrow> rd_uint 0 buff;
     c \<leftarrow> arr_get (mgClients w) cli;
     Some (SOCKERR_OK, set_client cli (c\<lparr>last_live_time := time\<rparr>) w) }"

definition open_ime_wnd :: "'k srvenv \<Rightarrow> nat \<Rightarrow> int \<Rightarrow> byte list \<Rightarrow> nat \<Rightarrow> 'k sworld \<Rightarrow> (sockres \<times> 'k sworld) option" where
  "open_ime_wnd E cli clifd buff len w = do {
     opn \<leftarrow> rd_uint 0 buff;
     Some (SOCKERR_OK,
       if ime_wnd w \<noteq> 0
       then w\<lparr>srv_ext := notify_window E (ime_wnd w) (if opn \<noteq> 0 then MSG_IME_OPEN else MSG_IME_CLOSE) 0 0 (srv_ext w)\<rparr>
       else w) }"

definition register_hook :: "'k srvenv \<Rightarrow> nat \<Rightarrow> int \<Rightarrow> byte list \<Rightarrow> nat \<Rightarrow> 'k sworld \<Rightarrow> (sockres \<times> 'k sworld) option" where
  "register_hook E cli clifd buff len w =
     (let (ret_value, w1) = do_reghook E cli buff w in ServerSendReply E clifd (put_int ret_value) w1)"

definition set_ime_stat :: "'k srvenv \<Rightarrow> nat \<Rightarrow> int \<Rightarrow> byte list \<Rightarrow> nat \<Rightarrow> 'k sworld \<Rightarrow> (sockres \<times> 'k sworld) option" where
  "set_ime_stat E cli clifd buff len w = do {
     d \<leftarrow> rd_int 0 buff;
     let (r, m, k) = desktop_SendMessage E MSG_IME_SETSTATUS (word_of_int (hi_sword (word_of_int d)))
           (word_of_int (lo_sword (word_of_int d))) [] (srv_ext w);
     ServerSendReply E clifd (put_uint (ucast r)) (w\<lparr>srv_ext := k\<rparr>) }"

definition get_ime_stat :: "'k srvenv \<Rightarrow> nat \<Rightarrow> int \<Rightarrow> byte list \<Rightarrow> nat \<Rightarrow> 'k sworld \<Rightarrow> (sockres \<times> 'k sworld) option" where
  "get_ime_stat E cli clifd buff len w = do {
     d \<leftarrow> rd_int 0 buff;
     let (r, m, k) = desktop_SendMessage E MSG_IME_GETSTATUS (word_of_int d) 0 [] (srv_ext w);
     ServerSendReply E clifd (put_uint (ucast r)) (w\<lparr>srv_ext := k\<rparr>) }"

definition set_ime_targetinfo :: "'k srvenv \<Rightarrow> nat \<Rightarrow> int \<Rightarrow> byte list \<Rightarrow> nat \<Rightarrow> 'k sworld \<Rightarrow> (sockres \<times> 'k sworld) option" where
  "set_ime_targetinfo E cli clifd buff len w =
     (if IME_TARGET_SIZE (lay E) \<le> length buff then
        let (r, m, k) = desktop_SendMessage E MSG_IME_SET_TARGET_INFO 0 0 (take (IME_TARGET_SIZE (lay E)) buff) (srv_ext w)
        in ServerSendReply E clifd (put_uint (ucast r)) (w\<lparr>srv_ext := k\<rparr>)
      else None)"

text \<open>The structure passed to be filled holds what the stack held.\<close>

definition get_ime_targetinfo :: "'k srvenv \<Rightarrow> nat \<Rightarrow> int \<Rightarrow> byte list \<Rightarrow> nat \<Rightarrow> 'k sworld \<Rightarrow> (sockres \<times> 'k sworld) option" where
  "get_ime_targetinfo E cli clifd buff len w =
     (let (r, m, k) = desktop_SendMessage E MSG_IME_GET_TARGET_INFO 0 0
            (le_bytes (IME_TARGET_SIZE (lay E)) (unat (garbage E))) (srv_ext w)
      in ServerSendReply E clifd m (w\<lparr>srv_ext := k\<rparr>))"

definition get_shared_surface :: "'k srvenv \<Rightarrow> nat \<Rightarrow> int \<Rightarrow> byte list \<Rightarrow> nat \<Rightarrow> 'k sworld \<Rightarrow> (sockres \<times> 'k sworld) option" where
  "get_shared_surface E cli clifd buff len w = do {
     (flags, header) \<leftarrow> fake_screen E (srv_ext w);
     name \<leftarrow> c_string buff;
     case header of
       Some (map_size, fd) \<Rightarrow>
         if name = SYSSF_WALLPAPER E then ServerSendReplyEx E clifd (put_sharedsurf (lay E) flags map_size) fd w
         else ServerSendReplyEx E clifd (put_sharedsurf (lay E) flags 0) (-1) w
     | None \<Rightarrow> ServerSendReplyEx E clifd (put_sharedsurf (lay E) flags 0) (-1) w }"

definition authenticate_client :: "'k srvenv \<Rightarrow> nat \<Rightarrow> int \<Rightarrow> byte list \<Rightarrow> nat \<Rightarrow> 'k sworld \<Rightarrow> (sockres \<times> 'k sworld) option" where
  "authenticate_client E cli clifd buff len w = ServerSendReply E clifd (put_int 1) w"

section \<open>The table of handlers\<close>

definition sys_handlers :: "req_request list" where
  "sys_handlers = map (\<lambda>(h, v). \<lparr>rq_handler = h, rq_version = v\<rparr>)
     [(Some H_load_cursor, 0), (Some H_create_cursor, 0), (Some H_destroy_cursor, 0), (Some H_clip_cursor, 0),
      (Some H_get_clip_cursor, 0), (Some H_set_cursor, 0), (Some H_get_current_cursor, 0),
      (Some H_show_cursor, 0), (Some H_set_cursor_pos, 0), (Some H_layer_info, 0), (Some H_join_layer, 0),
      (Some H_layer_op, 0), (Some H_zorder_op, 1), (Some H_im_live, 0), (Some H_open_ime_wnd, 0),
      (Some H_set_ime_stat, 0), (Some H_get_ime_stat, 0), (Some H_register_hook, 0), (None, 0),
      (Some H_clipboard_op, 0), (None, 0), (Some H_change_zorder_maskrect, 0), (None, 0), (None, 0),
      (Some H_get_ime_targetinfo, 0), (Some H_set_ime_targetinfo, 0), (Some H_copy_cursor, 0),
      (Some H_get_shared_surface, 0), (Some H_load_cursor_png_file, 0), (Some H_load_cursor_png_mem, 0),
      (Some H_alloc_sem, 0), (Some H_free_sem, 0), (Some H_move_to_layer, 0), (Some H_calc_position, 0),
      (Some H_authenticate_client, 0)]"

definition initial_handlers :: "'k srvenv \<Rightarrow> req_request list" where
  "initial_handlers E = sys_handlers @
     replicate (nat (MAX_REQID E) - length sys_handlers) \<lparr>rq_handler = None, rq_version = 0\<rparr>"

definition register_handler :: "'k srvenv \<Rightarrow> int \<Rightarrow> int \<Rightarrow> handler option \<Rightarrow> 'k sworld \<Rightarrow> (bool \<times> 'k sworld) option" where
  "register_handler E ver req_id h w =
     (if req_id \<le> MAX_SYS_REQID E \<or> MAX_REQID E < req_id then Some (False, w)
      else if req_id < 1 then None
      else do {
        hs \<leftarrow> arr_set (handlers w) (nat (req_id - 1)) \<lparr>rq_handler = h, rq_version = ver\<rparr>;
        Some (True, w\<lparr>handlers := hs\<rparr>) })"

definition RegisterRequestHandler :: "'k srvenv \<Rightarrow> int \<Rightarrow> handler option \<Rightarrow> 'k sworld \<Rightarrow> (bool \<times> 'k sworld) option" where
  "RegisterRequestHandler E req_id h w = register_handler E 0 req_id h w"

definition RegisterRequestHandlerV1 :: "'k srvenv \<Rightarrow> int \<Rightarrow> handler option \<Rightarrow> 'k sworld \<Rightarrow> (bool \<times> 'k sworld) option" where
  "RegisterRequestHandlerV1 E req_id h w = register_handler E 1 req_id h w"

definition GetRequestHandler :: "'k srvenv \<Rightarrow> int \<Rightarrow> 'k sworld \<Rightarrow> handler option option" where
  "GetRequestHandler E req_id w =
     (if req_id \<le> 0 \<or> MAX_REQID E < req_id then Some None
      else do { r \<leftarrow> arr_get (handlers w) (nat (req_id - 1));
                Some (if rq_version r = 0 then rq_handler r else None) })"

definition GetRequestHandlerV1 :: "'k srvenv \<Rightarrow> int \<Rightarrow> 'k sworld \<Rightarrow> handler option option" where
  "GetRequestHandlerV1 E req_id w =
     (if req_id \<le> 0 \<or> MAX_REQID E < req_id then Some None
      else do { r \<leftarrow> arr_get (handlers w) (nat (req_id - 1));
                Some (if rq_version r = 1 then rq_handler r else None) })"

definition GetRequestHandlerEx :: "'k srvenv \<Rightarrow> int \<Rightarrow> int option \<Rightarrow> 'k sworld \<Rightarrow> (handler option \<times> int option) option" where
  "GetRequestHandlerEx E req_id version w =
     (if req_id \<le> 0 \<or> MAX_REQID E < req_id then Some (None, version)
      else do { r \<leftarrow> arr_get (handlers w) (nat (req_id - 1));
                Some (rq_handler r, if version \<noteq> None then Some (rq_version r) else None) })"

end
