(* ===== verification/Request.thy ===== *)
theory Request
  imports Server
begin

text \<open>
  Reading and dispatching a request (\<open>__mg_handle_request\<close> of lecture-4/minigui-server.c). The
  caller has read the request number; here the two lengths and the data are read, into the static
  buffer or an allocated one, with a file descriptor when one came along.
\<close>

definition call_handler :: "'k srvenv \<Rightarrow> handler \<Rightarrow> nat \<Rightarrow> int \<Rightarrow> byte list \<Rightarrow> nat \<Rightarrow> 'k sworld \<Rightarrow> (sockres \<times> 'k sworld) option" where
  "call_handler E h cli clifd buff len w =
     (case h of
        H_load_cursor \<Rightarrow> load_cursor E cli clifd buff len w
      | H_create_cursor \<Rightarrow> create_cursor E cli clifd buff len w
      | H_destroy_cursor \<Rightarrow> destroy_cursor E cli clifd buff len w
      | H_clip_cursor \<Rightarrow> clip_cursor E cli clifd buff len w
      | H_get_clip_cursor \<Rightarrow> get_clip_cursor E cli clifd buff len w
      | H_set_cursor \<Rightarrow> set_cursor E cli clifd buff len w
      | H_get_current_cursor \<Rightarrow> get_current_cursor E cli clifd buff len w
      | H_show_cursor \<Rightarrow> show_cursor E cli clifd buff len w
      | H_set_cursor_pos \<Rightarrow> set_cursor_pos E cli clifd buff len w
      | H_layer_info \<Rightarrow> layer_info E cli clifd buff len w
      | H_join_layer \<Rightarrow> join_layer E cli clifd buff len w
      | H_layer_op \<Rightarrow> layer_op E cli clifd buff len w
      | H_zorder_op \<Rightarrow> None
      | H_im_live \<Rightarrow> im_live E cli clifd buff len w
      | H_open_ime_wnd \<Rightarrow> open_ime_wnd E cli clifd buff len w
      | H_set_ime_stat \<Rightarrow> set_ime_stat E cli clifd buff len w
      | H_get_ime_stat \<Rightarrow> get_ime_stat E cli clifd buff len w
      | H_register_hook \<Rightarrow> register_hook E cli clifd buff len w
      | H_clipboard_op \<Rightarrow> clipboard_op E cli clifd buff len w
      | H_change_zorder_maskrect \<Rightarrow> change_zorder_maskrect E cli clifd buff len w
      | H_get_ime_targetinfo \<Rightarrow> get_ime_targetinfo E cli clifd buff len w
      | H_set_ime_targetinfo \<Rightarrow> set_ime_targetinfo E cli clifd buff len w
      | H_copy_cursor \<Rightarrow> copy_cursor E cli clifd buff len w
      | H_get_shared_surface \<Rightarrow> get_shared_surface E cli clifd buff len w
      | H_load_cursor_png_file \<Rightarrow> load_cursor_png_file E cli clifd buff len w
      | H_load_cursor_png_mem \<Rightarrow> load_cursor_png_mem E cli clifd buff len w
      | H_alloc_sem \<Rightarrow> alloc_sem_for_shared_surf E cli clifd buff len w
      | H_free_sem \<Rightarrow> free_sem_for_shared_surf E cli clifd buff len w
      | H_move_to_layer \<Rightarrow> move_to_layer E cli clifd buff len w
      | H_calc_position \<Rightarrow> calc_position E cli clifd buff len w
      | H_authenticate_client \<Rightarrow> authenticate_client E cli clifd buff len w
      | H_user p \<Rightarrow> user_handler E p cli clifd buff len w)"

text \<open>A handler of version 1 also takes the descriptor; of the server's own only \<open>zorder_op\<close> is one.\<close>

definition call_handler_v1 :: "'k srvenv \<Rightarrow> handler \<Rightarrow> nat \<Rightarrow> int \<Rightarrow> byte list \<Rightarrow> nat \<Rightarrow> int \<Rightarrow> 'k sworld \<Rightarrow> (sockres \<times> 'k sworld) option" where
  "call_handler_v1 E h cli clifd buff len fd w =
     (case h of
        H_zorder_op \<Rightarrow> zorder_op E cli clifd buff len fd w
      | H_user p \<Rightarrow> user_handler_v1 E p cli clifd buff len fd w
      | _ \<Rightarrow> None)"

definition BUFF_SIZE :: nat where "BUFF_SIZE = 1024"

text \<open>The label \<open>error\<close>.\<close>

definition drop_client :: "'k srvenv \<Rightarrow> int \<Rightarrow> nat \<Rightarrow> 'k sworld \<Rightarrow> (sockres \<times> 'k sworld) option" where
  "drop_client E clifd cli w = do { w' \<leftarrow> remove_client E cli clifd w; Some (SOCKERR_CLOSED, w') }"

text \<open>What the data is read into: the static buffer when it fits, allocated memory otherwise. The sum
  of the two lengths wraps.\<close>

definition get_buff :: "'k srvenv \<Rightarrow> dword \<Rightarrow> 'k sworld \<Rightarrow> byte list option \<times> 'k sworld" where
  "get_buff E len_data w =
     (if len_data \<le> of_nat BUFF_SIZE then (Some (data_buff w), w)
      else case buf_malloc E (unat len_data) (srv_ext w) of (b, k) \<Rightarrow> (b, w\<lparr>srv_ext := k\<rparr>))"

text \<open>Dispatching: the flags of the number are cleared, the handler is called by its version, and an
  allocated buffer is freed.\<close>

definition dispatch_request ::
    "'k srvenv \<Rightarrow> int \<Rightarrow> int \<Rightarrow> nat \<Rightarrow> byte list \<Rightarrow> dword \<Rightarrow> int \<Rightarrow> 'k sworld \<Rightarrow> (sockres \<times> 'k sworld) option" where
  "dispatch_request E clifd req_id0 cli buff len_data fd w =
     (let req_id = sint ((word_of_int req_id0 :: uint) AND NOT (REQMASK_FLAGS E)) in
      if MAX_REQID E < req_id \<or> req_id \<le> 0 then Some (SOCKERR_INVARG, w)
      else do {
        r \<leftarrow> arr_get (handlers w) (nat (req_id - 1));
        case rq_handler r of
          None \<Rightarrow> Some (SOCKERR_INVARG, w)
        | Some h \<Rightarrow> do {
            (n, w1) \<leftarrow>
              (if rq_version r = 1 then call_handler_v1 E h cli clifd buff (unat len_data) fd w
               else call_handler E h cli clifd buff (unat len_data)
                      (if fd \<ge> 0 then w\<lparr>srv_ext := close_fd E fd (srv_ext w)\<rparr> else w));
            let w2 = (if len_data > of_nat BUFF_SIZE then w1\<lparr>srv_ext := buf_free E (srv_ext w1)\<rparr> else w1);
            if n = SOCKERR_IO then drop_client E clifd cli w2
            else if req_id = REQID_IAMLIVE E then do {
              c \<leftarrow> arr_get (mgClients w2) cli;
              Some (n, if has_dirty c then check_dirty_znode E cli w2 else w2) }
            else Some (n, w2) } })"

text \<open>A read that overruns the buffer is a fault.\<close>

definition mg_handle_request :: "'k srvenv \<Rightarrow> int \<Rightarrow> int \<Rightarrow> nat \<Rightarrow> 'k sworld \<Rightarrow> (sockres \<times> 'k sworld) option" where
  "mg_handle_request E clifd req_id cli w = do {
     (n, b1, k) \<leftarrow> sock_read (sio E) clifd 8 (srv_ext w);
     let w1 = w\<lparr>srv_ext := k\<rparr>;
     if n = SOCKERR_IO then Some (SOCKERR_IO, w1)
     else if n = SOCKERR_CLOSED then drop_client E clifd cli w1
     else do {
       req_data_len \<leftarrow> rd_size 0 b1;
       (n, b2, k) \<leftarrow> sock_read (sio E) clifd 8 (srv_ext w1);
       let w2 = w1\<lparr>srv_ext := k\<rparr>;
       if n = SOCKERR_IO then Some (SOCKERR_IO, w2)
       else if n = SOCKERR_CLOSED then drop_client E clifd cli w2
       else do {
         ex_data_len \<leftarrow> rd_size 0 b2;
         let len_data = req_data_len + ex_data_len;
         case get_buff E len_data w2 of
           (None, w3) \<Rightarrow> Some (SOCKERR_INVARG, w3)
         | (Some mem, w3) \<Rightarrow> do {
             (n, bs, fd, k) \<leftarrow> sock_recvmsg (sio E) clifd (unat req_data_len + unat ex_data_len) True (srv_ext w3);
             let w4 = w3\<lparr>srv_ext := k\<rparr>;
             if n = SOCKERR_IO then Some (SOCKERR_IO, w4)
             else if n = SOCKERR_CLOSED then drop_client E clifd cli w4
             else if length bs > length mem then None
             else
               let buff = bs @ drop (length bs) mem;
                   w5 = write_back buff w4;
                   fd_received = (case fd of Some f \<Rightarrow> f | None \<Rightarrow> -1)
               in dispatch_request E clifd req_id cli buff len_data fd_received w5 } } } }"

end
