(* ===== verification/Client.thy ===== *)
theory Client
  imports MsgQueue ReqTypes
begin

text \<open>
  The client's side of the request protocol (lecture-4/minigui-client.c): the connection,
  requests and their replies, the messages of the server, which go to the desktop queue of the
  message module, the idle handler, and the layer functions.
\<close>

section \<open>State and environment\<close>

record request =
  rq_id :: uint
  rq_data :: "byte list"

text \<open>\<open>c_world\<close> is the store of the message module; the fields from \<open>old_timer\<close> on are the statics
  of the idle handler.\<close>

record 'k cworld =
  c_mgIsServer :: bool
  mg_client_id :: int
  conn_fd :: int
  OnLockClientReq :: procptr
  OnTrylockClientReq :: procptr
  OnUnlockClientReq :: procptr
  last_ticks :: dword
  mg_layer :: dword
  zorder_info :: nat
  def_zorder_info :: nat
  c_world :: world
  old_timer :: dword
  repeat_timeout :: dword
  old_mouse :: "int \<times> int \<times> int"
  old_mouse_serial :: uint
  c_ext :: 'k

text \<open>
  What is not in the file. \<open>ok_is_zero\<close> says whether \<open>SOCKERR_OK\<close> is 0; \<open>c_err_sys\<close> is \<open>None\<close>
  when \<open>__mg_err_sys\<close> does not return; \<open>c_select\<close> gives the result, whether it was interrupted, and
  the readable descriptors.
\<close>

record 'k clienv =
  cio :: "'k sockio"
  clay :: layouts
  c_self :: thread_id
  call_hook :: "procptr \<Rightarrow> 'k \<Rightarrow> int \<times> 'k"
  cli_conn :: "'k \<Rightarrow> int \<times> 'k"
  watch_fd :: "int \<Rightarrow> 'k \<Rightarrow> 'k"
  ignore_sigpipe :: "'k \<Rightarrow> 'k"
  c_close :: "int \<Rightarrow> 'k \<Rightarrow> 'k"
  update_tick_count :: "'k \<Rightarrow> dword \<times> 'k"
  client_check_hwnd :: "hwnd \<Rightarrow> int \<Rightarrow> 'k \<Rightarrow> bool"
  update_window :: "hwnd \<Rightarrow> int \<Rightarrow> int \<Rightarrow> int \<Rightarrow> int \<Rightarrow> 'k cworld \<Rightarrow> 'k cworld"
  c_err_sys :: "'k \<Rightarrow> 'k option"
  ok_is_zero :: bool
  c_select :: "nat \<Rightarrow> bool \<Rightarrow> 'k \<Rightarrow> int \<times> bool \<times> (int \<Rightarrow> bool) \<times> 'k"
  c_check_timers :: "nat \<Rightarrow> dword \<Rightarrow> 'k cworld \<Rightarrow> int \<times> 'k cworld"
  c_check_listen_fds :: "nat \<Rightarrow> (int \<Rightarrow> bool) \<Rightarrow> 'k cworld \<Rightarrow> int \<times> 'k cworld"
  shared_timer_counter :: "'k \<Rightarrow> dword"
  shared_mouse_client :: "'k \<Rightarrow> int"
  shared_mouse_serial :: "'k \<Rightarrow> uint"
  shared_mouse :: "'k \<Rightarrow> int \<times> int \<times> int"
  c_MAKELONG :: "int \<Rightarrow> int \<Rightarrow> dword"
  shmat :: "int \<Rightarrow> 'k \<Rightarrow> nat option \<times> 'k"
  shmdt :: "nat \<Rightarrow> 'k \<Rightarrow> bool \<times> 'k"
  start_client_desktop :: "'k cworld \<Rightarrow> 'k cworld"
  junk_msg :: msg
  c_REQID_IAMLIVE :: uint
  REQID_LAYERINFO :: uint
  REQID_JOINLAYER :: uint
  REQID_LAYEROP :: uint
  REQID_MOVETOLAYER :: uint
  REQMASK_JOINLAYERFIRST :: uint
  DEF_NR_TOPMOSTS :: int
  DEF_NR_NORMALS :: int
  LEN_LAYER_NAME :: nat
  LEN_CLIENT_NAME :: nat
  NAME_SELF_LAYER :: "byte list"

definition TIMEOUT_START_REPEAT :: dword where "TIMEOUT_START_REPEAT = 30"
definition TIMEOUT_REPEAT :: dword where "TIMEOUT_REPEAT = 5"

definition set_ext :: "'k \<Rightarrow> 'k cworld \<Rightarrow> 'k cworld" where
  "set_ext k w = w\<lparr>c_ext := k\<rparr>"

definition hook :: "'k clienv \<Rightarrow> procptr \<Rightarrow> 'k cworld \<Rightarrow> 'k cworld" where
  "hook C p w = set_ext (snd (call_hook C p (c_ext w))) w"

definition lock_req :: "'k clienv \<Rightarrow> 'k cworld \<Rightarrow> 'k cworld" where
  "lock_req C w = (if OnLockClientReq w \<noteq> 0 \<and> OnUnlockClientReq w \<noteq> 0 then hook C (OnLockClientReq w) w else w)"

definition unlock_req :: "'k clienv \<Rightarrow> 'k cworld \<Rightarrow> 'k cworld" where
  "unlock_req C w = (if OnLockClientReq w \<noteq> 0 \<and> OnUnlockClientReq w \<noteq> 0 then hook C (OnUnlockClientReq w) w else w)"

section \<open>The connection\<close>

definition client_ClientStartup :: "'k clienv \<Rightarrow> 'k cworld \<Rightarrow> (bool \<times> 'k cworld) option" where
  "client_ClientStartup C w =
     (case cli_conn C (c_ext w) of (fd, k) \<Rightarrow>
        let w1 = w\<lparr>conn_fd := fd, c_ext := k\<rparr> in
        if fd < 0 then Some (False, w1)
        else do {
          q \<leftarrow> dsk_msg_queue (c_world w1);
          Q \<leftarrow> queues (c_world w1) q;
          Some (True, w1\<lparr>c_world := set_queue q (Q\<lparr>maxfd := fd\<rparr>) (c_world w1),
                         c_ext := ignore_sigpipe C (watch_fd C fd k)\<rparr>) })"

definition client_ClientCleanup :: "'k clienv \<Rightarrow> 'k cworld \<Rightarrow> 'k cworld" where
  "client_ClientCleanup C w = w\<lparr>c_ext := c_close C (conn_fd w) (c_ext w), conn_fd := -1\<rparr>"

definition GetSockFD2Server :: "'k cworld \<Rightarrow> int" where
  "GetSockFD2Server w = (if c_mgIsServer w then -1 else conn_fd w)"

section \<open>Sending a request\<close>

definition send_request :: "'k clienv \<Rightarrow> request \<Rightarrow> byte list \<Rightarrow> int \<Rightarrow> 'k cworld \<Rightarrow> (sockres \<times> 'k cworld) option" where
  "send_request C req ex fd_to_send w = do {
     (n, k) \<leftarrow> sock_write (cio C) (conn_fd w) (put_uint (rq_id req)) (c_ext w);
     if sock_failed n then Some (n, set_ext k w)
     else do {
       (n, k) \<leftarrow> sock_write (cio C) (conn_fd w) (put_size (of_nat (length (rq_data req)))) k;
       if sock_failed n then Some (n, set_ext k w)
       else do {
         (n, k) \<leftarrow> sock_write (cio C) (conn_fd w) (put_size (of_nat (length ex))) k;
         if sock_failed n then Some (n, set_ext k w)
         else do {
           (n, k) \<leftarrow> sock_sendmsg (cio C) (conn_fd w) (rq_data req @ ex)
                       (if fd_to_send \<ge> 0 then Some fd_to_send else None) k;
           Some (n, set_ext k w) } } } }"

text \<open>The label \<open>sock_error\<close>: a closed connection ends the process.\<close>

definition sock_error :: "'k clienv \<Rightarrow> sockres \<Rightarrow> 'k cworld \<Rightarrow> int outcome \<times> 'k cworld" where
  "sock_error C n w =
     (if n = SOCKERR_IO then (Returns (-1), unlock_req C w)
      else if n = SOCKERR_CLOSED then (Exits, unlock_req C w)
      else (Returns (-1), w))"

text \<open>A request without a result (\<open>ClientRequestEx2\<close> with \<open>result\<close> NULL or \<open>len_rslt\<close> 0).\<close>

definition request_only :: "'k clienv \<Rightarrow> request \<Rightarrow> byte list \<Rightarrow> int \<Rightarrow> 'k cworld \<Rightarrow> (int outcome \<times> 'k cworld) option" where
  "request_only C req ex fd_to_send w =
     (if c_mgIsServer w then Some (Returns (-1), w)
      else if mg_client_id w = 0 \<and> rq_id req AND REQMASK_JOINLAYERFIRST C \<noteq> 0 then Some (Exits, w)
      else do {
        (n, w1) \<leftarrow> send_request C req ex fd_to_send (lock_req C w);
        if sock_failed n then Some (sock_error C n w1)
        else Some (Returns 0, unlock_req C w1) })"

section \<open>Messages of the server\<close>

text \<open>\<open>&__mg_tick_counter\<close> is sent with the size of an unsigned int: its low half.\<close>

definition check_live :: "'k clienv \<Rightarrow> bool \<Rightarrow> 'k cworld \<Rightarrow> (unit outcome \<times> 'k cworld) option" where
  "check_live C woken w =
     (case update_tick_count C (c_ext w) of (tick, k) \<Rightarrow>
        let w1 = w\<lparr>c_world := (c_world w)\<lparr>tick_counter := tick\<rparr>, c_ext := k\<rparr> in
        if woken \<or> tick > last_ticks w1 + 100 then do {
          (r, w2) \<leftarrow> request_only C \<lparr>rq_id = c_REQID_IAMLIVE C, rq_data = put_uint (ucast tick)\<rparr> [] (-1)
                      (w1\<lparr>last_ticks := tick\<rparr>);
          Some (case r of Returns _ \<Rightarrow> Returns () | Exits \<Rightarrow> Exits, w2) }
        else Some (Returns (), w1))"

definition QueueDeskMessage :: "'k clienv \<Rightarrow> msg \<Rightarrow> 'k cworld \<Rightarrow> (bool \<times> 'k cworld) option" where
  "QueueDeskMessage C m w = do {
     (ok, m', u) \<leftarrow> kernel_QueueMessage (c_self C) (dsk_msg_queue (c_world w)) (Some m) (c_world w);
     Some (ok, w\<lparr>c_world := u\<rparr>) }"

definition process_socket_message :: "'k clienv \<Rightarrow> msg \<Rightarrow> 'k cworld \<Rightarrow> (unit outcome \<times> 'k cworld) option" where
  "process_socket_message C m w =
     (let own = client_check_hwnd C (msg_hwnd m) (mg_client_id w) (c_ext w) in
      if message m = MSG_WAKEUP_CLIENT then check_live C True w
      else if message m = MSG_UPDATECLIWIN \<and> own then
        Some (Returns (), update_window C (msg_hwnd m) (lo_sword (wParam m)) (hi_sword (wParam m))
                            (lo_sword (lParam m)) (hi_sword (lParam m)) w)
      else if msg_hwnd m = HWND_NULL then do {
        (_, w') \<leftarrow> QueueDeskMessage C (m\<lparr>msg_hwnd := hwnd_desktop (c_world w)\<rparr>) w;
        Some (Returns (), w') }
      else if own then do { (_, w') \<leftarrow> QueueDeskMessage C m w; Some (Returns (), w') }
      else Some (Returns (), w))"

section \<open>Receiving the reply\<close>

text \<open>The messages before the reply are processed; the one without window announces the reply.\<close>

partial_function (option) wait_reply :: "'k clienv \<Rightarrow> 'k cworld \<Rightarrow> (sockres outcome \<times> 'k cworld) option" where
  "wait_reply C w = do {
     (n, bs, k) \<leftarrow> sock_read (cio C) (conn_fd w) (MSG_SIZE (clay C)) (c_ext w);
     let w1 = set_ext k w;
     if sock_failed n then Some (Returns n, w1)
     else do {
       m \<leftarrow> rd_msg (clay C) bs;
       if msg_hwnd m = HWND_INVALID then Some (Returns n, w1)
       else do {
         (r, w2) \<leftarrow> process_socket_message C m w1;
         case r of Exits \<Rightarrow> Some (Exits, w2) | Returns _ \<Rightarrow> wait_reply C w2 } } }"

text \<open>\<open>want_fd\<close> says that \<open>fd_received\<close> is not NULL.\<close>

definition receive_reply ::
    "'k clienv \<Rightarrow> nat \<Rightarrow> bool \<Rightarrow> 'k cworld \<Rightarrow> (int outcome \<times> byte list \<times> int \<times> 'k cworld) option" where
  "receive_reply C len want_fd w = do {
     (n, w1) \<leftarrow> wait_reply C w;
     case n of
       Exits \<Rightarrow> Some (Exits, [], -1, w1)
     | Returns n \<Rightarrow>
         if sock_failed n then (case sock_error C n w1 of (r, w2) \<Rightarrow> Some (r, [], -1, w2))
         else do {
           (n, bs, fd, k) \<leftarrow> sock_recvmsg (cio C) (conn_fd w1) len want_fd (c_ext w1);
           let w2 = set_ext k w1;
           if sock_failed n then (case sock_error C n w2 of (r, w3) \<Rightarrow> Some (r, [], -1, w3))
           else Some (Returns 0, bs, case fd of Some f \<Rightarrow> f | None \<Rightarrow> -1, unlock_req C w2) } }"

text \<open>\<open>len_rslt\<close> is \<open>None\<close> for a NULL result.\<close>

definition ClientRequestEx2 ::
    "'k clienv \<Rightarrow> request \<Rightarrow> byte list \<Rightarrow> int \<Rightarrow> nat option \<Rightarrow> bool \<Rightarrow> 'k cworld \<Rightarrow>
       (int outcome \<times> byte list \<times> int \<times> 'k cworld) option" where
  "ClientRequestEx2 C req ex fd_to_send len_rslt want_fd w =
     (if len_rslt = None \<or> len_rslt = Some 0
      then do { (r, w') \<leftarrow> request_only C req ex fd_to_send w; Some (r, [], -1, w') }
      else if c_mgIsServer w then Some (Returns (-1), [], -1, w)
      else if mg_client_id w = 0 \<and> rq_id req AND REQMASK_JOINLAYERFIRST C \<noteq> 0 then Some (Exits, [], -1, w)
      else do {
        (n, w1) \<leftarrow> send_request C req ex fd_to_send (lock_req C w);
        if sock_failed n then (case sock_error C n w1 of (r, w2) \<Rightarrow> Some (r, [], -1, w2))
        else receive_reply C (the len_rslt) want_fd w1 })"

text \<open>\<open>ClientRequest\<close>, the wrapper of minigui.h without extra data and descriptors.\<close>

definition ClientRequest :: "'k clienv \<Rightarrow> request \<Rightarrow> nat \<Rightarrow> 'k cworld \<Rightarrow> (int outcome \<times> byte list \<times> 'k cworld) option" where
  "ClientRequest C req len w = do {
     (r, bs, fd, w') \<leftarrow> ClientRequestEx2 C req [] (-1) (Some len) False w;
     Some (r, bs, w') }"

end
