(* ===== verification/ClientOps.thy ===== *)
theory ClientOps
  imports Client
begin

text \<open>
  The idle handler of a client and its layer functions (lecture-4/minigui-client.c). The idle
  handler looks at the clock, the shared mouse position, the timers, the connection and the
  descriptors the application listens to, in this order.
\<close>

section \<open>The idle handler\<close>

text \<open>When \<open>select\<close> timed out: the mouse position is in shared memory; a move is queued when the
  serial number is new and the position or the buttons changed.\<close>

definition take_mouse :: "'k clienv \<Rightarrow> nat \<Rightarrow> 'k cworld \<Rightarrow> (bool \<times> 'k cworld) option" where
  "take_mouse C q w =
     (let serial = shared_mouse_serial C (c_ext w);
          fresh = (shared_mouse_client C (c_ext w) = mg_client_id w \<and> serial \<noteq> old_mouse_serial w);
          pos = shared_mouse C (c_ext w);
          w1 = w\<lparr>old_mouse_serial := serial\<rparr>
      in if fresh \<and> pos \<noteq> old_mouse w1 then
           case pos of (x, y, buttons) \<Rightarrow> do {
             (_, _, u) \<leftarrow> kernel_QueueMessage (c_self C) (Some q)
               (Some ((junk_msg C)\<lparr>msg_hwnd := hwnd_desktop (c_world w1), message := MSG_MOUSEMOVE,
                        wParam := word_of_int buttons, lParam := c_MAKELONG C x y\<rparr>)) (c_world w1);
             Some (True, w1\<lparr>old_mouse := pos, c_world := u\<rparr>) }
         else Some (False, w1))"

definition idle_timeout :: "'k clienv \<Rightarrow> nat \<Rightarrow> bool \<Rightarrow> 'k cworld \<Rightarrow> (int outcome \<times> 'k cworld) option" where
  "idle_timeout C q wait w = do {
     (r, w1) \<leftarrow> check_live C False w;
     case r of
       Exits \<Rightarrow> Some (Exits, w1)
     | Returns _ \<Rightarrow> do {
         let tick = tick_counter (c_world w1);
         let w2 = (if wait \<and> tick - old_timer w1 \<ge> repeat_timeout w1
                   then w1\<lparr>old_timer := tick, repeat_timeout := TIMEOUT_REPEAT\<rparr> else w1);
         (moved, w3) \<leftarrow> take_mouse C q w2;
         Some (Returns (if moved then 1 else 0), w3) } }"

definition idle_timers :: "'k clienv \<Rightarrow> nat \<Rightarrow> 'k cworld \<Rightarrow> (int \<times> 'k cworld) option" where
  "idle_timers C q w = do {
     Q \<leftarrow> queues (c_world w) q;
     let (n, w1) = c_check_timers C q (shared_timer_counter C (c_ext w) - old_tick_count Q) w;
     Q1 \<leftarrow> queues (c_world w1) q;
     Some (n, w1\<lparr>c_world := set_queue q (Q1\<lparr>old_tick_count := shared_timer_counter C (c_ext w1)\<rparr>) (c_world w1)\<rparr>) }"

definition has_trylock :: "'k cworld \<Rightarrow> bool" where
  "has_trylock w \<longleftrightarrow> OnTrylockClientReq w \<noteq> 0 \<and> OnUnlockClientReq w \<noteq> 0"

definition unlock_try :: "'k clienv \<Rightarrow> 'k cworld \<Rightarrow> 'k cworld" where
  "unlock_try C w = (if has_trylock w then hook C (OnUnlockClientReq w) w else w)"

text \<open>A message of the server is read when the lock of the application is free. Zero as the result of
  the read is taken for a closed connection.\<close>

definition idle_socket :: "'k clienv \<Rightarrow> (int \<Rightarrow> bool) \<Rightarrow> 'k cworld \<Rightarrow> (unit outcome \<times> 'k cworld) option" where
  "idle_socket C rset w =
     (if \<not> rset (conn_fd w) then Some (Returns (), w)
      else
        let (busy, w1) = (if has_trylock w
              then case call_hook C (OnTrylockClientReq w) (c_ext w) of (r, k) \<Rightarrow> (r \<noteq> 0, set_ext k w)
              else (False, w))
        in if busy then Some (Returns (), w1)
           else do {
             (n, bs, k) \<leftarrow> sock_read (cio C) (conn_fd w1) (MSG_SIZE (clay C)) (c_ext w1);
             let w2 = unlock_try C (set_ext k w1);
             if sock_failed n then do { k \<leftarrow> c_err_sys C (c_ext w2); Some (Returns (), set_ext k w2) }
             else if n = SockVal 0 \<or> n = SOCKERR_OK \<and> ok_is_zero C then do {
               k \<leftarrow> c_err_sys C (c_ext w2);
               Some (Returns (), set_ext (c_close C (conn_fd w2) k) w2) }
             else do { m \<leftarrow> rd_msg (clay C) bs; process_socket_message C m w2 } })"

definition idle_rest :: "'k clienv \<Rightarrow> nat \<Rightarrow> (int \<Rightarrow> bool) \<Rightarrow> int \<Rightarrow> 'k cworld \<Rightarrow> (bool outcome \<times> 'k cworld) option" where
  "idle_rest C q rset n w = do {
     (nt, w1) \<leftarrow> idle_timers C q w;
     (r, w2) \<leftarrow> idle_socket C rset w1;
     case r of
       Exits \<Rightarrow> Some (Exits, w2)
     | Returns _ \<Rightarrow> do {
         let (nl, w3) = c_check_listen_fds C q rset w2;
         (r, w4) \<leftarrow> check_live C False w3;
         case r of
           Exits \<Rightarrow> Some (Exits, w4)
         | Returns _ \<Rightarrow>
             let total = n + nt + nl in
             Some (Returns (0 < total),
               if 0 < total then w4\<lparr>old_timer := tick_counter (c_world w4), repeat_timeout := TIMEOUT_START_REPEAT\<rparr>
               else w4) } }"

definition client_IdleHandler4Client :: "'k clienv \<Rightarrow> nat \<Rightarrow> bool \<Rightarrow> 'k cworld \<Rightarrow> (bool outcome \<times> 'k cworld) option" where
  "client_IdleHandler4Client C q wait w = do {
     (r, w1) \<leftarrow> check_live C False w;
     case r of
       Exits \<Rightarrow> Some (Exits, w1)
     | Returns _ \<Rightarrow>
         (case c_select C q wait (c_ext w1) of (n, eintr, rset, k) \<Rightarrow>
            let w2 = set_ext k w1 in
            if n < 0 then
              if eintr then Some (Returns False, w2)
              else do { k \<leftarrow> c_err_sys C k; idle_rest C q rset n (set_ext k w2) }
            else if n = 0 then do {
              (r, w3) \<leftarrow> idle_timeout C q wait w2;
              case r of Exits \<Rightarrow> Some (Exits, w3) | Returns m \<Rightarrow> idle_rest C q rset m w3 }
            else idle_rest C q rset n w2) }"

section \<open>Layers\<close>

text \<open>\<open>strncpy\<close> into a field of \<open>n + 1\<close> bytes, and the NUL put at its end.\<close>

definition copy_name :: "nat \<Rightarrow> byte list option \<Rightarrow> byte list" where
  "copy_name n s = (case s of None \<Rightarrow> [] | Some b \<Rightarrow> take n b)"

text \<open>Rounding up to a multiple of eight; a signed overflow is undefined.\<close>

definition round_up8 :: "int \<Rightarrow> int option" where
  "round_up8 n = (if n + 7 < 2 ^ 31 then Some ((n + 7) AND NOT 7) else None)"

definition GetLayerInfo :: "'k clienv \<Rightarrow> byte list option \<Rightarrow> 'k cworld \<Rightarrow> ((dword \<times> layer_info_data option) outcome \<times> 'k cworld) option" where
  "GetLayerInfo C name w =
     (if c_mgIsServer w then Some (Returns (INV_LAYER_HANDLE, None), w)
      else case name of
        None \<Rightarrow> Some (Returns (INV_LAYER_HANDLE, None), w)
      | Some s \<Rightarrow> do {
          (r, bs, w1) \<leftarrow> ClientRequest C \<lparr>rq_id = REQID_LAYERINFO C, rq_data = s @ [0]\<rparr> (LAYERINFO_SIZE (clay C)) w;
          case r of
            Exits \<Rightarrow> Some (Exits, w1)
          | Returns n \<Rightarrow>
              if n < 0 then Some (Returns (INV_LAYER_HANDLE, None), w1)
              else do {
                info \<leftarrow> rd_layer_info (clay C) bs;
                Some (Returns (li_handle info, if li_handle info \<noteq> 0 then Some info else None), w1) } })"

text \<open>Attaching the shared z-order information of the layer joined, and the default one.\<close>

definition attach_zorders :: "'k clienv \<Rightarrow> joined_info \<Rightarrow> 'k cworld \<Rightarrow> bool \<times> 'k cworld" where
  "attach_zorders C j w =
     (case shmat C (zi_shmid j) (c_ext w) of
        (None, k) \<Rightarrow> (False, set_ext k w)
      | (Some zi, k) \<Rightarrow>
          let w1 = w\<lparr>zorder_info := zi, c_ext := k\<rparr> in
          if zi_shmid j = def_zi_shmid j then (True, w1\<lparr>def_zorder_info := zi\<rparr>)
          else case shmat C (def_zi_shmid j) (c_ext w1) of
            (None, k) \<Rightarrow> (False, set_ext k w1)
          | (Some zd, k) \<Rightarrow> (True, w1\<lparr>def_zorder_info := zd, c_ext := k\<rparr>))"

definition join_finish :: "'k clienv \<Rightarrow> joined_info \<Rightarrow> 'k cworld \<Rightarrow> dword \<times> 'k cworld" where
  "join_finish C j w =
     (let w1 = w\<lparr>mg_client_id := j_cli_id j\<rparr>;
          (ok, w2) = (if j_layer j \<noteq> INV_LAYER_HANDLE then attach_zorders C j (w1\<lparr>mg_layer := j_layer j\<rparr>)
                      else (True, w1))
      in if \<not> ok then (INV_LAYER_HANDLE, w2)
         else (j_layer j, start_client_desktop C
                 (w2\<lparr>c_world := (c_world w2)\<lparr>tick_counter := shared_timer_counter C (c_ext w2)\<rparr>\<rparr>)))"

definition JoinLayer ::
    "'k clienv \<Rightarrow> byte list option \<Rightarrow> byte list option \<Rightarrow> int \<Rightarrow> int \<Rightarrow> 'k cworld \<Rightarrow> (dword outcome \<times> 'k cworld) option" where
  "JoinLayer C lname cname tops norms w =
     (if c_mgIsServer w then Some (Returns INV_LAYER_HANDLE, w)
      else if mg_client_id w \<noteq> 0 then do {
        (r, w1) \<leftarrow> GetLayerInfo C (Some (NAME_SELF_LAYER C)) w;
        Some (case r of Exits \<Rightarrow> Exits | Returns (h, _) \<Rightarrow> Returns h, w1) }
      else do {
        t \<leftarrow> round_up8 (if tops \<le> 0 then DEF_NR_TOPMOSTS C else tops);
        n \<leftarrow> round_up8 (if norms \<le> 0 then DEF_NR_NORMALS C else norms);
        let info = \<lparr>layer_name = copy_name (LEN_LAYER_NAME C) lname, client_name = copy_name (LEN_CLIENT_NAME C) cname,
                    max_nr_topmosts = t, max_nr_normals = n\<rparr>;
        (r, bs, w1) \<leftarrow> ClientRequest C \<lparr>rq_id = REQID_JOINLAYER C, rq_data = put_join (clay C) info\<rparr>
                        (JOINED_SIZE (clay C)) w;
        case r of
          Exits \<Rightarrow> Some (Exits, w1)
        | Returns e \<Rightarrow>
            if e < 0 then Some (Returns INV_LAYER_HANDLE, w1)
            else do {
              j \<leftarrow> rd_joined (clay C) bs;
              let (h, w2) = join_finish C j w1;
              Some (Returns h, w2) } })"

text \<open>The check of the arguments the layer functions share: a name or a handle has to be given.\<close>

definition bad_target :: "bool \<Rightarrow> dword \<Rightarrow> byte list option \<Rightarrow> bool" where
  "bad_target by_handle h name \<longleftrightarrow> \<not> by_handle \<and> name = None \<or> by_handle \<and> h = INV_LAYER_HANDLE"

definition make_target :: "'k clienv \<Rightarrow> bool \<Rightarrow> dword \<Rightarrow> byte list option \<Rightarrow> layer_target" where
  "make_target C by_handle h name =
     \<lparr>handle_name = by_handle, lt_handle = (if by_handle then h else 0),
      lt_name = (if by_handle then [] else copy_name (LEN_LAYER_NAME C) name)\<rparr>"

definition layer_request :: "'k clienv \<Rightarrow> layer_opid \<Rightarrow> bool \<Rightarrow> dword \<Rightarrow> byte list option \<Rightarrow> 'k cworld \<Rightarrow> (bool outcome \<times> 'k cworld) option" where
  "layer_request C op by_handle h name w =
     (if c_mgIsServer w \<or> bad_target by_handle h name then Some (Returns False, w)
      else do {
        (r, bs, w1) \<leftarrow> ClientRequest C
           \<lparr>rq_id = REQID_LAYEROP C, rq_data = put_layerop (clay C) (op, make_target C by_handle h name)\<rparr> 4 w;
        case r of
          Exits \<Rightarrow> Some (Exits, w1)
        | Returns n \<Rightarrow> if n < 0 then Some (Returns False, w1)
                       else do { v \<leftarrow> rd_int 0 bs; Some (Returns (v \<noteq> 0), w1) } })"

definition SetTopmostLayer :: "'k clienv \<Rightarrow> bool \<Rightarrow> dword \<Rightarrow> byte list option \<Rightarrow> 'k cworld \<Rightarrow> (bool outcome \<times> 'k cworld) option" where
  "SetTopmostLayer C by_handle h name w = layer_request C ID_LAYEROP_SETTOP by_handle h name w"

definition DeleteLayer :: "'k clienv \<Rightarrow> bool \<Rightarrow> dword \<Rightarrow> byte list option \<Rightarrow> 'k cworld \<Rightarrow> (bool outcome \<times> 'k cworld) option" where
  "DeleteLayer C by_handle h name w = layer_request C ID_LAYEROP_DELETE by_handle h name w"

text \<open>The pointer to detach is set to NULL before it is passed on.\<close>

definition client_on_layer_changed :: "'k clienv \<Rightarrow> dword \<Rightarrow> int \<Rightarrow> 'k cworld \<Rightarrow> bool \<times> 'k cworld" where
  "client_on_layer_changed C layer shmid w =
     (if layer \<noteq> INV_LAYER_HANDLE then
        let w1 = w\<lparr>mg_layer := INV_LAYER_HANDLE, zorder_info := 0\<rparr> in
        case shmdt C (zorder_info w1) (c_ext w1) of (ok, k) \<Rightarrow>
          if \<not> ok then (False, set_ext k w1)
          else case shmat C shmid k of
            (None, k) \<Rightarrow> (False, set_ext k w1)
          | (Some zi, k) \<Rightarrow> (True, w1\<lparr>mg_layer := layer, zorder_info := zi, c_ext := k\<rparr>)
      else (False, w))"

definition MoveToLayer :: "'k clienv \<Rightarrow> bool \<Rightarrow> dword \<Rightarrow> byte list option \<Rightarrow> 'k cworld \<Rightarrow> (bool outcome \<times> 'k cworld) option" where
  "MoveToLayer C by_handle h name w =
     (if c_mgIsServer w \<or> bad_target by_handle h name then Some (Returns False, w)
      else do {
        (r, bs, w1) \<leftarrow> ClientRequest C
           \<lparr>rq_id = REQID_MOVETOLAYER C, rq_data = put_movetolayer (clay C) (make_target C by_handle h name)\<rparr>
           (MOVED_SIZE (clay C)) w;
        case r of
          Exits \<Rightarrow> Some (Exits, w1)
        | Returns n \<Rightarrow>
            if n < 0 then Some (Returns False, w1)
            else do {
              (layer, shmid) \<leftarrow> rd_moved (clay C) bs;
              let (ok, w2) = client_on_layer_changed C layer shmid w1;
              Some (Returns ok, w2) } })"

end
