(* ===== verification/ReqProps.thy ===== *)
theory ReqProps
  imports Request ClientOps KeyedData
begin

text \<open>
  The properties of the request protocol: the resources of a client, the table of handlers, the
  way of a request to its handler and of the reply back, and a layer change on the client.
\<close>

section \<open>A sample server and client\<close>

text \<open>The external state of the samples: the sockets, and the cursors destroyed.\<close>

type_synonym sample_ext = "(int \<Rightarrow> packet list) \<times> dword list"

definition sample_io :: "sample_ext sockio" where
  "sample_io =
     \<lparr>sock_read = (\<lambda>a n k. map_option (\<lambda>(r, bs, fd, k'). (r, bs, k', snd k)) (pipe_recv a n False (fst k))),
      sock_write = (\<lambda>a bs k. map_option (\<lambda>(r, k'). (r, k', snd k)) (pipe_send a bs None (fst k))),
      sock_sendmsg = (\<lambda>a bs fd k. map_option (\<lambda>(r, k'). (r, k', snd k)) (pipe_send a bs fd (fst k))),
      sock_recvmsg = (\<lambda>a n room k. map_option (\<lambda>(r, bs, fd, k'). (r, bs, fd, k', snd k)) (pipe_recv a n room (fst k)))\<rparr>"

lemma sample_io_ok: "sockets_ok sample_io fst pipe_peer"
  by (simp add: sockets_ok_def sample_io_def pipe_send_def pipe_recv_def)

definition sample_layouts :: layouts where
  "sample_layouts =
     \<lparr>put_msg = (\<lambda>m. put_size (msg_hwnd m)), rd_msg = (\<lambda>bs. map_option (\<lambda>h. zero_msg\<lparr>msg_hwnd := h\<rparr>) (rd_size 0 bs)),
      put_movetolayer = (\<lambda>t. put_size (lt_handle t)),
      rd_movetolayer = (\<lambda>bs. map_option (\<lambda>h. \<lparr>handle_name = True, lt_handle = h, lt_name = []\<rparr>) (rd_size 0 bs)),
      put_layerop = (\<lambda>_. []), rd_layerop = (\<lambda>_. None), put_join = (\<lambda>_. []), rd_join = (\<lambda>_. None),
      wr_join_names = (\<lambda>b _ _. b), put_joined = (\<lambda>_. []), rd_joined = (\<lambda>_. None),
      put_layer_info = (\<lambda>_. []), rd_layer_info = (\<lambda>_. None),
      put_moved = (\<lambda>(h, i). put_size h @ put_int i),
      rd_moved = (\<lambda>bs. do { h \<leftarrow> rd_size 0 bs; i \<leftarrow> rd_int 8 bs; Some (h, i) }),
      put_sharedsurf = (\<lambda>_ _. []), RECT_SIZE = 16, CALCPOS_RC = 0, ZORDEROPINFO_SIZE = 0, ZORDERMASKRECT_SIZE = 0,
      IME_TARGET_SIZE = 16, MSG_SIZE = 8, JOINED_SIZE = 0, LAYERINFO_SIZE = 0, MOVED_SIZE = 12\<rparr>"

definition sample_srvenv0 :: "sample_ext srvenv" where
  "sample_srvenv0 =
     \<lparr>sio = sample_io, lay = sample_layouts, s_malloc = (\<lambda>h. Some (LEAST a. h a = None)),
      buf_malloc = (\<lambda>n k. (Some (replicate n 0), k)), buf_free = (\<lambda>k. k), garbage = 0,
      LoadCursorFromFile = (\<lambda>_ k. (5, k)), LoadCursorFromPNGFile = (\<lambda>_ _ _ k. (5, k)),
      LoadCursorFromPNGMem = (\<lambda>_ _ _ k. (5, k)), CreateCursor = (\<lambda>_ _ _ _ k. (6, k)), CopyCursor = (\<lambda>h k. (h + 1, k)),
      DestroyCursor = (\<lambda>h k. (True, fst k, snd k @ [h])), ClipCursor = (\<lambda>_ k. k), GetClipCursor = (\<lambda>_. replicate 16 0),
      SetCursorEx = (\<lambda>h k. (h, k)), GetCurrentCursor = (\<lambda>_. 0), ShowCursor = (\<lambda>_ k. (0, k)), SetCursorPos = (\<lambda>_ _ k. k),
      alloc_surf_sem = (\<lambda>k. (3, k)), free_surf_sem = (\<lambda>_ k. (0, k)), sem_key = 0x1000,
      hw_free = (\<lambda>_ k. k), mls_del_surface = (\<lambda>_ k. k),
      find_layer_by_name = (\<lambda>_ _. 0), is_valid_layer = (\<lambda>_ _. True), zorder_shmid = (\<lambda>_ _. 9), topmost_layer_name = (\<lambda>_. []),
      get_layer_info = (\<lambda>_ _ _. \<lparr>li_handle = 0, li_nr_clients = 0, li_is_topmost = False, li_cli_active = 0\<rparr>),
      move_client_to_layer = (\<lambda>_ _ w. (True, w)),
      client_join_layer = (\<lambda>_ _ w. (\<lparr>j_cli_id = 1, j_layer = 0, zi_shmid = 0, def_zi_shmid = 0\<rparr>, w)),
      ServerDeleteLayer = (\<lambda>_ w. (True, w)), ServerSetTopmostLayer = (\<lambda>_ w. (True, w)),
      do_zorder_operation = (\<lambda>_ _ _ _ w. (0, w)), do_zorder_maskrect = (\<lambda>_ _ _ w. (0, w)), do_reghook = (\<lambda>_ _ w. (0, w)),
      desktop_SendMessage = (\<lambda>_ _ _ m k. (0, m, k)), notify_window = (\<lambda>_ _ _ _ k. k), fake_screen = (\<lambda>_. None),
      SYSSF_WALLPAPER = [], clipboard_op = (\<lambda>_ _ _ _ w. Some (SOCKERR_OK, w)),
      user_handler = (\<lambda>_ _ _ _ _ w. Some (SOCKERR_OK, w)),
      user_handler_v1 = (\<lambda>_ _ _ _ _ _ w. Some (SOCKERR_OK, w)),
      remove_client = (\<lambda>_ _ w. Some w), check_dirty_znode = (\<lambda>_ w. w), close_fd = (\<lambda>_ k. k),
      MAX_REQID = 40, MAX_SYS_REQID = 35, REQMASK_FLAGS = 0xFF00, REQID_IAMLIVE = 14\<rparr>"

text \<open>The application's handler replies the request reversed, with its descriptor.\<close>

definition sample_srvenv :: "sample_ext srvenv" where
  "sample_srvenv = sample_srvenv0\<lparr>user_handler_v1 := (\<lambda>p cli clifd buff len fd w.
     ServerSendReplyEx sample_srvenv0 clifd (rev (take len buff)) fd w)\<rparr>"

lemma sample_srvenv0_simps:
  "sio sample_srvenv0 = sample_io" "lay sample_srvenv0 = sample_layouts"
  by (simp_all add: sample_srvenv0_def)

lemma sample_srvenv_simps:
  "sio sample_srvenv = sample_io" "lay sample_srvenv = sample_layouts" "MAX_REQID sample_srvenv = 40"
  "MAX_SYS_REQID sample_srvenv = 35" "REQMASK_FLAGS sample_srvenv = 0xFF00" "REQID_IAMLIVE sample_srvenv = 14"
  "DestroyCursor sample_srvenv = (\<lambda>h k. (True, fst k, snd k @ [h]))" "s_malloc sample_srvenv = (\<lambda>h. Some (LEAST a. h a = None))"
  by (simp_all add: sample_srvenv_def sample_srvenv0_simps) (simp_all add: sample_srvenv0_def)


definition sample_server :: "sample_ext sworld" where
  "sample_server = \<lparr>mgIsServer = True,
     mgClients = [\<lparr>cl_global_res = None, cl_layer = 0, last_live_time = 0, has_dirty = False\<rparr>],
     gress = (\<lambda>_. None), handlers = initial_handlers sample_srvenv, data_buff = replicate 1024 0, nr_layers = 0,
     nr_clients_named = 0, ime_wnd = 0, srv_ext = (\<lambda>_. [], [])\<rparr>"

definition empty_store :: world where
  "empty_store = \<lparr>wins = (\<lambda>_. None), queues = (\<lambda>_. None), qmsgs = (\<lambda>_. None), syncmsgs = (\<lambda>_. None), sems = (\<lambda>_. None),
     threadinfo = (\<lambda>_. None), tick_counter = 0, captured_wnd = 0, hwnd_desktop = 1, dsk_win = 1, dsk_msg_queue = None\<rparr>"

definition sample_clienv :: "sample_ext clienv" where
  "sample_clienv =
     \<lparr>cio = sample_io, clay = sample_layouts, c_self = 0, call_hook = (\<lambda>_ k. (0, k)), cli_conn = (\<lambda>k. (3, k)),
      watch_fd = (\<lambda>_ k. k), ignore_sigpipe = (\<lambda>k. k), c_close = (\<lambda>_ k. k), update_tick_count = (\<lambda>k. (0, k)),
      client_check_hwnd = (\<lambda>_ _ _. False), update_window = (\<lambda>_ _ _ _ _ w. w), c_err_sys = (\<lambda>k. Some k), ok_is_zero = False,
      c_select = (\<lambda>_ _ k. (0, False, (\<lambda>_. False), k)), c_check_timers = (\<lambda>_ _ w. (0, w)), c_check_listen_fds = (\<lambda>_ _ w. (0, w)),
      shared_timer_counter = (\<lambda>_. 0), shared_mouse_client = (\<lambda>_. 0), shared_mouse_serial = (\<lambda>_. 0), shared_mouse = (\<lambda>_. (0, 0, 0)),
      c_MAKELONG = (\<lambda>_ _. 0), shmat = (\<lambda>i k. (Some (nat i), k)), shmdt = (\<lambda>a k. (a \<noteq> 0, k)), start_client_desktop = (\<lambda>w. w),
      junk_msg = zero_msg, c_REQID_IAMLIVE = 14, REQID_LAYERINFO = 10, REQID_JOINLAYER = 11, REQID_LAYEROP = 12,
      REQID_MOVETOLAYER = 33, REQMASK_JOINLAYERFIRST = 0x100, DEF_NR_TOPMOSTS = 8, DEF_NR_NORMALS = 8,
      LEN_LAYER_NAME = 15, LEN_CLIENT_NAME = 15, NAME_SELF_LAYER = []\<rparr>"

definition sample_client :: "sample_ext cworld" where
  "sample_client = \<lparr>c_mgIsServer = False, mg_client_id = 1, conn_fd = 3, OnLockClientReq = 0, OnTrylockClientReq = 0,
     OnUnlockClientReq = 0, last_ticks = 0, mg_layer = 4, zorder_info = 7, def_zorder_info = 7, c_world = empty_store,
     old_timer = 0, repeat_timeout = TIMEOUT_START_REPEAT, old_mouse = (-1, -1, -1), old_mouse_serial = 0xDEADBEEF,
     c_ext = (\<lambda>_. [], [])\<rparr>"

lemma sample_malloc: "malloc_ok sample_srvenv"
proof -
  have "\<exists>a. h a = None" if "finite (dom h)" for h :: "nat \<Rightarrow> gres option"
    using ex_new_if_finite [OF infinite_UNIV_nat that] by auto
  then show ?thesis unfolding malloc_ok_def sample_srvenv_simps by (auto intro: LeastI_ex)
qed

section \<open>Resources\<close>

lemma res_step_holds:
  assumes "malloc_ok E" "finite (dom g0)" "holds g0 w cli as rs"
  shows "\<exists>w' as'. res_step E cli opr w = Some w' \<and> holds g0 w' cli as' (fst (spec_step E opr (rs, srv_ext w))) \<and>
    srv_ext w' = snd (spec_step E opr (rs, srv_ext w))"
proof (cases opr)
  case (Add_res key res rel)
  have f: "finite (dom (gress w))" by (rule holds_finite [OF assms(3,2)])
  have o: "owned w cli as rs" using assms(3) by (simp add: holds_def)
  from add_global_res_owned [OF assms(1) f o, of key res rel] obtain a w' where w':
    "add_global_res E cli key res rel w = Some w'" "gress w a = None" "owned w' cli (a # as) ((key, res, rel) # rs)"
    "srv_ext w' = srv_ext w" "\<forall>x. x \<notin> set (a # as) \<longrightarrow> gress w' x = gress w x" by blast
  have na: "a \<notin> set as" using w'(3) by (auto simp: owned_def)
  then have "g0 a = None" using assms(3) w'(2) by (auto simp: holds_def)
  then have "holds g0 w' cli (a # as) ((key, res, rel) # rs)"
    using w'(3,5) assms(3) na unfolding holds_def by auto
  then show ?thesis using w'(1,4) Add_res by auto
next
  case (Del_res key res)
  let ?c = "mgClients w ! cli"
  have o: "owned w cli as rs" using assms(3) by (simp add: holds_def)
  then have c: "arr_get (mgClients w) cli = Some ?c" and rs: "rs = payload entry_of (gress w) as"
    and d: "\<exists>k l. dseg (gress w) k (cl_global_res ?c) as l None"
    by (auto simp: owned_def arr_get_in)
  have h: "holds g0 w cli ([] @ as) rs" using assms(3) by simp
  from del_res_from_holds [OF h d, of key res E] obtain w' as' where w':
    "del_res_from E cli key res (cl_global_res ?c) w = Some w'"
    "holds g0 w' cli as' (drop_first (matches key res) rs)"
    "srv_ext w' = (case List.find (matches key res) rs of None \<Rightarrow> srv_ext w | Some e \<Rightarrow> release_entry E e (srv_ext w))"
    by (auto simp: rs)
  then have "res_step E cli opr w = Some w'" using c by (simp add: Del_res del_global_res_def)
  moreover have "srv_ext w' = snd (spec_step E opr (rs, srv_ext w))"
    using w'(3) by (simp add: Del_res split: option.splits)
  ultimately show ?thesis using w'(2) by (auto simp: Del_res)
qed

lemma res_steps_hold:
  assumes "malloc_ok E" "finite (dom g0)" "holds g0 w cli as rs"
  shows "\<exists>w' as'. foldm (res_step E cli) ops w = Some w' \<and>
    holds g0 w' cli as' (fst (fold (spec_step E) ops (rs, srv_ext w))) \<and>
    srv_ext w' = snd (fold (spec_step E) ops (rs, srv_ext w))"
  using assms(3)
proof (induction ops arbitrary: w as rs)
  case (Cons x ops)
  from res_step_holds [OF assms(1,2) Cons.prems, of x] obtain w1 as1 where w1: "res_step E cli x w = Some w1"
    "holds g0 w1 cli as1 (fst (spec_step E x (rs, srv_ext w)))" "srv_ext w1 = snd (spec_step E x (rs, srv_ext w))"
    by blast
  from Cons.IH [OF w1(2)] w1(1,3) show ?case by simp
qed auto

lemma release_again:
  assumes "owned w cli as rs" "as \<noteq> []" "mgClients w' = mgClients w" "\<forall>x \<in> set as. gress w' x = None"
  shows "mg_release_global_res E cli w' = None"
proof -
  obtain a bs where "as = a # bs" using assms(2) by (cases as) auto
  then have "cl_global_res (mgClients w ! cli) = Some a" "gress w' a = None" "cli < length (mgClients w)"
    using assms by (auto simp: owned_def)
  then show ?thesis
    by (subst mg_release_global_res_def, subst release_from.simps) (simp add: assms(3) arr_get_in)
qed

text \<open>C22. The server keeps for every client exactly the resources it has allocated and not freed: over
  any sequence of allocations and frees, freeing releases the newest matching resource once, and
  when the client goes every remaining one is released once and all list nodes are freed. The
  client's list head is left dangling: a second release faults.\<close>

theorem client_resources_released:
  fixes w :: "'k sworld"
  assumes "malloc_ok E" "finite (dom (gress w))" "cli < length (mgClients w)"
    and "cl_global_res (mgClients w ! cli) = None"
  shows "\<exists>w1 w2 rs. foldm (res_step E cli) ops w = Some w1 \<and>
    fold (spec_step E) ops ([], srv_ext w) = (rs, srv_ext w1) \<and>
    mg_release_global_res E cli w1 = Some w2 \<and> srv_ext w2 = fold (release_entry E) rs (srv_ext w1) \<and>
    gress w2 = gress w \<and> (rs \<noteq> [] \<longrightarrow> mg_release_global_res E cli w2 = None)"
proof -
  have h0: "holds (gress w) w cli [] []" using assms(3,4) by (simp add: holds_def owned_def)
  from res_steps_hold [OF assms(1,2) h0, of ops] obtain w1 as where w1: "foldm (res_step E cli) ops w = Some w1"
    "holds (gress w) w1 cli as (fst (fold (spec_step E) ops ([], srv_ext w)))"
    "srv_ext w1 = snd (fold (spec_step E) ops ([], srv_ext w))" by blast
  define rs where "rs = fst (fold (spec_step E) ops ([], srv_ext w))"
  have o: "owned w1 cli as rs" and out: "\<forall>x. x \<notin> set as \<longrightarrow> gress w1 x = gress w x" "\<forall>x \<in> set as. gress w x = None"
    using w1(2) by (simp_all add: holds_def rs_def)
  have d: "\<exists>k l. dseg (gress w1) k (cl_global_res (mgClients w1 ! cli)) as l None" and da: "distinct as"
    using o by (auto simp: owned_def)
  from release_from_holds [OF d da, of E] obtain w2 where w2:
    "release_from E (cl_global_res (mgClients w1 ! cli)) w1 = Some w2"
    "srv_ext w2 = fold (release_entry E) (payload entry_of (gress w1) as) (srv_ext w1)"
    "gress w2 = (\<lambda>x. if x \<in> set as then None else gress w1 x)" "mgClients w2 = mgClients w1" by blast
  have r: "mg_release_global_res E cli w1 = Some w2"
    using w2(1) o by (simp add: mg_release_global_res_def owned_def arr_get_in)
  have g: "gress w2 = gress w" using w2(3) out by (auto simp: fun_eq_iff)
  have "mg_release_global_res E cli w2 = None" if "rs \<noteq> []"
  proof (rule release_again [OF o _ w2(4)])
    show "as \<noteq> []" using that o by (auto simp: owned_def)
    show "\<forall>x \<in> set as. gress w2 x = None" by (simp add: w2(3))
  qed
  moreover have "fold (spec_step E) ops ([], srv_ext w) = (rs, srv_ext w1)" by (simp add: rs_def w1(3))
  ultimately show ?thesis using w1(1) r w2(2) g o by (auto simp: owned_def)
qed

theorem client_resources_released_witness:
  "\<exists>w1 w2. foldm (res_step sample_srvenv 0)
      [Add_res 5 5 DestroyCursor_release, Add_res 6 6 DestroyCursor_release, Add_res 7 7 NoRelease, Del_res 5 5] sample_server = Some w1 \<and>
    snd (srv_ext w1) = [5] \<and> mg_release_global_res sample_srvenv 0 w1 = Some w2 \<and> snd (srv_ext w2) = [5, 6] \<and>
    mg_release_global_res sample_srvenv 0 w2 = None"
proof -
  let ?ops = "[Add_res 5 5 DestroyCursor_release, Add_res 6 6 DestroyCursor_release, Add_res 7 7 NoRelease, Del_res 5 5]"
  have "finite (dom (gress sample_server))" "0 < length (mgClients sample_server)"
    "cl_global_res (mgClients sample_server ! 0) = None" by (simp_all add: sample_server_def)
  from client_resources_released [OF sample_malloc this, of ?ops] obtain w1 w2 rs where
    h: "foldm (res_step sample_srvenv 0) ?ops sample_server = Some w1"
    "fold (spec_step sample_srvenv) ?ops ([], srv_ext sample_server) = (rs, srv_ext w1)"
    "mg_release_global_res sample_srvenv 0 w1 = Some w2" "srv_ext w2 = fold (release_entry sample_srvenv) rs (srv_ext w1)"
    "rs \<noteq> [] \<longrightarrow> mg_release_global_res sample_srvenv 0 w2 = None" by blast
  have "fold (spec_step sample_srvenv) ?ops ([], srv_ext sample_server) =
      ([(7, 7, NoRelease), (6, 6, DestroyCursor_release)], (\<lambda>_. [], [5]))"
    by (simp add: matches_def release_entry_def run_release_def sample_server_def sample_srvenv_simps)
  then have r: "rs = [(7, 7, NoRelease), (6, 6, DestroyCursor_release)]" "srv_ext w1 = (\<lambda>_. [], [5])" using h(2) by auto
  then have "srv_ext w2 = (\<lambda>_. [], [5, 6])"
    using h(4) by (simp add: release_entry_def run_release_def sample_srvenv_simps)
  then show ?thesis using h r by auto
qed

text \<open>A cursor that the client loaded is destroyed twice when the client asks for it: the handler calls
  \<open>DestroyCursor\<close>, and then unlinks the resource, whose release procedure is \<open>DestroyCursor\<close>.\<close>

theorem destroy_cursor_twice:
  fixes w :: "'k sworld"
  assumes "owned w cli as rs" "List.find (matches h h) rs = Some (h, h, DestroyCursor_release)" "rd_size 0 buff = Some h"
  shows "\<exists>w' ret. destroy_cursor E cli clifd buff len w = ServerSendReplyEx E clifd ret (-1) w' \<and>
    srv_ext w' = snd (DestroyCursor E h (snd (DestroyCursor E h (srv_ext w))))"
proof -
  let ?w = "w\<lparr>srv_ext := snd (DestroyCursor E h (srv_ext w))\<rparr>"
  let ?g0 = "\<lambda>x. if x \<in> set as then None else gress w x"
  have hw: "holds ?g0 ?w cli ([] @ as) rs" using assms(1) by (auto simp: holds_def owned_def)
  have d: "\<exists>k l. dseg (gress ?w) k (cl_global_res (mgClients ?w ! cli)) as l None"
    and c: "arr_get (mgClients ?w) cli = Some (mgClients ?w ! cli)" and rs: "rs = payload entry_of (gress ?w) as"
    using assms(1) by (auto simp: owned_def arr_get_in)
  from del_res_from_holds [OF hw d, of h h E] assms(2) obtain w' where
    "del_res_from E cli h h (cl_global_res (mgClients ?w ! cli)) ?w = Some w'"
    "srv_ext w' = release_entry E (h, h, DestroyCursor_release) (srv_ext ?w)" by (auto simp: rs)
  then show ?thesis using c assms(3)
    by (intro exI [of _ w'] exI)
      (auto simp: destroy_cursor_def del_global_res_def release_entry_def run_release_def split_beta)
qed

theorem destroy_cursor_twice_witness:
  "\<exists>w1 w2 ret. add_global_res sample_srvenv 0 5 5 DestroyCursor_release sample_server = Some w1 \<and>
    destroy_cursor sample_srvenv 0 4 (put_size 5) 8 w1 = ServerSendReplyEx sample_srvenv 4 ret (-1) w2 \<and>
    snd (srv_ext w2) = [5, 5]"
proof -
  have "owned sample_server 0 [] []" "finite (dom (gress sample_server))" by (simp_all add: owned_def sample_server_def)
  from add_global_res_owned [OF sample_malloc this(2,1), of 5 5 DestroyCursor_release] obtain a w1 where
    w1: "add_global_res sample_srvenv 0 5 5 DestroyCursor_release sample_server = Some w1"
    "owned w1 0 [a] [(5, 5, DestroyCursor_release)]" "srv_ext w1 = srv_ext sample_server" by blast
  have f: "List.find (matches 5 5) [(5, 5, DestroyCursor_release)] = Some (5, 5, DestroyCursor_release)"
    by (simp add: matches_def)
  from destroy_cursor_twice [OF w1(2) f rd_size_put0(2), of sample_srvenv 4 8] w1 show ?thesis
    by (fastforce simp: sample_srvenv_simps sample_server_def)
qed

section \<open>A request and its reply\<close>

text \<open>A client connected to the server, nothing under way on the connection.\<close>

definition reply_layout :: "layouts \<Rightarrow> bool" where
  "reply_layout L \<longleftrightarrow> (let bs = put_msg L (zero_msg\<lparr>msg_hwnd := HWND_INVALID\<rparr>) in
     length bs = MSG_SIZE L \<and> 0 < MSG_SIZE L \<and> (case rd_msg L bs of None \<Rightarrow> False | Some m \<Rightarrow> msg_hwnd m = HWND_INVALID))"

lemma sample_layouts_ok: "reply_layout sample_layouts"
  by (simp add: reply_layout_def sample_layouts_def zero_msg_def)


lemma put_nonempty [simp]: "put_uint u \<noteq> []" "put_size v \<noteq> []"
  using put_length(1) [of u] put_length(2) [of v] by force+

lemma send_request_run:
  assumes S: "sockets_ok (cio C) inq peer" and p: "peer (conn_fd c) = Some b" and e: "inq (c_ext c) b = []"
    and d: "rq_data req @ ex \<noteq> []"
  shows "\<exists>k. send_request C req ex fd c = Some (SOCKERR_OK, set_ext k c) \<and>
    inq k = (inq (c_ext c))(b := [(put_uint (rq_id req), None), (put_size (of_nat (length (rq_data req))), None),
      (put_size (of_nat (length ex)), None), (rq_data req @ ex, if fd \<ge> 0 then Some fd else None)])"
proof -
  note wr = sock_laws(1) [OF S p]
  from wr [OF put_nonempty(1)] obtain k1 where k1: "sock_write (cio C) (conn_fd c) (put_uint (rq_id req)) (c_ext c) = Some (SOCKERR_OK, k1)"
    "inq k1 = (inq (c_ext c))(b := inq (c_ext c) b @ [(put_uint (rq_id req), None)])" by blast
  from wr [OF put_nonempty(2)] obtain k2 where k2: "sock_write (cio C) (conn_fd c) (put_size (of_nat (length (rq_data req)))) k1 = Some (SOCKERR_OK, k2)"
    "inq k2 = (inq k1)(b := inq k1 b @ [(put_size (of_nat (length (rq_data req))), None)])" by blast
  from wr [OF put_nonempty(2)] obtain k3 where k3: "sock_write (cio C) (conn_fd c) (put_size (of_nat (length ex))) k2 = Some (SOCKERR_OK, k3)"
    "inq k3 = (inq k2)(b := inq k2 b @ [(put_size (of_nat (length ex)), None)])" by blast
  from sock_laws(2) [OF S p d] obtain k4 where k4: "sock_sendmsg (cio C) (conn_fd c) (rq_data req @ ex) (if fd \<ge> 0 then Some fd else None) k3 = Some (SOCKERR_OK, k4)"
    "inq k4 = (inq k3)(b := inq k3 b @ [(rq_data req @ ex, if fd \<ge> 0 then Some fd else None)])" by blast
  show ?thesis by (rule exI [of _ k4]) (simp add: send_request_def k1 k2 k3 k4 e)
qed


lemma receive_reply_run:
  assumes S: "sockets_ok (cio C) inq peer" and r: "reply_layout (clay C)" "reply \<noteq> []" and h: "OnLockClientReq c = 0"
    and q: "inq (c_ext c) (conn_fd c) = [(put_msg (clay C) (zero_msg\<lparr>msg_hwnd := HWND_INVALID\<rparr>), None), (reply, rfd)]"
  shows "\<exists>k. receive_reply C (length reply) want c =
      Some (Returns 0, reply, case (if want then rfd else None) of Some f \<Rightarrow> f | None \<Rightarrow> -1, set_ext k c) \<and>
    inq k = (inq (c_ext c))(conn_fd c := [])"
proof -
  let ?hd = "put_msg (clay C) (zero_msg\<lparr>msg_hwnd := HWND_INVALID\<rparr>)"
  have "?hd \<noteq> []" using r(1) by (auto simp: reply_layout_def Let_def)
  then obtain m where hd: "length ?hd = MSG_SIZE (clay C)" "?hd \<noteq> []" "rd_msg (clay C) ?hd = Some m" "msg_hwnd m = HWND_INVALID"
    using r(1) by (auto simp: reply_layout_def Let_def split: option.splits)
  from sock_laws(3) [OF S q hd(2)] obtain k1 where k1: "sock_read (cio C) (conn_fd c) (length ?hd) (c_ext c) = Some (SOCKERR_OK, ?hd, k1)"
    "inq k1 = (inq (c_ext c))(conn_fd c := [(reply, rfd)])" by blast
  then have q1: "inq k1 (conn_fd c) = [(reply, rfd)]" by simp
  from sock_laws(4) [OF S q1 r(2), of want] obtain k2 where k2:
    "sock_recvmsg (cio C) (conn_fd c) (length reply) want k1 = Some (SOCKERR_OK, reply, if want then rfd else None, k2)"
    "inq k2 = (inq k1)(conn_fd c := [])" by blast
  have wait: "wait_reply C c = Some (Returns SOCKERR_OK, set_ext k1 c)"
    using k1(1) hd by (subst wait_reply.simps) simp
  show ?thesis
    by (rule exI [of _ k2]) (simp add: receive_reply_def wait k2 k1(2) set_ext_def unlock_req_def h split: option.split)
qed










section \<open>The table of handlers\<close>

definition open_slot :: "'k srvenv \<Rightarrow> 'k sworld \<Rightarrow> unit \<Rightarrow> nat \<Rightarrow> bool" where
  "open_slot E w u i \<longleftrightarrow> 0 \<le> MAX_SYS_REQID E \<and> MAX_SYS_REQID E < int i \<and> int i \<le> MAX_REQID E \<and>
     length (handlers w) = nat (MAX_REQID E)"

definition put_handler :: "'k srvenv \<Rightarrow> unit \<Rightarrow> nat \<Rightarrow> handler option \<Rightarrow> 'k sworld \<Rightarrow> 'k sworld option" where
  "put_handler E u i h w = map_option snd (RegisterRequestHandler E (int i) h w)"

definition get_handler :: "'k srvenv \<Rightarrow> unit \<Rightarrow> nat \<Rightarrow> 'k sworld \<Rightarrow> handler option option" where
  "get_handler E u i w = GetRequestHandler E (int i) w"

lemma put_handler_run:
  "open_slot E w u i \<Longrightarrow> put_handler E u i h w =
     Some (w\<lparr>handlers := (handlers w)[i - 1 := \<lparr>rq_handler = h, rq_version = 0\<rparr>]\<rparr>)"
  by (auto simp: open_slot_def put_handler_def RegisterRequestHandler_def register_handler_def arr_set_def nat_diff_distrib)

lemma get_handler_run:
  "open_slot E w u i \<Longrightarrow> get_handler E u i w =
     (let r = handlers w ! (i - 1) in Some (if rq_version r = 0 then rq_handler r else None))"
  by (auto simp: open_slot_def get_handler_def GetRequestHandler_def arr_get_def nat_diff_distrib Let_def)

interpretation registry: keyed_data "put_handler E" "get_handler E" "open_slot E" for E
proof unfold_locales
  fix w :: "'a sworld" and u i h
  assume s: "open_slot E w u i"
  let ?w = "w\<lparr>handlers := (handlers w)[i - 1 := \<lparr>rq_handler = h, rq_version = 0\<rparr>]\<rparr>"
  have s': "open_slot E ?w u i" using s by (simp add: open_slot_def)
  have "i - 1 < length (handlers w)" using s by (auto simp: open_slot_def)
  then show "\<exists>w'. put_handler E u i h w = Some w' \<and> get_handler E u i w' = Some h"
    using put_handler_run [OF s] get_handler_run [OF s'] by simp
next
  fix w w' :: "'a sworld" and u i h v j
  assume s: "open_slot E w u i" "put_handler E u i h w = Some w'" "open_slot E w v j" and ne: "(v, j) \<noteq> (u, i)"
  then have w': "w' = w\<lparr>handlers := (handlers w)[i - 1 := \<lparr>rq_handler = h, rq_version = 0\<rparr>]\<rparr>"
    by (simp add: put_handler_run)
  have s': "open_slot E w' v j" using s(3) by (simp add: w' open_slot_def)
  have "j - 1 \<noteq> i - 1" using ne s(1,3) by (auto simp: open_slot_def)
  then show "get_handler E v j w' = get_handler E v j w"
    using get_handler_run [OF s'] get_handler_run [OF s(3)] by (simp add: w')
next
  fix w w' :: "'a sworld" and u i h v j
  assume "open_slot E w u i" "put_handler E u i h w = Some w'"
  then show "open_slot E w' v j = open_slot E w v j" by (auto simp: put_handler_run open_slot_def)
qed

text \<open>The table of request handlers: after any registrations of applications' handlers under numbers
  beyond the system's, \<open>GetRequestHandler\<close> returns the last one registered under a number and what
  was there under the others; a number of the system is refused and nothing changes.\<close>

theorem handler_registry:
  fixes w :: "'k sworld"
  assumes "\<forall>x \<in> set xs. open_slot E w () (fst (snd x))" "open_slot E w () j"
  shows "\<exists>w'. foldm (\<lambda>(u, i, h). put_handler E u i h) xs w = Some w' \<and>
    GetRequestHandler E (int j) w' =
      (case map_of (rev (map (\<lambda>(u, i, h). ((u, i), h)) xs)) ((), j) of
         Some h \<Rightarrow> Some h | None \<Rightarrow> GetRequestHandler E (int j) w) \<and>
    (\<forall>i h. i \<le> MAX_SYS_REQID E \<longrightarrow> RegisterRequestHandler E i h w' = Some (False, w'))"
proof -
  have "\<forall>x \<in> set xs. open_slot E w (fst x) (fst (snd x))" using assms(1) by simp
  from registry.stores_read_back [OF this assms(2), unfolded get_handler_def] obtain w' where
    "foldm (\<lambda>(u, i, h). put_handler E u i h) xs w = Some w'"
    "GetRequestHandler E (int j) w' = (case map_of (rev (map (\<lambda>(u, i, h). ((u, i), h)) xs)) ((), j) of
         Some h \<Rightarrow> Some h | None \<Rightarrow> GetRequestHandler E (int j) w)" by blast
  then show ?thesis by (simp add: RegisterRequestHandler_def register_handler_def)
qed

theorem handler_registry_witness:
  "\<exists>w'. foldm (\<lambda>(u, i, h). put_handler sample_srvenv u i h) [((), 36, Some (H_user 1)), ((), 37, Some (H_user 2)), ((), 36, Some (H_user 3))]
      sample_server = Some w' \<and> GetRequestHandler sample_srvenv 36 w' = Some (Some (H_user 3))"
proof -
  have "length (handlers sample_server) = 40" "MAX_REQID sample_srvenv = 40" "MAX_SYS_REQID sample_srvenv = 35"
    by (simp_all add: sample_server_def initial_handlers_def sys_handlers_def sample_srvenv_simps)
  then have s: "open_slot sample_srvenv sample_server () 36" "open_slot sample_srvenv sample_server () 37"
    by (simp_all add: open_slot_def)
  show ?thesis
    using handler_registry [of "[((), 36, Some (H_user 1)), ((), 37, Some (H_user 2)), ((), 36, Some (H_user 3))]"
        sample_srvenv sample_server 36] s by (fastforce simp: map_add_def)
qed

section \<open>A layer change on the client\<close>

text \<open>When the client has moved to another layer, it forgets the address of its z-order information
  before it detaches it: the detaching of NULL fails, \<open>MoveToLayer\<close> reports failure although the
  server has moved the client, and the client is left without a layer and with the old segment
  attached.\<close>

theorem layer_change_lost:
  assumes "\<forall>k. fst (shmdt C 0 k) = False" "MoveToLayer C by_handle h name w = Some (Returns b, w')"
  shows "\<not> b \<and> (\<forall>layer shmid. layer \<noteq> INV_LAYER_HANDLE \<longrightarrow>
    client_on_layer_changed C layer shmid w =
      (False, w\<lparr>mg_layer := INV_LAYER_HANDLE, zorder_info := 0, c_ext := snd (shmdt C 0 (c_ext w))\<rparr>))"
proof -
  have f: "client_on_layer_changed C layer shmid v =
      (False, v\<lparr>mg_layer := INV_LAYER_HANDLE, zorder_info := 0, c_ext := snd (shmdt C 0 (c_ext v))\<rparr>)"
    if "layer \<noteq> INV_LAYER_HANDLE" for layer shmid v
    using assms(1) [rule_format, of "c_ext v"] that
    by (cases "shmdt C 0 (c_ext v)") (simp add: client_on_layer_changed_def set_ext_def)
  have "\<not> fst (client_on_layer_changed C layer shmid v)" for layer shmid v
    using f by (cases "layer = INV_LAYER_HANDLE") (simp_all add: client_on_layer_changed_def)
  then have "\<not> b" using assms(2)
    by (auto simp: MoveToLayer_def split: if_splits bind_splits outcome.splits prod.splits) (metis fst_conv)+
  with f show ?thesis by blast
qed

theorem layer_change_lost_witness:
  "\<exists>w'. MoveToLayer sample_clienv True 4 None
      (sample_client\<lparr>c_ext := (\<lambda>a. if a = 3 then [(put_size HWND_INVALID, None), (put_size 4 @ put_int 9, None)] else [], [])\<rparr>) =
    Some (Returns False, w')"
proof -
  let ?q = "\<lambda>a :: int. if a = 3 then [(put_size HWND_INVALID, None :: int option), (put_size 4 @ put_int 9, None)] else []"
  let ?c = "sample_client\<lparr>c_ext := (?q, [])\<rparr>"
  let ?req = "\<lparr>rq_id = REQID_MOVETOLAYER sample_clienv,
      rq_data = put_movetolayer (clay sample_clienv) (make_target sample_clienv True 4 None)\<rparr>"
  have env: "cio sample_clienv = sample_io" "clay sample_clienv = sample_layouts" by (simp_all add: sample_clienv_def)
  have S: "sockets_ok (cio sample_clienv) fst pipe_peer" using sample_io_ok env by simp
  have c: "conn_fd ?c = 3" "OnLockClientReq ?c = 0" "c_mgIsServer ?c = False" "mg_client_id ?c = 1" "c_ext ?c = (?q, [])"
    by (simp_all add: sample_client_def)
  have d: "rq_data ?req @ [] \<noteq> []" by (simp add: env make_target_def) (simp add: sample_layouts_def)
  have pp: "pipe_peer (conn_fd ?c) = Some 4" "fst (c_ext ?c) 4 = []" by (simp_all add: c(1,5) pipe_peer_def)
  from send_request_run [OF S pp(1) pp(2) d, of "-1"] obtain k where k:
    "send_request sample_clienv ?req [] (-1) ?c = Some (SOCKERR_OK, set_ext k ?c)" "fst k 3 = ?q 3"
    by (auto simp: c(5))
  have hd: "put_msg (clay sample_clienv) (zero_msg\<lparr>msg_hwnd := HWND_INVALID\<rparr>) = put_size HWND_INVALID"
    by (simp add: env) (simp add: sample_layouts_def)
  have rl: "reply_layout (clay sample_clienv)" using sample_layouts_ok env by simp
  have ne: "put_size 4 @ put_int 9 \<noteq> []" by simp
  have o: "OnLockClientReq (set_ext k ?c) = 0" using c(2) by (simp add: set_ext_def)
  have q: "fst (c_ext (set_ext k ?c)) (conn_fd (set_ext k ?c)) =
      [(put_msg (clay sample_clienv) (zero_msg\<lparr>msg_hwnd := HWND_INVALID\<rparr>), None), (put_size 4 @ put_int 9, None)]"
    unfolding hd using k(2) c(1) by (simp add: set_ext_def)
  from receive_reply_run [OF S rl ne o q, of False] obtain k' where
    k': "receive_reply sample_clienv (length (put_size 4 @ put_int 9)) False (set_ext k ?c) =
      Some (Returns 0, put_size 4 @ put_int 9, -1, set_ext k' (set_ext k ?c))" by auto
  have sz: "MOVED_SIZE (clay sample_clienv) = 12" "length (put_size 4 @ put_int 9) = 12"
    by (simp_all add: env sample_layouts_def)
  have lk: "lock_req sample_clienv ?c = ?c" by (simp add: lock_req_def c(2))
  have run: "ClientRequest sample_clienv ?req 12 ?c = Some (Returns 0, put_size 4 @ put_int 9, set_ext k' (set_ext k ?c))"
    using k(1) k' unfolding sz(2) ClientRequest_def ClientRequestEx2_def lk by (simp add: c(3,4))
  have rd: "rd_moved (clay sample_clienv) (put_size 4 @ put_int 9) = Some (4, 9)"
    using rd_uint_put [of "put_size 4" "word_of_int 9" "[]"]
    by (simp add: env) (simp add: sample_layouts_def rd_int_def put_int_def)
  have b: "bad_target True 4 None = False" by (simp add: bad_target_def INV_LAYER_HANDLE_def)
  have "\<exists>b w'. MoveToLayer sample_clienv True 4 None ?c = Some (Returns b, w')"
    unfolding MoveToLayer_def sz(1) run bind.bind_lunit by (simp add: c(3) b run rd split_beta)
  then obtain b w' where m: "MoveToLayer sample_clienv True 4 None ?c = Some (Returns b, w')" by blast
  have "\<forall>k. fst (shmdt sample_clienv 0 k) = False" by (simp add: sample_clienv_def)
  from layer_change_lost [OF this m] m show ?thesis by simp
qed

end
