(* ===== verification/Purc.thy ===== *)
theory Purc
  imports KeyedData
begin

text \<open>
  Instances of the PurC interpreter (lecture-5/purc-instance.c, purc-instance.h): one object per
  thread, the table of modules with their initialisers, creation and cleanup of the instance of a
  thread, its local data and variables, and the atoms of the exceptions.
\<close>

section \<open>Data\<close>

datatype purcret = PURC_ERROR_OK | PURC_ERROR_NO_INSTANCE | PURC_ERROR_OUT_OF_MEMORY | PURC_ERROR_DUPLICATED
  | PURC_ERROR_INVALID_VALUE | PURC_ERROR_TOO_SMALL_BUFF | PURC_ERROR_OTHER int

text \<open>The fields of \<open>pcinst\<close> the file uses; a pointer to an object of another module is a word, 0 for
  NULL (for \<open>fp_log\<close>, -1 is the system log).\<close>

record pcinst =
  errcode :: purcret
  err_exinfo :: dword
  modules :: uint
  modules_inited :: uint
  enable_remote_fetcher :: bool
  auto_switching_rdr :: bool
  app_name :: "string option"
  runner_name :: "string option"
  endpoint_name :: string
  endpoint_atom :: uint
  max_conns :: nat
  cache_quota :: nat
  fp_log :: dword
  local_data_map :: dword
  variables :: dword
  conn_to_rdr :: dword
  bt :: dword
  app_manifest :: dword

definition zero_inst :: pcinst where
  "zero_inst = \<lparr>errcode = PURC_ERROR_OK, err_exinfo = 0, modules = 0, modules_inited = 0,
     enable_remote_fetcher = False, auto_switching_rdr = False, app_name = None, runner_name = None,
     endpoint_name = '''', endpoint_atom = 0, max_conns = 0, cache_quota = 0, fp_log = 0, local_data_map = 0,
     variables = 0, conn_to_rdr = 0, bt = 0, app_manifest = 0\<rparr>"

datatype pcmodule = M_locale | M_atom | M_except | M_keywords | M_errmsg | M_rwstream | M_dom | M_html
  | M_variant | M_mvheap | M_mvbuf | M_ejson | M_dvobjs | M_hvml | M_runloop | M_executor | M_interpreter
  | M_fetcher_local | M_fetcher_remote | M_renderer

definition pc_modules :: "pcmodule list" where
  "pc_modules = [M_locale, M_atom, M_except, M_keywords, M_errmsg, M_rwstream, M_dom, M_html, M_variant,
     M_mvheap, M_mvbuf, M_ejson, M_dvobjs, M_hvml, M_runloop, M_executor, M_interpreter, M_fetcher_local,
     M_fetcher_remote, M_renderer]"

text \<open>\<open>insts\<close> is the thread-local instance (NULL when it cannot be allocated); the flags are the
  statics of the file.\<close>

record 'k pworld =
  insts :: "thread_id \<Rightarrow> pcinst option"
  init_called :: bool
  once_done :: bool
  init_ok :: bool
  module_inited :: "pcmodule set"
  except_atoms :: "uint list"
  p_ext :: 'k

text \<open>
  What is not in the file: the other modules, atoms, maps, the names of endpoints, the functions
  that set and clear the error of the current instance, logging. A map (\<open>pcutils_uomap\<close>) is addressed by its pointer; \<open>um_insert\<close> and
  \<open>um_erase\<close> return whether they failed.
\<close>

record 'k purcenv =
  MODULE_ALL :: uint
  HAVE_UTILS :: uint
  HAVE_FETCHER_R :: uint
  ENDPOINT_SIZE :: nat
  x_id :: "pcmodule \<Rightarrow> uint"
  x_init_once :: "pcmodule \<Rightarrow> ('k \<Rightarrow> bool \<times> 'k) option"
  x_init_instance :: "pcmodule \<Rightarrow> (pcinst \<Rightarrow> dword \<Rightarrow> 'k \<Rightarrow> purcret \<times> pcinst \<times> 'k) option"
  x_cleanup_instance :: "pcmodule \<Rightarrow> (pcinst \<Rightarrow> 'k \<Rightarrow> pcinst \<times> 'k) option"
  static_atom :: "string \<Rightarrow> 'k \<Rightarrow> uint \<times> 'k"
  string_atom :: "string \<Rightarrow> 'k \<Rightarrow> uint \<times> bool \<times> 'k"
  remove_atom :: "string \<Rightarrow> 'k \<Rightarrow> 'k"
  tzset_setlocale :: "'k \<Rightarrow> 'k"
  register_messages :: "'k \<Rightarrow> 'k"
  cmdline_arg0 :: "'k \<Rightarrow> string"
  valid_app_name :: "string \<Rightarrow> bool"
  valid_runner_name :: "string \<Rightarrow> bool"
  assemble_endpoint :: "string \<Rightarrow> string \<Rightarrow> nat \<Rightarrow> nat \<times> string"
  strdup :: "string \<Rightarrow> 'k \<Rightarrow> string option \<times> 'k"
  getenv :: "string \<Rightarrow> 'k \<Rightarrow> string option"
  lowercase :: "string \<Rightarrow> string"
  LOG_ENABLE :: string
  LOG_SYSLOG :: string
  MASK_DEFAULT :: uint
  MASK_ALL :: uint
  MASK_INFO :: uint
  MASK_DEBUG :: uint
  enable_log_ex :: "uint \<Rightarrow> bool \<Rightarrow> pcinst option \<Rightarrow> 'k \<Rightarrow> pcinst option \<times> 'k"
  um_create :: "'k \<Rightarrow> dword \<times> 'k"
  um_insert :: "dword \<Rightarrow> string \<Rightarrow> dword \<times> procptr \<Rightarrow> 'k \<Rightarrow> bool \<times> 'k"
  um_find :: "dword \<Rightarrow> string \<Rightarrow> 'k \<Rightarrow> (dword \<times> procptr) option"
  um_erase :: "dword \<Rightarrow> string \<Rightarrow> 'k \<Rightarrow> bool \<times> 'k"
  um_size :: "dword \<Rightarrow> 'k \<Rightarrow> nat"
  um_clear :: "dword \<Rightarrow> 'k \<Rightarrow> 'k"
  um_destroy :: "dword \<Rightarrow> 'k \<Rightarrow> 'k"
  variant_clear :: "dword \<Rightarrow> 'k \<Rightarrow> 'k"
  p_fclose :: "dword \<Rightarrow> 'k \<Rightarrow> 'k"
  backtrace_unref :: "dword \<Rightarrow> 'k \<Rightarrow> 'k"
  set_error :: "purcret \<Rightarrow> pcinst option \<Rightarrow> 'k \<Rightarrow> pcinst option \<times> 'k"
  clr_error :: "pcinst option \<Rightarrow> 'k \<Rightarrow> pcinst option \<times> 'k"
  conn_setup :: "dword \<Rightarrow> 'k \<Rightarrow> 'k"
  varmgr_create :: "'k \<Rightarrow> dword \<times> 'k"
  varmgr_add :: "dword \<Rightarrow> string \<Rightarrow> dword \<Rightarrow> 'k \<Rightarrow> bool \<times> 'k"
  varmgr_get :: "dword \<Rightarrow> string \<Rightarrow> 'k \<Rightarrow> dword"

definition FETCHER_MAX_CONNS :: nat where "FETCHER_MAX_CONNS = 100"
definition FETCHER_CACHE_QUOTA :: nat where "FETCHER_CACHE_QUOTA = 10240"

definition set_inst :: "thread_id \<Rightarrow> pcinst \<Rightarrow> 'k pworld \<Rightarrow> 'k pworld" where
  "set_inst self i w = w\<lparr>insts := (insts w)(self \<mapsto> i)\<rparr>"

section \<open>Exception atoms\<close>

definition except_names :: "string list" where
  "except_names = [''OK'', ''ANY'', ''Again'', ''BadEncoding'', ''BadHVMLTag'', ''BadHVMLAttrName'',
     ''BadHVMLAttrValue'', ''BadHVMLContent'', ''BadTargetHTML'', ''BadTargetXGML'', ''BadTargetXML'',
     ''BadExpression'', ''BadExecutor'', ''BadName'', ''NoData'', ''NotIterable'', ''BadIndex'', ''NoSuchKey'',
     ''DuplicateKey'', ''ArgumentMissed'', ''WrongDataType'', ''InvalidValue'', ''MaxIterationCount'',
     ''MaxRecursionDepth'', ''Unauthorized'', ''Timeout'', ''eDOMFailure'', ''LostRenderer'', ''MemoryFailure'',
     ''InternalFailure'', ''ExternalFailure'', ''ZeroDivision'', ''Overflow'', ''Underflow'', ''InvalidFloat'',
     ''AccessDenied'', ''IOFailure'', ''TooSmall'', ''TooMany'', ''TooLong'', ''TooLarge'', ''NotDesiredEntity'',
     ''InvalidOperand'', ''EntityNotFound'', ''EntityExists'', ''EntityGone'', ''NoStorageSpace'', ''BrokenPipe'',
     ''ConnectionAborted'', ''ConnectionRefused'', ''ConnectionReset'', ''NameResolutionFailed'', ''RequestFailed'',
     ''SysFault'', ''OSFailure'', ''NotReady'', ''NotImplemented'', ''Unsupported'', ''Incompleted'',
     ''DuplicateName'', ''ChildTerminated'', ''Conflict'', ''Gone'', ''MismatchedVersion'', ''NotAcceptable'',
     ''NotAllowed'', ''NotFound'', ''TooEarly'', ''UnavailableLegally'', ''UnmetPrecondition'']"

text \<open>The number of exceptions is asserted to be the length of the table.\<close>

definition PURC_EXCEPT_NR :: nat where "PURC_EXCEPT_NR = length except_names"

definition purc_is_except_atom :: "uint \<Rightarrow> 'k pworld \<Rightarrow> bool option" where
  "purc_is_except_atom atom w = do {
     first \<leftarrow> arr_get (except_atoms w) 0;
     last \<leftarrow> arr_get (except_atoms w) (PURC_EXCEPT_NR - 1);
     Some (\<not> (atom < first \<or> last < atom)) }"

text \<open>The number is only compared with the upper bound: a negative one reads outside the table.\<close>

definition purc_get_except_atom_by_id :: "int \<Rightarrow> 'k pworld \<Rightarrow> uint option" where
  "purc_get_except_atom_by_id i w =
     (if i < int PURC_EXCEPT_NR then if i < 0 then None else arr_get (except_atoms w) (nat i) else Some 0)"

fun except_init_from :: "'k purcenv \<Rightarrow> nat \<Rightarrow> string list \<Rightarrow> 'k pworld \<Rightarrow> (bool \<times> 'k pworld) option" where
  "except_init_from E n [] w = Some (True, w)"
| "except_init_from E n (s # ss) w =
     (case static_atom E s (p_ext w) of (a, k) \<Rightarrow> do {
        atoms \<leftarrow> arr_set (except_atoms w) n a;
        let w' = w\<lparr>except_atoms := atoms, p_ext := k\<rparr>;
        if a = 0 then Some (False, w') else except_init_from E (n + 1) ss w' })"

definition except_init_once :: "'k purcenv \<Rightarrow> 'k pworld \<Rightarrow> (bool \<times> 'k pworld) option" where
  "except_init_once E w = except_init_from E 0 except_names w"

definition locale_init_once :: "'k purcenv \<Rightarrow> 'k pworld \<Rightarrow> (bool \<times> 'k pworld) option" where
  "locale_init_once E w = Some (True, w\<lparr>p_ext := tzset_setlocale E (p_ext w)\<rparr>)"

definition errmsg_init_once :: "'k purcenv \<Rightarrow> 'k pworld \<Rightarrow> (bool \<times> 'k pworld) option" where
  "errmsg_init_once E w = Some (True, w\<lparr>p_ext := register_messages E (p_ext w)\<rparr>)"

section \<open>The table of modules\<close>

definition m_id :: "'k purcenv \<Rightarrow> pcmodule \<Rightarrow> uint" where
  "m_id E m = (if m \<in> {M_locale, M_except, M_errmsg} then HAVE_UTILS E else x_id E m)"

definition m_init_once :: "'k purcenv \<Rightarrow> pcmodule \<Rightarrow> ('k pworld \<Rightarrow> (bool \<times> 'k pworld) option) option" where
  "m_init_once E m =
     (case m of
        M_locale \<Rightarrow> Some (locale_init_once E)
      | M_except \<Rightarrow> Some (except_init_once E)
      | M_errmsg \<Rightarrow> Some (errmsg_init_once E)
      | _ \<Rightarrow> map_option (\<lambda>f w. case f (p_ext w) of (ok, k) \<Rightarrow> Some (ok, w\<lparr>p_ext := k\<rparr>)) (x_init_once E m))"

definition m_init_instance :: "'k purcenv \<Rightarrow> pcmodule \<Rightarrow> (pcinst \<Rightarrow> dword \<Rightarrow> 'k \<Rightarrow> purcret \<times> pcinst \<times> 'k) option" where
  "m_init_instance E m = (if m \<in> {M_locale, M_except, M_errmsg} then None else x_init_instance E m)"

definition m_cleanup_instance :: "'k purcenv \<Rightarrow> pcmodule \<Rightarrow> (pcinst \<Rightarrow> 'k \<Rightarrow> pcinst \<times> 'k) option" where
  "m_cleanup_instance E m = (if m \<in> {M_locale, M_except, M_errmsg} then None else x_cleanup_instance E m)"

fun init_once_from :: "'k purcenv \<Rightarrow> pcmodule list \<Rightarrow> 'k pworld \<Rightarrow> 'k pworld option" where
  "init_once_from E [] w = Some (w\<lparr>init_ok := True\<rparr>)"
| "init_once_from E (m # ms) w =
     (case m_init_once E m of
        None \<Rightarrow> init_once_from E ms w
      | Some f \<Rightarrow> do {
          (ok, w1) \<leftarrow> f w;
          if ok then init_once_from E ms (w1\<lparr>module_inited := insert m (module_inited w1)\<rparr>) else Some w1 })"

definition init_once :: "'k purcenv \<Rightarrow> 'k pworld \<Rightarrow> 'k pworld option" where
  "init_once E w =
     (if init_called w then Some w
      else do {
        w1 \<leftarrow> (if once_done w then Some w else init_once_from E pc_modules (w\<lparr>once_done := True\<rparr>));
        Some (w1\<lparr>init_called := True\<rparr>) })"

section \<open>Instances\<close>

definition pcinst_current :: "thread_id \<Rightarrow> 'k pworld \<Rightarrow> pcinst option" where
  "pcinst_current self w =
     (case insts w self of None \<Rightarrow> None | Some i \<Rightarrow> if app_name i = None then None else Some i)"

text \<open>A function of another file that acts on the instance of the calling thread.\<close>

definition on_current :: "(pcinst option \<Rightarrow> 'k \<Rightarrow> pcinst option \<times> 'k) \<Rightarrow> thread_id \<Rightarrow> 'k pworld \<Rightarrow> 'k pworld" where
  "on_current f self w =
     (case f (insts w self) (p_ext w) of (i, k) \<Rightarrow> w\<lparr>insts := (insts w)(self := i), p_ext := k\<rparr>)"

definition log_mask :: "'k purcenv \<Rightarrow> string \<Rightarrow> uint" where
  "log_mask E v =
     (if lowercase E v = ''all'' then MASK_ALL E
      else if lowercase E v = ''verbose'' then MASK_DEFAULT E OR MASK_INFO E
      else if lowercase E v = ''debug'' then MASK_DEFAULT E OR (MASK_INFO E OR MASK_DEBUG E)
      else MASK_DEFAULT E)"

definition log_syslog :: "'k purcenv \<Rightarrow> string option \<Rightarrow> bool" where
  "log_syslog E v =
     (case v of None \<Rightarrow> False | Some s \<Rightarrow> (s \<noteq> [] \<and> hd s = CHR ''1'') \<or> lowercase E s = ''true'')"

definition enable_log_on_demand :: "'k purcenv \<Rightarrow> thread_id \<Rightarrow> 'k pworld \<Rightarrow> 'k pworld" where
  "enable_log_on_demand E self w =
     (case getenv E (LOG_ENABLE E) (p_ext w) of
        None \<Rightarrow> w
      | Some v \<Rightarrow> on_current (enable_log_ex E (log_mask E v)
          (log_syslog E (getenv E (LOG_SYSLOG E) (p_ext w)))) self w)"

text \<open>The loop of \<open>init_modules\<close>: the initialisers of the modules asked for, up to the first failure.\<close>

fun init_modules_from :: "'k purcenv \<Rightarrow> dword \<Rightarrow> uint \<Rightarrow> pcmodule list \<Rightarrow> pcinst \<Rightarrow> 'k \<Rightarrow> purcret \<times> pcinst \<times> 'k" where
  "init_modules_from E x mods [] i k = (PURC_ERROR_OK, i, k)"
| "init_modules_from E x mods (m # ms) i k =
     (if m_id E m AND mods \<noteq> m_id E m then init_modules_from E x mods ms i k
      else case m_init_instance E m of
        None \<Rightarrow> init_modules_from E x mods ms i k
      | Some f \<Rightarrow>
         (case f i x k of (ret, i1, k1) \<Rightarrow>
            if ret \<noteq> PURC_ERROR_OK then (ret, i1, k1)
            else init_modules_from E x mods ms (i1\<lparr>modules_inited := modules_inited i1 OR m_id E m\<rparr>) k1))"

definition prepare_inst :: "'k purcenv \<Rightarrow> uint \<Rightarrow> pcinst \<Rightarrow> pcinst" where
  "prepare_inst E mods i = i\<lparr>modules := mods, modules_inited := 0, max_conns := FETCHER_MAX_CONNS,
     cache_quota := FETCHER_CACHE_QUOTA,
     enable_remote_fetcher := (mods AND HAVE_FETCHER_R E \<noteq> 0 \<or> enable_remote_fetcher i),
     auto_switching_rdr := True\<rparr>"

definition init_modules :: "'k purcenv \<Rightarrow> uint \<Rightarrow> dword \<Rightarrow> pcinst \<Rightarrow> 'k \<Rightarrow> purcret \<times> pcinst \<times> 'k" where
  "init_modules E mods x i k = init_modules_from E x mods pc_modules (prepare_inst E mods i) k"

definition safe_clear :: "'k purcenv \<Rightarrow> dword \<Rightarrow> 'k \<Rightarrow> 'k" where
  "safe_clear E v k = (if v = 0 then k else variant_clear E v k)"

fun cleanup_from :: "'k purcenv \<Rightarrow> pcmodule list \<Rightarrow> pcinst \<Rightarrow> 'k \<Rightarrow> pcinst \<times> 'k" where
  "cleanup_from E [] i k = (i, k)"
| "cleanup_from E (m # ms) i k =
     (case m_cleanup_instance E m of
        None \<Rightarrow> cleanup_from E ms i k
      | Some f \<Rightarrow>
         (if m_id E m AND modules_inited i = m_id E m
          then case f i k of (i1, k1) \<Rightarrow> cleanup_from E ms i1 k1
          else cleanup_from E ms i k))"

definition cleanup_modules :: "'k purcenv \<Rightarrow> pcinst \<Rightarrow> 'k \<Rightarrow> pcinst \<times> 'k" where
  "cleanup_modules E i k =
     cleanup_from E (rev pc_modules) (i\<lparr>err_exinfo := 0, app_manifest := 0\<rparr>)
       (safe_clear E (app_manifest i) (safe_clear E (err_exinfo i) k))"

definition cleanup_instance :: "'k purcenv \<Rightarrow> pcinst \<Rightarrow> 'k \<Rightarrow> pcinst \<times> 'k" where
  "cleanup_instance E i k =
     (let k1 = (if local_data_map i \<noteq> 0 then um_destroy E (local_data_map i) k else k);
          log = fp_log i \<noteq> 0 \<and> fp_log i \<noteq> -1;
          k2 = (if log then p_fclose E (fp_log i) k1 else k1);
          k3 = (if bt i \<noteq> 0 then backtrace_unref E (bt i) k2 else k2);
          k4 = remove_atom E (endpoint_name i) k3
      in (i\<lparr>local_data_map := 0, fp_log := (if log then 0 else fp_log i), bt := 0, app_name := None,
            runner_name := None, modules := 0, modules_inited := 0\<rparr>, k4))"

text \<open>The result 0 stands for a refused name; the buffer of the caller has \<open>sz\<close> bytes.\<close>

definition pcinst_endpoint_get ::
    "'k purcenv \<Rightarrow> thread_id \<Rightarrow> string \<Rightarrow> nat \<Rightarrow> string \<Rightarrow> string \<Rightarrow> 'k pworld \<Rightarrow> uint \<times> string \<times> 'k pworld" where
  "pcinst_endpoint_get E self buf sz app runner w =
     (if \<not> valid_app_name E app \<or> \<not> valid_runner_name E runner
      then (0, buf, on_current (set_error E PURC_ERROR_INVALID_VALUE) self w)
      else case assemble_endpoint E app runner sz of (n, name) \<Rightarrow>
        if n = 0 then (0, name, on_current (set_error E PURC_ERROR_INVALID_VALUE) self w)
        else if n \<ge> sz then (0, name, on_current (set_error E PURC_ERROR_TOO_SMALL_BUFF) self w)
        else case string_atom E name (p_ext w) of (atom, mine, k) \<Rightarrow>
          if \<not> mine then (0, name, on_current (set_error E PURC_ERROR_DUPLICATED) self (w\<lparr>p_ext := k\<rparr>))
          else (atom, name, w\<lparr>p_ext := k\<rparr>))"

definition purc_get_conn_to_renderer :: "thread_id \<Rightarrow> 'k pworld \<Rightarrow> dword" where
  "purc_get_conn_to_renderer self w = (case pcinst_current self w of None \<Rightarrow> 0 | Some i \<Rightarrow> conn_to_rdr i)"

text \<open>\<open>purc_init_ex\<close> after the endpoint is registered: the names, the log, the map and the modules.\<close>

definition name_inst :: "'k purcenv \<Rightarrow> thread_id \<Rightarrow> string \<Rightarrow> string \<Rightarrow> string \<Rightarrow> uint \<Rightarrow> pcinst \<Rightarrow> 'k pworld \<Rightarrow> 'k pworld" where
  "name_inst E self app runner name atom i w =
     (case strdup E app (p_ext w) of (a, k1) \<Rightarrow>
      case strdup E runner k1 of (r, k2) \<Rightarrow>
        set_inst self (i\<lparr>endpoint_name := name, app_name := a, runner_name := r, endpoint_atom := atom\<rparr>)
          (w\<lparr>p_ext := k2\<rparr>))"

definition start_modules :: "'k purcenv \<Rightarrow> thread_id \<Rightarrow> uint \<Rightarrow> dword \<Rightarrow> pcinst \<Rightarrow> 'k pworld \<Rightarrow> purcret \<times> 'k pworld" where
  "start_modules E self mods x i w =
     (case um_create E (p_ext w) of (mp, k1) \<Rightarrow>
      case init_modules E mods x (i\<lparr>local_data_map := mp\<rparr>) k1 of (ret, i2, k2) \<Rightarrow>
        if ret \<noteq> PURC_ERROR_OK then
          (case cleanup_modules E i2 k2 of (i3, k3) \<Rightarrow>
           case cleanup_instance E i3 k3 of (i4, k4) \<Rightarrow> (ret, set_inst self i4 (w\<lparr>p_ext := k4\<rparr>)))
        else
          (let w2 = set_inst self i2 (w\<lparr>p_ext := k2\<rparr>);
               conn = purc_get_conn_to_renderer self w2;
               k3 = (if conn \<noteq> 0 then conn_setup E conn k2 else k2)
           in (PURC_ERROR_OK, set_inst self (i2\<lparr>errcode := PURC_ERROR_OK\<rparr>) (w2\<lparr>p_ext := k3\<rparr>))))"

definition create_inst :: "'k purcenv \<Rightarrow> thread_id \<Rightarrow> uint \<Rightarrow> string \<Rightarrow> string \<Rightarrow> dword \<Rightarrow> pcinst \<Rightarrow> 'k pworld
    \<Rightarrow> purcret \<times> 'k pworld" where
  "create_inst E self mods app runner x i w =
     (if \<not> valid_app_name E app \<or> \<not> valid_runner_name E runner then (PURC_ERROR_INVALID_VALUE, w)
      else case assemble_endpoint E app runner (ENDPOINT_SIZE E) of (n, name) \<Rightarrow>
        let i1 = i\<lparr>endpoint_name := name\<rparr>; w1 = set_inst self i1 w in
        if n = 0 then (PURC_ERROR_INVALID_VALUE, w1)
        else if n \<ge> ENDPOINT_SIZE E then (PURC_ERROR_TOO_SMALL_BUFF, w1)
        else case string_atom E name (p_ext w1) of (atom, mine, k) \<Rightarrow>
          if \<not> mine then (PURC_ERROR_DUPLICATED, w1\<lparr>p_ext := k\<rparr>)
          else
            let w2 = enable_log_on_demand E self (name_inst E self app runner name atom i1 (w1\<lparr>p_ext := k\<rparr>))
            in case insts w2 self of
                 None \<Rightarrow> (PURC_ERROR_OUT_OF_MEMORY, w2)
               | Some i2 \<Rightarrow> start_modules E self mods x i2 w2)"

definition default_app :: "'k purcenv \<Rightarrow> string option \<Rightarrow> 'k \<Rightarrow> string" where
  "default_app E app k =
     (case app of Some a \<Rightarrow> a | None \<Rightarrow> if cmdline_arg0 E k \<noteq> [] then cmdline_arg0 E k else ''unknown'')"

definition purc_init_ex :: "'k purcenv \<Rightarrow> thread_id \<Rightarrow> uint \<Rightarrow> string option \<Rightarrow> string option \<Rightarrow> dword \<Rightarrow>
    'k pworld \<Rightarrow> (purcret \<times> 'k pworld) option" where
  "purc_init_ex E self modules0 app runner x w =
     (let mods = (if modules0 = 0 then MODULE_ALL E else modules0) in
      if mods = 0 then Some (PURC_ERROR_NO_INSTANCE, w)
      else do {
        w1 \<leftarrow> init_once E w;
        Some (if \<not> init_ok w1 then (PURC_ERROR_NO_INSTANCE, w1)
          else case insts w1 self of
            None \<Rightarrow> (PURC_ERROR_OUT_OF_MEMORY, w1)
          | Some i \<Rightarrow>
             (if modules i \<noteq> 0 \<or> app_name i \<noteq> None \<or> runner_name i \<noteq> None then (PURC_ERROR_DUPLICATED, w1)
              else create_inst E self mods (default_app E app (p_ext w))
                (case runner of Some r \<Rightarrow> r | None \<Rightarrow> ''unknown'') x i w1)) })"

text \<open>The instance is read again after the error is cleared; it is the same object.\<close>

definition purc_cleanup :: "'k purcenv \<Rightarrow> thread_id \<Rightarrow> 'k pworld \<Rightarrow> bool \<times> 'k pworld" where
  "purc_cleanup E self w =
     (case insts w self of
        None \<Rightarrow> (False, w)
      | Some i \<Rightarrow>
         (if app_name i = None then (False, w)
          else let w1 = on_current (clr_error E) self w in
            case insts w1 self of
              None \<Rightarrow> (False, w1)
            | Some i1 \<Rightarrow>
               (case cleanup_modules E i1 (p_ext w1) of (i2, k2) \<Rightarrow>
                case cleanup_instance E i2 k2 of (i3, k3) \<Rightarrow> (True, set_inst self i3 (w1\<lparr>p_ext := k3\<rparr>)))))"

definition purc_get_endpoint :: "thread_id \<Rightarrow> 'k pworld \<Rightarrow> (string \<times> uint) option" where
  "purc_get_endpoint self w =
     (case insts w self of
        None \<Rightarrow> None
      | Some i \<Rightarrow> if app_name i = None \<or> endpoint_atom i = 0 then None else Some (endpoint_name i, endpoint_atom i))"

definition pcinst_clear_error :: "'k purcenv \<Rightarrow> pcinst \<Rightarrow> 'k \<Rightarrow> pcinst \<times> 'k" where
  "pcinst_clear_error E i k =
     (i\<lparr>errcode := PURC_ERROR_OK, err_exinfo := 0, bt := 0\<rparr>,
      let k1 = safe_clear E (err_exinfo i) k in if bt i \<noteq> 0 then backtrace_unref E (bt i) k1 else k1)"

section \<open>Local data and variables\<close>

definition purc_set_local_data :: "'k purcenv \<Rightarrow> thread_id \<Rightarrow> string \<Rightarrow> dword \<times> procptr \<Rightarrow> 'k pworld \<Rightarrow> bool \<times> 'k pworld" where
  "purc_set_local_data E self name v w =
     (case pcinst_current self w of
        None \<Rightarrow> (False, w)
      | Some i \<Rightarrow>
         (case um_insert E (local_data_map i) name v (p_ext w) of (failed, k) \<Rightarrow>
            if failed then (False, set_inst self (i\<lparr>errcode := PURC_ERROR_OUT_OF_MEMORY\<rparr>) (w\<lparr>p_ext := k\<rparr>))
            else (True, w\<lparr>p_ext := k\<rparr>)))"

definition purc_remove_local_data :: "'k purcenv \<Rightarrow> thread_id \<Rightarrow> string option \<Rightarrow> 'k pworld \<Rightarrow> int \<times> 'k pworld" where
  "purc_remove_local_data E self name w =
     (case pcinst_current self w of
        None \<Rightarrow> (-1, w)
      | Some i \<Rightarrow>
         (case name of
            Some n \<Rightarrow>
              (case um_erase E (local_data_map i) n (p_ext w) of (failed, k) \<Rightarrow>
                 (if failed then 0 else 1, w\<lparr>p_ext := k\<rparr>))
          | None \<Rightarrow> (int (um_size E (local_data_map i) (p_ext w)),
                     w\<lparr>p_ext := um_clear E (local_data_map i) (p_ext w)\<rparr>)))"

text \<open>The value of an entry is stored with the function that frees it.\<close>

definition purc_get_local_data :: "'k purcenv \<Rightarrow> thread_id \<Rightarrow> string option \<Rightarrow> 'k pworld
    \<Rightarrow> int \<times> (dword \<times> procptr) option \<times> 'k pworld" where
  "purc_get_local_data E self name w =
     (case pcinst_current self w of
        None \<Rightarrow> (-1, None, w)
      | Some i \<Rightarrow>
         (case name of
            None \<Rightarrow> (-1, None, set_inst self (i\<lparr>errcode := PURC_ERROR_INVALID_VALUE\<rparr>) w)
          | Some n \<Rightarrow>
             (case um_find E (local_data_map i) n (p_ext w) of
                Some e \<Rightarrow> (1, Some e, w)
              | None \<Rightarrow> (0, None, w))))"

definition pcinst_get_variables :: "'k purcenv \<Rightarrow> thread_id \<Rightarrow> 'k pworld \<Rightarrow> dword \<times> 'k pworld" where
  "pcinst_get_variables E self w =
     (case pcinst_current self w of
        None \<Rightarrow> (0, w)
      | Some i \<Rightarrow>
         (if variables i = 0 then
            (case varmgr_create E (p_ext w) of (v, k) \<Rightarrow> (v, set_inst self (i\<lparr>variables := v\<rparr>) (w\<lparr>p_ext := k\<rparr>)))
          else (variables i, w)))"

text \<open>None: the assertion that there is a variable manager fails.\<close>

definition purc_bind_runner_variable ::
    "'k purcenv \<Rightarrow> thread_id \<Rightarrow> string \<Rightarrow> dword \<Rightarrow> 'k pworld \<Rightarrow> (bool \<times> 'k pworld) option" where
  "purc_bind_runner_variable E self name v w =
     (case pcinst_get_variables E self w of (mgr, w1) \<Rightarrow>
        if mgr = 0 then None
        else case varmgr_add E mgr name v (p_ext w1) of (ok, k) \<Rightarrow> Some (ok, w1\<lparr>p_ext := k\<rparr>))"

definition pcinst_get_variable :: "'k purcenv \<Rightarrow> thread_id \<Rightarrow> string \<Rightarrow> 'k pworld \<Rightarrow> (dword \<times> 'k pworld) option" where
  "pcinst_get_variable E self name w =
     (case pcinst_get_variables E self w of (mgr, w1) \<Rightarrow>
        if mgr = 0 then None else Some (varmgr_get E mgr name (p_ext w1), w1))"

end
