(* ===== verification/PurcProps.thy ===== *)
theory PurcProps
  imports Purc
begin

text \<open>
  What the instances of PurC guarantee: an instance is created once, reports the modules it
  initialised, and leaves the thread as it was when it is cleaned up or cannot be created; the local
  data of a thread; the atoms of the exceptions.
\<close>

section \<open>What the other modules leave alone\<close>

definition inst_key :: "pcinst \<Rightarrow> uint \<times> uint \<times> string option \<times> string option" where
  "inst_key i = (modules i, modules_inited i, app_name i, runner_name i)"

definition inst_free :: "pcinst \<Rightarrow> bool" where
  "inst_free i \<longleftrightarrow> modules i = 0 \<and> app_name i = None \<and> runner_name i = None"

definition slot_free :: "thread_id \<Rightarrow> 'k pworld \<Rightarrow> bool" where
  "slot_free self w \<longleftrightarrow> (\<exists>i. insts w self = Some i \<and> inst_free i)"

definition keeps_key :: "(pcinst option \<Rightarrow> 'k \<Rightarrow> pcinst option \<times> 'k) \<Rightarrow> bool" where
  "keeps_key f \<longleftrightarrow> (\<forall>i k. \<exists>i' k'. f (Some i) k = (Some i', k') \<and> inst_key i' = inst_key i)"

text \<open>Initialisers, cleanups and the functions that log or set errors do not touch the names and the
  masks of an instance.\<close>

definition modules_behave :: "'k purcenv \<Rightarrow> bool" where
  "modules_behave E \<longleftrightarrow>
     (\<forall>m f i x k r i' k'. x_init_instance E m = Some f \<longrightarrow> f i x k = (r, i', k') \<longrightarrow> inst_key i' = inst_key i) \<and>
     (\<forall>m f i k i' k'. x_cleanup_instance E m = Some f \<longrightarrow> f i k = (i', k') \<longrightarrow> inst_key i' = inst_key i) \<and>
     keeps_key (clr_error E) \<and> (\<forall>m b. keeps_key (enable_log_ex E m b))"

definition strdup_ok :: "'k purcenv \<Rightarrow> bool" where
  "strdup_ok E \<longleftrightarrow> (\<forall>s k. fst (strdup E s k) = Some s)"



lemma inst_key_simps [simp]:
  "inst_key (i\<lparr>errcode := c\<rparr>) = inst_key i" "inst_key (i\<lparr>err_exinfo := v\<rparr>) = inst_key i"
  "inst_key (i\<lparr>app_manifest := v\<rparr>) = inst_key i" "inst_key (i\<lparr>local_data_map := v\<rparr>) = inst_key i"
  "inst_key (i\<lparr>endpoint_name := nm\<rparr>) = inst_key i"
  by (simp_all add: inst_key_def)



lemma cleanup_from_key:
  assumes "modules_behave E"
  shows "inst_key (fst (cleanup_from E ms i k)) = inst_key i"
proof (induction ms arbitrary: i k)
  case (Cons m ms)
  have "inst_key i1 = inst_key i" if "m_cleanup_instance E m = Some f" "f i k = (i1, k1)" for f i1 k1
    using assms that unfolding modules_behave_def m_cleanup_instance_def by (metis option.distinct(1))
  then show ?case by (auto simp: Cons.IH split: option.splits prod.splits)
qed simp



section \<open>Creating an instance\<close>


definition others_kept :: "thread_id \<Rightarrow> 'k pworld \<Rightarrow> 'k pworld \<Rightarrow> bool" where
  "others_kept self w w' \<longleftrightarrow> (\<forall>t. t \<noteq> self \<longrightarrow> insts w' t = insts w t) \<and>
     init_called w' = init_called w \<and> init_ok w' = init_ok w \<and> except_atoms w' = except_atoms w"

lemma others_kept_set [simp]: "others_kept self w (set_inst self i w') = others_kept self w w'"
  "others_kept self w (w'\<lparr>p_ext := k\<rparr>) = others_kept self w w'" "others_kept self w w"
  by (auto simp: others_kept_def set_inst_def)

lemma insts_set_inst [simp]: "insts (set_inst self i w) = (insts w)(self \<mapsto> i)"
  "p_ext (set_inst self i w) = p_ext w"
  by (simp_all add: set_inst_def)

lemma slot_free_set [simp]: "slot_free self (set_inst self i w) = inst_free i"
  "slot_free self (w\<lparr>p_ext := k\<rparr>) = slot_free self w"
  by (simp_all add: slot_free_def)






lemma init_once_called: "init_called w \<Longrightarrow> init_once E w = Some w"
  by (simp add: init_once_def)

lemma purc_init_free:
  assumes "init_called w" "init_ok w" "insts w self = Some i" "inst_free i" "mods \<noteq> 0"
  shows "purc_init_ex E self mods app runner x w = Some (create_inst E self mods (default_app E app (p_ext w))
    (case runner of Some r \<Rightarrow> r | None \<Rightarrow> ''unknown'') x i w)"
  using assms by (simp add: purc_init_ex_def init_once_called inst_free_def Let_def)

lemma purc_init_taken:
  assumes "init_called w" "init_ok w" "insts w self = Some i" "\<not> inst_free i" "mods \<noteq> 0"
  shows "purc_init_ex E self mods app runner x w = Some (PURC_ERROR_DUPLICATED, w)"
  using assms by (auto simp: purc_init_ex_def init_once_called inst_free_def Let_def)



text \<open>When \<open>strdup\<close> fails the creation still reports OK, but there is no current instance, it cannot be
  cleaned up, and every later creation is refused.\<close>

lemma oom_wedges:
  assumes i: "insts w self = Some i" "app_name i = None" "modules i \<noteq> 0" and once: "init_called w" "init_ok w"
    and m: "mods \<noteq> 0"
  shows "pcinst_current self w = None \<and> purc_cleanup E self w = (False, w) \<and>
    purc_init_ex E self mods app runner x w = Some (PURC_ERROR_DUPLICATED, w)"
  using assms purc_init_taken [OF once i(1) _ m]
  by (simp add: pcinst_current_def purc_cleanup_def inst_free_def)

section \<open>Local data\<close>

text \<open>The maps behave as maps as long as there is memory, and no two instances share one.\<close>

definition uomap_ok :: "'k purcenv \<Rightarrow> bool" where
  "uomap_ok E \<longleftrightarrow>
     (\<forall>p n v k. \<exists>k'. um_insert E p n v k = (False, k') \<and> um_find E p n k' = Some v \<and>
        (\<forall>q j. (q, j) \<noteq> (p, n) \<longrightarrow> um_find E q j k' = um_find E q j k)) \<and>
     (\<forall>p n k. \<exists>f k'. um_erase E p n k = (f, k') \<and> (f \<longleftrightarrow> um_find E p n k = None) \<and> um_find E p n k' = None \<and>
        (\<forall>q j. (q, j) \<noteq> (p, n) \<longrightarrow> um_find E q j k' = um_find E q j k))"

definition own_maps :: "'k pworld \<Rightarrow> bool" where
  "own_maps w \<longleftrightarrow> (\<forall>a b i j. a \<noteq> b \<longrightarrow> pcinst_current a w = Some i \<longrightarrow> pcinst_current b w = Some j \<longrightarrow>
     local_data_map i \<noteq> local_data_map j)"

definition put_local :: "'k purcenv \<Rightarrow> thread_id \<Rightarrow> string \<Rightarrow> dword \<times> procptr \<Rightarrow> 'k pworld \<Rightarrow> 'k pworld option" where
  "put_local E self n v w = (case purc_set_local_data E self n v w of (ok, w') \<Rightarrow> if ok then Some w' else None)"

definition get_local :: "'k purcenv \<Rightarrow> thread_id \<Rightarrow> string \<Rightarrow> 'k pworld \<Rightarrow> (dword \<times> procptr) option" where
  "get_local E self n w = fst (snd (purc_get_local_data E self (Some n) w))"

definition local_ok :: "'k purcenv \<Rightarrow> 'k pworld \<Rightarrow> thread_id \<Rightarrow> string \<Rightarrow> bool" where
  "local_ok E w self n \<longleftrightarrow> uomap_ok E \<and> own_maps w \<and> pcinst_current self w \<noteq> None"

lemma pcinst_current_ext [simp]: "pcinst_current a (w\<lparr>p_ext := k\<rparr>) = pcinst_current a w"
  by (simp add: pcinst_current_def)

lemma own_maps_ext [simp]: "own_maps (w\<lparr>p_ext := k\<rparr>) = own_maps w"
  by (simp add: own_maps_def)

lemma get_local_current: "pcinst_current a w = Some i \<Longrightarrow> get_local E a n w = um_find E (local_data_map i) n (p_ext w)"
  by (simp add: get_local_def purc_get_local_data_def split: option.splits)

lemma put_localE:
  assumes "local_ok E w a n"
  obtains i k where "pcinst_current a w = Some i" "put_local E a n v w = Some (w\<lparr>p_ext := k\<rparr>)"
    "um_find E (local_data_map i) n k = Some v"
    "\<And>q j. (q, j) \<noteq> (local_data_map i, n) \<Longrightarrow> um_find E q j k = um_find E q j (p_ext w)"
proof -
  from assms obtain i where i: "pcinst_current a w = Some i" by (auto simp: local_ok_def)
  from assms obtain k where "um_insert E (local_data_map i) n v (p_ext w) = (False, k)"
    "um_find E (local_data_map i) n k = Some v"
    "\<And>q j. (q, j) \<noteq> (local_data_map i, n) \<Longrightarrow> um_find E q j k = um_find E q j (p_ext w)"
    unfolding local_ok_def uomap_ok_def by metis
  then show thesis using that [of i k] i by (simp add: put_local_def purc_set_local_data_def)
qed

interpretation localdata: keyed_data "put_local E" "get_local E" "local_ok E"
proof
  fix w :: "'a pworld" and a n v
  assume "local_ok E w a n"
  then show "\<exists>w'. put_local E a n v w = Some w' \<and> get_local E a n w' = Some v"
    by (rule put_localE [of E w a n v]) (auto simp: get_local_current)
next
  fix w w' :: "'a pworld" and a b n j v
  assume ok: "local_ok E w a n" "put_local E a n v w = Some w'" "local_ok E w b j" "(b, j) \<noteq> (a, n)"
  from ok(1) show "get_local E b j w' = get_local E b j w"
  proof (rule put_localE [of E w a n v])
    fix i k
    assume i: "pcinst_current a w = Some i" "put_local E a n v w = Some (w\<lparr>p_ext := k\<rparr>)"
      "\<And>q j. (q, j) \<noteq> (local_data_map i, n) \<Longrightarrow> um_find E q j k = um_find E q j (p_ext w)"
    from ok(3) obtain i' where i': "pcinst_current b w = Some i'" by (auto simp: local_ok_def)
    have "(local_data_map i', j) \<noteq> (local_data_map i, n)"
      using ok(1,4) i(1) i' unfolding local_ok_def own_maps_def by auto
    then show ?thesis using i ok(2) i' by (simp add: get_local_current)
  qed
next
  fix w w' :: "'a pworld" and a b n j v
  assume ok: "local_ok E w a n" "put_local E a n v w = Some w'"
  from ok(1) obtain i k where "put_local E a n v w = Some (w\<lparr>p_ext := k\<rparr>)" by (rule put_localE)
  with ok(2) have "w' = w\<lparr>p_ext := k\<rparr>" by simp
  then show "local_ok E w' b j = local_ok E w b j" by (simp add: local_ok_def)
qed

text \<open>Local data. After any sequence of stores by threads that have an instance, a thread reads under
  each name the value (and the function that frees it) it stored last, stores of other threads and under
  other names having no effect; after a removal the name is unknown, and the removal reports whether it
  was known.\<close>

theorem local_data_roundtrip:
  assumes "uomap_ok E" "own_maps w" "\<forall>x \<in> set xs. pcinst_current (fst x) w \<noteq> None" "pcinst_current b w \<noteq> None"
  shows "\<exists>w'. foldm (\<lambda>(a, n, v). put_local E a n v) xs w = Some w' \<and>
    get_local E b n w' = (case map_of (rev (map (\<lambda>(a, n, v). ((a, n), v)) xs)) (b, n) of
       Some v \<Rightarrow> Some v | None \<Rightarrow> get_local E b n w) \<and>
    (\<exists>w''. purc_remove_local_data E b (Some n) w = (if get_local E b n w = None then 0 else 1, w'') \<and>
       get_local E b n w'' = None)"
proof -
  have "\<forall>x \<in> set xs. local_ok E w (fst x) (fst (snd x))" "local_ok E w b n"
    using assms by (auto simp: local_ok_def)
  note st = localdata.stores_read_back [OF this]
  obtain i where i: "pcinst_current b w = Some i" using assms(4) by blast
  let ?q = "um_find E (local_data_map i) n (p_ext w)"
  from assms(1) obtain k where k: "um_erase E (local_data_map i) n (p_ext w) = (?q = None, k)"
    "um_find E (local_data_map i) n k = None"
    unfolding uomap_ok_def by blast
  have q: "get_local E b n w = ?q" by (rule get_local_current [OF i])
  have "purc_remove_local_data E b (Some n) w = (if get_local E b n w = None then 0 else 1, w\<lparr>p_ext := k\<rparr>)"
    "get_local E b n (w\<lparr>p_ext := k\<rparr>) = None"
    unfolding q using i k by (simp_all add: purc_remove_local_data_def get_local_current)
  with st show ?thesis by blast
qed

section \<open>Exception atoms\<close>

fun atoms_of :: "'k purcenv \<Rightarrow> string list \<Rightarrow> 'k \<Rightarrow> uint list" where
  "atoms_of E [] k = []"
| "atoms_of E (s # ss) k = (case static_atom E s k of (a, k') \<Rightarrow> a # atoms_of E ss k')"

lemma length_atoms_of [simp]: "length (atoms_of E ss k) = length ss"
  by (induction ss arbitrary: k) (auto split: prod.splits)

lemma except_names_pos: "except_names \<noteq> []"
  by (simp add: except_names_def)

lemma except_init_from_atoms:
  assumes "0 \<notin> set (atoms_of E ss (p_ext w))" "length (except_atoms w) = n + length ss"
  shows "\<exists>w'. except_init_from E n ss w = Some (True, w') \<and>
    except_atoms w' = take n (except_atoms w) @ atoms_of E ss (p_ext w)"
  using assms
proof (induction ss arbitrary: n w)
  case (Cons s ss)
  obtain a k where a: "static_atom E s (p_ext w) = (a, k)" by force
  let ?w = "w\<lparr>except_atoms := (except_atoms w)[n := a], p_ext := k\<rparr>"
  from Cons.IH [of ?w "n + 1"] Cons.prems a obtain w' where
    w': "except_init_from E (n + 1) ss ?w = Some (True, w')"
    "except_atoms w' = take (n + 1) ((except_atoms w)[n := a]) @ atoms_of E ss k" by auto
  have "take (n + 1) ((except_atoms w)[n := a]) = take n (except_atoms w) @ [a]"
    using Cons.prems(2) by (simp add: take_Suc_conv_app_nth)
  with w' a Cons.prems show ?case by (simp add: arr_set_in Let_def)
qed simp

text \<open>Exception atoms. When the atoms handed out for the names are not 0 and increase, the table is
  filled; \<open>purc_get_except_atom_by_id\<close> maps each number to the atom of its name and each number past the
  table to 0, and \<open>purc_is_except_atom\<close> accepts these atoms and none below the first or above the last.\<close>

theorem except_atoms_table:
  assumes inc: "sorted_wrt (<) (atoms_of E except_names (p_ext w))"
    and nz: "0 \<notin> set (atoms_of E except_names (p_ext w))" and len: "length (except_atoms w) = PURC_EXCEPT_NR"
  shows "\<exists>w'. except_init_once E w = Some (True, w') \<and>
    (\<forall>i < PURC_EXCEPT_NR. purc_get_except_atom_by_id (int i) w' = Some (atoms_of E except_names (p_ext w) ! i) \<and>
       purc_is_except_atom (atoms_of E except_names (p_ext w) ! i) w' = Some True) \<and>
    purc_get_except_atom_by_id (int PURC_EXCEPT_NR + int d) w' = Some 0 \<and> purc_is_except_atom 0 w' = Some False"
proof -
  let ?as = "atoms_of E except_names (p_ext w)"
  have n: "length ?as = PURC_EXCEPT_NR" "0 < PURC_EXCEPT_NR" by (simp_all add: PURC_EXCEPT_NR_def except_names_pos)
  obtain w' where w': "except_init_once E w = Some (True, w')" "except_atoms w' = ?as"
    using except_init_from_atoms [OF nz, of 0] len by (auto simp: except_init_once_def PURC_EXCEPT_NR_def)
  have is_ex: "purc_is_except_atom a w' = Some (?as ! 0 \<le> a \<and> a \<le> ?as ! (PURC_EXCEPT_NR - 1))" for a
    using n by (simp add: purc_is_except_atom_def w'(2) arr_get_in not_less)
  have "?as ! i \<le> ?as ! j" if "i \<le> j" "j < PURC_EXCEPT_NR" for i j
    using inc that n unfolding sorted_wrt_iff_nth_less by (cases "i = j") (auto intro: less_imp_le)
  then have "purc_is_except_atom (?as ! i) w' = Some True" if "i < PURC_EXCEPT_NR" for i
    using that n(2) by (simp add: is_ex)
  moreover have "purc_get_except_atom_by_id (int i) w' = Some (?as ! i)" if "i < PURC_EXCEPT_NR" for i
    using that n by (simp add: purc_get_except_atom_by_id_def w'(2) arr_get_in)
  moreover have "?as ! 0 \<noteq> 0" using nz n by (metis nth_mem)
  then have "purc_is_except_atom 0 w' = Some False" by (simp add: is_ex)
  moreover have "purc_get_except_atom_by_id (int PURC_EXCEPT_NR + int d) w' = Some 0"
    by (simp add: purc_get_except_atom_by_id_def)
  ultimately show ?thesis using w'(1) by blast
qed

section \<open>A concrete environment\<close>

text \<open>Atoms are counted, the maps are one function from pointers and names to entries; the variant
  module has an initialiser, the renderer one that fails for the mask 8.\<close>

type_synonym demo_ext = "uint \<times> (dword \<times> string \<Rightarrow> (dword \<times> procptr) option)"

definition demo_env :: "demo_ext purcenv" where
  "demo_env = \<lparr>MODULE_ALL = 15, HAVE_UTILS = 1, HAVE_FETCHER_R = 4, ENDPOINT_SIZE = 64,
     x_id = (\<lambda>m. if m = M_renderer then 8 else 2), x_init_once = (\<lambda>m. None),
     x_init_instance = (\<lambda>m. if m = M_variant then Some (\<lambda>i x k. (PURC_ERROR_OK, i, k))
        else if m = M_renderer then Some (\<lambda>i x k. (PURC_ERROR_OTHER 1, i, k)) else None),
     x_cleanup_instance = (\<lambda>m. None), static_atom = (\<lambda>s k. (fst k + 1, (fst k + 1, snd k))),
     string_atom = (\<lambda>s k. (1, True, k)), remove_atom = (\<lambda>s k. k), tzset_setlocale = id, register_messages = id,
     cmdline_arg0 = (\<lambda>k. ''purc''), valid_app_name = (\<lambda>s. s \<noteq> []), valid_runner_name = (\<lambda>s. s \<noteq> []),
     assemble_endpoint = (\<lambda>a r n. (length a + length r + 1, a @ ''/'' @ r)), strdup = (\<lambda>s k. (Some s, k)),
     getenv = (\<lambda>s k. None), lowercase = id, LOG_ENABLE = ''PURC_LOG_ENABLE'', LOG_SYSLOG = ''PURC_LOG_SYSLOG'',
     MASK_DEFAULT = 1, MASK_ALL = 7, MASK_INFO = 2, MASK_DEBUG = 4, enable_log_ex = (\<lambda>m b i k. (i, k)),
     um_create = (\<lambda>k. (1, k)), um_insert = (\<lambda>p n v k. (False, (fst k, (snd k)((p, n) \<mapsto> v)))),
     um_find = (\<lambda>p n k. snd k (p, n)), um_erase = (\<lambda>p n k. (snd k (p, n) = None, (fst k, (snd k)((p, n) := None)))),
     um_size = (\<lambda>p k. 0), um_clear = (\<lambda>p k. k), um_destroy = (\<lambda>p k. k), variant_clear = (\<lambda>v k. k),
     p_fclose = (\<lambda>f k. k), backtrace_unref = (\<lambda>b k. k), set_error = (\<lambda>c i k. (i, k)), clr_error = (\<lambda>i k. (i, k)),
     conn_setup = (\<lambda>c k. k), varmgr_create = (\<lambda>k. (1, k)), varmgr_add = (\<lambda>m n v k. (True, k)),
     varmgr_get = (\<lambda>m n k. 0)\<rparr>"

definition demo_world :: "demo_ext pworld" where
  "demo_world = \<lparr>insts = (\<lambda>t. Some zero_inst), init_called = True, once_done = True, init_ok = True,
     module_inited = {}, except_atoms = replicate PURC_EXCEPT_NR 0, p_ext = (0, \<lambda>x. None)\<rparr>"

text \<open>Threads 1 and 2 with an instance each.\<close>

definition demo_world2 :: "demo_ext pworld" where
  "demo_world2 = demo_world\<lparr>insts := (\<lambda>t. None)(1 \<mapsto> zero_inst\<lparr>app_name := Some ''a'', local_data_map := 1\<rparr>,
     2 \<mapsto> zero_inst\<lparr>app_name := Some ''b'', local_data_map := 2\<rparr>)\<rparr>"

lemma demo_env_ok: "modules_behave demo_env" "strdup_ok demo_env" "uomap_ok demo_env"
  by (auto simp: modules_behave_def demo_env_def keeps_key_def strdup_ok_def uomap_ok_def split: if_splits)

lemma demo_world_ok: "init_called demo_world" "init_ok demo_world" "slot_free t demo_world"
  by (simp_all add: demo_world_def slot_free_def inst_free_def zero_inst_def)

lemma demo_world2_ok: "own_maps demo_world2" "pcinst_current t demo_world2 \<noteq> None \<longleftrightarrow> t = 1 \<or> t = 2"
  by (auto simp: own_maps_def demo_world2_def demo_world_def pcinst_current_def zero_inst_def split: if_splits)

lemma demo_atoms: "atoms_of demo_env ss (n, m) = map (\<lambda>i. n + 1 + of_nat i) [0..<length ss]"
proof (induction ss arbitrary: n)
  case (Cons s ss)
  have "static_atom demo_env s (n, m) = (n + 1, (n + 1, m))" by (simp add: demo_env_def)
  then have "atoms_of demo_env (s # ss) (n, m) = (n + 1) # map (\<lambda>i. (n + 1) + 1 + of_nat i) [0..<length ss]"
    by (simp add: Cons.IH)
  also have "\<dots> = map (\<lambda>i. n + 1 + of_nat i) [0..<Suc (length ss)]"
    by (simp only: upt_conv_Cons zero_less_Suc list.map map_Suc_upt [symmetric] map_map o_def)
      (simp add: add.assoc del: upt_Suc)
  finally show ?case by simp
qed simp

lemma demo_atoms_inc:
  "sorted_wrt (<) (atoms_of demo_env except_names (p_ext demo_world))" "0 \<notin> set (atoms_of demo_env except_names (p_ext demo_world))"
proof -
  let ?at = "\<lambda>i. 1 + of_nat i :: uint"
  have at: "unat (?at i) = Suc i" if "i < 71" for i
  proof -
    have "?at i = of_nat (Suc i)" by simp
    then show ?thesis using that by (simp only: unat_of_nat) simp
  qed
  have len: "length except_names < 71" by (simp add: except_names_def)
  have eq: "atoms_of demo_env except_names (p_ext demo_world) = map ?at [0..<length except_names]"
    by (simp add: demo_world_def demo_atoms)
  show "sorted_wrt (<) (atoms_of demo_env except_names (p_ext demo_world))"
    unfolding eq sorted_wrt_iff_nth_less using len at by (simp add: word_less_nat_alt)
  show "0 \<notin> set (atoms_of demo_env except_names (p_ext demo_world))"
    unfolding eq using len at by (auto simp: unat_eq_0 dest!: arg_cong [where f = unat])
qed

text \<open>The branches of the life cycle: a creation, a module that fails, a name that is refused.\<close>

lemma demo_init_results:
  "map_option fst (purc_init_ex demo_env 1 3 (Some ''app'') None 0 demo_world) = Some PURC_ERROR_OK"
  "map_option fst (purc_init_ex demo_env 1 11 (Some ''app'') None 0 demo_world) = Some (PURC_ERROR_OTHER 1)"
  "map_option fst (purc_init_ex demo_env 1 3 (Some '''') None 0 demo_world) = Some PURC_ERROR_INVALID_VALUE"
  by (simp_all add: purc_init_free [where i = zero_inst] demo_world_ok demo_world_def demo_env_def inst_free_def zero_inst_def
     create_inst_def Let_def name_inst_def enable_log_on_demand_def start_modules_def init_modules_def pc_modules_def
     m_id_def m_init_instance_def prepare_inst_def cleanup_modules_def m_cleanup_instance_def cleanup_instance_def
     set_inst_def default_app_def)


theorem local_data_roundtrip_witness:
  "\<exists>w'. foldm (\<lambda>(a, n, v). put_local demo_env a n v) [(1, ''x'', 5, 0), (2, ''x'', 6, 0), (1, ''x'', 7, 9)] demo_world2 = Some w' \<and>
    get_local demo_env 1 ''x'' w' = Some (7, 9)"
  using local_data_roundtrip [OF demo_env_ok(3) demo_world2_ok(1),
      of "[(1, ''x'', 5, 0), (2, ''x'', 6, 0), (1, ''x'', 7, 9)]" 1 "''x''"]
  by (auto simp: demo_world2_ok(2) demo_world2_ok(2) [simplified])

theorem except_atoms_table_witness:
  "\<exists>w'. except_init_once demo_env demo_world = Some (True, w') \<and> purc_is_except_atom 0 w' = Some False \<and>
    purc_get_except_atom_by_id (int PURC_EXCEPT_NR + int 3) w' = Some 0"
  using except_atoms_table [OF demo_atoms_inc, of 3] by (auto simp: demo_world_def)

end
