(* ===== verification/ThreadPool.thy ===== *)
theory ThreadPool
  imports LinkedList "HOL-Library.Multiset"
begin

text \<open>
  The thread pool of homework/po/lecture-4/exercise_1/thread/threadpool.c: a queue of tasks on the
  heap, a semaphore counting them, worker threads, and the main thread that submits tasks and then
  posts once per worker and joins them. The threads are interleaved; what a thread does while it
  holds the mutex is one step. \<open>None\<close> is a step that is blocked (an empty semaphore, a join of a
  running thread) or faults.
\<close>

section \<open>Data\<close>

record task =
  t_tid :: nat
  t_fn :: procptr
  t_param :: dword
  t_next :: "nat option"

text \<open>Where a worker is in its loop.\<close>

datatype wpc = W_wait | W_pop | W_run nat | W_add | W_exited

record 'v worker_st =
  w_pc :: wpc
  num_tasks :: nat
  count_in_thread :: 'v

text \<open>The main thread: starting the workers left, submitting (between the queue and the semaphore),
  posting the ends left, joining.\<close>

datatype mpc = M_spawn nat | M_submit | M_post | M_destroy nat | M_join nat | M_done

text \<open>\<open>todo\<close> are the jobs not yet submitted and \<open>calls\<close> the calls of task functions so far; \<open>brk\<close> is
  the next address \<open>malloc\<close> returns.\<close>

record 'v pool =
  heap :: "nat \<Rightarrow> task option"
  brk :: nat
  head :: "nat option"
  tail :: "nat option"
  semaphore :: nat
  total_threads :: nat
  threads :: "'v worker_st list"
  count :: 'v
  next_tid :: nat
  todo :: "(procptr \<times> dword) list"
  calls :: "(nat \<times> procptr \<times> dword) list"
  main_pc :: mpc

section \<open>Operations\<close>

definition pool_init :: "nat \<Rightarrow> (procptr \<times> dword) list \<Rightarrow> 'v::zero pool" where
  "pool_init num_threads jobs = \<lparr>heap = (\<lambda>a. None), brk = 0, head = None, tail = None, semaphore = 0,
     total_threads = num_threads, threads = [], count = 0, next_tid = 0, todo = jobs, calls = [],
     main_pc = M_spawn num_threads\<rparr>"

definition enqueue :: "nat \<Rightarrow> 'v pool \<Rightarrow> 'v pool option" where
  "enqueue t s =
     (case head s of
        None \<Rightarrow> Some (s\<lparr>head := Some t, tail := Some t\<rparr>)
      | Some _ \<Rightarrow> do {
          l \<leftarrow> tail s;
          c \<leftarrow> heap s l;
          Some (s\<lparr>heap := (heap s)(l \<mapsto> c\<lparr>t_next := Some t\<rparr>), tail := Some t\<rparr>) })"

definition dequeue :: "'v pool \<Rightarrow> (nat option \<times> 'v pool) option" where
  "dequeue s =
     (case head s of
        None \<Rightarrow> Some (None, s)
      | Some a \<Rightarrow> do { c \<leftarrow> heap s a; Some (Some a, s\<lparr>head := t_next c\<rparr>) })"

definition submit_locked :: "procptr \<Rightarrow> dword \<Rightarrow> 'v pool \<Rightarrow> 'v pool option" where
  "submit_locked fn param s =
     enqueue (brk s) (s\<lparr>heap := (heap s)(brk s \<mapsto> \<lparr>t_tid = next_tid s, t_fn = fn, t_param = param, t_next = None\<rparr>),
       brk := brk s + 1, next_tid := next_tid s + 1\<rparr>)"

definition pool_submit :: "procptr \<Rightarrow> dword \<Rightarrow> 'v pool \<Rightarrow> 'v pool option" where
  "pool_submit fn param s = map_option (\<lambda>s'. s'\<lparr>semaphore := semaphore s' + 1\<rparr>) (submit_locked fn param s)"

definition start_worker :: "'v::zero worker_st" where
  "start_worker = \<lparr>w_pc = W_wait, num_tasks = 0, count_in_thread = 0\<rparr>"

definition main_step :: "'v::zero pool \<Rightarrow> 'v pool option" where
  "main_step s =
     (case main_pc s of
        M_spawn k \<Rightarrow>
          (case k of 0 \<Rightarrow> Some (s\<lparr>main_pc := M_submit\<rparr>)
           | Suc k' \<Rightarrow> Some (s\<lparr>threads := threads s @ [start_worker], main_pc := M_spawn k'\<rparr>))
      | M_submit \<Rightarrow>
          (case todo s of [] \<Rightarrow> Some (s\<lparr>main_pc := M_destroy (total_threads s)\<rparr>)
           | (fn, param) # js \<Rightarrow> map_option (\<lambda>s'. s'\<lparr>todo := js, main_pc := M_post\<rparr>) (submit_locked fn param s))
      | M_post \<Rightarrow> Some (s\<lparr>semaphore := semaphore s + 1, main_pc := M_submit\<rparr>)
      | M_destroy k \<Rightarrow>
          (case k of 0 \<Rightarrow> Some (s\<lparr>main_pc := M_join 0\<rparr>)
           | Suc k' \<Rightarrow> Some (s\<lparr>semaphore := semaphore s + 1, main_pc := M_destroy k'\<rparr>))
      | M_join i \<Rightarrow>
          (if i < total_threads s
           then do { w \<leftarrow> arr_get (threads s) i;
                     if w_pc w = W_exited then Some (s\<lparr>main_pc := M_join (i + 1)\<rparr>) else None }
           else Some (s\<lparr>main_pc := M_done\<rparr>))
      | M_done \<Rightarrow> None)"

text \<open>A step of a worker; \<open>run\<close> is the value that a task function returns (\<open>execute\<close>).\<close>

definition worker_step ::
    "(procptr \<Rightarrow> dword \<Rightarrow> 'v::plus) \<Rightarrow> 'v worker_st \<Rightarrow> 'v pool \<Rightarrow> ('v worker_st \<times> 'v pool) option" where
  "worker_step run w s =
     (case w_pc w of
        W_wait \<Rightarrow>
          (if semaphore s = 0 then None else Some (w\<lparr>w_pc := W_pop\<rparr>, s\<lparr>semaphore := semaphore s - 1\<rparr>))
      | W_pop \<Rightarrow> do {
          (t, s1) \<leftarrow> dequeue s;
          Some (w\<lparr>w_pc := (case t of None \<Rightarrow> W_add | Some a \<Rightarrow> W_run a)\<rparr>, s1) }
      | W_run a \<Rightarrow> do {
          c \<leftarrow> heap s a;
          Some (w\<lparr>w_pc := W_wait, num_tasks := num_tasks w + 1,
                   count_in_thread := count_in_thread w + run (t_fn c) (t_param c)\<rparr>,
                s\<lparr>calls := calls s @ [(t_tid c, t_fn c, t_param c)]\<rparr>) }
      | W_add \<Rightarrow> Some (w\<lparr>w_pc := W_exited\<rparr>, s\<lparr>count := count s + count_in_thread w\<rparr>)
      | W_exited \<Rightarrow> None)"

inductive pool_step :: "(procptr \<Rightarrow> dword \<Rightarrow> 'v::comm_monoid_add) \<Rightarrow> 'v pool \<Rightarrow> 'v pool \<Rightarrow> bool" for run where
  main: "main_step s = Some s' \<Longrightarrow> pool_step run s s'"
| worker: "i < length (threads s) \<Longrightarrow> worker_step run (threads s ! i) s = Some (w, s') \<Longrightarrow>
    pool_step run s (s'\<lparr>threads := (threads s)[i := w]\<rparr>)"

inductive_cases pool_stepE: "pool_step run s s'"

end
