(* ===== verification/PoolProps.thy ===== *)
theory PoolProps
  imports ThreadPool
begin

text \<open>
  The thread pool completes: an invariant ties the semaphore to the queue, the workers and the posts
  of \<open>pool_destroy\<close>, and the calls, the running tasks and the queue to the jobs submitted; a rank
  decreases with every step. With them the pool is a \<open>terminating_system\<close>.
\<close>

section \<open>Sums over the workers\<close>

definition tsum :: "('w \<Rightarrow> 'a::comm_monoid_add) \<Rightarrow> 'w list \<Rightarrow> 'a" where
  "tsum f ts = sum_list (map f ts)"

lemma tsum_simps [simp]: "tsum f [] = 0" "tsum f (ts @ [w]) = tsum f ts + f w"
  by (simp_all add: tsum_def)

lemma tsum_splitE:
  assumes "i < length ts"
  obtains r where "\<And>w. tsum f (ts[i := w]) = f w + r" "tsum f ts = f (ts ! i) + r"
proof -
  let ?r = "tsum f (take i ts) + tsum f (drop (Suc i) ts)"
  have upd: "tsum f (ts[i := w]) = f w + ?r" for w
    using assms by (simp add: tsum_def upd_conv_take_nth_drop ac_simps)
  from upd [of "ts ! i"] show thesis by (intro that [of ?r] upd) simp
qed

lemma tsum_cong: "(\<And>w. w \<in> set ts \<Longrightarrow> f w = g w) \<Longrightarrow> tsum f ts = tsum g ts"
  unfolding tsum_def by (simp cong: map_cong)

lemma tsum_zero: "(\<And>w. w \<in> set ts \<Longrightarrow> f w = 0) \<Longrightarrow> tsum f ts = 0"
  unfolding tsum_def by (simp cong: map_cong add: sum_list_triv)

lemma tsum_le_length: "(\<And>w. f w \<le> (1::nat)) \<Longrightarrow> tsum f ts \<le> length ts"
proof (induction ts)
  case (Cons a ts)
  from add_mono [OF Cons.prems [of a] Cons.IH [OF Cons.prems]] show ?case by (simp add: tsum_def)
qed simp

lemma tsum_pos_iff: "0 < tsum f ts \<longleftrightarrow> (\<exists>w \<in> set ts. 0 < (f w :: nat))"
  by (induction ts) (auto simp: tsum_def)

section \<open>The invariant\<close>

definition job :: "task \<Rightarrow> nat \<times> procptr \<times> dword" where
  "job c = (t_tid c, t_fn c, t_param c)"

definition running :: "(nat \<Rightarrow> task option) \<Rightarrow> 'v worker_st \<Rightarrow> (nat \<times> procptr \<times> dword) multiset" where
  "running h w = (case w_pc w of W_run a \<Rightarrow> {#job (the (h a))#} | _ \<Rightarrow> {#})"

definition jobs_upto :: "(procptr \<times> dword) list \<Rightarrow> nat \<Rightarrow> (nat \<times> procptr \<times> dword) multiset" where
  "jobs_upto jobs n = mset (map (\<lambda>i. (i, jobs ! i)) [0..<n])"

definition popping :: "'v worker_st \<Rightarrow> nat" where
  "popping w = (if w_pc w = W_pop then 1 else 0)"

definition ended :: "'v worker_st \<Rightarrow> nat" where
  "ended w = (if w_pc w = W_add \<or> w_pc w = W_exited then 1 else 0)"

definition unadded :: "'v::zero worker_st \<Rightarrow> 'v" where
  "unadded w = (if w_pc w = W_exited then 0 else count_in_thread w)"

fun pending :: "mpc \<Rightarrow> nat" where
  "pending M_post = 1" | "pending _ = 0"

fun ends :: "nat \<Rightarrow> mpc \<Rightarrow> nat" where
  "ends n (M_destroy k) = n - k" | "ends n (M_join i) = n" | "ends n M_done = n" | "ends n _ = 0"

fun spawn_left :: "mpc \<Rightarrow> nat" where
  "spawn_left (M_spawn k) = k" | "spawn_left _ = 0"

fun ending :: "mpc \<Rightarrow> bool" where
  "ending (M_destroy k) = True" | "ending (M_join i) = True" | "ending M_done = True" | "ending _ = False"

fun phase_ok :: "nat \<Rightarrow> 'v worker_st list \<Rightarrow> mpc \<Rightarrow> bool" where
  "phase_ok n ts (M_destroy k) = (k \<le> n)"
| "phase_ok n ts (M_join i) = (\<forall>j < i. j < n \<longrightarrow> w_pc (ts ! j) = W_exited)"
| "phase_ok n ts M_done = (\<forall>j < n. w_pc (ts ! j) = W_exited)"
| "phase_ok n ts _ = True"

text \<open>The queue \<open>as\<close> on the heap, and the tasks the workers hold.\<close>

definition queue_inv :: "nat list \<Rightarrow> 'v pool \<Rightarrow> bool" where
  "queue_inv as s \<longleftrightarrow> lqueue t_next (heap s) (head s) (tail s) as \<and> (\<forall>a \<ge> brk s. heap s a = None) \<and>
     (\<forall>w \<in> set (threads s). \<forall>a. w_pc w = W_run a \<longrightarrow> heap s a \<noteq> None)"

definition work_inv :: "(procptr \<times> dword) list \<Rightarrow> nat list \<Rightarrow> 'v pool \<Rightarrow> bool" where
  "work_inv jobs as s \<longleftrightarrow> next_tid s \<le> length jobs \<and> todo s = drop (next_tid s) jobs \<and>
     mset (calls s) + tsum (running (heap s)) (threads s) + mset (payload job (heap s) as) = jobs_upto jobs (next_tid s)"

definition value_inv :: "(procptr \<Rightarrow> dword \<Rightarrow> 'v::comm_monoid_add) \<Rightarrow> 'v pool \<Rightarrow> bool" where
  "value_inv run s \<longleftrightarrow> count s + tsum unadded (threads s) = tsum (\<lambda>(i, f, p). run f p) (calls s)"

definition token_inv :: "nat list \<Rightarrow> 'v pool \<Rightarrow> bool" where
  "token_inv as s \<longleftrightarrow> semaphore s + tsum popping (threads s) + pending (main_pc s) + tsum ended (threads s) =
     length as + ends (total_threads s) (main_pc s)"

definition phase_inv :: "nat \<Rightarrow> nat list \<Rightarrow> 'v pool \<Rightarrow> bool" where
  "phase_inv n as s \<longleftrightarrow> total_threads s = n \<and> length (threads s) + spawn_left (main_pc s) = n \<and>
     (ending (main_pc s) \<longrightarrow> todo s = []) \<and> (0 < tsum ended (threads s) \<longrightarrow> as = [] \<and> ending (main_pc s)) \<and>
     phase_ok n (threads s) (main_pc s)"

definition pool_inv :: "(procptr \<Rightarrow> dword \<Rightarrow> 'v::comm_monoid_add) \<Rightarrow> (procptr \<times> dword) list \<Rightarrow> nat \<Rightarrow> 'v pool \<Rightarrow> bool" where
  "pool_inv run jobs n s \<longleftrightarrow>
     (\<exists>as. queue_inv as s \<and> work_inv jobs as s \<and> token_inv as s \<and> phase_inv n as s) \<and> value_inv run s"

interpretation tasks: linked_cells t_next "\<lambda>v. t_next_update (\<lambda>_. v)" job
  by unfold_locales (simp_all add: job_def)

section \<open>The queue\<close>

lemma enqueue_queue:
  assumes q: "lqueue t_next h0 (head s) (tail s) as" and fresh: "h0 a = None" and c: "t_next c = None"
    and hp: "heap s = h0(a \<mapsto> c)" and f: "f = (if as = [] then Some a else head s)"
  shows "\<exists>h. enqueue a s = Some (s\<lparr>heap := h, head := f, tail := Some a\<rparr>) \<and> lqueue t_next h f (Some a) (as @ [a]) \<and>
    payload job h (as @ [a]) = payload job h0 as @ [job c] \<and>
    (\<forall>b. (h b = None) = (heap s b = None)) \<and> (\<forall>b. h0 b \<noteq> None \<longrightarrow> job (the (h b)) = job (the (h0 b)))"
proof (cases "as = []")
  case True
  with q have "head s = None" by simp
  then show ?thesis using True c tasks.push_empty [OF c, of h0 a] fresh
    by (intro exI [of _ "heap s"]) (auto simp: enqueue_def hp f)
next
  case False
  with q obtain l g where l: "tail s = Some l" "head s = Some g" by (auto simp: lqueue_def dest: lseg_NULL_iff)
  from tasks.push_back [OF q [unfolded l(1)] False fresh c] obtain d where d: "(heap s) l = Some d"
    "lqueue t_next ((heap s)(l \<mapsto> d\<lparr>t_next := Some a\<rparr>)) (head s) (Some a) (as @ [a])"
    "payload job ((heap s)(l \<mapsto> d\<lparr>t_next := Some a\<rparr>)) (as @ [a]) = payload job h0 as @ [job c]"
    unfolding hp by blast
  have "enqueue a s = Some (s\<lparr>heap := (heap s)(l \<mapsto> d\<lparr>t_next := Some a\<rparr>), head := f, tail := Some a\<rparr>)"
    using False d(1) l by (simp add: enqueue_def f)
  moreover have "\<forall>b. h0 b \<noteq> None \<longrightarrow> job (the (((heap s)(l \<mapsto> d\<lparr>t_next := Some a\<rparr>)) b)) = job (the (h0 b))"
    using d(1) fresh by (auto simp: hp job_def split: if_splits)
  ultimately show ?thesis using False d f
    by (intro exI [of _ "(heap s)(l \<mapsto> d\<lparr>t_next := Some a\<rparr>)"]) auto
qed

lemma dequeue_queue:
  assumes "lqueue t_next (heap s) (head s) (tail s) as"
  shows "case as of [] \<Rightarrow> dequeue s = Some (None, s)
    | a # as' \<Rightarrow> \<exists>p. heap s a \<noteq> None \<and> dequeue s = Some (Some a, s\<lparr>head := p\<rparr>) \<and> lqueue t_next (heap s) p (tail s) as'"
proof (cases as)
  case Nil
  with assms show ?thesis by (simp add: dequeue_def)
next
  case (Cons a as')
  then have h: "head s = Some a" using lqueue_first [OF assms] by simp
  from tasks.pop_front [OF assms [unfolded h Cons]] obtain c where
    "heap s a = Some c" "lqueue t_next (heap s) (t_next c) (tail s) as'" by blast
  with Cons h show ?thesis by (auto simp: dequeue_def)
qed

section \<open>Steps of the workers\<close>

lemma running_simps [simp]:
  "running h (w\<lparr>w_pc := W_run a\<rparr>) = {#job (the (h a))#}" "running h (w\<lparr>w_pc := W_add\<rparr>) = {#}"
  "running h (w\<lparr>w_pc := W_pop\<rparr>) = {#}" "running h (w\<lparr>w_pc := W_exited\<rparr>) = {#}" "w_pc w = W_pop \<Longrightarrow> running h w = {#}"
  "w_pc w = W_wait \<Longrightarrow> running h w = {#}" "w_pc w = W_add \<Longrightarrow> running h w = {#}" "w_pc w = W_run a \<Longrightarrow> running h w = {#job (the (h a))#}"
  by (simp_all add: running_def)

lemma phase_ok_step:
  assumes "phase_ok n ts m" "i < length ts" "w_pc (ts ! i) \<noteq> W_exited" "length ts = n \<or> \<not> ending m"
  shows "phase_ok n (ts[i := w]) m"
  using assms by (cases m) (auto simp: nth_list_update)

lemma set_list_updateD: "x \<in> set (xs[i := w]) \<Longrightarrow> x = w \<or> x \<in> set xs"
  using set_update_subset_insert [of xs i w] by auto

text \<open>What a step of worker \<open>i\<close> may change, with the balance it has to keep.\<close>

lemma worker_frame:
  assumes q: "queue_inv as s" and wk: "work_inv jobs as s" and tk: "token_inv as s"
    and ph: "phase_inv n as s" and v: "value_inv run s"
    and i: "i < length (threads s)" and alive: "w_pc (threads s ! i) \<noteq> W_exited"
    and q': "lqueue t_next (heap s) p (tail s) bs" "\<And>a. w_pc w = W_run a \<Longrightarrow> heap s a \<noteq> None"
    and wk': "mset cs + running (heap s) w + mset (payload job (heap s) bs) =
      mset (calls s) + running (heap s) (threads s ! i) + mset (payload job (heap s) as)"
    and tk': "sem + popping w + ended w + length as =
      semaphore s + popping (threads s ! i) + ended (threads s ! i) + length bs"
    and ph': "as = [] \<Longrightarrow> bs = []" "ended w = 0 \<or> 0 < ended (threads s ! i) \<or> bs = [] \<and> ending (main_pc s)"
    and v': "\<And>r. count s + unadded (threads s ! i) + r = tsum (\<lambda>(i, f, p). run f p) (calls s) \<Longrightarrow>
      c + unadded w + r = tsum (\<lambda>(i, f, p). run f p) cs"
  shows "pool_inv run jobs n
    (s\<lparr>semaphore := sem, head := p, count := c, calls := cs, threads := (threads s)[i := w]\<rparr>)" (is "pool_inv run jobs n ?s")
proof -
  let ?u = "threads s ! i"
  have "queue_inv bs ?s" using q q' by (auto simp: queue_inv_def dest!: set_list_updateD)
  moreover obtain rr where "\<And>x. tsum (running (heap s)) ((threads s)[i := x]) = running (heap s) x + rr"
    "tsum (running (heap s)) (threads s) = running (heap s) ?u + rr" using tsum_splitE [OF i] by metis
  then have "work_inv jobs bs ?s" using wk wk' arg_cong [OF wk', of "\<lambda>m. m + rr"]
    by (simp add: work_inv_def ac_simps)
  moreover obtain rp where rp: "\<And>x. tsum popping ((threads s)[i := x]) = popping x + rp"
    "tsum popping (threads s) = popping ?u + rp" using tsum_splitE [OF i] by metis
  moreover obtain re where re: "\<And>x. tsum ended ((threads s)[i := x]) = ended x + re"
    "tsum ended (threads s) = ended ?u + re" using tsum_splitE [OF i] by metis
  moreover have "token_inv bs ?s" using tk tk' by (simp add: token_inv_def rp re)
  moreover have "length (threads s) = n \<or> \<not> ending (main_pc s)"
    using ph by (cases "main_pc s") (auto simp: phase_inv_def)
  then have "phase_inv n bs ?s"
    using ph ph' phase_ok_step [OF _ i alive, of n "main_pc s" w] by (auto simp: phase_inv_def re)
  moreover obtain ra where "\<And>x. tsum unadded ((threads s)[i := x]) = unadded x + ra"
    "tsum unadded (threads s) = unadded ?u + ra" using tsum_splitE [OF i] by metis
  then have "value_inv run ?s" using v v' [of ra] by (simp add: value_inv_def add.assoc)
  ultimately show ?thesis by (auto simp: pool_inv_def)
qed

lemma worker_inv:
  assumes inv: "pool_inv run jobs n s" and i: "i < length (threads s)"
    and st: "worker_step run (threads s ! i) s = Some (w, s')"
  shows "pool_inv run jobs n (s'\<lparr>threads := (threads s)[i := w]\<rparr>)"
proof -
  from inv obtain as where q: "queue_inv as s" and wk: "work_inv jobs as s" and tk: "token_inv as s"
    and ph: "phase_inv n as s" and v: "value_inv run s" by (auto simp: pool_inv_def)
  let ?u = "threads s ! i"
  have u: "?u \<in> set (threads s)" "w_pc ?u \<noteq> W_exited" using i st by (auto simp: worker_step_def)
  have lq: "lqueue t_next (heap s) (head s) (tail s) as" using q by (simp add: queue_inv_def)
  note frame = worker_frame [OF q wk tk ph v i u(2)]
  show ?thesis
  proof (cases "w_pc ?u")
    case W_wait
    then have "semaphore s \<noteq> 0" "w = ?u\<lparr>w_pc := W_pop\<rparr>" "s' = s\<lparr>semaphore := semaphore s - 1\<rparr>"
      using st by (auto simp: worker_step_def split: if_splits)
    then show ?thesis using frame [OF lq, of w "calls s" "semaphore s - 1" "count s"] W_wait
      by (simp add: popping_def ended_def unadded_def)
  next
    case W_pop
    have pop: "popping ?u = 1" "ended ?u = 0" using W_pop by (simp_all add: popping_def ended_def)
    show ?thesis
    proof (cases as)
      case Nil
      with dequeue_queue [OF lq] st W_pop have e: "w = ?u\<lparr>w_pc := W_add\<rparr>" "s' = s"
        by (auto simp: worker_step_def)
      have "0 < tsum popping (threads s)" using u(1) pop(1) unfolding tsum_pos_iff by force
      then have "ending (main_pc s)" using tk Nil by (cases "main_pc s") (auto simp: token_inv_def)
      then show ?thesis using frame [OF lq, of w "calls s" "semaphore s" "count s"] W_pop e Nil
        by (simp add: popping_def ended_def unadded_def)
    next
      case (Cons a bs)
      with dequeue_queue [OF lq] obtain p where p: "heap s a \<noteq> None" "dequeue s = Some (Some a, s\<lparr>head := p\<rparr>)"
        "lqueue t_next (heap s) p (tail s) bs" by auto
      then have "w = ?u\<lparr>w_pc := W_run a\<rparr>" "s' = s\<lparr>head := p\<rparr>" using st W_pop by (auto simp: worker_step_def)
      then show ?thesis using frame [OF p(3), of w "calls s" "semaphore s" "count s"] W_pop p(1) Cons
        by (simp add: popping_def ended_def unadded_def)
    qed
  next
    case (W_run a)
    then have "heap s a \<noteq> None" using q u(1) unfolding queue_inv_def by blast
    then obtain c where c: "heap s a = Some c" by blast
    then have e: "w = ?u\<lparr>w_pc := W_wait, num_tasks := num_tasks ?u + 1,
        count_in_thread := count_in_thread ?u + run (t_fn c) (t_param c)\<rparr>" "s' = s\<lparr>calls := calls s @ [job c]\<rparr>"
      using st W_run by (auto simp: worker_step_def job_def)
    have "count s + unadded w + r = tsum (\<lambda>(i, f, p). run f p) (calls s @ [job c])"
      if "count s + unadded ?u + r = tsum (\<lambda>(i, f, p). run f p) (calls s)" for r
      using W_run unfolding tsum_simps that [symmetric] by (simp add: unadded_def e(1) job_def ac_simps)
    then show ?thesis using frame [OF lq, of w "calls s @ [job c]" "semaphore s" "count s"] W_run c e
      by (simp add: popping_def ended_def)
  next
    case W_add
    then have "w = ?u\<lparr>w_pc := W_exited\<rparr>" "s' = s\<lparr>count := count s + count_in_thread ?u\<rparr>"
      using st by (auto simp: worker_step_def)
    then show ?thesis using frame [OF lq, of w "calls s" "semaphore s" "count s + count_in_thread ?u"] W_add
      by (simp add: popping_def ended_def unadded_def)
  next
    case W_exited
    with u(2) show ?thesis by simp
  qed
qed

section \<open>Steps of the main thread\<close>

lemma submit_locked_queue:
  assumes q: "queue_inv as s" and g: "g = (if as = [] then Some (brk s) else head s)"
  obtains h where "submit_locked f p s =
      Some (s\<lparr>heap := h, brk := brk s + 1, next_tid := next_tid s + 1, head := g, tail := Some (brk s)\<rparr>)"
    "lqueue t_next h g (Some (brk s)) (as @ [brk s])"
    "payload job h (as @ [brk s]) = payload job (heap s) as @ [(next_tid s, f, p)]"
    "\<forall>b > brk s. h b = None" "\<forall>b. heap s b \<noteq> None \<longrightarrow> h b \<noteq> None \<and> job (the (h b)) = job (the (heap s b))"
proof -
  let ?c = "\<lparr>t_tid = next_tid s, t_fn = f, t_param = p, t_next = None\<rparr>"
  define s2 where "s2 = s\<lparr>heap := (heap s)(brk s \<mapsto> ?c), brk := brk s + 1, next_tid := next_tid s + 1\<rparr>"
  have lq: "lqueue t_next (heap s) (head s2) (tail s2) as" "heap s (brk s) = None" "t_next ?c = None"
    "heap s2 = (heap s)(brk s \<mapsto> ?c)" "g = (if as = [] then Some (brk s) else head s2)"
    using q g by (simp_all add: queue_inv_def s2_def)
  from enqueue_queue [OF lq] obtain h where h: "enqueue (brk s) s2 = Some (s2\<lparr>heap := h, head := g, tail := Some (brk s)\<rparr>)"
    "lqueue t_next h g (Some (brk s)) (as @ [brk s])"
    "payload job h (as @ [brk s]) = payload job (heap s) as @ [job ?c]"
    "\<forall>b. (h b = None) = (heap s2 b = None)" "\<forall>b. heap s b \<noteq> None \<longrightarrow> job (the (h b)) = job (the (heap s b))" by blast
  have "submit_locked f p s =
      Some (s\<lparr>heap := h, brk := brk s + 1, next_tid := next_tid s + 1, head := g, tail := Some (brk s)\<rparr>)"
    using h(1) unfolding s2_def submit_locked_def by simp
  moreover have "\<forall>b > brk s. h b = None" using h(4) q by (simp add: queue_inv_def s2_def)
  moreover have "\<forall>b. heap s b \<noteq> None \<longrightarrow> h b \<noteq> None \<and> job (the (h b)) = job (the (heap s b))"
    using h(4,5) by (simp add: s2_def)
  ultimately show thesis using that [of h] h(2,3) by (simp add: job_def)
qed

lemma jobs_upto_Suc: "jobs_upto jobs (Suc n) = jobs_upto jobs n + {#(n, jobs ! n)#}"
  by (simp add: jobs_upto_def)

lemma main_submit_inv:
  assumes q: "queue_inv as s" and wk: "work_inv jobs as s" and tk: "token_inv as s" and ph: "phase_inv n as s"
    and v: "value_inv run s" and m: "main_pc s = M_submit" "todo s = (f, p) # js"
    and sub: "submit_locked f p s = Some s1"
  shows "pool_inv run jobs n (s1\<lparr>todo := js, main_pc := M_post\<rparr>)"
proof -
  define g where "g = (if as = [] then Some (brk s) else head s)"
  obtain h where h: "submit_locked f p s =
      Some (s\<lparr>heap := h, brk := brk s + 1, next_tid := next_tid s + 1, head := g, tail := Some (brk s)\<rparr>)"
    "lqueue t_next h g (Some (brk s)) (as @ [brk s])"
    "payload job h (as @ [brk s]) = payload job (heap s) as @ [(next_tid s, f, p)]"
    "\<forall>b > brk s. h b = None" "\<forall>b. heap s b \<noteq> None \<longrightarrow> h b \<noteq> None \<and> job (the (h b)) = job (the (heap s b))"
    using submit_locked_queue [OF q g_def] by blast
  let ?s = "s1\<lparr>todo := js, main_pc := M_post\<rparr>" and ?as = "as @ [brk s]"
  have s1: "s1 = s\<lparr>heap := h, brk := brk s + 1, next_tid := next_tid s + 1, head := g, tail := Some (brk s)\<rparr>"
    using sub h(1) by simp
  have held: "\<forall>w \<in> set (threads s). \<forall>a. w_pc w = W_run a \<longrightarrow> heap s a \<noteq> None" using q by (simp add: queue_inv_def)
  then have run: "tsum (running h) (threads s) = tsum (running (heap s)) (threads s)"
    using h(5) by (intro tsum_cong) (auto simp: running_def split: wpc.splits)
  have "queue_inv ?as ?s" using h(2,4,5) held by (fastforce simp: queue_inv_def s1)
  moreover have job: "next_tid s < length jobs" "jobs ! next_tid s = (f, p)" "js = drop (Suc (next_tid s)) jobs"
  proof -
    have d: "drop (next_tid s) jobs = (f, p) # js" using wk m(2) by (simp add: work_inv_def)
    then show l: "next_tid s < length jobs" by (metis drop_eq_Nil2 list.distinct(1) not_le)
    show "jobs ! next_tid s = (f, p)" "js = drop (Suc (next_tid s)) jobs"
      using d Cons_nth_drop_Suc [OF l] by simp_all
  qed
  then have "work_inv jobs ?as ?s"
    using wk by (simp add: work_inv_def jobs_upto_Suc h(3) run s1 del: payload_append)
  moreover have "token_inv ?as ?s" using tk m(1) by (simp add: token_inv_def s1)
  moreover have "phase_inv n ?as ?s" using ph m(1) by (auto simp: phase_inv_def s1)
  moreover have "value_inv run ?s" using v by (simp add: value_inv_def s1)
  ultimately show ?thesis by (auto simp: pool_inv_def)
qed

text \<open>A step that only moves the main thread on, with a post of the semaphore or not.\<close>

lemma main_move_inv:
  assumes q: "queue_inv as s" and wk: "work_inv jobs as s" and tk: "token_inv as s" and ph: "phase_inv n as s"
    and v: "value_inv run s"
    and tk': "sem + pending m + ends n (main_pc s) = semaphore s + pending (main_pc s) + ends n m"
    and ph': "spawn_left m = spawn_left (main_pc s)" "ending m \<Longrightarrow> ending (main_pc s) \<or> todo s = []"
      "ending (main_pc s) \<Longrightarrow> ending m" "phase_ok n (threads s) m"
  shows "pool_inv run jobs n (s\<lparr>semaphore := sem, main_pc := m\<rparr>)" (is "pool_inv run jobs n ?s")
proof -
  have "queue_inv as ?s" "work_inv jobs as ?s" "value_inv run ?s"
    using q wk v by (simp_all add: queue_inv_def work_inv_def value_inv_def)
  moreover have "token_inv as ?s" using tk tk' ph by (simp add: token_inv_def phase_inv_def)
  moreover have "phase_inv n as ?s" using ph ph' by (auto simp: phase_inv_def)
  ultimately show ?thesis by (auto simp: pool_inv_def)
qed

lemma main_inv:
  assumes inv: "pool_inv run jobs n s" and st: "main_step s = Some s'"
  shows "pool_inv run jobs n s'"
proof -
  from inv obtain as where q: "queue_inv as s" and wk: "work_inv jobs as s" and tk: "token_inv as s"
    and ph: "phase_inv n as s" and v: "value_inv run s" by (auto simp: pool_inv_def)
  note move = main_move_inv [OF q wk tk ph v]
  have n: "total_threads s = n" using ph by (simp add: phase_inv_def)
  show ?thesis
  proof (cases "main_pc s")
    case (M_spawn k)
    show ?thesis
    proof (cases k)
      case 0
      then show ?thesis using move [of "semaphore s" M_submit] M_spawn st by (simp add: main_step_def)
    next
      case (Suc k')
      then have s': "s' = s\<lparr>threads := threads s @ [start_worker], main_pc := M_spawn k'\<rparr>"
        using st M_spawn by (simp add: main_step_def)
      have w: "popping start_worker = 0" "ended start_worker = 0" "unadded start_worker = 0" "running h start_worker = {#}" for h
        by (simp_all add: start_worker_def popping_def ended_def unadded_def)
      have "queue_inv as s'" using q by (auto simp: s' queue_inv_def start_worker_def)
      moreover have "work_inv jobs as s'" "value_inv run s'" using wk v by (simp_all add: s' work_inv_def value_inv_def w)
      moreover have "token_inv as s'" "phase_inv n as s'" using tk ph M_spawn Suc
        by (simp_all add: s' token_inv_def phase_inv_def w)
      ultimately show ?thesis by (auto simp: pool_inv_def)
    qed
  next
    case M_submit
    show ?thesis
    proof (cases "todo s")
      case Nil
      then show ?thesis using move [of "semaphore s" "M_destroy n"] M_submit st n by (simp add: main_step_def)
    next
      case (Cons x js)
      obtain f p where "x = (f, p)" by (cases x)
      then show ?thesis using main_submit_inv [OF q wk tk ph v M_submit] Cons st M_submit
        by (auto simp: main_step_def)
    qed
  next
    case M_post
    then show ?thesis using move [of "semaphore s + 1" M_submit] st by (simp add: main_step_def)
  next
    case (M_destroy k)
    then have "k \<le> n" using ph by (simp add: phase_inv_def)
    then show ?thesis using move [of "semaphore s" "M_join 0"] move [of "semaphore s + 1" "M_destroy (k - 1)"] M_destroy st
      by (cases k) (auto simp: main_step_def)
  next
    case (M_join i)
    have "phase_ok n (threads s) (M_join i)" using ph M_join by (simp add: phase_inv_def)
    then show ?thesis using move [of "semaphore s" "M_join (i + 1)"] move [of "semaphore s" M_done] M_join st n
      by (auto simp: main_step_def arr_get_Some_iff less_Suc_eq split: if_splits bind_splits)
  next
    case M_done
    with st show ?thesis by (simp add: main_step_def)
  qed
qed

lemma pool_init_inv: "pool_inv run jobs n (pool_init n jobs)"
  by (simp add: pool_inv_def queue_inv_def work_inv_def token_inv_def phase_inv_def value_inv_def pool_init_def
    jobs_upto_def exI [of _ "[]"])

lemma pool_step_inv: "pool_inv run jobs n s \<Longrightarrow> pool_step run s s' \<Longrightarrow> pool_inv run jobs n s'"
  by (erule pool_stepE) (auto intro: main_inv worker_inv)

section \<open>Progress and rank\<close>

definition worker_rank :: "'v worker_st \<Rightarrow> nat" where
  "worker_rank w = (case w_pc w of W_wait \<Rightarrow> 0 | W_pop \<Rightarrow> 3 | W_run a \<Rightarrow> 2 | W_add \<Rightarrow> 1 | W_exited \<Rightarrow> 0)"

text \<open>A submission is worth six steps, a post of the semaphore five.\<close>

fun main_rank :: "nat \<Rightarrow> nat \<Rightarrow> mpc \<Rightarrow> nat" where
  "main_rank n l (M_spawn k) = 6 * l + 6 * n + k + 4"
| "main_rank n l M_submit = 6 * l + 6 * n + 3"
| "main_rank n l M_post = 6 * l + 6 * n + 8"
| "main_rank n l (M_destroy k) = 5 * k + n + 2"
| "main_rank n l (M_join i) = n - i + 1"
| "main_rank n l M_done = 0"

definition pool_rank :: "'v pool \<Rightarrow> nat" where
  "pool_rank s = main_rank (total_threads s) (length (todo s)) (main_pc s) + 4 * semaphore s + tsum worker_rank (threads s)"

lemma worker_step_rank:
  assumes i: "i < length (threads s)" and st: "worker_step run (threads s ! i) s = Some (w, s')"
  shows "pool_rank (s'\<lparr>threads := (threads s)[i := w]\<rparr>) < pool_rank s"
proof -
  obtain r where "\<And>x. tsum worker_rank ((threads s)[i := x]) = worker_rank x + r"
    "tsum worker_rank (threads s) = worker_rank (threads s ! i) + r" using tsum_splitE [OF i] by metis
  then show ?thesis using st
    by (auto simp: worker_step_def pool_rank_def worker_rank_def dequeue_def split: wpc.splits if_splits option.splits bind_splits)
qed

lemma main_step_rank:
  assumes "main_step s = Some s'"
  shows "pool_rank s' < pool_rank s"
proof -
  have "total_threads t = total_threads s \<and> semaphore t = semaphore s \<and> threads t = threads s"
    if "submit_locked f p s = Some t" for f p t
    using that by (auto simp: submit_locked_def enqueue_def split: option.splits bind_splits)
  then show ?thesis using assms
    by (auto simp: main_step_def pool_rank_def start_worker_def worker_rank_def
        split: mpc.splits nat.splits list.splits if_splits bind_splits)
qed

lemma pool_step_rank: "pool_step run s s' \<Longrightarrow> pool_rank s' < pool_rank s"
  by (erule pool_stepE) (auto intro: main_step_rank worker_step_rank)

lemma tsum_less_length:
  assumes i: "i < length ts" "f (ts ! i) = 0" and le: "\<And>w. f w \<le> (1::nat)"
  shows "tsum f ts < length ts"
proof -
  have "tsum f ts = tsum f (take i ts) + f (ts ! i) + tsum f (drop (Suc i) ts)"
    by (subst id_take_nth_drop [OF i(1)]) (simp add: tsum_def)
  moreover have "tsum f (take i ts) \<le> i" "tsum f (drop (Suc i) ts) \<le> length ts - Suc i"
    using tsum_le_length [of f "take i ts", OF le] tsum_le_length [of f "drop (Suc i) ts", OF le] i(1) by simp_all
  ultimately show ?thesis using i by linarith
qed

lemma waiting_has_token:
  assumes tk: "token_inv as s" and ph: "phase_inv n as s" and m: "main_pc s = M_join i"
    and j: "j < n" "w_pc (threads s ! j) = W_wait"
  shows "semaphore s \<noteq> 0"
proof
  assume z: "semaphore s = 0"
  have len: "length (threads s) = n" "total_threads s = n" using ph m by (simp_all add: phase_inv_def)
  have "tsum (\<lambda>w. popping w + ended w) (threads s) < length (threads s)"
    using j len by (intro tsum_less_length [of j]) (auto simp: popping_def ended_def)
  then show False using tk m z len by (simp add: token_inv_def tsum_def sum_list_addf)
qed

lemma pool_progress:
  assumes inv: "pool_inv run jobs n s" and m: "main_pc s \<noteq> M_done"
  shows "\<exists>t. pool_step run s t"
proof -
  from inv obtain as where q: "queue_inv as s" and tk: "token_inv as s" and ph: "phase_inv n as s"
    by (auto simp: pool_inv_def)
  have n: "total_threads s = n" using ph by (simp add: phase_inv_def)
  have mainI: "\<exists>t. pool_step run s t" if "main_step s \<noteq> None" using that by (auto intro: pool_step.main)
  show ?thesis
  proof (cases "\<exists>i. main_pc s = M_join i \<and> i < n \<and> w_pc (threads s ! i) \<noteq> W_exited")
    case True
    then obtain i where i: "main_pc s = M_join i" "i < n" "w_pc (threads s ! i) \<noteq> W_exited" by blast
    then have l: "i < length (threads s)" using ph by (simp add: phase_inv_def)
    have "worker_step run (threads s ! i) s \<noteq> None"
    proof (cases "w_pc (threads s ! i)")
      case W_wait
      then show ?thesis using waiting_has_token [OF tk ph i(1,2)] by (simp add: worker_step_def)
    next
      case W_pop
      have "dequeue s \<noteq> None" using dequeue_queue [of s as] q by (auto simp: queue_inv_def split: list.splits)
      then show ?thesis using W_pop by (auto simp: worker_step_def split: bind_splits)
    next
      case (W_run a)
      then have "heap s a \<noteq> None" using q l unfolding queue_inv_def by auto
      then show ?thesis using W_run by (auto simp: worker_step_def)
    qed (use i in \<open>simp_all add: worker_step_def\<close>)
    then show ?thesis using pool_step.worker [OF l] by (metis not_None_eq surj_pair)
  next
    case False
    have sub: "submit_locked f p s \<noteq> None" for f p
      using submit_locked_queue [OF q refl, of f p] by (metis option.distinct(1))
    show ?thesis
      by (rule mainI) (use False m sub ph n in \<open>auto simp: main_step_def phase_inv_def arr_get_def
          split: mpc.splits nat.splits list.splits bind_splits\<close>)
  qed
qed

lemma pool_final:
  assumes inv: "pool_inv run jobs n s" and m: "main_pc s = M_done" and n: "0 < n"
  shows "mset (calls s) = jobs_upto jobs (length jobs)" "count s = (\<Sum>(f, p) \<leftarrow> jobs. run f p)"
proof -
  from inv obtain as where wk: "work_inv jobs as s" and ph: "phase_inv n as s" and v: "value_inv run s"
    by (auto simp: pool_inv_def)
  have ex: "w_pc w = W_exited" if "w \<in> set (threads s)" for w
    using ph m that by (auto simp: phase_inv_def in_set_conv_nth)
  have len: "length (threads s) = n" using ph m by (simp add: phase_inv_def)
  then obtain w where "w \<in> set (threads s)" using n by (cases "threads s") auto
  then have "0 < tsum ended (threads s)" unfolding tsum_pos_iff using ex by (force simp: ended_def)
  then have as: "as = []" "next_tid s = length jobs" using ph m wk by (auto simp: phase_inv_def work_inv_def)
  have "tsum (running (heap s)) (threads s) = {#}" using ex by (intro tsum_zero) (simp add: running_def)
  then show calls: "mset (calls s) = jobs_upto jobs (length jobs)" using wk as by (simp add: work_inv_def)
  have "tsum unadded (threads s) = 0" using ex by (intro tsum_zero) (simp add: unadded_def)
  then have "count s = tsum (\<lambda>(i, f, p). run f p) (calls s)" using v by (simp add: value_inv_def)
  also have "\<dots> = sum_mset (image_mset (\<lambda>(i, f, p). run f p) (mset (calls s)))"
    by (simp add: tsum_def flip: sum_mset_sum_list)
  also have "\<dots> = sum_list (map (\<lambda>i. case jobs ! i of (f, p) \<Rightarrow> run f p) [0..<length jobs])"
    by (simp add: calls jobs_upto_def o_def case_prod_beta' flip: sum_mset_sum_list mset_map)
  also have "\<dots> = (\<Sum>(f, p) \<leftarrow> jobs. run f p)"
    by (subst (2) map_nth [symmetric]) (simp add: o_def del: map_nth)
  finally show "count s = (\<Sum>(f, p) \<leftarrow> jobs. run f p)" .
qed

interpretation pool: terminating_system "\<lambda>s. s = pool_init n jobs" "pool_step run" "pool_inv run jobs n"
    "\<lambda>s. main_pc s = M_done" pool_rank for run jobs n
  by unfold_locales (auto intro: pool_init_inv pool_step_inv pool_step_rank pool_progress)

text \<open>A call of \<open>pool_submit\<close> is the two steps of the main thread.\<close>

lemma pool_submit_steps:
  assumes "main_pc s = M_submit" "todo s = (f, p) # js" "pool_submit f p s = Some s1"
  shows "\<exists>s2. main_step s = Some s2 \<and> main_step s2 = Some (s1\<lparr>todo := js, main_pc := M_submit\<rparr>)"
  using assms by (auto simp: pool_submit_def main_step_def)

section \<open>Properties\<close>

text \<open>C25. The pool completes. With at least one worker and whatever the interleaving of the main thread
  and the workers: no run has more steps than a bound fixed by the number of jobs and workers, no
  reachable state but the final one is stuck (no deadlock and no lost wake-up), the end can always be
  reached, and when \<open>pool_destroy\<close> has joined the workers every job submitted was called exactly once
  and \<open>count\<close> is the sum of their results (for an addition that is associative and commutative).\<close>

theorem pool_completes:
  assumes n: "0 < n" and run: "(pool_step run ^^ k) (pool_init n jobs) s"
  shows "k \<le> 6 * length jobs + 7 * n + 4 \<and>
    ((\<nexists>t. pool_step run s t) \<longleftrightarrow> main_pc s = M_done) \<and>
    (\<exists>t. (pool_step run)\<^sup>*\<^sup>* s t \<and> main_pc t = M_done) \<and>
    (main_pc s = M_done \<longrightarrow> mset (calls s) = mset (zip [0..<length jobs] jobs) \<and>
       count s = (\<Sum>(f, p) \<leftarrow> jobs. run f p))"
proof -
  have inv: "pool_inv run jobs n s"
    using pool.reachable_inv [OF refl relpowp_imp_rtranclp [OF run]] .
  have rank: "pool_rank (pool_init n jobs :: 'a pool) = 6 * length jobs + 7 * n + 4"
    by (simp add: pool_rank_def pool_init_def)
  have "k + pool_rank s \<le> pool_rank (pool_init n jobs :: 'a pool)"
    by (rule pool.run_bounded [OF run pool_init_inv])
  then have bound: "k \<le> 6 * length jobs + 7 * n + 4" unfolding rank by simp
  have fin: "\<not> pool_step run s t" if d: "main_pc s = M_done" for t
  proof
    assume st: "pool_step run s t"
    have "w_pc (threads s ! i) = W_exited" if "i < length (threads s)" for i
      using inv d that by (auto simp: pool_inv_def phase_inv_def)
    with st d show False by (auto elim!: pool_stepE simp: main_step_def worker_step_def)
  qed
  have zip: "zip [0..<length jobs] jobs = map (\<lambda>i. (i, jobs ! i)) [0..<length jobs]"
    by (rule nth_equalityI) simp_all
  show ?thesis
    using bound fin pool.progress [OF inv] pool.completes [OF inv] pool_final [OF inv _ n]
    by (auto simp: zip jobs_upto_def)
qed

text \<open>Two workers and two jobs that return their parameters.\<close>

theorem pool_completes_witness:
  "\<exists>s. (pool_step (\<lambda>f p. unat p))\<^sup>*\<^sup>* (pool_init 2 [(1, 5), (1, 7)]) s \<and> main_pc s = M_done \<and> count s = 12"
proof -
  let ?r = "\<lambda>f p. unat p" and ?i = "pool_init 2 [(1, 5), (1, 7)] :: nat pool"
  have i: "(pool_step ?r ^^ 0) ?i ?i" by simp
  obtain s where s: "(pool_step ?r)\<^sup>*\<^sup>* ?i s" "main_pc s = M_done" using pool_completes [OF _ i] by auto
  obtain k where k: "(pool_step ?r ^^ k) ?i s" using rtranclp_imp_relpowp [OF s(1)] by blast
  have "count s = 12" using pool_completes [OF _ k] s(2) by simp
  with s show ?thesis by blast
qed

end
