(* ===== verification/CommLcd.thy ===== *)
theory CommLcd
  imports Prelude
begin

text \<open>
  The common LCD video driver (lecture-5/minigui-commlcd.c): the device and its private data, the
  dirty rectangle, the update of the screen in the caller or in a thread of its own, setting the
  video mode and quitting. The rectangle functions, the operations of the LCD and the allocation of
  pixel formats are not in the repository and are parameters; messages are left out.
\<close>

section \<open>Parameters and data\<close>

text \<open>\<open>mk_rect\<close> is SetRect; \<open>intersect\<close> is IntersectRect with its result and the rectangle it writes.\<close>

record 'r rectops =
  mk_rect :: "int \<Rightarrow> int \<Rightarrow> int \<Rightarrow> int \<Rightarrow> 'r"
  is_rect_empty :: "'r \<Rightarrow> bool"
  get_bound :: "'r \<Rightarrow> 'r \<Rightarrow> 'r"
  intersect :: "'r \<Rightarrow> 'r \<Rightarrow> bool \<times> 'r"
  screen_rect :: 'r

record gal_rect =
  g_x :: int
  g_y :: int
  g_w :: int
  g_h :: int

datatype commlcd_type = COMMLCD_PSEUDO_RGB332 | COMMLCD_TRUE_RGB555 | COMMLCD_TRUE_RGB565 | COMMLCD_TRUE_RGB888
  | COMMLCD_TRUE_RGB0888 | COMMLCD_TRUE_ARGB1555 | COMMLCD_TRUE_ARGB8888 | COMMLCD_TRUE_ABRG8888 | COMMLCD_OTHER

datatype update_method = COMMLCD_UPDATE_NONE | COMMLCD_UPDATE_ASYNC | COMMLCD_UPDATE_OTHER

record commlcd_info =
  li_width :: int
  li_height :: int
  li_pitch :: int
  li_bpp :: int
  li_type :: commlcd_type
  li_update_method :: update_method
  li_fb :: dword

datatype lcd_method = M_Sync | M_Async

text \<open>Where the update thread is: before its loop, at the semaphore, at the test for cancellation,
  before its section under the lock, ended.\<close>

datatype tpc = T_none | T_start | T_wait | T_test | T_update | T_exited

record ('r, 'k) lcd =
  hid_w :: int
  hid_h :: int
  hid_pitch :: int
  hid_fb :: dword
  rc_dirty :: 'r
  dirty :: bool
  sem_update :: nat
  update_th :: tpc
  canceled :: bool
  UpdateRects :: "lcd_method option"
  SyncUpdate :: "lcd_method option"
  screen_pixels :: dword
  lcd_k :: 'k

text \<open>The operations of the LCD (\<open>__mg_commlcd_ops\<close>), two of which may be missing, and the rest.\<close>

record ('r, 'k) lcdenv =
  rops :: "'r rectops"
  ops_init :: "'k \<Rightarrow> int \<times> 'k"
  ops_getinfo :: "int \<Rightarrow> int \<Rightarrow> int \<Rightarrow> 'k \<Rightarrow> int \<times> commlcd_info \<times> 'k"
  ops_release :: "('k \<Rightarrow> 'k) option"
  ops_setclut :: "(int \<Rightarrow> int \<Rightarrow> dword list \<Rightarrow> 'k \<Rightarrow> int \<times> 'k) option"
  ops_update :: "'r \<Rightarrow> 'k \<Rightarrow> 'k"
  lcd_malloc :: "'k \<Rightarrow> bool \<times> 'k"
  realloc_format :: "int \<Rightarrow> uint \<Rightarrow> uint \<Rightarrow> uint \<Rightarrow> uint \<Rightarrow> 'k \<Rightarrow> bool \<times> 'k"
  setcancelstate :: "'k \<Rightarrow> int \<times> 'k"

record surface =
  s_flags :: uint
  s_w :: int
  s_h :: int
  s_pitch :: int
  s_pixels :: dword

section \<open>The dirty rectangle\<close>

text \<open>The loop of both \<open>UpdateRects\<close>: the bound of the dirty rectangle and the given ones.\<close>

definition grow_bound :: "'r rectops \<Rightarrow> gal_rect \<Rightarrow> 'r \<Rightarrow> 'r" where
  "grow_bound R g bound =
     (let rc = mk_rect R (g_x g) (g_y g) (g_x g + g_w g) (g_y g + g_h g)
      in if is_rect_empty R bound then rc else get_bound R bound rc)"

definition mark_dirty :: "'r rectops \<Rightarrow> 'r \<Rightarrow> ('r, 'k) lcd \<Rightarrow> ('r, 'k) lcd" where
  "mark_dirty R bound d =
     (if is_rect_empty R bound then d
      else case intersect R bound (screen_rect R) of (hit, clipped) \<Rightarrow>
        if hit then d\<lparr>rc_dirty := clipped, dirty := True\<rparr> else d)"

definition COMMLCD_UpdateRects_Sync :: "('r, 'k) lcdenv \<Rightarrow> gal_rect list \<Rightarrow> ('r, 'k) lcd \<Rightarrow> ('r, 'k) lcd" where
  "COMMLCD_UpdateRects_Sync E rects d = mark_dirty (rops E) (fold (grow_bound (rops E)) rects (rc_dirty d)) d"

text \<open>The same under the lock of the update thread.\<close>

definition COMMLCD_UpdateRects_Async :: "('r, 'k) lcdenv \<Rightarrow> gal_rect list \<Rightarrow> ('r, 'k) lcd \<Rightarrow> ('r, 'k) lcd" where
  "COMMLCD_UpdateRects_Async E rects d = mark_dirty (rops E) (fold (grow_bound (rops E)) rects (rc_dirty d)) d"

text \<open>The update of the screen itself.\<close>

definition push_dirty :: "('r, 'k) lcdenv \<Rightarrow> ('r, 'k) lcd \<Rightarrow> ('r, 'k) lcd" where
  "push_dirty E d = d\<lparr>lcd_k := ops_update E (rc_dirty d) (lcd_k d), rc_dirty := mk_rect (rops E) 0 0 0 0, dirty := False\<rparr>"

definition COMMLCD_SyncUpdate_Sync :: "('r, 'k) lcdenv \<Rightarrow> ('r, 'k) lcd \<Rightarrow> bool \<times> ('r, 'k) lcd" where
  "COMMLCD_SyncUpdate_Sync E d = (if is_rect_empty (rops E) (rc_dirty d) then (False, d) else (True, push_dirty E d))"

definition COMMLCD_SyncUpdate_Async :: "('r, 'k) lcd \<Rightarrow> bool \<times> ('r, 'k) lcd" where
  "COMMLCD_SyncUpdate_Async d = (if dirty d then (True, d\<lparr>sem_update := sem_update d + 1\<rparr>) else (False, d))"

text \<open>A step of the update thread; \<open>None\<close> when it is blocked or has ended. A thread that is cancelled
  ends at the semaphore or at the test; its section under the lock is one step.\<close>

definition task_do_update :: "('r, 'k) lcdenv \<Rightarrow> ('r, 'k) lcd \<Rightarrow> ('r, 'k) lcd option" where
  "task_do_update E d =
     (case update_th d of
        T_start \<Rightarrow> (case setcancelstate E (lcd_k d) of (r, k) \<Rightarrow>
          Some (d\<lparr>update_th := (if r \<noteq> 0 then T_exited else T_wait), lcd_k := k\<rparr>))
      | T_wait \<Rightarrow>
          (if canceled d then Some (d\<lparr>update_th := T_exited\<rparr>)
           else if sem_update d = 0 then None
           else Some (d\<lparr>sem_update := sem_update d - 1, update_th := T_test\<rparr>))
      | T_test \<Rightarrow> Some (d\<lparr>update_th := (if canceled d then T_exited else T_update)\<rparr>)
      | T_update \<Rightarrow> Some ((if dirty d then push_dirty E d else d)\<lparr>update_th := T_wait\<rparr>)
      | _ \<Rightarrow> None)"

section \<open>The device\<close>

definition COMMLCD_Available :: int where "COMMLCD_Available = 1"

text \<open>A fresh device is zeroed; no device when an allocation fails.\<close>

definition COMMLCD_CreateDevice :: "('r, 'k) lcdenv \<Rightarrow> 'k \<Rightarrow> ('r, 'k) lcd option \<times> 'k" where
  "COMMLCD_CreateDevice E k =
     (case lcd_malloc E k of (ok1, k1) \<Rightarrow>
      case (if ok1 then lcd_malloc E k1 else (False, k1)) of (ok2, k2) \<Rightarrow>
        (if ok1 \<and> ok2
         then Some \<lparr>hid_w = 0, hid_h = 0, hid_pitch = 0, hid_fb = 0, rc_dirty = mk_rect (rops E) 0 0 0 0, dirty = False,
           sem_update = 0, update_th = T_none, canceled = False, UpdateRects = None, SyncUpdate = None,
           screen_pixels = 0, lcd_k = k2\<rparr>
         else None, k2))"

text \<open>The result and the pixel format (bits and bytes per pixel), which is not set on failure.\<close>

definition COMMLCD_VideoInit :: "('r, 'k) lcdenv \<Rightarrow> 'k \<Rightarrow> int \<times> (int \<times> int) option \<times> 'k" where
  "COMMLCD_VideoInit E k = (case ops_init E k of (r, k') \<Rightarrow> if r \<noteq> 0 then (-1, None, k') else (0, Some (8, 1), k'))"

text \<open>The masks of red, green, blue and alpha.\<close>

definition color_masks :: "commlcd_type \<Rightarrow> uint \<times> uint \<times> uint \<times> uint" where
  "color_masks t =
     (case t of
        COMMLCD_PSEUDO_RGB332 \<Rightarrow> (0xE0, 0x1C, 0x03, 0)
      | COMMLCD_TRUE_RGB555 \<Rightarrow> (0x7C00, 0x03E0, 0x001F, 0)
      | COMMLCD_TRUE_RGB565 \<Rightarrow> (0xF800, 0x07E0, 0x001F, 0)
      | COMMLCD_TRUE_RGB888 \<Rightarrow> (0x00FF0000, 0x0000FF00, 0x000000FF, 0)
      | COMMLCD_TRUE_RGB0888 \<Rightarrow> (0x00FF0000, 0x0000FF00, 0x000000FF, 0)
      | COMMLCD_TRUE_ARGB1555 \<Rightarrow> (0x7C00, 0x03E0, 0x001F, 0x8000)
      | COMMLCD_TRUE_ARGB8888 \<Rightarrow> (0x00FF0000, 0x0000FF00, 0x000000FF, 0xFF000000)
      | COMMLCD_TRUE_ABRG8888 \<Rightarrow> (0x0000FF00, 0x000000FF, 0x00FF0000, 0xFF000000)
      | COMMLCD_OTHER \<Rightarrow> (0, 0, 0, 0))"

definition install_update :: "update_method \<Rightarrow> ('r, 'k) lcd \<Rightarrow> ('r, 'k) lcd" where
  "install_update m d =
     (case m of
        COMMLCD_UPDATE_NONE \<Rightarrow> d\<lparr>UpdateRects := None, SyncUpdate := None, update_th := T_none\<rparr>
      | COMMLCD_UPDATE_ASYNC \<Rightarrow> d\<lparr>UpdateRects := Some M_Async, SyncUpdate := Some M_Async, sem_update := 0,
          update_th := T_start, canceled := False\<rparr>
      | COMMLCD_UPDATE_OTHER \<Rightarrow> d\<lparr>UpdateRects := Some M_Sync, SyncUpdate := Some M_Sync, update_th := T_none\<rparr>)"

text \<open>\<open>fl\<close> are the flags \<open>GAL_HWSURFACE | GAL_FULLSCREEN\<close>; no surface when the mode cannot be set. The
  surface given is the screen of the device.\<close>

definition COMMLCD_SetVideoMode ::
    "('r, 'k) lcdenv \<Rightarrow> uint \<Rightarrow> surface \<Rightarrow> int \<Rightarrow> int \<Rightarrow> int \<Rightarrow> ('r, 'k) lcd \<Rightarrow> surface option \<times> ('r, 'k) lcd" where
  "COMMLCD_SetVideoMode E fl current width height bpp d =
     (case ops_getinfo E width height bpp (lcd_k d) of (r, li, k1) \<Rightarrow>
        if r \<noteq> 0 then (None, d\<lparr>lcd_k := k1\<rparr>)
        else
          let d1 = d\<lparr>hid_w := li_width li, hid_h := li_height li, hid_pitch := li_pitch li, hid_fb := li_fb li\<rparr> in
          case color_masks (li_type li) of (rm, gm, bm, am) \<Rightarrow>
          case realloc_format E (li_bpp li) rm gm bm am k1 of (ok, k2) \<Rightarrow>
            if \<not> ok then
              (None, d1\<lparr>hid_fb := 0, lcd_k := (case ops_release E of None \<Rightarrow> k2 | Some f \<Rightarrow> f k2)\<rparr>)
            else
              (Some (current\<lparr>s_flags := fl, s_w := hid_w d1, s_h := hid_h d1, s_pitch := hid_pitch d1, s_pixels := hid_fb d1\<rparr>),
               install_update (li_update_method li) (d1\<lparr>lcd_k := k2, screen_pixels := hid_fb d1\<rparr>)))"

text \<open>\<open>COMMLCD_VideoQuit\<close> up to the join, and from it: \<open>None\<close> while the thread has not ended.\<close>

definition video_quit_cancel :: "('r, 'k) lcd \<Rightarrow> ('r, 'k) lcd" where
  "video_quit_cancel d =
     (let d1 = d\<lparr>screen_pixels := 0\<rparr> in if update_th d1 \<noteq> T_none then d1\<lparr>canceled := True\<rparr> else d1)"

definition video_quit_join :: "('r, 'k) lcdenv \<Rightarrow> ('r, 'k) lcd \<Rightarrow> ('r, 'k) lcd option" where
  "video_quit_join E d =
     (if update_th d = T_none \<or> update_th d = T_exited
      then Some (d\<lparr>lcd_k := (case ops_release E of None \<Rightarrow> lcd_k d | Some f \<Rightarrow> f (lcd_k d))\<rparr>)
      else None)"

text \<open>The device and its private data are freed; what remains is the rest of the world.\<close>

definition COMMLCD_DeleteDevice :: "('r, 'k) lcd \<Rightarrow> 'k" where
  "COMMLCD_DeleteDevice d = lcd_k d"

definition COMMLCD_ListModes :: int where "COMMLCD_ListModes = -1"

definition COMMLCD_AllocHWSurface :: int where "COMMLCD_AllocHWSurface = -1"

definition COMMLCD_FreeHWSurface :: "surface \<Rightarrow> surface" where
  "COMMLCD_FreeHWSurface s = s\<lparr>s_pixels := 0\<rparr>"

definition COMMLCD_SetColors :: "('r, 'k) lcdenv \<Rightarrow> int \<Rightarrow> int \<Rightarrow> dword list \<Rightarrow> ('r, 'k) lcd \<Rightarrow> int \<times> ('r, 'k) lcd" where
  "COMMLCD_SetColors E firstcolor ncolors colors d =
     (case ops_setclut E of
        None \<Rightarrow> (0, d)
      | Some f \<Rightarrow> (case f firstcolor ncolors colors (lcd_k d) of (r, k) \<Rightarrow> (r, d\<lparr>lcd_k := k\<rparr>)))"

section \<open>The interface of the device\<close>

text \<open>Calls through the function pointers of the device; without one, nothing happens.\<close>

definition update_rects :: "('r, 'k) lcdenv \<Rightarrow> gal_rect list \<Rightarrow> ('r, 'k) lcd \<Rightarrow> ('r, 'k) lcd" where
  "update_rects E rects d =
     (case UpdateRects d of
        None \<Rightarrow> d
      | Some M_Sync \<Rightarrow> COMMLCD_UpdateRects_Sync E rects d
      | Some M_Async \<Rightarrow> COMMLCD_UpdateRects_Async E rects d)"

definition sync_update :: "('r, 'k) lcdenv \<Rightarrow> ('r, 'k) lcd \<Rightarrow> bool \<times> ('r, 'k) lcd" where
  "sync_update E d =
     (case SyncUpdate d of
        None \<Rightarrow> (False, d)
      | Some M_Sync \<Rightarrow> COMMLCD_SyncUpdate_Sync E d
      | Some M_Async \<Rightarrow> COMMLCD_SyncUpdate_Async d)"

datatype lcd_event = L_update "gal_rect list" | L_sync | L_thread | L_cancel

definition lcd_step :: "('r, 'k) lcdenv \<Rightarrow> lcd_event \<Rightarrow> ('r, 'k) lcd \<Rightarrow> ('r, 'k) lcd option" where
  "lcd_step E ev d =
     (case ev of
        L_update rects \<Rightarrow> Some (update_rects E rects d)
      | L_sync \<Rightarrow> Some (snd (sync_update E d))
      | L_thread \<Rightarrow> task_do_update E d
      | L_cancel \<Rightarrow> Some (video_quit_cancel d))"

end
