(* ===== verification/LcdProps.thy ===== *)
theory LcdProps
  imports CommLcd
begin

text \<open>
  What the LCD driver guarantees about the pixels that were drawn: the synchronous update pushes all of
  them; with an update thread no request is lost, whatever the interleaving, until the thread is
  cancelled.
\<close>

section \<open>Rectangles as sets of pixels\<close>

type_synonym pixels = "(int \<times> int) set"

text \<open>What is relied on of the rectangle functions, for rectangles that are not turned over (\<open>N\<close>):
  \<open>P\<close> are the pixels of a rectangle.\<close>

definition rects_ok :: "'r rectops \<Rightarrow> ('r \<Rightarrow> bool) \<Rightarrow> ('r \<Rightarrow> pixels) \<Rightarrow> bool" where
  "rects_ok R N P \<longleftrightarrow>
     (\<forall>l t r b. l \<le> r \<longrightarrow> t \<le> b \<longrightarrow> N (mk_rect R l t r b) \<and> P (mk_rect R l t r b) = {l..<r} \<times> {t..<b}) \<and>
     (\<forall>a. N a \<longrightarrow> is_rect_empty R a = (P a = {})) \<and>
     (\<forall>a b. N a \<longrightarrow> N b \<longrightarrow> N (get_bound R a b) \<and> P a \<union> P b \<subseteq> P (get_bound R a b)) \<and>
     (\<forall>a b. N a \<longrightarrow> N b \<longrightarrow> fst (intersect R a b) = (P a \<inter> P b \<noteq> {}) \<and>
        (P a \<inter> P b \<noteq> {} \<longrightarrow> N (snd (intersect R a b)) \<and> P (snd (intersect R a b)) = P a \<inter> P b)) \<and>
     N (screen_rect R)"

definition rect_wf :: "gal_rect \<Rightarrow> bool" where
  "rect_wf g \<longleftrightarrow> 0 \<le> g_w g \<and> 0 \<le> g_h g"

definition rect_pixels :: "gal_rect \<Rightarrow> pixels" where
  "rect_pixels g = {g_x g..<g_x g + g_w g} \<times> {g_y g..<g_y g + g_h g}"

text \<open>The pixels on the screen that a list of rectangles damages.\<close>

definition damage :: "'r rectops \<Rightarrow> ('r \<Rightarrow> pixels) \<Rightarrow> gal_rect list \<Rightarrow> pixels" where
  "damage R P rects = \<Union>(rect_pixels ` set rects) \<inter> P (screen_rect R)"

lemma rects_okD:
  assumes "rects_ok R N P"
  shows "l \<le> r \<Longrightarrow> t \<le> b \<Longrightarrow> N (mk_rect R l t r b)" "l \<le> r \<Longrightarrow> t \<le> b \<Longrightarrow> P (mk_rect R l t r b) = {l..<r} \<times> {t..<b}"
    "N x \<Longrightarrow> is_rect_empty R x = (P x = {})" "N x \<Longrightarrow> N y \<Longrightarrow> N (get_bound R x y)"
    "N x \<Longrightarrow> N y \<Longrightarrow> P x \<union> P y \<subseteq> P (get_bound R x y)"
    "N x \<Longrightarrow> N y \<Longrightarrow> fst (intersect R x y) = (P x \<inter> P y \<noteq> {})"
    "N x \<Longrightarrow> N y \<Longrightarrow> P x \<inter> P y \<noteq> {} \<Longrightarrow> N (snd (intersect R x y)) \<and> P (snd (intersect R x y)) = P x \<inter> P y"
    "N (screen_rect R)"
  using assms unfolding rects_ok_def by simp_all

lemma grow_bound_covers:
  assumes R: "rects_ok R N P" and g: "rect_wf g" and b: "N b"
  shows "N (grow_bound R g b) \<and> P b \<union> rect_pixels g \<subseteq> P (grow_bound R g b)"
proof -
  let ?rc = "mk_rect R (g_x g) (g_y g) (g_x g + g_w g) (g_y g + g_h g)"
  have rc: "N ?rc" "P ?rc = rect_pixels g"
    using g rects_okD(1,2) [OF R, of "g_x g" "g_x g + g_w g" "g_y g" "g_y g + g_h g"]
    by (simp_all add: rect_wf_def rect_pixels_def)
  have "grow_bound R g b = (if P b = {} then ?rc else get_bound R b ?rc)"
    using rects_okD(3) [OF R b] by (simp add: grow_bound_def Let_def)
  then show ?thesis using rc rects_okD(4,5) [OF R b rc(1)] by simp
qed

lemma grow_all_covers:
  assumes R: "rects_ok R N P" and "\<forall>g \<in> set gs. rect_wf g" "N b"
  shows "N (fold (grow_bound R) gs b) \<and> P b \<union> \<Union>(rect_pixels ` set gs) \<subseteq> P (fold (grow_bound R) gs b)"
  using assms(2,3)
proof (induction gs arbitrary: b)
  case (Cons g gs)
  with grow_bound_covers [OF R, of g b] have "N (grow_bound R g b)" "P b \<union> rect_pixels g \<subseteq> P (grow_bound R g b)" by simp_all
  with Cons.IH [of "grow_bound R g b"] Cons.prems show ?case by auto
qed simp

section \<open>The dirty rectangle\<close>

text \<open>The dirty rectangle lies on the screen, and the flag says whether it has pixels.\<close>

definition lcd_ok :: "'r rectops \<Rightarrow> ('r \<Rightarrow> bool) \<Rightarrow> ('r \<Rightarrow> pixels) \<Rightarrow> ('r, 'k) lcd \<Rightarrow> bool" where
  "lcd_ok R N P d \<longleftrightarrow> N (rc_dirty d) \<and> P (rc_dirty d) \<subseteq> P (screen_rect R) \<and> (dirty d \<longleftrightarrow> P (rc_dirty d) \<noteq> {})"

lemma lcd_ok_frame [simp]:
  "lcd_ok R N P (d\<lparr>update_th := t\<rparr>) = lcd_ok R N P d" "lcd_ok R N P (d\<lparr>sem_update := n\<rparr>) = lcd_ok R N P d"
  "lcd_ok R N P (d\<lparr>lcd_k := k\<rparr>) = lcd_ok R N P d"
  by (simp_all add: lcd_ok_def)

lemma mark_dirty_covers:
  assumes R: "rects_ok R N P" and ok: "lcd_ok R N P d" and gs: "\<forall>g \<in> set gs. rect_wf g"
  defines "d' \<equiv> mark_dirty R (fold (grow_bound R) gs (rc_dirty d)) d"
  shows "lcd_ok R N P d'" "P (rc_dirty d) \<union> damage R P gs \<subseteq> P (rc_dirty d')"
proof -
  let ?b = "fold (grow_bound R) gs (rc_dirty d)" and ?s = "screen_rect R"
  have b: "N ?b" "P (rc_dirty d) \<union> \<Union>(rect_pixels ` set gs) \<subseteq> P ?b"
    using grow_all_covers [OF R gs] ok by (simp_all add: lcd_ok_def)
  have "lcd_ok R N P d' \<and> P (rc_dirty d) \<union> damage R P gs \<subseteq> P (rc_dirty d')"
  proof (cases "P ?b \<inter> P ?s = {}")
    case True
    then have "P (rc_dirty d) = {}" "damage R P gs = {}" using b(2) ok by (auto simp: lcd_ok_def damage_def)
    moreover have "d' = d" using True rects_okD(6) [OF R b(1) rects_okD(8) [OF R]]
      by (simp add: d'_def mark_dirty_def case_prod_beta')
    ultimately show ?thesis using ok by simp
  next
    case False
    then have ne: "P ?b \<noteq> {}" by auto
    note i = rects_okD(6,7) [OF R b(1) rects_okD(8) [OF R]]
    have "d' = d\<lparr>rc_dirty := snd (intersect R ?b ?s), dirty := True\<rparr>"
      using False ne i(1) rects_okD(3) [OF R b(1)] by (simp add: d'_def mark_dirty_def case_prod_beta')
    moreover have "P (rc_dirty d) \<subseteq> P ?s" using ok by (simp add: lcd_ok_def)
    ultimately show ?thesis using i(2) [OF False] False b(2) by (auto simp: lcd_ok_def damage_def)
  qed
  then show "lcd_ok R N P d'" "P (rc_dirty d) \<union> damage R P gs \<subseteq> P (rc_dirty d')" by simp_all
qed

lemma push_dirty_ok: "rects_ok R N P \<Longrightarrow> R = rops E \<Longrightarrow> lcd_ok R N P (push_dirty E d) \<and> P (rc_dirty (push_dirty E d)) = {}"
  by (auto simp: lcd_ok_def push_dirty_def dest: rects_okD(1,2) [of _ _ _ 0 0 0 0])

lemma mark_dirty_frame [simp]:
  "UpdateRects (mark_dirty R b d) = UpdateRects d" "SyncUpdate (mark_dirty R b d) = SyncUpdate d"
  "sem_update (mark_dirty R b d) = sem_update d" "update_th (mark_dirty R b d) = update_th d"
  "canceled (mark_dirty R b d) = canceled d" "lcd_k (mark_dirty R b d) = lcd_k d"
  by (simp_all add: mark_dirty_def split: prod.splits)

lemma push_dirty_frame [simp]:
  "UpdateRects (push_dirty E d) = UpdateRects d" "SyncUpdate (push_dirty E d) = SyncUpdate d"
  "sem_update (push_dirty E d) = sem_update d" "update_th (push_dirty E d) = update_th d"
  "canceled (push_dirty E d) = canceled d" "dirty (push_dirty E d) = False"
  "lcd_k (push_dirty E d) = ops_update E (rc_dirty d) (lcd_k d)"
  by (simp_all add: push_dirty_def)

section \<open>The synchronous driver\<close>

text \<open>C26. Synchronous updates. After any calls of \<open>UpdateRects\<close> on a clean device, \<open>SyncUpdate\<close> makes at most
  one update of the LCD: of a rectangle on the screen that covers every pixel of the screen inside any
  of the rectangles, with TRUE returned; it makes none, with FALSE, only when no such pixel was damaged.
  Then the device is clean again.\<close>

theorem lcd_sync_pushes_damage:
  assumes R: "rects_ok (rops E) N P" and d: "lcd_ok (rops E) N P d" "dirty d = False"
    and m: "UpdateRects d = Some M_Sync" "SyncUpdate d = Some M_Sync"
    and gs: "\<forall>rects \<in> set calls. \<forall>g \<in> set rects. rect_wf g"
  shows "\<exists>res d'. sync_update E (fold (update_rects E) calls d) = (res, d') \<and> lcd_ok (rops E) N P d' \<and> \<not> dirty d' \<and>
    (if res then \<exists>r. lcd_k d' = ops_update E r (lcd_k d) \<and> \<Union>(damage (rops E) P ` set calls) \<subseteq> P r \<and> P r \<subseteq> P (screen_rect (rops E))
     else lcd_k d' = lcd_k d \<and> \<Union>(damage (rops E) P ` set calls) = {})"
proof -
  have "lcd_ok (rops E) N P (fold (update_rects E) calls d) \<and> UpdateRects (fold (update_rects E) calls d) = Some M_Sync \<and>
      SyncUpdate (fold (update_rects E) calls d) = Some M_Sync \<and> lcd_k (fold (update_rects E) calls d) = lcd_k d \<and>
      P (rc_dirty d) \<union> \<Union>(damage (rops E) P ` set calls) \<subseteq> P (rc_dirty (fold (update_rects E) calls d))"
    using d(1) m gs
  proof (induction calls arbitrary: d)
    case (Cons rects calls)
    let ?d = "update_rects E rects d"
    have d1: "?d = mark_dirty (rops E) (fold (grow_bound (rops E)) rects (rc_dirty d)) d"
      using Cons.prems(2) by (simp add: update_rects_def COMMLCD_UpdateRects_Sync_def)
    have g: "\<forall>g \<in> set rects. rect_wf g" using Cons.prems(4) by simp
    note c = mark_dirty_covers [OF R Cons.prems(1) g, folded d1]
    have "UpdateRects ?d = Some M_Sync" "SyncUpdate ?d = Some M_Sync" "lcd_k ?d = lcd_k d"
      using Cons.prems(2,3) by (simp_all add: d1)
    with Cons.IH [OF c(1)] Cons.prems(4) c(2) show ?case by auto
  qed simp
  then obtain e where e: "e = fold (update_rects E) calls d" "lcd_ok (rops E) N P e" "SyncUpdate e = Some M_Sync"
    "lcd_k e = lcd_k d" "\<Union>(damage (rops E) P ` set calls) \<subseteq> P (rc_dirty e)" by auto
  have emp: "is_rect_empty (rops E) (rc_dirty e) = (P (rc_dirty e) = {})" and flag: "dirty e = (P (rc_dirty e) \<noteq> {})"
    and scr: "P (rc_dirty e) \<subseteq> P (screen_rect (rops E))"
    using rects_okD(3) [OF R] e(2) by (simp_all add: lcd_ok_def)
  have "sync_update E e = (if P (rc_dirty e) = {} then (False, e) else (True, push_dirty E e))"
    using e(3) emp by (simp add: sync_update_def COMMLCD_SyncUpdate_Sync_def)
  then show ?thesis
    using e flag scr push_dirty_ok [OF R refl, of e] unfolding e(1) [symmetric] by auto
qed

section \<open>The driver with an update thread\<close>

text \<open>Two sets of pixels are carried along a run: the pixels damaged and not pushed yet, and those of them
  that were damaged before the last \<open>SyncUpdate\<close>.\<close>

definition owing :: "'r rectops \<Rightarrow> ('r \<Rightarrow> pixels) \<Rightarrow> lcd_event \<Rightarrow> ('r, 'k) lcd \<Rightarrow> pixels \<times> pixels \<Rightarrow> pixels \<times> pixels" where
  "owing R P ev d g =
     (case ev of
        L_update rects \<Rightarrow> (fst g \<union> damage R P rects, snd g)
      | L_sync \<Rightarrow> (fst g, fst g)
      | L_thread \<Rightarrow> (if update_th d = T_update \<and> dirty d then (fst g - P (rc_dirty d), snd g - P (rc_dirty d)) else g)
      | L_cancel \<Rightarrow> g)"

definition lcd_run :: "('r, 'k) lcdenv \<Rightarrow> ('r \<Rightarrow> pixels) \<Rightarrow> lcd_event \<Rightarrow> ('r, 'k) lcd \<times> pixels \<times> pixels \<Rightarrow>
    (('r, 'k) lcd \<times> pixels \<times> pixels) option" where
  "lcd_run E P ev s = map_option (\<lambda>d'. (d', owing (rops E) P ev (fst s) (snd s))) (lcd_step E ev (fst s))"

definition lcd_started :: "('r, 'k) lcd \<Rightarrow> bool" where
  "lcd_started d \<longleftrightarrow> UpdateRects d = Some M_Async \<and> SyncUpdate d = Some M_Async \<and> \<not> canceled d \<and>
     update_th d \<in> {T_start, T_wait, T_test, T_update}"

definition async_inv :: "'r rectops \<Rightarrow> ('r \<Rightarrow> bool) \<Rightarrow> ('r \<Rightarrow> pixels) \<Rightarrow> ('r, 'k) lcd \<times> pixels \<times> pixels \<Rightarrow> bool" where
  "async_inv R N P s \<longleftrightarrow> (case s of (d, owed, asked) \<Rightarrow> lcd_ok R N P d \<and> lcd_started d \<and>
     owed \<subseteq> P (rc_dirty d) \<and> asked \<subseteq> owed \<and>
     (asked \<noteq> {} \<longrightarrow> 0 < sem_update d \<or> update_th d \<in> {T_test, T_update}))"

definition cancel_enabled :: "('r, 'k) lcdenv \<Rightarrow> bool" where
  "cancel_enabled E \<longleftrightarrow> (\<forall>k. fst (setcancelstate E k) = 0)"


lemma thread_inv:
  assumes R: "rects_ok (rops E) N P" and c: "cancel_enabled E" and inv: "async_inv (rops E) N P s"
    and st: "lcd_run E P L_thread s = Some s'"
  shows "async_inv (rops E) N P s'"
proof -
  obtain d owed asked where s: "s = (d, owed, asked)" by (cases s)
  have ok: "lcd_ok (rops E) N P d" "lcd_started d" "owed \<subseteq> P (rc_dirty d)" "asked \<subseteq> owed"
    using inv by (simp_all add: s async_inv_def)
  have push: "lcd_ok (rops E) N P (push_dirty E d)" "P (rc_dirty (push_dirty E d)) = {}"
    using push_dirty_ok [OF R refl] by simp_all
  show ?thesis
  proof (cases "update_th d")
    case T_start
    obtain k where "setcancelstate E (lcd_k d) = (0, k)" using c unfolding cancel_enabled_def by (metis prod.collapse)
    then have "s' = (d\<lparr>update_th := T_wait, lcd_k := k\<rparr>, owed, asked)"
      using st T_start by (simp add: s lcd_run_def lcd_step_def task_do_update_def owing_def)
    then show ?thesis using inv ok T_start by (auto simp: s async_inv_def lcd_started_def)
  next
    case T_wait
    then have "sem_update d \<noteq> 0" "s' = (d\<lparr>sem_update := sem_update d - 1, update_th := T_test\<rparr>, owed, asked)"
      using st ok(2) by (auto simp: s lcd_run_def lcd_step_def task_do_update_def owing_def lcd_started_def split: if_splits)
    then show ?thesis using ok by (simp add: async_inv_def lcd_started_def)
  next
    case T_test
    then have "s' = (d\<lparr>update_th := T_update\<rparr>, owed, asked)"
      using st ok(2) by (simp add: s lcd_run_def lcd_step_def task_do_update_def owing_def lcd_started_def)
    then show ?thesis using ok by (simp add: async_inv_def lcd_started_def)
  next
    case T_update
    have "owed - P (rc_dirty d) = {}" "asked - P (rc_dirty d) = {}" "\<not> dirty d \<Longrightarrow> owed = {} \<and> asked = {}"
      using ok by (auto simp: lcd_ok_def)
    then have "s' = ((if dirty d then push_dirty E d else d)\<lparr>update_th := T_wait\<rparr>, {}, {})"
      using st T_update by (cases "dirty d") (auto simp: s lcd_run_def lcd_step_def task_do_update_def owing_def)
    then show ?thesis using ok push by (simp add: async_inv_def lcd_started_def)
  qed (use ok in \<open>simp_all add: lcd_started_def\<close>)
qed



text \<open>Left alone, the thread ends up at the semaphore with no token.\<close>

fun tpc_rank :: "tpc \<Rightarrow> nat" where
  "tpc_rank T_test = 2" | "tpc_rank T_update = 1" | "tpc_rank T_start = 1" | "tpc_rank _ = 0"

definition thread_rank :: "('r, 'k) lcd \<times> pixels \<times> pixels \<Rightarrow> nat" where
  "thread_rank s = 3 * sem_update (fst s) + tpc_rank (update_th (fst s))"

definition thread_idle :: "('r, 'k) lcd \<times> pixels \<times> pixels \<Rightarrow> bool" where
  "thread_idle s \<longleftrightarrow> update_th (fst s) = T_wait \<and> sem_update (fst s) = 0"

definition thread_step :: "('r, 'k) lcdenv \<Rightarrow> ('r \<Rightarrow> pixels) \<Rightarrow> ('r, 'k) lcd \<times> pixels \<times> pixels \<Rightarrow>
    ('r, 'k) lcd \<times> pixels \<times> pixels \<Rightarrow> bool" where
  "thread_step E P s s' \<longleftrightarrow> lcd_run E P L_thread s = Some s'"

definition good_lcd :: "('r, 'k) lcdenv \<Rightarrow> ('r \<Rightarrow> bool) \<Rightarrow> ('r \<Rightarrow> pixels) \<Rightarrow> ('r, 'k) lcd \<times> pixels \<times> pixels \<Rightarrow> bool" where
  "good_lcd E N P s \<longleftrightarrow> rects_ok (rops E) N P \<and> cancel_enabled E \<and> async_inv (rops E) N P s"

interpretation lcd: terminating_system "good_lcd E N P" "thread_step E P" "good_lcd E N P" thread_idle thread_rank for E N P
proof
  fix s t
  assume g: "good_lcd E N P s" and st: "thread_step E P s t"
  show "good_lcd E N P t" using g st thread_inv unfolding good_lcd_def thread_step_def by blast
  obtain d g where s: "s = (d, g)" by (cases s)
  have "lcd_started d" using g by (auto simp: good_lcd_def async_inv_def s)
  then show "thread_rank t < thread_rank s"
    using st by (auto simp: thread_step_def s lcd_run_def lcd_step_def task_do_update_def thread_rank_def lcd_started_def
        split: if_splits prod.splits)
next
  fix s
  assume g: "good_lcd E N P s" and n: "\<not> thread_idle s"
  obtain d g where s: "s = (d, g)" by (cases s)
  have "lcd_started d" using g by (auto simp: good_lcd_def async_inv_def s)
  then show "\<exists>t. thread_step E P s t"
    using n by (auto simp: thread_step_def s lcd_run_def lcd_step_def task_do_update_def thread_idle_def lcd_started_def
        split: prod.splits)
qed



section \<open>A concrete device\<close>

text \<open>Rectangles as four numbers on a screen of 640 by 480, and an LCD that records its updates.\<close>

type_synonym drect = "int \<times> int \<times> int \<times> int"

fun drect_N :: "drect \<Rightarrow> bool" where "drect_N (l, t, r, b) = (l \<le> r \<and> t \<le> b)"

fun drect_P :: "drect \<Rightarrow> pixels" where "drect_P (l, t, r, b) = {l..<r} \<times> {t..<b}"

fun drect_empty :: "drect \<Rightarrow> bool" where "drect_empty (l, t, r, b) = (r \<le> l \<or> b \<le> t)"

fun drect_bound :: "drect \<Rightarrow> drect \<Rightarrow> drect" where
  "drect_bound (l, t, r, b) (l', t', r', b') = (min l l', min t t', max r r', max b b')"

fun drect_inter :: "drect \<Rightarrow> drect \<Rightarrow> bool \<times> drect" where
  "drect_inter (l, t, r, b) (l', t', r', b') =
     (let c = (max l l', max t t', min r r', min b b') in (\<not> drect_empty c, c))"

definition drects :: "drect rectops" where
  "drects = \<lparr>mk_rect = (\<lambda>l t r b. (l, t, r, b)), is_rect_empty = drect_empty, get_bound = drect_bound,
     intersect = drect_inter, screen_rect = (0, 0, 640, 480)\<rparr>"

lemma drect_simps:
  "mk_rect drects = (\<lambda>l t r b. (l, t, r, b))" "is_rect_empty drects = drect_empty" "get_bound drects = drect_bound"
  "intersect drects = drect_inter" "screen_rect drects = (0, 0, 640, 480)"
  by (simp_all add: drects_def)

lemma drect_inter_P: "drect_P a \<inter> drect_P b = drect_P (snd (drect_inter a b))"
  by (cases a; cases b) (auto simp: Let_def)

lemma drect_P_empty: "drect_P a = {} \<longleftrightarrow> drect_empty a"
  by (cases a) (auto simp: not_le[symmetric])

lemma drects_ok: "rects_ok drects drect_N drect_P"
proof -
  have "drect_N a \<Longrightarrow> drect_N b \<Longrightarrow> drect_N (drect_bound a b) \<and> drect_P a \<union> drect_P b \<subseteq> drect_P (drect_bound a b)" for a b
    by (cases a; cases b) auto
  moreover have "fst (drect_inter a b) = (\<not> drect_empty (snd (drect_inter a b)))" for a b
    by (cases a; cases b) (simp add: Let_def)
  moreover have "\<not> drect_empty a \<Longrightarrow> drect_N a" for a by (cases a) auto
  ultimately show ?thesis by (simp add: rects_ok_def drect_simps drect_inter_P drect_P_empty)
qed

definition demo_lcdenv :: "(drect, drect list) lcdenv" where
  "demo_lcdenv = \<lparr>rops = drects, ops_init = (\<lambda>k. (0, k)),
     ops_getinfo = (\<lambda>w h bpp k. (0, \<lparr>li_width = w, li_height = h, li_pitch = 4 * w, li_bpp = bpp,
       li_type = COMMLCD_TRUE_RGB888, li_update_method = COMMLCD_UPDATE_ASYNC, li_fb = 4096\<rparr>, k)),
     ops_release = None, ops_setclut = None, ops_update = (\<lambda>r k. k @ [r]), lcd_malloc = (\<lambda>k. (True, k)),
     realloc_format = (\<lambda>b r g bl a k. (True, k)), setcancelstate = (\<lambda>k. (0, k))\<rparr>"

definition demo_lcd :: "update_method \<Rightarrow> (drect, drect list) lcd" where
  "demo_lcd m = install_update m (the (fst (COMMLCD_CreateDevice demo_lcdenv [])))"

lemma demo_lcd_simps:
  "rc_dirty (demo_lcd m) = (0, 0, 0, 0)" "dirty (demo_lcd m) = False" "lcd_k (demo_lcd m) = []"
  "sem_update (demo_lcd m) = 0" "rops demo_lcdenv = drects"
  "UpdateRects (demo_lcd COMMLCD_UPDATE_OTHER) = Some M_Sync" "SyncUpdate (demo_lcd COMMLCD_UPDATE_OTHER) = Some M_Sync"
  "lcd_started (demo_lcd COMMLCD_UPDATE_ASYNC)" "cancel_enabled demo_lcdenv"
  by (simp_all add: demo_lcd_def COMMLCD_CreateDevice_def demo_lcdenv_def install_update_def drect_simps lcd_started_def
      cancel_enabled_def split: update_method.splits)

lemma demo_lcd_ok: "lcd_ok drects drect_N drect_P (demo_lcd m)"
  by (simp add: lcd_ok_def demo_lcd_simps)

abbreviation demo_rect :: "int \<Rightarrow> int \<Rightarrow> gal_rect" where
  "demo_rect x y \<equiv> \<lparr>g_x = x, g_y = y, g_w = 20, g_h = 10\<rparr>"

theorem lcd_sync_pushes_damage_witness:
  "\<exists>d' r. sync_update demo_lcdenv (fold (update_rects demo_lcdenv) [[demo_rect 5 5], [demo_rect 630 470]] (demo_lcd COMMLCD_UPDATE_OTHER)) =
     (True, d') \<and> lcd_k d' = [r] \<and> (6, 6) \<in> drect_P r \<and> (639, 479) \<in> drect_P r"
proof -
  let ?calls = "[[demo_rect 5 5], [demo_rect 630 470]]"
  have "\<forall>rects \<in> set ?calls. \<forall>g \<in> set rects. rect_wf g" by (simp add: rect_wf_def)
  note st = lcd_sync_pushes_damage [where E = demo_lcdenv and N = drect_N and P = drect_P and d = "demo_lcd COMMLCD_UPDATE_OTHER",
      OF _ _ _ _ _ this, unfolded demo_lcd_simps, OF drects_ok demo_lcd_ok refl refl refl]
  from st obtain res d' where
    r: "sync_update demo_lcdenv (fold (update_rects demo_lcdenv) ?calls (demo_lcd COMMLCD_UPDATE_OTHER)) = (res, d')"
    "if res then \<exists>r. lcd_k d' = ops_update demo_lcdenv r [] \<and> \<Union>(damage drects drect_P ` set ?calls) \<subseteq> drect_P r \<and>
        drect_P r \<subseteq> drect_P (screen_rect drects)
     else lcd_k d' = [] \<and> \<Union>(damage drects drect_P ` set ?calls) = {}"
    by (elim exE conjE) blast
  have px: "(6, 6) \<in> \<Union>(damage drects drect_P ` set ?calls)" "(639, 479) \<in> \<Union>(damage drects drect_P ` set ?calls)"
    by (simp_all add: damage_def rect_pixels_def drect_simps)
  with r(2) have "res" by (cases res) auto
  moreover have "ops_update demo_lcdenv x [] = [x]" for x by (simp add: demo_lcdenv_def)
  ultimately obtain x where "lcd_k d' = [x]" "\<Union>(damage drects drect_P ` set ?calls) \<subseteq> drect_P x" using r(2) by auto
  with px have "lcd_k d' = [x] \<and> (6, 6) \<in> drect_P x \<and> (639, 479) \<in> drect_P x" by blast
  moreover have "res = True" using \<open>res\<close> by simp
  ultimately show ?thesis using r(1) by blast
qed


end
