(* ===== verification/UnixSock.thy ===== *)
theory UnixSock
  imports CStrings
begin

text \<open>
  The Unix-domain socket samples of lecture 4 (unix-domain-socket-server-listen.c, -server-accept.c,
  -client-connect.c, -client-check.c): a server listens on a name, a client binds a name that holds
  its process id and connects, and the server finds out who called from that name. The system calls
  they use are modelled on a world of files, descriptors and pending connections; a script of faults
  says which calls fail.
\<close>

section \<open>Files, sockets and system calls\<close>

record ufile =
  f_sock :: bool
  f_mode :: uint
  f_uid :: nat
  f_atime :: int
  f_mtime :: int
  f_ctime :: int

text \<open>A descriptor knows the name it is bound to; the pending connections of a listening socket are
  kept under its name, each with the name of its client (empty when it is not bound).\<close>

record uworld =
  files :: "string \<Rightarrow> ufile option"
  fds :: "nat \<Rightarrow> nat \<Rightarrow> string option option"
  next_fd :: nat
  backlog :: "string \<Rightarrow> string list option"
  now :: int
  uid_of :: "nat \<Rightarrow> nat"
  umask :: uint
  faults :: "bool list"

definition SUN_PATH_MAX :: nat where "SUN_PATH_MAX = 108"
definition S_IRWXU :: uint where "S_IRWXU = 448"
definition S_IRWXG :: uint where "S_IRWXG = 56"
definition S_IRWXO :: uint where "S_IRWXO = 7"

text \<open>Whether the next call fails.\<close>

definition next_fault :: "uworld \<Rightarrow> bool \<times> uworld" where
  "next_fault w = (case faults w of [] \<Rightarrow> (False, w) | b # bs \<Rightarrow> (b, w\<lparr>faults := bs\<rparr>))"

definition set_fd :: "nat \<Rightarrow> nat \<Rightarrow> string option option \<Rightarrow> uworld \<Rightarrow> uworld" where
  "set_fd p fd s w = w\<lparr>fds := (fds w)(p := (fds w p)(fd := s))\<rparr>"

definition sys_socket :: "nat \<Rightarrow> uworld \<Rightarrow> int \<times> uworld" where
  "sys_socket p w0 =
     (case next_fault w0 of (bad, w) \<Rightarrow>
        if bad then (-1, w)
        else (int (next_fd w), set_fd p (next_fd w) (Some None) (w\<lparr>next_fd := next_fd w + 1\<rparr>)))"

definition sys_close :: "nat \<Rightarrow> int \<Rightarrow> uworld \<Rightarrow> uworld" where
  "sys_close p fd w = set_fd p (nat fd) None w"

definition sys_unlink :: "string \<Rightarrow> uworld \<Rightarrow> uworld" where
  "sys_unlink path w0 = (case next_fault w0 of (bad, w) \<Rightarrow> if bad then w else w\<lparr>files := (files w)(path := None)\<rparr>)"

definition sys_bind :: "nat \<Rightarrow> int \<Rightarrow> string \<Rightarrow> uworld \<Rightarrow> int \<times> uworld" where
  "sys_bind p fd path w0 =
     (case next_fault w0 of (bad, w) \<Rightarrow>
        if bad \<or> files w path \<noteq> None \<or> fds w p (nat fd) \<noteq> Some None then (-1, w)
        else (0, set_fd p (nat fd) (Some (Some path)) (w\<lparr>files := (files w)(path \<mapsto>
          \<lparr>f_sock = True, f_mode = 511 AND NOT (umask w), f_uid = uid_of w p, f_atime = now w, f_mtime = now w, f_ctime = now w\<rparr>)\<rparr>)))"

definition sys_chmod :: "nat \<Rightarrow> string \<Rightarrow> uint \<Rightarrow> uworld \<Rightarrow> int \<times> uworld" where
  "sys_chmod p path mode w0 =
     (case next_fault w0 of (bad, w) \<Rightarrow>
        case files w path of
          None \<Rightarrow> (-1, w)
        | Some f \<Rightarrow>
            if bad \<or> f_uid f \<noteq> uid_of w p then (-1, w)
            else (0, w\<lparr>files := (files w)(path \<mapsto> f\<lparr>f_mode := mode, f_ctime := now w\<rparr>)\<rparr>))"

definition sys_listen :: "nat \<Rightarrow> int \<Rightarrow> uworld \<Rightarrow> int \<times> uworld" where
  "sys_listen p fd w0 =
     (case next_fault w0 of (bad, w) \<Rightarrow>
        case fds w p (nat fd) of
          Some (Some path) \<Rightarrow> if bad then (-1, w) else (0, w\<lparr>backlog := (backlog w)(path \<mapsto> [])\<rparr>)
        | _ \<Rightarrow> (-1, w))"

definition sys_connect :: "nat \<Rightarrow> int \<Rightarrow> string \<Rightarrow> uworld \<Rightarrow> int \<times> uworld" where
  "sys_connect p fd path w0 =
     (case next_fault w0 of (bad, w) \<Rightarrow>
        case (fds w p (nat fd), files w path, backlog w path) of
          (Some me, Some f, Some q) \<Rightarrow>
            if bad then (-1, w)
            else (0, w\<lparr>backlog := (backlog w)(path \<mapsto> q @ [case me of None \<Rightarrow> [] | Some n \<Rightarrow> n])\<rparr>)
        | _ \<Rightarrow> (-1, w))"

text \<open>A wait that never ends is a call that is interrupted.\<close>

definition sys_accept :: "nat \<Rightarrow> int \<Rightarrow> uworld \<Rightarrow> int \<times> string \<times> uworld" where
  "sys_accept p fd w0 =
     (case next_fault w0 of (bad, w) \<Rightarrow>
        case fds w p (nat fd) of
          Some (Some path) \<Rightarrow>
            (case backlog w path of
               Some (c # cs) \<Rightarrow>
                 if bad then (-1, [], w)
                 else (int (next_fd w), c, set_fd p (next_fd w) (Some None)
                   (w\<lparr>backlog := (backlog w)(path \<mapsto> cs), next_fd := next_fd w + 1\<rparr>))
             | _ \<Rightarrow> (-1, [], w))
        | _ \<Rightarrow> (-1, [], w))"

definition sys_stat :: "string \<Rightarrow> uworld \<Rightarrow> ufile option \<times> uworld" where
  "sys_stat path w0 = (case next_fault w0 of (bad, w) \<Rightarrow> (if bad then None else files w path, w))"

definition sys_access :: "string \<Rightarrow> uworld \<Rightarrow> bool \<times> uworld" where
  "sys_access path w0 = (case next_fault w0 of (bad, w) \<Rightarrow> (\<not> bad \<and> files w path \<noteq> None, w))"

section \<open>Strings\<close>

text \<open>\<open>strrchr (s, '/')\<close> and the step over it: what follows the last slash, if there is one.\<close>

definition after_slash :: "string \<Rightarrow> string option" where
  "after_slash s = (if CHR ''/'' \<in> set s then Some (rev (takeWhile (\<lambda>c. c \<noteq> CHR ''/'') (rev s))) else None)"

section \<open>The programs\<close>

text \<open>\<open>None\<close>: the name does not fit into the address and \<open>strcpy\<close> writes behind it.\<close>

definition fits :: "string \<Rightarrow> bool" where "fits name \<longleftrightarrow> length name < SUN_PATH_MAX"

definition serv_listen :: "nat \<Rightarrow> string \<Rightarrow> uworld \<Rightarrow> (int \<times> uworld) option" where
  "serv_listen p name w =
     (case sys_socket p w of (fd, w1) \<Rightarrow>
        if fd < 0 then Some (-1, w1)
        else let w2 = sys_unlink name w1 in
        if \<not> fits name then None
        else case sys_bind p fd name w2 of (r, w3) \<Rightarrow>
          if r < 0 then Some (-1, sys_close p fd w3)
          else case sys_chmod p name 438 w3 of (r, w4) \<Rightarrow>
            if r < 0 then Some (-1, sys_close p fd w4)
            else case sys_listen p fd w4 of (r, w5) \<Rightarrow>
              if r < 0 then Some (-1, sys_close p fd w5) else Some (fd, w5))"

definition CLI_PATH :: string where "CLI_PATH = ''/var/tmp/''"

definition cli_path :: "nat \<Rightarrow> char \<Rightarrow> string" where
  "cli_path pid project = CLI_PATH @ fmt05 pid @ [CHR ''-'', project]"

definition cli_conn :: "nat \<Rightarrow> string \<Rightarrow> char \<Rightarrow> uworld \<Rightarrow> (int \<times> uworld) option" where
  "cli_conn p name project w =
     (case sys_socket p w of (fd, w1) \<Rightarrow>
        if fd < 0 then Some (-1, w1)
        else let path = cli_path p project; w2 = sys_unlink path w1 in
        if \<not> fits path then None
        else case sys_bind p fd path w2 of (r, w3) \<Rightarrow>
          if r < 0 then Some (-1, sys_close p fd w3)
          else case sys_chmod p path S_IRWXU w3 of (r, w4) \<Rightarrow>
            if r < 0 then Some (-1, sys_close p fd w4)
            else if \<not> fits name then None
            else case sys_connect p fd name w4 of (r, w5) \<Rightarrow>
              if r < 0 then Some (-1, sys_close p fd w5) else Some (fd, w5))"

definition STALE :: int where "STALE = 30"

text \<open>The descriptor or the error, and on success the process and the user of the caller.\<close>

definition serv_accept :: "nat \<Rightarrow> int \<Rightarrow> uworld \<Rightarrow> (int \<times> (int \<times> nat) option \<times> uworld) option" where
  "serv_accept p listenfd w =
     (case sys_accept p listenfd w of (clifd, path, w1) \<Rightarrow>
        if clifd < 0 then Some (-1, None, w1)
        else case sys_stat path w1 of (st, w2) \<Rightarrow>
          case st of
            None \<Rightarrow> Some (-2, None, w2)
          | Some f \<Rightarrow>
              if \<not> f_sock f then Some (-3, None, w2)
              else if f_mode f AND (S_IRWXG OR S_IRWXO) \<noteq> 0 \<or> f_mode f AND S_IRWXU \<noteq> S_IRWXU then Some (-4, None, w2)
              else if f_atime f < now w2 - STALE \<or> f_ctime f < now w2 - STALE \<or> f_mtime f < now w2 - STALE
                then Some (-5, None, w2)
              else case after_slash path of
                  None \<Rightarrow> None
                | Some s \<Rightarrow> Some (clifd, Some (atoi s, f_uid f), sys_unlink path w2))"

definition client_check_unix_socket :: "nat \<Rightarrow> string \<Rightarrow> uworld \<Rightarrow> (int \<times> uworld) option" where
  "client_check_unix_socket p path w =
     (case sys_access path w of (ok, w1) \<Rightarrow>
        if \<not> ok then Some (-1, w1)
        else case sys_socket p w1 of (fd, w2) \<Rightarrow>
          if fd < 0 then Some (-1, w2)
          else if \<not> fits path then None
          else case sys_connect p fd path w2 of (r, w3) \<Rightarrow> Some (if r = 0 then 0 else -1, sys_close p fd w3))"

end
