(* ===== verification/SockProps.thy ===== *)
theory SockProps
  imports UnixSock
begin

text \<open>
  What the socket samples guarantee: the server learns the process and the user of a client from the
  name the client bound, and failing calls leave no descriptor behind, except in \<open>serv_accept\<close>.
\<close>

section \<open>Printing and reading a process id\<close>

lemma fmt05_digit: "c \<in> set (fmt05 n) \<Longrightarrow> is_digit c"
  using dec_digits_digit by (auto simp: fmt05_def is_digit_def)

lemma fmt05_not_Nil: "fmt05 n \<noteq> []"
  by (simp add: fmt05_def) (subst dec_digits.simps, simp)

lemma atoi_fmt05:
  assumes "\<not> is_digit d"
  shows "atoi (fmt05 n @ d # rest) = int n"
proof -
  obtain c cs where f: "fmt05 n = c # cs" using fmt05_not_Nil by (cases "fmt05 n") auto
  then have d: "is_digit c" using fmt05_digit [of c n] by simp
  then have c: "\<not> is_space c" "c \<noteq> CHR ''-''" "c \<noteq> CHR ''+''" by (auto simp: is_digit_def is_space_def)
  have "takeWhile is_digit (fmt05 n @ d # rest) = fmt05 n"
    using fmt05_digit assms by (simp add: takeWhile_append2)
  then have "atoi (fmt05 n @ d # rest) = digits_val (fmt05 n)" using c f by (simp add: atoi_def d)
  also have "\<dots> = int n" by (simp add: fmt05_def digits_val_zeros digits_val_dec)
  finally show ?thesis .
qed

lemma digit_not_slash: "is_digit c \<Longrightarrow> c \<noteq> CHR ''/''"
  by (auto simp: is_digit_def)

lemma after_slash_cli_path:
  assumes "project \<noteq> CHR ''/''"
  shows "after_slash (cli_path pid project) = Some (fmt05 pid @ [CHR ''-'', project])"
proof -
  let ?t = "fmt05 pid @ [CHR ''-'', project]" and ?P = "\<lambda>c. c \<noteq> CHR ''/''"
  have "\<forall>c \<in> set (rev ?t). ?P c" using assms fmt05_digit digit_not_slash by auto
  then have "takeWhile ?P (rev ?t @ rev CLI_PATH) = rev ?t @ takeWhile ?P (rev CLI_PATH)"
    by (intro takeWhile_append2) blast
  also have "takeWhile ?P (rev CLI_PATH) = []" by (simp add: CLI_PATH_def)
  finally have "takeWhile ?P (rev (cli_path pid project)) = rev ?t" by (simp add: cli_path_def)
  moreover have "CHR ''/'' \<in> set (cli_path pid project)" by (simp add: cli_path_def CLI_PATH_def)
  ultimately show ?thesis by (simp only: after_slash_def if_True rev_rev_ident)
qed

lemma fits_cli_path:
  assumes "pid < 2 ^ 31"
  shows "fits (cli_path pid project)"
proof -
  have "length (dec_digits pid) \<le> 10" by (rule length_dec_digits) (use assms in simp_all)
  then show ?thesis by (simp add: fits_def SUN_PATH_MAX_def cli_path_def CLI_PATH_def fmt05_def)
qed

section \<open>The handshake\<close>

lemmas sys_defs = sys_socket_def sys_unlink_def sys_bind_def sys_chmod_def sys_listen_def sys_connect_def sys_accept_def
  sys_stat_def next_fault_def set_fd_def

lemma serv_listen_ok:
  assumes "faults w = []" "fits name"
  shows "\<exists>w'. serv_listen s name w = Some (int (next_fd w), w') \<and> faults w' = [] \<and> next_fd w' = next_fd w + 1 \<and>
    fds w' s (next_fd w) = Some (Some name) \<and> files w' name \<noteq> None \<and> backlog w' name = Some [] \<and>
    uid_of w' = uid_of w \<and> now w' = now w"
  using assms by (simp add: serv_listen_def sys_defs Let_def)

lemma cli_conn_ok:
  assumes "faults w = []" "fits name" "fits (cli_path c proj)" "name \<noteq> cli_path c proj"
    "files w name \<noteq> None" "backlog w name = Some q" "fds w s lfd = Some (Some name)" "lfd < next_fd w"
  shows "\<exists>w'. cli_conn c name proj w = Some (int (next_fd w), w') \<and> faults w' = [] \<and> next_fd w' = next_fd w + 1 \<and>
    fds w' s lfd = Some (Some name) \<and> backlog w' name = Some (q @ [cli_path c proj]) \<and> uid_of w' = uid_of w \<and> now w' = now w \<and>
    files w' (cli_path c proj) = Some \<lparr>f_sock = True, f_mode = S_IRWXU, f_uid = uid_of w c, f_atime = now w, f_mtime = now w, f_ctime = now w\<rparr>"
  using assms by (auto simp: cli_conn_def sys_defs Let_def)

text \<open>C28. The handshake. When no call fails, a client that connects to a name on which a server listens is
  accepted within 30 seconds: \<open>serv_accept\<close> returns a descriptor together with the process id, read back from
  the name the client bound, and the user of the client, and removes that name.\<close>

theorem socket_handshake:
  assumes w: "faults w = []" "fits name" "name \<noteq> cli_path c proj" and c: "c < 2 ^ 31" "proj \<noteq> CHR ''/''"
    and t: "0 \<le> dt" "dt \<le> STALE"
  shows "\<exists>lfd w1 cfd w2 fd w3. serv_listen s name w = Some (lfd, w1) \<and> cli_conn c name proj w1 = Some (cfd, w2) \<and>
    serv_accept s lfd (w2\<lparr>now := now w2 + dt\<rparr>) = Some (fd, Some (int c, uid_of w c), w3) \<and>
    0 \<le> lfd \<and> 0 \<le> cfd \<and> 0 \<le> fd \<and> fds w3 s (nat fd) = Some None \<and> files w3 (cli_path c proj) = None"
proof -
  from serv_listen_ok [OF w(1,2), of s] obtain w1 where w1: "serv_listen s name w = Some (int (next_fd w), w1)"
    "faults w1 = []" "next_fd w1 = next_fd w + 1" "fds w1 s (next_fd w) = Some (Some name)" "files w1 name \<noteq> None"
    "backlog w1 name = Some []" "uid_of w1 = uid_of w" "now w1 = now w" by blast
  have "next_fd w < next_fd w1" using w1(3) by simp
  from cli_conn_ok [OF w1(2) w(2) fits_cli_path [OF c(1)] w(3) w1(5,6,4) this] obtain w2 where
    w2: "cli_conn c name proj w1 = Some (int (next_fd w1), w2)" "faults w2 = []" "next_fd w2 = next_fd w1 + 1"
      "fds w2 s (next_fd w) = Some (Some name)" "backlog w2 name = Some [cli_path c proj]" "uid_of w2 = uid_of w1" "now w2 = now w1"
      "files w2 (cli_path c proj) = Some \<lparr>f_sock = True, f_mode = S_IRWXU, f_uid = uid_of w1 c, f_atime = now w1,
        f_mtime = now w1, f_ctime = now w1\<rparr>" by auto
  have "atoi (fmt05 c @ [CHR ''-'', proj]) = int c" by (rule atoi_fmt05) (simp add: is_digit_def)
  moreover have "S_IRWXU AND (S_IRWXG OR S_IRWXO) = 0" by (simp add: S_IRWXU_def S_IRWXG_def S_IRWXO_def)
  ultimately have "\<exists>w3. serv_accept s (int (next_fd w)) (w2\<lparr>now := now w2 + dt\<rparr>) =
      Some (int (next_fd w2), Some (int c, uid_of w c), w3) \<and> fds w3 s (next_fd w2) = Some None \<and>
      files w3 (cli_path c proj) = None"
    using w1(7,8) w2 t by (simp add: serv_accept_def sys_defs after_slash_cli_path [OF c(2)])
  then show ?thesis using w1(1) w2(1) by (metis nat_int of_nat_0_le_iff)
qed

section \<open>Errors\<close>

text \<open>What each call does to the descriptors.\<close>

definition upd_fd :: "nat \<Rightarrow> nat \<Rightarrow> string option option \<Rightarrow> (nat \<Rightarrow> nat \<Rightarrow> string option option) \<Rightarrow>
    nat \<Rightarrow> nat \<Rightarrow> string option option" where
  "upd_fd p fd s t = t(p := (t p)(fd := s))"

lemma upd_fd_simps [simp]: "upd_fd p fd s t p fd = s" "upd_fd p fd s (upd_fd p fd s' t) = upd_fd p fd s t"
  by (simp_all add: upd_fd_def)

lemma upd_fd_fresh: "t p fd = None \<Longrightarrow> upd_fd p fd None t = t"
  by (simp add: upd_fd_def fun_upd_idem)

lemma calls_fds [simp]:
  "fds (sys_unlink path w) = fds w" "fds (snd (sys_chmod p path m w)) = fds w" "fds (snd (sys_listen p fd w)) = fds w"
  "fds (snd (sys_connect p fd path w)) = fds w" "fds (snd (sys_stat path w)) = fds w" "fds (snd (sys_access path w)) = fds w"
  "fds (sys_close p fd w) = upd_fd p (nat fd) None (fds w)" "next_fd (snd (sys_access path w)) = next_fd w"
  by (simp_all add: sys_defs sys_access_def sys_close_def upd_fd_def split: option.splits list.splits prod.splits)

lemma sys_socket_fds: "fst (sys_socket p w) = -1 \<and> fds (snd (sys_socket p w)) = fds w \<or>
    fst (sys_socket p w) = int (next_fd w) \<and> fds (snd (sys_socket p w)) = upd_fd p (next_fd w) (Some None) (fds w)"
  by (simp add: sys_defs upd_fd_def split: list.splits)

lemma sys_bind_fds: "fst (sys_bind p fd path w) = -1 \<and> fds (snd (sys_bind p fd path w)) = fds w \<or>
    fst (sys_bind p fd path w) = 0 \<and> fds (snd (sys_bind p fd path w)) = upd_fd p (nat fd) (Some (Some path)) (fds w)"
  by (auto simp: sys_defs upd_fd_def split: list.splits)

lemma sys_accept_fds: "fst (sys_accept p fd w) = -1 \<and> fds (snd (snd (sys_accept p fd w))) = fds w \<or>
    fst (sys_accept p fd w) = int (next_fd w) \<and> fds (snd (snd (sys_accept p fd w))) = upd_fd p (next_fd w) (Some None) (fds w)"
  by (auto simp: sys_defs upd_fd_def split: list.splits option.splits)

lemma serv_listen_fds:
  assumes "fds w p (next_fd w) = None" "serv_listen p name w = Some (r, w')"
  shows "r = -1 \<and> fds w' = fds w \<or> r = int (next_fd w) \<and> fds w' = upd_fd p (next_fd w) (Some (Some name)) (fds w)"
  using assms sys_socket_fds [of p w] sys_bind_fds [of p "int (next_fd w)" name "sys_unlink name (snd (sys_socket p w))"]
  by (auto simp: serv_listen_def case_prod_beta' Let_def upd_fd_fresh split: if_splits)

lemma cli_conn_fds:
  assumes "fds w p (next_fd w) = None" "cli_conn p name proj w = Some (r, w')"
  shows "r = -1 \<and> fds w' = fds w \<or> r = int (next_fd w) \<and> fds w' = upd_fd p (next_fd w) (Some (Some (cli_path p proj))) (fds w)"
  using assms sys_socket_fds [of p w]
    sys_bind_fds [of p "int (next_fd w)" "cli_path p proj" "sys_unlink (cli_path p proj) (snd (sys_socket p w))"]
  by (auto simp: cli_conn_def case_prod_beta' Let_def upd_fd_fresh split: if_splits)

lemma client_check_fds:
  assumes "fds w p (next_fd w) = None" "client_check_unix_socket p path w = Some (r, w')"
  shows "(r = 0 \<or> r = -1) \<and> fds w' = fds w"
  using assms sys_socket_fds [of p "snd (sys_access path w)"]
  by (auto simp: client_check_unix_socket_def case_prod_beta' upd_fd_fresh split: if_splits)

lemma serv_accept_fds:
  assumes "serv_accept p lfd w = Some (r, who, w')"
  shows "r = -1 \<and> who = None \<and> fds w' = fds w \<or>
    (r \<in> {-2, -3, -4, -5} \<and> who = None \<or> r = int (next_fd w) \<and> who \<noteq> None) \<and> fds w' = upd_fd p (next_fd w) (Some None) (fds w)"
  using assms sys_accept_fds [of p lfd w]
  by (auto simp: serv_accept_def case_prod_beta' split: if_splits option.splits)

text \<open>Descriptors on errors. Whatever calls fail, \<open>serv_listen\<close> and \<open>cli_conn\<close> that report an error, and
  \<open>client_check_unix_socket\<close> in any case, leave the descriptors of all processes as they were; otherwise one
  new descriptor is open, bound to the name. But when \<open>serv_accept\<close> refuses a client it has accepted (results
  -2 to -5) the new descriptor stays open as if it had returned it.\<close>

theorem socket_error_descriptors:
  assumes fresh: "\<And>p. fds w p (next_fd w) = None"
  shows "(serv_listen p name w = Some (r1, w1) \<longrightarrow>
      r1 = -1 \<and> fds w1 = fds w \<or> r1 = int (next_fd w) \<and> fds w1 = upd_fd p (next_fd w) (Some (Some name)) (fds w)) \<and>
    (cli_conn p name proj w = Some (r2, w2) \<longrightarrow>
      r2 = -1 \<and> fds w2 = fds w \<or> r2 = int (next_fd w) \<and> fds w2 = upd_fd p (next_fd w) (Some (Some (cli_path p proj))) (fds w)) \<and>
    (client_check_unix_socket p name w = Some (r3, w3) \<longrightarrow> (r3 = 0 \<or> r3 = -1) \<and> fds w3 = fds w) \<and>
    (serv_accept p lfd w = Some (r4, who, w4) \<longrightarrow>
      r4 = -1 \<and> who = None \<and> fds w4 = fds w \<or>
      (r4 \<in> {-2, -3, -4, -5} \<and> who = None \<or> r4 = int (next_fd w) \<and> who \<noteq> None) \<and>
        fds w4 = upd_fd p (next_fd w) (Some None) (fds w))"
  using serv_listen_fds [OF fresh] cli_conn_fds [OF fresh] client_check_fds [OF fresh] serv_accept_fds by blast

section \<open>A concrete world\<close>

definition empty_uworld :: uworld where
  "empty_uworld = \<lparr>files = (\<lambda>n. None), fds = (\<lambda>p fd. None), next_fd = 3, backlog = (\<lambda>n. None), now = 1000,
     uid_of = (\<lambda>p. if p = 42 then 1001 else 0), umask = 18, faults = []\<rparr>"

theorem socket_handshake_witness:
  "\<exists>lfd w1 cfd w2 fd w3. serv_listen 7 ''/tmp/srv'' empty_uworld = Some (lfd, w1) \<and>
    cli_conn 42 ''/tmp/srv'' (CHR ''a'') w1 = Some (cfd, w2) \<and>
    serv_accept 7 lfd (w2\<lparr>now := now w2 + 5\<rparr>) = Some (fd, Some (42, 1001), w3)"
proof -
  have "''/tmp/srv'' \<noteq> cli_path 42 (CHR ''a'')" by (simp add: cli_path_def CLI_PATH_def)
  from socket_handshake [of empty_uworld _ 42 "CHR ''a''" 5 7, OF _ _ this]
  show ?thesis by (auto simp: empty_uworld_def fits_def SUN_PATH_MAX_def STALE_def)
qed

text \<open>A server that accepts a client whose name is gone, or cannot be read, keeps the descriptor.\<close>

theorem socket_error_descriptors_witness:
  "\<exists>w w4. serv_accept 7 3 w = Some (-2, None, w4) \<and> fds w4 = upd_fd 7 4 (Some None) (fds w)"
proof -
  let ?w = "empty_uworld\<lparr>fds := (\<lambda>p fd. if p = 7 \<and> fd = 3 then Some (Some ''/tmp/srv'') else None), next_fd := 4,
    backlog := (\<lambda>n. if n = ''/tmp/srv'' then Some [''/var/tmp/00042-a''] else None)\<rparr>"
  have "\<exists>w4. serv_accept 7 3 ?w = Some (-2, None, w4)"
    by (simp add: serv_accept_def sys_accept_def sys_stat_def next_fault_def set_fd_def empty_uworld_def)
  then obtain w4 where r: "serv_accept 7 3 ?w = Some (-2, None, w4)" ..
  have "\<And>p. fds ?w p (next_fd ?w) = None" by simp
  note socket_error_descriptors [of ?w, OF this, THEN conjunct2, THEN conjunct2, THEN conjunct2, rule_format, OF r]
  then have "fds w4 = upd_fd 7 4 (Some None) (fds ?w)" by simp
  with r show ?thesis by blast
qed

end
