(* ===== verification/Signals.thy ===== *)
theory Signals
  imports Prelude
begin

text \<open>
  The implementations of \<open>system\<close>, \<open>sleep\<close> and the signal sets of lecture 3 (system.c, sleep.c,
  sigset.c): what they do to the signal dispositions, the signal mask, the alarm and the children of
  the calling process. Scripts say which calls fail, what \<open>waitpid\<close> returns and which signal ends
  \<open>sigsuspend\<close>.
\<close>

section \<open>The signal state of a process\<close>

datatype disposition = SIG_DFL | SIG_IGN | Handler procptr

datatype wait_result = W_exited int | W_EINTR | W_error

text \<open>A signal that is delivered to the process after some seconds.\<close>

record delivery =
  d_signo :: nat
  d_after :: nat

record sigworld =
  disp :: "nat \<Rightarrow> disposition"
  blocked :: "nat \<Rightarrow> bool"
  alarm_left :: nat
  sig_faults :: "bool list"
  waits :: "wait_result list"
  deliveries :: "delivery list"
  execs :: "((nat \<Rightarrow> disposition) \<times> (nat \<Rightarrow> bool) \<times> string) list"

definition SIGINT :: nat where "SIGINT = 2"
definition SIGQUIT :: nat where "SIGQUIT = 3"
definition SIGALRM :: nat where "SIGALRM = 14"
definition SIGCHLD :: nat where "SIGCHLD = 17"

definition sig_fault :: "sigworld \<Rightarrow> bool \<times> sigworld" where
  "sig_fault w = (case sig_faults w of [] \<Rightarrow> (False, w) | b # bs \<Rightarrow> (b, w\<lparr>sig_faults := bs\<rparr>))"

text \<open>\<open>sigaction\<close> returns the old disposition, \<open>sigprocmask\<close> (with SIG_BLOCK or SIG_SETMASK) the old mask.\<close>

definition sys_sigaction :: "nat \<Rightarrow> disposition \<Rightarrow> sigworld \<Rightarrow> int \<times> disposition \<times> sigworld" where
  "sys_sigaction sig d w0 =
     (case sig_fault w0 of (bad, w) \<Rightarrow>
        if bad then (-1, disp w sig, w) else (0, disp w sig, w\<lparr>disp := (disp w)(sig := d)\<rparr>))"

definition sys_block :: "(nat \<Rightarrow> bool) \<Rightarrow> sigworld \<Rightarrow> int \<times> (nat \<Rightarrow> bool) \<times> sigworld" where
  "sys_block m w0 =
     (case sig_fault w0 of (bad, w) \<Rightarrow>
        if bad then (-1, blocked w, w) else (0, blocked w, w\<lparr>blocked := (\<lambda>s. blocked w s \<or> m s)\<rparr>))"

definition sys_setmask :: "(nat \<Rightarrow> bool) \<Rightarrow> sigworld \<Rightarrow> int \<times> sigworld" where
  "sys_setmask m w0 = (case sig_fault w0 of (bad, w) \<Rightarrow> if bad then (-1, w) else (0, w\<lparr>blocked := m\<rparr>))"

section \<open>system\<close>

text \<open>The child: it restores the dispositions and the mask and runs the shell. Its calls are taken to
  succeed; its state is a copy, and only what it executes is recorded.\<close>

definition run_child :: "disposition \<Rightarrow> disposition \<Rightarrow> (nat \<Rightarrow> bool) \<Rightarrow> string \<Rightarrow> sigworld \<Rightarrow> sigworld" where
  "run_child saveintr savequit savemask cmd w =
     w\<lparr>execs := execs w @ [((disp w)(SIGINT := saveintr, SIGQUIT := savequit), savemask, cmd)]\<rparr>"

text \<open>The loop around \<open>waitpid\<close>: interrupted waits are repeated; \<open>None\<close> when the child never ends.\<close>

fun wait_child :: "wait_result list \<Rightarrow> (int \<times> wait_result list) option" where
  "wait_child [] = None"
| "wait_child (W_EINTR # rs) = wait_child rs"
| "wait_child (W_exited st # rs) = Some (st, rs)"
| "wait_child (W_error # rs) = Some (-1, rs)"

definition fork_and_wait :: "disposition \<Rightarrow> disposition \<Rightarrow> (nat \<Rightarrow> bool) \<Rightarrow> string \<Rightarrow> sigworld \<Rightarrow> (int \<times> sigworld) option" where
  "fork_and_wait saveintr savequit savemask cmd w0 =
     (case sig_fault w0 of (bad, w) \<Rightarrow>
        if bad then Some (-1, w)
        else let w1 = run_child saveintr savequit savemask cmd w in
          map_option (\<lambda>(st, rs). (st, w1\<lparr>waits := rs\<rparr>)) (wait_child (waits w1)))"

definition restore_signals :: "disposition \<Rightarrow> disposition \<Rightarrow> (nat \<Rightarrow> bool) \<Rightarrow> int \<Rightarrow> sigworld \<Rightarrow> int \<times> sigworld" where
  "restore_signals saveintr savequit savemask status w =
     (case sys_sigaction SIGINT saveintr w of (r, _, w1) \<Rightarrow>
        if r < 0 then (-1, w1)
        else case sys_sigaction SIGQUIT savequit w1 of (r, _, w2) \<Rightarrow>
          if r < 0 then (-1, w2)
          else case sys_setmask savemask w2 of (r, w3) \<Rightarrow> if r = 0 then (-1, w3) else (status, w3))"

definition system :: "string option \<Rightarrow> sigworld \<Rightarrow> (int \<times> sigworld) option" where
  "system cmdstring w =
     (case cmdstring of
        None \<Rightarrow> Some (1, w)
      | Some cmd \<Rightarrow>
         (case sys_sigaction SIGINT SIG_IGN w of (r, saveintr, w1) \<Rightarrow>
            if r < 0 then Some (-1, w1)
            else case sys_sigaction SIGQUIT SIG_IGN w1 of (r, savequit, w2) \<Rightarrow>
              if r < 0 then Some (-1, w2)
              else case sys_block (\<lambda>s. s = SIGCHLD) w2 of (r, savemask, w3) \<Rightarrow>
                if r < 0 then Some (-1, w3)
                else map_option (\<lambda>(status, w4). restore_signals saveintr savequit savemask status w4)
                       (fork_and_wait saveintr savequit savemask cmd w3)))"

section \<open>sleep\<close>

text \<open>\<open>alarm\<close> returns the seconds that were left of the previous alarm.\<close>

definition alarm :: "nat \<Rightarrow> sigworld \<Rightarrow> nat \<times> sigworld" where
  "alarm n w = (alarm_left w, w\<lparr>alarm_left := n\<rparr>)"

text \<open>\<open>sigsuspend\<close> waits with the given mask for the first signal that is caught: the alarm when it
  expires, or one of the deliveries before that (those that are blocked or have no handler do not end
  the wait; SIGALRM from elsewhere is left out). \<open>None\<close>: no signal ever comes.\<close>

fun sys_sigsuspend :: "(nat \<Rightarrow> bool) \<Rightarrow> delivery list \<Rightarrow> sigworld \<Rightarrow> sigworld option" where
  "sys_sigsuspend m [] w =
     (if alarm_left w \<noteq> 0 \<and> \<not> m SIGALRM then Some (w\<lparr>alarm_left := 0, deliveries := []\<rparr>) else None)"
| "sys_sigsuspend m (d # ds) w =
     (if alarm_left w \<noteq> 0 \<and> \<not> m SIGALRM \<and> alarm_left w \<le> d_after d then Some (w\<lparr>alarm_left := 0, deliveries := d # ds\<rparr>)
      else case disp w (d_signo d) of
             Handler h \<Rightarrow> if m (d_signo d) then sys_sigsuspend m ds w
               else Some (w\<lparr>alarm_left := alarm_left w - d_after d, deliveries := ds\<rparr>)
           | _ \<Rightarrow> sys_sigsuspend m ds w)"

definition SIG_ALRM_HANDLER :: procptr where "SIG_ALRM_HANDLER = 1"

text \<open>The results of \<open>sigaction\<close> and \<open>sigprocmask\<close> are not looked at.\<close>

definition sleep :: "nat \<Rightarrow> sigworld \<Rightarrow> (nat \<times> sigworld) option" where
  "sleep nsecs w =
     (case sys_sigaction SIGALRM (Handler SIG_ALRM_HANDLER) w of (_, oldact, w1) \<Rightarrow>
      case sys_block (\<lambda>s. s = SIGALRM) w1 of (_, oldmask, w2) \<Rightarrow>
      case alarm nsecs w2 of (_, w3) \<Rightarrow> do {
        w4 \<leftarrow> sys_sigsuspend (oldmask(SIGALRM := False)) (deliveries w3) w3;
        let (unslept, w5) = alarm 0 w4;
            (_, _, w6) = sys_sigaction SIGALRM oldact w5;
            (_, w7) = sys_setmask oldmask w6
        in Some (unslept, w7) })"

section \<open>Signal sets\<close>

text \<open>The macro SIGBAD is read as it is meant: written with a space before its argument list it does not
  expand to a test. Sets are words with signal \<open>n\<close> at bit \<open>n - 1\<close>; \<open>NSIG\<close> does not exceed the width, so
  that the shifts are defined. The result is the value returned and the set.\<close>

definition NSIG :: int where "NSIG = 32"

definition SIGBAD :: "int \<Rightarrow> bool" where "SIGBAD signo \<longleftrightarrow> signo \<le> 0 \<or> NSIG \<le> signo"

definition sig_bit :: "int \<Rightarrow> uint" where "sig_bit signo = push_bit (nat (signo - 1)) 1"

definition sigemptyset :: uint where "sigemptyset = 0"

definition sigfillset :: uint where "sigfillset = NOT 0"

text \<open>The statement of \<open>sigaddset\<close> is a comparison.\<close>

definition sigaddset :: "uint \<Rightarrow> int \<Rightarrow> int \<times> uint" where
  "sigaddset sset signo = (if SIGBAD signo then (-1, sset) else (let unused = (sset \<noteq> sig_bit signo) in (0, sset)))"

definition sigdelset :: "uint \<Rightarrow> int \<Rightarrow> int \<times> uint" where
  "sigdelset sset signo = (if SIGBAD signo then (-1, sset) else (0, sset AND NOT (sig_bit signo)))"

definition sigismember :: "uint \<Rightarrow> int \<Rightarrow> int" where
  "sigismember sset signo = (if SIGBAD signo then -1 else if sset AND sig_bit signo \<noteq> 0 then 1 else 0)"

end
