(* ===== verification/SignalProps.thy ===== *)
theory SignalProps
  imports Signals
begin

text \<open>
  What \<open>system\<close>, \<open>sleep\<close> and the signal sets do: the signal state of the caller is restored; where the
  result is wrong.
\<close>

section \<open>system\<close>

lemma wait_child_interrupted: "wait_child (replicate k W_EINTR @ W_exited st # rs) = Some (st, rs)"
  by (induction k) simp_all

text \<open>C29. system. With all calls up to the last one successful, and however often the wait is interrupted, the
  command is run once, by a child with the dispositions and the mask of the caller, and the caller's
  dispositions are restored. But the result is inverted: when the mask is restored as well,
  \<open>system\<close> returns -1 whatever the status of the command; the status is returned exactly when restoring the
  mask fails, and then SIGCHLD stays blocked.\<close>

theorem system_result_inverted:
  assumes f: "sig_faults w = replicate 6 False @ [b]" and c: "waits w = replicate k W_EINTR @ W_exited st # rs"
  shows "\<exists>w'. system (Some cmd) w = Some (if b then st else -1, w') \<and> disp w' = disp w \<and>
    blocked w' = (if b then \<lambda>s. blocked w s \<or> s = SIGCHLD else blocked w) \<and>
    execs w' = execs w @ [(disp w, blocked w, cmd)] \<and> waits w' = rs"
proof -
  have "SIGINT \<noteq> SIGQUIT" by (simp add: SIGINT_def SIGQUIT_def)
  then have d: "(disp w)(SIGINT := SIG_IGN, SIGQUIT := SIG_IGN, SIGINT := disp w SIGINT, SIGQUIT := disp w SIGQUIT) = disp w"
    by (auto simp: fun_eq_iff)
  have f': "sig_faults w = [False, False, False, False, False, False, b]"
    using f by (simp add: numeral_eq_Suc)
  show ?thesis
    using d \<open>SIGINT \<noteq> SIGQUIT\<close>
    by (simp add: system_def sys_sigaction_def sys_block_def sys_setmask_def sig_fault_def f' fork_and_wait_def
        run_child_def c wait_child_interrupted restore_signals_def)
qed

section \<open>sleep\<close>

definition caught :: "sigworld \<Rightarrow> delivery \<Rightarrow> bool" where
  "caught w d \<longleftrightarrow> (\<exists>h. disp w (d_signo d) = Handler h) \<and> \<not> blocked w (d_signo d)"

lemma late_none: "\<forall>x \<in> set xs. n \<le> d_after x \<Longrightarrow> (case find ok xs of Some d \<Rightarrow> n - d_after d | None \<Rightarrow> 0) = 0"
  by (induction xs) auto

lemma sigsuspend_result:
  assumes "sorted (map d_after ds)" "0 < n" "alarm_left w = n" "\<not> m SIGALRM"
    "\<And>d. d \<in> set ds \<Longrightarrow> ok d = ((\<exists>h. disp w (d_signo d) = Handler h) \<and> \<not> m (d_signo d))"
  shows "\<exists>ds'. sys_sigsuspend m ds w = Some (w\<lparr>deliveries := ds',
    alarm_left := (case find ok ds of Some d \<Rightarrow> n - d_after d | None \<Rightarrow> 0)\<rparr>)"
  using assms(1,5)
proof (induction ds)
  case Nil
  then show ?case using assms(2-4) by (intro exI [of _ "[]"]) simp
next
  case (Cons d ds)
  show ?case
  proof (cases "n \<le> d_after d")
    case True
    have "\<forall>x \<in> set (d # ds). n \<le> d_after x" using Cons.prems(1) True by auto
    then have "(case find ok (d # ds) of Some d \<Rightarrow> n - d_after d | None \<Rightarrow> 0) = 0"
      by (rule late_none)
    then show ?thesis using True assms(2-4) by (intro exI [of _ "d # ds"]) (simp del: find.simps)
  next
    case False
    note ok = Cons.prems(2) [of d, simplified]
    show ?thesis
    proof (cases "ok d")
      case True
      then show ?thesis using False ok assms(3) by (intro exI [of _ ds]) (auto split: disposition.splits)
    next
      case not: False
      have "\<exists>ds'. sys_sigsuspend m ds w = Some (w\<lparr>deliveries := ds',
          alarm_left := (case find ok ds of Some d \<Rightarrow> n - d_after d | None \<Rightarrow> 0)\<rparr>)"
        using Cons by simp
      then show ?thesis using False not ok assms(3) by (auto split: disposition.splits)
    qed
  qed
qed

lemma sigsuspend_none:
  assumes "alarm_left w = 0" "\<And>d. d \<in> set ds \<Longrightarrow> \<not> ((\<exists>h. disp w (d_signo d) = Handler h) \<and> \<not> m (d_signo d))"
  shows "sys_sigsuspend m ds w = None"
  using assms(2)
proof (induction ds)
  case (Cons d ds)
  from Cons.prems [of d] have "\<not> ((\<exists>h. disp w (d_signo d) = Handler h) \<and> \<not> m (d_signo d))" by simp
  moreover have "sys_sigsuspend m ds w = None" using Cons by simp
  ultimately show ?case using assms(1) by (auto split: disposition.splits)
qed (simp add: assms(1))

text \<open>sleep. When no call fails, \<open>sleep\<close> of a positive number of seconds returns after the first signal the
  caller catches, with the seconds that were left then, or with 0 after the alarm; the disposition of
  SIGALRM and the mask are restored, and an alarm of the caller is lost. \<open>sleep (0)\<close> sets no alarm and
  never returns unless another signal is caught.\<close>

theorem sleep_returns_unslept:
  assumes f: "sig_faults w = []" and s: "sorted (map d_after (deliveries w))" and no: "\<forall>d \<in> set (deliveries w). d_signo d \<noteq> SIGALRM"
  shows "(0 < n \<longrightarrow> (\<exists>w'. sleep n w = Some (case find (caught w) (deliveries w) of Some d \<Rightarrow> n - d_after d | None \<Rightarrow> 0, w') \<and>
      disp w' = disp w \<and> blocked w' = blocked w \<and> alarm_left w' = 0)) \<and>
    (find (caught w) (deliveries w) = None \<longrightarrow> sleep 0 w = None)"
proof -
  let ?m = "(blocked w)(SIGALRM := False)"
  define w3 where "w3 k = w\<lparr>disp := (disp w)(SIGALRM := Handler SIG_ALRM_HANDLER),
    blocked := (\<lambda>s. blocked w s \<or> s = SIGALRM), alarm_left := k\<rparr>" for k
  have same: "caught w d = ((\<exists>h. disp (w3 k) (d_signo d) = Handler h) \<and> \<not> ?m (d_signo d))" if "d \<in> set (deliveries w)" for d k
    using no that by (simp add: caught_def w3_def)
  have sl: "sleep k w = map_option (\<lambda>w4. (alarm_left w4, w4\<lparr>alarm_left := 0, disp := (disp w4)(SIGALRM := disp w SIGALRM),
      blocked := blocked w\<rparr>)) (sys_sigsuspend ?m (deliveries w) (w3 k))" if "\<And>w4. sys_sigsuspend ?m (deliveries w) (w3 k) = Some w4 \<Longrightarrow> sig_faults w4 = []" for k
    using f that by (auto simp: sleep_def sys_sigaction_def sys_block_def sys_setmask_def sig_fault_def alarm_def w3_def Let_def
        split: bind_splits)
  have pos: "\<exists>w'. sleep n w = Some (case find (caught w) (deliveries w) of Some d \<Rightarrow> n - d_after d | None \<Rightarrow> 0, w') \<and>
      disp w' = disp w \<and> blocked w' = blocked w \<and> alarm_left w' = 0" if n: "0 < n"
  proof -
    obtain ds' where r: "sys_sigsuspend ?m (deliveries w) (w3 n) = Some ((w3 n)\<lparr>deliveries := ds',
        alarm_left := (case find (caught w) (deliveries w) of Some d \<Rightarrow> n - d_after d | None \<Rightarrow> 0)\<rparr>)"
      using sigsuspend_result [OF s n, of "w3 n" ?m "caught w"] n same by (auto simp: w3_def)
    have "(disp w)(SIGALRM := h, SIGALRM := disp w SIGALRM) = disp w" for h by simp
    then show ?thesis using r sl [of n] f by (simp add: w3_def)
  qed
  have "sleep 0 w = None" if "find (caught w) (deliveries w) = None"
  proof -
    have "sys_sigsuspend ?m (deliveries w) (w3 0) = None"
      by (rule sigsuspend_none) (use that same [of _ 0] in \<open>simp_all add: w3_def find_None_iff\<close>)
    then show ?thesis using sl [of 0] by simp
  qed
  with pos show ?thesis by blast
qed

section \<open>Signal sets\<close>

lemma sig_bit_power: "sig_bit s = 2 ^ nat (s - 1)"
  by (simp add: sig_bit_def push_bit_eq_mult)

lemma sigismember_bit: "\<not> SIGBAD t \<Longrightarrow> sigismember m t = (if bit m (nat (t - 1)) then 1 else 0)"
proof -
  assume t: "\<not> SIGBAD t"
  then have "nat (t - 1) < LENGTH(32)" by (auto simp: SIGBAD_def NSIG_def)
  from bit_mask_and [OF this, of m] t show ?thesis by (simp add: sigismember_def sig_bit_power)
qed

text \<open>Deleting removes just the signal; adding changes nothing, so that a signal is a member afterwards only
  if it was before.\<close>

lemma sigset_operations:
  assumes "\<not> SIGBAD s" "\<not> SIGBAD t"
  shows "sigismember (snd (sigdelset m s)) t = (if s = t then 0 else sigismember m t)"
    "sigismember (snd (sigaddset m s)) t = sigismember m t" "sigismember sigemptyset t = 0" "sigismember sigfillset t = 1"
proof -
  have "nat (s - 1) = nat (t - 1) \<longleftrightarrow> s = t" "nat (t - 1) < 32" using assms by (auto simp: SIGBAD_def NSIG_def)
  then show "sigismember (snd (sigdelset m s)) t = (if s = t then 0 else sigismember m t)"
    "sigismember (snd (sigaddset m s)) t = sigismember m t" "sigismember sigemptyset t = 0" "sigismember sigfillset t = 1"
    using assms by (auto simp: sigismember_bit sigdelset_def sigaddset_def sig_bit_power bit_clear_flag sigemptyset_def
        sigfillset_def bit_simps)
qed

section \<open>A concrete process\<close>

definition demo_sigworld :: "bool list \<Rightarrow> wait_result list \<Rightarrow> delivery list \<Rightarrow> sigworld" where
  "demo_sigworld fs ws ds = \<lparr>disp = (\<lambda>s. if s = 10 then Handler 4096 else SIG_DFL), blocked = (\<lambda>s. False), alarm_left = 60,
     sig_faults = fs, waits = ws, deliveries = ds, execs = []\<rparr>"

theorem system_result_inverted_witness:
  "\<exists>w'. system (Some ''true'') (demo_sigworld [False, False, False, False, False, False, False] [W_EINTR, W_exited 0] []) = Some (-1, w') \<and>
    blocked w' = (\<lambda>s. False)"
proof -
  let ?w = "demo_sigworld [False, False, False, False, False, False, False] [W_EINTR, W_exited 0] []"
  have "sig_faults ?w = replicate 6 False @ [False]" "waits ?w = replicate 1 W_EINTR @ W_exited 0 # []"
    by (simp_all add: demo_sigworld_def numeral_eq_Suc)
  from system_result_inverted [OF this, of "''true''"] show ?thesis by (auto simp: demo_sigworld_def)
qed

theorem sleep_returns_unslept_witness:
  "\<exists>w'. sleep 10 (demo_sigworld [] [] [\<lparr>d_signo = 17, d_after = 2\<rparr>, \<lparr>d_signo = 10, d_after = 4\<rparr>]) = Some (6, w') \<and> alarm_left w' = 0"
proof -
  let ?w = "demo_sigworld [] [] [\<lparr>d_signo = 17, d_after = 2\<rparr>, \<lparr>d_signo = 10, d_after = 4\<rparr>]"
  have "sig_faults ?w = []" "sorted (map d_after (deliveries ?w))" "\<forall>d \<in> set (deliveries ?w). d_signo d \<noteq> SIGALRM"
    by (simp_all add: demo_sigworld_def SIGALRM_def)
  from sleep_returns_unslept [OF this, of 10] show ?thesis by (auto simp: demo_sigworld_def caught_def)
qed

end
