(* ===== verification/ServerShared.thy ===== *)
theory ServerShared
  imports Server
begin

text \<open>
  The handlers of the other configurations of the server (lecture-4/minigui-server.c): surfaces in
  video memory (the schema with a shared frame buffer), the ML shadow driver, and the surfaces of the
  Sigma, Nexus and DRM drivers. What the drivers do is a parameter.
\<close>

text \<open>\<open>REQ_HWSURFACE\<close> and \<open>REP_HWSURFACE\<close>; a bucket of 0 asks for a new surface.\<close>

record hw_surface =
  hw_w :: int
  hw_h :: int
  hw_pitch :: int
  hw_offset :: dword
  hw_bucket :: dword

record hw_reply =
  hp_pitch :: int
  hp_offset :: dword
  hp_bucket :: dword

datatype mls_op = MLSOP_ID_GET_MASTERINFO | MLSOP_ID_CREATE_SURFACE | MLSOP_ID_GET_SLAVEINFO
  | MLSOP_ID_SET_SLAVEINFO | MLSOP_ID_DESTROY_SLAVE | MLSOP_other

text \<open>\<open>hw_malloc\<close> returns the address of a block, or 0; \<open>hw_store\<close> fills the block. The numbers of the
  operations of the ML shadow driver and its structures are in headers that are not in the repository.\<close>

record 'k hwenv =
  rd_hw_request :: "byte list \<Rightarrow> hw_surface option"
  put_hw_reply :: "hw_reply \<Rightarrow> byte list"
  GAL_RequestHWSurface :: "hw_surface \<Rightarrow> 'k \<Rightarrow> hw_reply \<times> 'k"
  hw_malloc :: "'k \<Rightarrow> dword \<times> 'k"
  hw_store :: "dword \<Rightarrow> hw_surface \<Rightarrow> 'k \<Rightarrow> 'k"
  hw_key :: dword
  mls_opid :: "int \<Rightarrow> mls_op"
  MLSHADOW_Server :: "byte list \<Rightarrow> 'k \<Rightarrow> byte list \<times> 'k"
  mls_surface_key :: "byte list \<Rightarrow> dword"
  Sigma8654_ServerOnGetSurface :: "dword \<Rightarrow> 'k \<Rightarrow> int \<times> byte list \<times> 'k"
  Nexus_ServerOnGetSurface :: "dword \<Rightarrow> 'k \<Rightarrow> int \<times> byte list \<times> 'k"
  drm_get_shared_screen_surface :: "(byte list \<Rightarrow> 'k \<Rightarrow> (uint \<times> dword) option) option"

section \<open>Hardware surfaces\<close>

text \<open>What \<open>req_hw_surface\<close> records after the request was carried out: a new block for a new surface;
  otherwise it looks for a record whose resource is the bucket.\<close>

definition record_hw_surface :: "'k srvenv \<Rightarrow> 'k hwenv \<Rightarrow> nat \<Rightarrow> hw_surface \<Rightarrow> hw_reply \<Rightarrow> 'k sworld \<Rightarrow> 'k sworld option" where
  "record_hw_surface E H cli request reply w =
     (if hw_bucket request = 0 then
        let (allocated, k) = hw_malloc H (srv_ext w) in
        if allocated \<noteq> 0 then
          add_global_res E cli (hw_key H) allocated HWSurface_release
            (w\<lparr>srv_ext := hw_store H allocated
              \<lparr>hw_w = hw_w request, hw_h = hw_h request, hw_pitch = hp_pitch reply, hw_offset = hp_offset reply,
               hw_bucket = hp_bucket reply\<rparr> k\<rparr>)
        else Some (w\<lparr>srv_ext := k\<rparr>)
      else del_global_res E cli (hw_key H) (hw_bucket request) w)"

definition req_hw_surface ::
    "'k srvenv \<Rightarrow> 'k hwenv \<Rightarrow> nat \<Rightarrow> int \<Rightarrow> byte list \<Rightarrow> nat \<Rightarrow> 'k sworld \<Rightarrow> (sockres \<times> 'k sworld) option" where
  "req_hw_surface E H cli clifd buff len w = do {
     request \<leftarrow> rd_hw_request H buff;
     let (reply, k) = GAL_RequestHWSurface H request (srv_ext w);
     w1 \<leftarrow> record_hw_surface E H cli request reply (w\<lparr>srv_ext := k\<rparr>);
     ServerSendReply E clifd (put_hw_reply H reply) w1 }"

section \<open>ML shadow\<close>

text \<open>The result of sending is not looked at; an unknown operation has no reply.\<close>

definition handle_mlshadow_req ::
    "'k srvenv \<Rightarrow> 'k hwenv \<Rightarrow> nat \<Rightarrow> int \<Rightarrow> byte list \<Rightarrow> nat \<Rightarrow> 'k sworld \<Rightarrow> (sockres \<times> 'k sworld) option" where
  "handle_mlshadow_req E H cli clifd buff len w = do {
     op_id \<leftarrow> rd_int 0 buff;
     let opid = mls_opid H op_id;
     if opid = MLSOP_other then Some (SOCKERR_OK, w)
     else do {
       let (reply, k) = MLSHADOW_Server H buff (srv_ext w);
       let w1 = w\<lparr>srv_ext := k\<rparr>;
       w2 \<leftarrow> (if opid = MLSOP_ID_CREATE_SURFACE
              then add_global_res E cli (mls_surface_key H reply) (mls_surface_key H reply) MLShadow_release w1
              else Some w1);
       (_, w3) \<leftarrow> ServerSendReply E clifd reply w2;
       Some (SOCKERR_OK, w3) } }"

section \<open>Surfaces of other drivers\<close>

text \<open>Both pass a request pointer that was never set: what the stack held.\<close>

definition sigma8654_client_get_surface ::
    "'k srvenv \<Rightarrow> 'k hwenv \<Rightarrow> nat \<Rightarrow> int \<Rightarrow> byte list \<Rightarrow> nat \<Rightarrow> 'k sworld \<Rightarrow> (sockres \<times> 'k sworld) option" where
  "sigma8654_client_get_surface E H cli clifd buff len w =
     (let (r, reply, k) = Sigma8654_ServerOnGetSurface H (garbage E) (srv_ext w) in
      if r < 0 then Some (SOCKERR_IO, w\<lparr>srv_ext := k\<rparr>) else ServerSendReply E clifd reply (w\<lparr>srv_ext := k\<rparr>))"

definition nexus_client_get_surface ::
    "'k srvenv \<Rightarrow> 'k hwenv \<Rightarrow> nat \<Rightarrow> int \<Rightarrow> byte list \<Rightarrow> nat \<Rightarrow> 'k sworld \<Rightarrow> (sockres \<times> 'k sworld) option" where
  "nexus_client_get_surface E H cli clifd buff len w =
     (let (r, reply, k) = Nexus_ServerOnGetSurface H (garbage E) (srv_ext w) in
      if r < 0 then Some (SOCKERR_IO, w\<lparr>srv_ext := k\<rparr>) else ServerSendReply E clifd reply (w\<lparr>srv_ext := k\<rparr>))"

text \<open>Outside the compositing schema: flags and size are 0 unless the DRM driver fills them.\<close>

definition get_rendering_surface ::
    "'k srvenv \<Rightarrow> 'k hwenv \<Rightarrow> nat \<Rightarrow> int \<Rightarrow> byte list \<Rightarrow> nat \<Rightarrow> 'k sworld \<Rightarrow> (sockres \<times> 'k sworld) option" where
  "get_rendering_surface E H cli clifd buff len w = do {
     info \<leftarrow> (case drm_get_shared_screen_surface H of
        None \<Rightarrow> Some (0, 0)
      | Some f \<Rightarrow> do { name \<leftarrow> c_string buff; Some (case f name (srv_ext w) of None \<Rightarrow> (0, 0) | Some i \<Rightarrow> i) });
     ServerSendReply E clifd (put_sharedsurf (lay E) (fst info) (snd info)) w }"

end
