(* ===== verification/SharedProps.thy ===== *)
theory SharedProps
  imports ServerShared ReqProps
begin

text \<open>
  Hardware surfaces: the records of the server are never found again.
\<close>

lemma drop_first_none: "\<forall>x \<in> set xs. \<not> P x \<Longrightarrow> drop_first P xs = xs"
  by (induction xs) auto

lemma holds_ext [simp]: "holds g0 (w\<lparr>srv_ext := k\<rparr>) cli as rs = holds g0 w cli as rs"
  by (simp add: holds_def owned_def)

text \<open>No block is at the address of a bucket, and allocation succeeds.\<close>

definition blocks_apart :: "'k hwenv \<Rightarrow> dword set \<Rightarrow> bool" where
  "blocks_apart H B \<longleftrightarrow> 0 \<in> B \<and> (\<forall>k. fst (hw_malloc H k) \<notin> B)"

definition unfound :: "'k hwenv \<Rightarrow> dword set \<Rightarrow> res_entry list \<Rightarrow> bool" where
  "unfound H B rs \<longleftrightarrow> (\<forall>e \<in> set rs. \<forall>b \<in> B. \<not> matches (hw_key H) b e)"

lemma record_hw_surface_holds:
  assumes E: "malloc_ok E" "finite (dom g0)" and H: "blocks_apart H B" and h: "holds g0 w cli as rs" "unfound H B rs"
    and b: "hw_bucket request \<in> B"
  shows "\<exists>w' as' new. record_hw_surface E H cli request reply w = Some w' \<and> holds g0 w' cli as' (new @ rs) \<and>
    unfound H B (new @ rs) \<and> length new = (if hw_bucket request = 0 then 1 else 0) \<and>
    (\<forall>e \<in> set new. snd (snd e) = HWSurface_release)"
proof (cases "hw_bucket request = 0")
  case True
  obtain a k where a: "hw_malloc H (srv_ext w) = (a, k)" "a \<notin> B" "a \<noteq> 0"
    using H unfolding blocks_apart_def by (metis prod.collapse)
  let ?w = "w\<lparr>srv_ext := hw_store H a \<lparr>hw_w = hw_w request, hw_h = hw_h request, hw_pitch = hp_pitch reply,
    hw_offset = hp_offset reply, hw_bucket = hp_bucket reply\<rparr> k\<rparr>"
  have "holds g0 ?w cli as rs" using h(1) by simp
  from res_step_holds [OF E this, of "Add_res (hw_key H) a HWSurface_release"] obtain w' as' where
    w': "add_global_res E cli (hw_key H) a HWSurface_release ?w = Some w'"
    "holds g0 w' cli as' ((hw_key H, a, HWSurface_release) # rs)" by auto
  have "record_hw_surface E H cli request reply w = Some w'"
    using w'(1) True a by (simp add: record_hw_surface_def)
  moreover have "unfound H B ((hw_key H, a, HWSurface_release) # rs)"
    using h(2) a(2) by (auto simp: unfound_def matches_def)
  ultimately show ?thesis using w'(2) True
    by (intro exI [of _ w'] exI [of _ as'] exI [of _ "[(hw_key H, a, HWSurface_release)]"]) simp
next
  case False
  from res_step_holds [OF E h(1), of "Del_res (hw_key H) (hw_bucket request)"] obtain w' as' where
    w': "del_global_res E cli (hw_key H) (hw_bucket request) w = Some w'"
    "holds g0 w' cli as' (drop_first (matches (hw_key H) (hw_bucket request)) rs)" by auto
  have "drop_first (matches (hw_key H) (hw_bucket request)) rs = rs"
    using h(2) b by (intro drop_first_none) (simp add: unfound_def)
  then show ?thesis using w' False h(2)
    by (intro exI [of _ w'] exI [of _ as'] exI [of _ "[]"]) (simp add: record_hw_surface_def)
qed

text \<open>Surfaces in video memory. The server records a new surface under the address of the block it allocates,
  but looks for the record of a freed one under its bucket. As long as no block has the address of a bucket,
  over any requests no record is ever removed: one is left for every surface the client asked for, freed or
  not, until the client goes.\<close>

theorem hw_surface_records_pile_up:
  fixes w :: "'k sworld"
  assumes E: "malloc_ok E" "finite (dom (gress w))" and w: "cli < length (mgClients w)" "cl_global_res (mgClients w ! cli) = None"
    and H: "blocks_apart H B" and b: "\<forall>r \<in> set reqs. hw_bucket (fst r) \<in> B"
  shows "\<exists>w' as rs. foldm (\<lambda>(request, reply). record_hw_surface E H cli request reply) reqs w = Some w' \<and>
    owned w' cli as rs \<and> length rs = length (filter (\<lambda>r. hw_bucket (fst r) = 0) reqs) \<and>
    (\<forall>e \<in> set rs. snd (snd e) = HWSurface_release)"
proof -
  have "\<exists>w' as' new. foldm (\<lambda>(request, reply). record_hw_surface E H cli request reply) reqs w1 = Some w' \<and>
      holds (gress w) w' cli as' (new @ rs) \<and> length new = length (filter (\<lambda>r. hw_bucket (fst r) = 0) reqs) \<and>
      (\<forall>e \<in> set new. snd (snd e) = HWSurface_release)"
    if "holds (gress w) w1 cli as rs" "unfound H B rs" for w1 as rs
    using that b
  proof (induction reqs arbitrary: w1 as rs)
    case Nil
    then show ?case by (intro exI [of _ w1] exI [of _ as] exI [of _ "[]"]) simp
  next
    case (Cons r reqs)
    obtain request reply where r: "r = (request, reply)" by (cases r)
    have "hw_bucket request \<in> B" using Cons.prems(3) r by simp
    from record_hw_surface_holds [OF E H Cons.prems(1,2) this] obtain w2 as2 new where
      s: "record_hw_surface E H cli request reply w1 = Some w2" "holds (gress w) w2 cli as2 (new @ rs)"
      "unfound H B (new @ rs)" "length new = (if hw_bucket request = 0 then 1 else 0)"
      "\<forall>e \<in> set new. snd (snd e) = HWSurface_release" by blast
    have "\<forall>r \<in> set reqs. hw_bucket (fst r) \<in> B" using Cons.prems(3) by simp
    from Cons.IH [OF s(2,3) this] obtain w' as' new' where
      t: "foldm (\<lambda>(request, reply). record_hw_surface E H cli request reply) reqs w2 = Some w'"
      "holds (gress w) w' cli as' (new' @ new @ rs)" "length new' = length (filter (\<lambda>r. hw_bucket (fst r) = 0) reqs)"
      "\<forall>e \<in> set new'. snd (snd e) = HWSurface_release" by auto
    show ?case
      by (intro exI [of _ w'] exI [of _ as'] exI [of _ "new' @ new"]) (use s t r in auto)
  qed
  from this [of w "[]" "[]"] w show ?thesis by (auto simp: holds_def owned_def unfound_def)
qed

definition sample_hwenv :: "sample_ext hwenv" where
  "sample_hwenv = \<lparr>rd_hw_request = (\<lambda>_. None), put_hw_reply = (\<lambda>_. []),
     GAL_RequestHWSurface = (\<lambda>r k. (\<lparr>hp_pitch = 64, hp_offset = 0, hp_bucket = 0x100\<rparr>, k)), hw_malloc = (\<lambda>k. (0x2000, k)),
     hw_store = (\<lambda>_ _ k. k), hw_key = 0x9000, mls_opid = (\<lambda>_. MLSOP_other), MLSHADOW_Server = (\<lambda>b k. ([], k)),
     mls_surface_key = (\<lambda>_. 0), Sigma8654_ServerOnGetSurface = (\<lambda>_ k. (-1, [], k)),
     Nexus_ServerOnGetSurface = (\<lambda>_ k. (-1, [], k)), drm_get_shared_screen_surface = None\<rparr>"

theorem hw_surface_records_pile_up_witness:
  "\<exists>w' as rs. foldm (\<lambda>(request, reply). record_hw_surface sample_srvenv sample_hwenv 0 request reply)
      [(\<lparr>hw_w = 8, hw_h = 8, hw_pitch = 0, hw_offset = 0, hw_bucket = 0\<rparr>, \<lparr>hp_pitch = 64, hp_offset = 0, hp_bucket = 0x100\<rparr>),
       (\<lparr>hw_w = 8, hw_h = 8, hw_pitch = 64, hw_offset = 0, hw_bucket = 0x100\<rparr>, \<lparr>hp_pitch = 0, hp_offset = 0, hp_bucket = 0\<rparr>)]
      sample_server = Some w' \<and> owned w' 0 as rs \<and> length rs = 1"
proof -
  let ?r1 = "(\<lparr>hw_w = 8, hw_h = 8, hw_pitch = 0, hw_offset = 0, hw_bucket = 0\<rparr>, \<lparr>hp_pitch = 64, hp_offset = 0, hp_bucket = 0x100\<rparr>)"
  let ?r2 = "(\<lparr>hw_w = 8, hw_h = 8, hw_pitch = 64, hw_offset = 0, hw_bucket = 0x100\<rparr>, \<lparr>hp_pitch = 0, hp_offset = 0, hp_bucket = 0\<rparr>)"
  have b: "blocks_apart sample_hwenv {0, 0x100}" by (simp add: blocks_apart_def sample_hwenv_def)
  have w: "finite (dom (gress sample_server))" "0 < length (mgClients sample_server)"
    "cl_global_res (mgClients sample_server ! 0) = None" by (simp_all add: sample_server_def)
  have "\<forall>r \<in> set [?r1, ?r2]. hw_bucket (fst r) \<in> {0, 0x100}" by simp
  from hw_surface_records_pile_up [OF sample_malloc w b this] show ?thesis by auto
qed

end
