(* ===== verification/WinKinds.thy ===== *)
theory WinKinds
  imports MsgTypes
begin

text \<open>
  The other tests on window handles of lecture-5/minigui-internals.h, the helpers that return a main
  window when a test holds, and what is left of the thread's queue without virtual windows.
\<close>

section \<open>Tests\<close>

text \<open>A test that looks at the object behind a handle; \<open>None\<close> is a dangling handle.\<close>

definition on_window :: "world \<Rightarrow> hwnd \<Rightarrow> (mainwin \<Rightarrow> bool) \<Rightarrow> bool option" where
  "on_window w h P = (if h = HWND_NULL \<or> h = HWND_INVALID then Some False else map_option P (wins w h))"

definition MG_IS_APP_WINDOW :: "world \<Rightarrow> hwnd \<Rightarrow> bool option" where
  "MG_IS_APP_WINDOW w h =
     (if h = HWND_NULL \<or> h = HWND_INVALID \<or> h = hwnd_desktop w then Some False
      else map_option (\<lambda>p. DataType p = TYPE_HWND) (wins w h))"

definition MG_IS_NORMAL_WINDOW :: "world \<Rightarrow> hwnd \<Rightarrow> bool option" where
  "MG_IS_NORMAL_WINDOW w h = on_window w h (\<lambda>p. DataType p = TYPE_HWND \<and> h \<noteq> hwnd_desktop w \<and>
     (WinType p = TYPE_MAINWIN \<or> WinType p = TYPE_CONTROL))"

definition MG_IS_GRAPHICS_WINDOW :: "world \<Rightarrow> hwnd \<Rightarrow> bool option" where
  "MG_IS_GRAPHICS_WINDOW w h = on_window w h (\<lambda>p. DataType p = TYPE_HWND \<and> WinType p \<noteq> TYPE_VIRTWIN)"

definition MG_IS_MAIN_WINDOW :: "world \<Rightarrow> hwnd \<Rightarrow> bool option" where
  "MG_IS_MAIN_WINDOW w h = on_window w h (\<lambda>p. DataType p = TYPE_HWND \<and> WinType p = TYPE_MAINWIN)"

definition MG_IS_VIRTUAL_WINDOW :: "world \<Rightarrow> hwnd \<Rightarrow> bool option" where
  "MG_IS_VIRTUAL_WINDOW w h = on_window w h (\<lambda>p. DataType p = TYPE_HWND \<and> WinType p = TYPE_VIRTWIN)"

definition MG_IS_NORMAL_MAIN_WINDOW :: "world \<Rightarrow> hwnd \<Rightarrow> bool option" where
  "MG_IS_NORMAL_MAIN_WINDOW w h = (if h = hwnd_desktop w then Some False else MG_IS_MAIN_WINDOW w h)"

definition MG_IS_DESTROYED_WINDOW :: "world \<Rightarrow> hwnd \<Rightarrow> bool option" where
  "MG_IS_DESTROYED_WINDOW w h = on_window w h (\<lambda>p. DataType p = TYPE_WINTODEL)"

definition MG_IS_DESTROYED_MAIN_WINDOW :: "world \<Rightarrow> hwnd \<Rightarrow> bool option" where
  "MG_IS_DESTROYED_MAIN_WINDOW w h = on_window w h (\<lambda>p. DataType p = TYPE_WINTODEL \<and> WinType p = TYPE_MAINWIN)"

definition MG_IS_DESTROYED_VIRT_WINDOW :: "world \<Rightarrow> hwnd \<Rightarrow> bool option" where
  "MG_IS_DESTROYED_VIRT_WINDOW w h = on_window w h (\<lambda>p. DataType p = TYPE_WINTODEL \<and> WinType p = TYPE_VIRTWIN)"

section \<open>Helpers\<close>

text \<open>A pointer is the handle of its object; 0 is NULL.\<close>

definition checkAndGetMainWinIfMainWin :: "world \<Rightarrow> hwnd \<Rightarrow> hwnd option" where
  "checkAndGetMainWinIfMainWin w h = do { b \<leftarrow> MG_IS_NORMAL_MAIN_WINDOW w h; Some (if b then h else 0) }"

definition checkAndGetMainWinIfWindow :: "world \<Rightarrow> hwnd \<Rightarrow> hwnd option" where
  "checkAndGetMainWinIfWindow w h = do {
     b \<leftarrow> MG_IS_NORMAL_WINDOW w h;
     if b then do { p \<leftarrow> wins w h; Some (pMainWin p) } else Some 0 }"

definition getVirtWinIfDestroyed :: "world \<Rightarrow> hwnd \<Rightarrow> hwnd option" where
  "getVirtWinIfDestroyed w h = do {
     b \<leftarrow> on_window w h (\<lambda>p. DataType p = TYPE_WINTODEL \<and> WinType p = TYPE_VIRTWIN);
     Some (if b then h else 0) }"

definition getMainWinIfDestroyed :: "world \<Rightarrow> hwnd \<Rightarrow> hwnd option" where
  "getMainWinIfDestroyed w h = do {
     b \<leftarrow> on_window w h (\<lambda>p. DataType p = TYPE_WINTODEL \<and> WinType p = TYPE_MAINWIN);
     Some (if b then h else 0) }"

definition getMsgQueueIfMainWindowInThisThread :: "thread_id \<Rightarrow> world \<Rightarrow> hwnd \<Rightarrow> nat option option" where
  "getMsgQueueIfMainWindowInThisThread self w m =
     (if m = 0 then Some None
      else do { p \<leftarrow> wins w m; q \<leftarrow> pMsgQueue p; Q \<leftarrow> queues w q; Some (if th Q = self then Some q else None) })"

text \<open>Without virtual windows there is one queue, the desktop's.\<close>

definition single_getMsgQueueForThisThread :: "world \<Rightarrow> nat option" where
  "single_getMsgQueueForThisThread w = dsk_msg_queue w"

definition single_getTimerSlotsForThisThread :: "world \<Rightarrow> (timer option list \<times> nat) option" where
  "single_getTimerSlotsForThisThread w = do { q \<leftarrow> dsk_msg_queue w; Q \<leftarrow> queues w q; Some (timer_slots Q, q) }"

definition single_getMainWinIfWindowInThisThread :: "world \<Rightarrow> hwnd \<Rightarrow> hwnd option" where
  "single_getMainWinIfWindowInThisThread w h = getMainWindowPtr w h"

definition single_getMsgQueueIfWindowInThisThread :: "world \<Rightarrow> hwnd \<Rightarrow> nat option" where
  "single_getMsgQueueIfWindowInThisThread w h = dsk_msg_queue w"

definition single_getMsgQueueIfMainWindowInThisThread :: "world \<Rightarrow> hwnd \<Rightarrow> nat option" where
  "single_getMsgQueueIfMainWindowInThisThread w m = dsk_msg_queue w"

section \<open>What the tests say\<close>

lemma on_window_some [simp]: "h \<noteq> HWND_NULL \<Longrightarrow> h \<noteq> HWND_INVALID \<Longrightarrow> wins w h = Some p \<Longrightarrow> on_window w h P = Some (P p)"
  by (simp add: on_window_def)

text \<open>The helper for a normal window goes through its main window to the same queue as \<open>getMsgQueue\<close>.\<close>

lemma normal_window_queue:
  assumes "MG_IS_NORMAL_WINDOW w h = Some True"
  shows "\<exists>m. checkAndGetMainWinIfWindow w h = Some m \<and> getMainWindowPtr w h = Some m \<and>
    getMsgQueueIfWindowInThisThread self w h = getMsgQueueIfMainWindowInThisThread self w m"
  using assms
  by (auto simp: MG_IS_NORMAL_WINDOW_def on_window_def checkAndGetMainWinIfWindow_def getMainWindowPtr_def MG_IS_WINDOW_def
      getMsgQueueIfWindowInThisThread_def getMsgQueueIfMainWindowInThisThread_def split: if_splits)

text \<open>A window of the three kinds is of exactly one; a live one is not a destroyed one; the tests for several kinds
  are the disjunctions of those for one, except for the desktop.\<close>

theorem window_kinds:
  assumes h: "h \<noteq> HWND_NULL" "h \<noteq> HWND_INVALID" "wins w h = Some p" "WinType p \<in> {TYPE_MAINWIN, TYPE_CONTROL, TYPE_VIRTWIN}"
  shows "MG_IS_WINDOW w h = Some True \<longleftrightarrow>
      (MG_IS_MAIN_WINDOW w h, MG_IS_CONTROL_WINDOW w h, MG_IS_VIRTUAL_WINDOW w h) \<in>
        {(Some True, Some False, Some False), (Some False, Some True, Some False), (Some False, Some False, Some True)}"
    "MG_IS_WINDOW w h = Some True \<longrightarrow> MG_IS_DESTROYED_WINDOW w h = Some False"
    "MG_IS_GRAPHICS_WINDOW w h = Some True \<longleftrightarrow> MG_IS_MAIN_WINDOW w h = Some True \<or> MG_IS_CONTROL_WINDOW w h = Some True"
    "MG_IS_MAIN_VIRT_WINDOW w h = Some True \<longleftrightarrow> MG_IS_MAIN_WINDOW w h = Some True \<or> MG_IS_VIRTUAL_WINDOW w h = Some True"
    "MG_IS_NORMAL_WINDOW w h = Some True \<longleftrightarrow> MG_IS_GRAPHICS_WINDOW w h = Some True \<and> MG_IS_APP_WINDOW w h = Some True"
    "MG_IS_DESTROYED_WINDOW w h = Some True \<longleftrightarrow> getMainWinIfDestroyed w h = Some h \<or> getVirtWinIfDestroyed w h = Some h \<or>
       (DataType p = TYPE_WINTODEL \<and> WinType p = TYPE_CONTROL)"
  using h by (auto simp: MG_IS_WINDOW_def MG_IS_MAIN_WINDOW_def MG_IS_CONTROL_WINDOW_def MG_IS_VIRTUAL_WINDOW_def
      MG_IS_DESTROYED_WINDOW_def MG_IS_GRAPHICS_WINDOW_def MG_IS_MAIN_VIRT_WINDOW_def MG_IS_NORMAL_WINDOW_def
      MG_IS_APP_WINDOW_def getMainWinIfDestroyed_def getVirtWinIfDestroyed_def type_defs HWND_NULL_def)

section \<open>Internal styles\<close>

definition WS_EX_INTERNAL_MASK :: uint where "WS_EX_INTERNAL_MASK = 0xF0000000"
definition WS_EX_MODALDISABLED :: uint where "WS_EX_MODALDISABLED = 0x10000000"
definition WS_EX_CTRLASMAINWIN :: uint where "WS_EX_CTRLASMAINWIN = 0x20000000"
definition WS_EX_DIALOGBOX :: uint where "WS_EX_DIALOGBOX = 0x40000000"
definition WS_EX_ACTIVATED :: uint where "WS_EX_ACTIVATED = 0x80000000"

text \<open>The test at compile time: an array of length 1, or of length -1, which is an error.\<close>

definition MGUI_COMPILE_TIME_ASSERT :: "uint \<Rightarrow> bool" where
  "MGUI_COMPILE_TIME_ASSERT x \<longleftrightarrow> (0 :: int) \<le> (if x \<noteq> 0 then 1 else 0) * 2 - 1"

text \<open>The header asserts that each style meets the mask; they are also apart and make up the mask, so that setting one
  changes no other and no style of an application.\<close>

lemma internal_styles:
  "\<forall>x \<in> {WS_EX_MODALDISABLED, WS_EX_CTRLASMAINWIN, WS_EX_DIALOGBOX, WS_EX_ACTIVATED}.
     MGUI_COMPILE_TIME_ASSERT (WS_EX_INTERNAL_MASK AND x) \<and> x AND NOT WS_EX_INTERNAL_MASK = 0"
  "WS_EX_MODALDISABLED OR WS_EX_CTRLASMAINWIN OR WS_EX_DIALOGBOX OR WS_EX_ACTIVATED = WS_EX_INTERNAL_MASK"
  "WS_EX_MODALDISABLED + WS_EX_CTRLASMAINWIN + WS_EX_DIALOGBOX + WS_EX_ACTIVATED = WS_EX_INTERNAL_MASK"
  by (simp_all add: MGUI_COMPILE_TIME_ASSERT_def WS_EX_INTERNAL_MASK_def WS_EX_MODALDISABLED_def WS_EX_CTRLASMAINWIN_def
      WS_EX_DIALOGBOX_def WS_EX_ACTIVATED_def)

end
