(* ===== verification/SharedFile.thy ===== *)
theory SharedFile
  imports CStrings
begin

text \<open>
  Files written through one open description that several descriptors or processes share: the
  samples of lecture 2 (dup.c, fork.c), and the exercise in which ten processes write lines to one
  file under a record lock (homework/wu-shixiong/multi-process-concurent-write-to-one-same-file.c).
\<close>

section \<open>An open file\<close>

text \<open>A write goes to the offset of the description, which all who share it see move.\<close>

record ofile =
  content :: string
  pos :: nat

definition fresh_ofile :: ofile where "fresh_ofile = \<lparr>content = [], pos = 0\<rparr>"

definition sys_write :: "string \<Rightarrow> ofile \<Rightarrow> ofile" where
  "sys_write d f =
     f\<lparr>content := take (pos f) (content f) @ replicate (pos f - length (content f)) (char_of (0::nat)) @ d @
         drop (pos f + length d) (content f),
       pos := pos f + length d\<rparr>"

section \<open>The samples of lecture 2\<close>

text \<open>The result of \<open>main\<close> and the file, if it was opened. With \<open>dup\<close> both descriptors share the
  description.\<close>

definition dup_main :: "bool \<Rightarrow> bool \<Rightarrow> int \<times> string option" where
  "dup_main open_ok dup_ok =
     (if \<not> open_ok then (1, None)
      else if \<not> dup_ok then (1, Some (content fresh_ofile))
      else (0, Some (content (sys_write ''5678'' (sys_write ''ABCDEFGH'' (sys_write ''1234'' fresh_ofile))))))"

text \<open>After \<open>fork\<close> the writes of the parent and of the child come in any order: the possible results.\<close>

definition fork_main :: "bool \<Rightarrow> bool \<Rightarrow> (int \<times> string option) set" where
  "fork_main open_ok fork_ok =
     (if \<not> open_ok then {(1, None)}
      else if \<not> fork_ok then {(1, Some (content fresh_ofile))}
      else (\<lambda>ds. (0, Some (content (fold sys_write ds fresh_ofile)))) ` shuffles [''1234'', ''5678''] [''ABCDEFGH''])"

section \<open>Lines of many processes\<close>

text \<open>A fully buffered stream: the buffer is written when a character comes and it is full.\<close>

definition put_char :: "nat \<Rightarrow> char \<Rightarrow> string \<times> ofile \<Rightarrow> string \<times> ofile" where
  "put_char V c s = (if length (fst s) = V then ([c], sys_write (fst s) (snd s)) else (fst s @ [c], snd s))"

definition stream_puts :: "nat \<Rightarrow> string \<Rightarrow> string \<times> ofile \<Rightarrow> string \<times> ofile" where
  "stream_puts V cs s = fold (put_char V) cs s"

text \<open>Where a process is in \<open>writeToFileLock\<close>: at the lock, before number \<open>j\<close> of the numbers of a line, at the
  flush, at the unlock, ended.\<close>

datatype writer_pc = W_lock | W_print nat | W_flush | W_unlock | W_done

datatype lock_type = F_WRLCK | F_UNLCK

record wproc =
  wr_pc :: writer_pc
  w_i :: nat
  w_buf :: string
  l_type :: lock_type

record wstate =
  wfile :: ofile
  lock_owner :: "nat option"
  procs :: "nat \<Rightarrow> wproc"

definition NUM_PROCESSES :: nat where "NUM_PROCESSES = 10"
definition WRITE_COUNTS :: nat where "WRITE_COUNTS = 100"
definition VBUF_SIZE :: nat where "VBUF_SIZE = 2048"
definition MAX_WRITE_BYTES :: nat where "MAX_WRITE_BYTES = 1024"

definition set_proc :: "nat \<Rightarrow> wproc \<Rightarrow> wstate \<Rightarrow> wstate" where
  "set_proc p q s = s\<lparr>procs := (procs s)(p := q)\<rparr>"

text \<open>\<open>fcntl (F_SETLKW)\<close>, which waits for a write lock and gives a lock back; \<open>None\<close> while it waits.\<close>

definition set_lock :: "nat \<Rightarrow> lock_type \<Rightarrow> wstate \<Rightarrow> wstate option" where
  "set_lock p t s =
     (case t of
        F_UNLCK \<Rightarrow> Some (if lock_owner s = Some p then s\<lparr>lock_owner := None\<rparr> else s)
      | F_WRLCK \<Rightarrow> if lock_owner s = None \<or> lock_owner s = Some p then Some (s\<lparr>lock_owner := Some p\<rparr>) else None)"

text \<open>A step of process \<open>p\<close>; \<open>bad\<close>: the lock call fails, and the iteration is skipped. The structure of the
  lock is set up once, before the loop, and its type is changed to unlock.\<close>

definition writer_step :: "nat \<Rightarrow> nat \<Rightarrow> nat \<Rightarrow> nat \<Rightarrow> bool \<Rightarrow> wstate \<Rightarrow> wstate option" where
  "writer_step V N C p bad s =
     (let q = procs s p in
      case wr_pc q of
        W_lock \<Rightarrow>
          (if \<not> w_i q < C then Some (set_proc p (q\<lparr>wr_pc := W_done\<rparr>) s)
           else if bad then Some (set_proc p (q\<lparr>w_i := w_i q + 1\<rparr>) s)
           else map_option (set_proc p (q\<lparr>wr_pc := W_print 0\<rparr>)) (set_lock p (l_type q) s))
      | W_print j \<Rightarrow>
          (case stream_puts V (if j < N - 1 then dec_digits p else [CHR 0x0A]) (w_buf q, wfile s) of (b, f) \<Rightarrow>
             Some (set_proc p (q\<lparr>w_buf := b, wr_pc := (if j < N - 1 then W_print (j + 1) else W_flush)\<rparr>) (s\<lparr>wfile := f\<rparr>)))
      | W_flush \<Rightarrow> Some (set_proc p (q\<lparr>w_buf := [], wr_pc := W_unlock\<rparr>) (s\<lparr>wfile := sys_write (w_buf q) (wfile s)\<rparr>))
      | W_unlock \<Rightarrow>
          map_option (set_proc p (q\<lparr>l_type := F_UNLCK, w_i := w_i q + 1, wr_pc := W_lock\<rparr>)) (set_lock p F_UNLCK s)
      | W_done \<Rightarrow> None)"

text \<open>All the processes \<open>main\<close> forks; \<open>fails\<close> says whether lock calls may fail. They start, with an empty buffer each.\<close>

definition writers_start :: "wstate \<Rightarrow> bool" where
  "writers_start s \<longleftrightarrow> wfile s = fresh_ofile \<and> lock_owner s = None \<and>
     (\<forall>p < NUM_PROCESSES. procs s p = \<lparr>wr_pc = W_lock, w_i = 0, w_buf = [], l_type = F_WRLCK\<rparr>)"

definition writers_step :: "nat \<Rightarrow> nat \<Rightarrow> nat \<Rightarrow> bool \<Rightarrow> wstate \<Rightarrow> wstate \<Rightarrow> bool" where
  "writers_step V N C fails s t \<longleftrightarrow>
     (\<exists>p < NUM_PROCESSES. \<exists>bad. (bad \<longrightarrow> fails) \<and> writer_step V N C p bad s = Some t)"

definition writers_done :: "wstate \<Rightarrow> bool" where
  "writers_done s \<longleftrightarrow> (\<forall>p < NUM_PROCESSES. wr_pc (procs s p) = W_done)"

end
