(* ===== verification/FileProps.thy ===== *)
theory FileProps
  imports SharedFile
begin

text \<open>
  What shared descriptions guarantee: no write is lost; and what keeps the lines of many processes
  apart is the size of the buffer, not the lock.
\<close>

section \<open>Writes at the end\<close>

definition at_end :: "ofile \<Rightarrow> bool" where "at_end f \<longleftrightarrow> pos f = length (content f)"

lemma sys_write_at_end: "at_end f \<Longrightarrow> at_end (sys_write d f) \<and> content (sys_write d f) = content f @ d"
  by (simp add: at_end_def sys_write_def)

lemma writes_at_end: "at_end f \<Longrightarrow> at_end (fold sys_write ds f) \<and> content (fold sys_write ds f) = content f @ concat ds"
proof (induction ds arbitrary: f)
  case (Cons d ds)
  from sys_write_at_end [OF Cons.prems, of d] Cons.IH [of "sys_write d f"] show ?case by simp
qed simp

lemma fresh_at_end [simp]: "at_end fresh_ofile" "content fresh_ofile = []"
  by (simp_all add: at_end_def fresh_ofile_def)

text \<open>Descriptors made by \<open>dup\<close> and processes made by \<open>fork\<close> share the offset, so that no write overwrites
  another: the file of dup.c holds the three texts in the order of the writes, that of fork.c one of three
  interleavings.\<close>

theorem shared_offset:
  "dup_main True True = (0, Some ''1234ABCDEFGH5678'')"
  "fork_main True True = {(0, Some ''12345678ABCDEFGH''), (0, Some ''1234ABCDEFGH5678''), (0, Some ''ABCDEFGH12345678'')}"
proof -
  show "dup_main True True = (0, Some ''1234ABCDEFGH5678'')"
    using writes_at_end [of fresh_ofile "[''1234'', ''ABCDEFGH'', ''5678'']"] by (simp add: dup_main_def)
  have "fork_main True True = (\<lambda>ds. (0, Some (concat ds))) ` shuffles [''1234'', ''5678''] [''ABCDEFGH'']"
    unfolding fork_main_def using writes_at_end [of fresh_ofile] by simp
  then show "fork_main True True = {(0, Some ''12345678ABCDEFGH''), (0, Some ''1234ABCDEFGH5678''), (0, Some ''ABCDEFGH12345678'')}"
    by (auto simp: Cons_in_shuffles_iff)
qed

section \<open>Lines of many processes\<close>

definition digit_of :: "nat \<Rightarrow> char" where "digit_of p = char_of (48 + p)"

definition line_of :: "nat \<Rightarrow> nat \<Rightarrow> string" where
  "line_of N p = replicate (N - 1) (digit_of p) @ [CHR 0x0A]"

lemma dec_digits_small: "p < NUM_PROCESSES \<Longrightarrow> dec_digits p = [digit_of p]"
  by (subst dec_digits.simps) (simp add: NUM_PROCESSES_def digit_of_def)

lemma digit_of_inj:
  assumes "digit_of p = digit_of q" "p < NUM_PROCESSES" "q < NUM_PROCESSES"
  shows "p = q"
proof -
  have "(of_char (digit_of p) :: nat) = of_char (digit_of q)" using assms(1) by simp
  then show ?thesis using assms(2,3) by (simp add: digit_of_def NUM_PROCESSES_def)
qed

lemma line_of_inj:
  assumes "line_of N p = line_of N q" "2 \<le> N" "p < NUM_PROCESSES" "q < NUM_PROCESSES"
  shows "p = q"
proof -
  have "hd (line_of N p) = hd (line_of N q)" using assms(1) by simp
  moreover have "replicate (N - 1) c \<noteq> []" for c :: char using assms(2) by simp
  ultimately have "digit_of p = digit_of q" by (simp add: line_of_def)
  then show ?thesis using digit_of_inj assms(3,4) by blast
qed

text \<open>What holds of a process, given the lines \<open>ls\<close> of the file and the owner of the lock.\<close>

definition wproc_ok :: "nat \<Rightarrow> nat \<Rightarrow> bool \<Rightarrow> string list \<Rightarrow> nat option \<Rightarrow> nat \<Rightarrow> wproc \<Rightarrow> bool" where
  "wproc_ok N C fails ls own p q \<longleftrightarrow>
     (case wr_pc q of
        W_print j \<Rightarrow> j < N \<and> w_buf q = replicate j (digit_of p) \<and> w_i q < C
      | W_flush \<Rightarrow> w_buf q = line_of N p \<and> w_i q < C
      | W_unlock \<Rightarrow> w_buf q = [] \<and> w_i q < C
      | W_done \<Rightarrow> w_buf q = [] \<and> w_i q = C
      | W_lock \<Rightarrow> w_buf q = [] \<and> w_i q \<le> C) \<and>
     count_list ls (line_of N p) \<le> w_i q + (if wr_pc q = W_unlock then 1 else 0) \<and>
     (\<not> fails \<longrightarrow> count_list ls (line_of N p) = w_i q + (if wr_pc q = W_unlock then 1 else 0)) \<and>
     (l_type q = F_WRLCK \<longrightarrow> count_list ls (line_of N p) = (if wr_pc q = W_unlock then 1 else 0)) \<and>
     (own = Some p \<longrightarrow> l_type q = F_WRLCK \<and> wr_pc q \<noteq> W_lock \<and> wr_pc q \<noteq> W_done)"

definition writers_inv :: "nat \<Rightarrow> nat \<Rightarrow> nat \<Rightarrow> bool \<Rightarrow> wstate \<Rightarrow> bool" where
  "writers_inv V N C fails s \<longleftrightarrow> 2 \<le> N \<and> N \<le> V \<and> at_end (wfile s) \<and> (\<forall>p. lock_owner s = Some p \<longrightarrow> p < NUM_PROCESSES) \<and>
     (\<exists>ls. content (wfile s) = concat ls \<and> set ls \<subseteq> line_of N ` {..<NUM_PROCESSES} \<and>
        (\<forall>p < NUM_PROCESSES. wproc_ok N C fails ls (lock_owner s) p (procs s p)))"

lemma wproc_frame:
  "wproc_ok N C fails ls own p q \<Longrightarrow> (own' = Some p \<Longrightarrow> own = Some p) \<Longrightarrow>
    count_list ls' (line_of N p) = count_list ls (line_of N p) \<Longrightarrow> wproc_ok N C fails ls' own' p q"
  by (auto simp: wproc_ok_def)

text \<open>The steps a process has left.\<close>

definition proc_rank :: "nat \<Rightarrow> nat \<Rightarrow> wproc \<Rightarrow> nat" where
  "proc_rank N C q =
     (case wr_pc q of
        W_lock \<Rightarrow> (C - w_i q) * (N + 3) + 1
      | W_print j \<Rightarrow> (C - w_i q - 1) * (N + 3) + (N - j) + 3
      | W_flush \<Rightarrow> (C - w_i q - 1) * (N + 3) + 3
      | W_unlock \<Rightarrow> (C - w_i q - 1) * (N + 3) + 2
      | W_done \<Rightarrow> 0)"

lemma rank_unfold: "i < C \<Longrightarrow> (C - i) * K = (C - i - 1) * K + (K :: nat)"
proof -
  assume "i < C"
  then have "C - i = Suc (C - i - 1)" by simp
  then show ?thesis by (metis add.commute mult_Suc)
qed

text \<open>What a step does to its process, the lock and the lines.\<close>

definition writer_effect :: "nat \<Rightarrow> nat \<Rightarrow> bool \<Rightarrow> string list \<Rightarrow> nat \<Rightarrow> wstate \<Rightarrow> wstate \<Rightarrow> bool" where
  "writer_effect N C fails ls p s t \<longleftrightarrow>
     (\<exists>q' ls'. procs t = (procs s)(p := q') \<and> at_end (wfile t) \<and> content (wfile t) = concat ls' \<and>
        (ls' = ls \<or> ls' = ls @ [line_of N p]) \<and> (lock_owner t = lock_owner s \<or> lock_owner t = Some p \<or> lock_owner t = None) \<and>
        wproc_ok N C fails ls' (lock_owner t) p q' \<and> proc_rank N C q' < proc_rank N C (procs s p))"

lemma set_lock_frame:
  assumes "set_lock p t s = Some s'"
  shows "procs s' = procs s \<and> wfile s' = wfile s \<and> (lock_owner s' = lock_owner s \<or> lock_owner s' = Some p \<or> lock_owner s' = None)"
  using assms by (auto simp: set_lock_def split: lock_type.splits if_splits)

lemma lock_effect:
  assumes pc: "wr_pc (procs s p) = W_lock" and q: "wproc_ok N C fails ls (lock_owner s) p (procs s p)" "2 \<le> N" "bad \<longrightarrow> fails"
    and f: "at_end (wfile s)" "content (wfile s) = concat ls" and st: "writer_step V N C p bad s = Some t"
  shows "writer_effect N C fails ls p s t"
proof (cases "w_i (procs s p) < C")
  case False
  then have "t = set_proc p ((procs s p)\<lparr>wr_pc := W_done\<rparr>) s" using st pc by (simp add: writer_step_def Let_def)
  then show ?thesis unfolding writer_effect_def using q f pc False
    by (intro exI [of _ "(procs s p)\<lparr>wr_pc := W_done\<rparr>"] exI [of _ ls]) (auto simp: set_proc_def wproc_ok_def proc_rank_def)
next
  case i: True
  note r = rank_unfold [OF i, of "N + 3"]
  show ?thesis
  proof (cases bad)
    case True
    then have "t = set_proc p ((procs s p)\<lparr>w_i := w_i (procs s p) + 1\<rparr>) s" using st pc i by (simp add: writer_step_def Let_def)
    then show ?thesis unfolding writer_effect_def using q f pc i True r
      by (intro exI [of _ "(procs s p)\<lparr>w_i := w_i (procs s p) + 1\<rparr>"] exI [of _ ls])
        (auto simp: set_proc_def wproc_ok_def proc_rank_def)
  next
    case False
    then obtain s' where s': "set_lock p (l_type (procs s p)) s = Some s'" "t = set_proc p ((procs s p)\<lparr>wr_pc := W_print 0\<rparr>) s'"
      using st pc i by (auto simp: writer_step_def Let_def)
    note fr = set_lock_frame [OF s'(1)]
    have own: "lock_owner s' = Some p \<longrightarrow> l_type (procs s p) = F_WRLCK"
      using s'(1) q(1) by (auto simp: set_lock_def wproc_ok_def split: lock_type.splits if_splits)
    show ?thesis unfolding writer_effect_def using q f pc i s'(2) fr own r
      by (intro exI [of _ "(procs s p)\<lparr>wr_pc := W_print 0\<rparr>"] exI [of _ ls])
        (auto simp: set_proc_def wproc_ok_def proc_rank_def)
  qed
qed

lemma print_effect:
  assumes pc: "wr_pc (procs s p) = W_print j" and q: "wproc_ok N C fails ls (lock_owner s) p (procs s p)" "2 \<le> N" "N \<le> V"
    and f: "at_end (wfile s)" "content (wfile s) = concat ls" and st: "writer_step V N C p bad s = Some t" and p: "p < NUM_PROCESSES"
  shows "writer_effect N C fails ls p s t"
proof -
  have j: "j < N" "w_buf (procs s p) = replicate j (digit_of p)" using q pc by (auto simp: wproc_ok_def)
  let ?c = "if j < N - 1 then digit_of p else CHR 0x0A"
  have "stream_puts V (if j < N - 1 then dec_digits p else [CHR 0x0A]) (w_buf (procs s p), wfile s) =
      (replicate j (digit_of p) @ [?c], wfile s)"
    using j q(3) dec_digits_small [OF p] by (simp add: stream_puts_def put_char_def)
  moreover have "replicate j (digit_of p) @ [?c] = (if j < N - 1 then replicate (Suc j) (digit_of p) else line_of N p)"
    using j(1) by (auto simp: line_of_def replicate_append_same [symmetric] intro: arg_cong [where f = "\<lambda>n. replicate n (digit_of p)"])
  ultimately have t: "t = set_proc p ((procs s p)\<lparr>w_buf := (if j < N - 1 then replicate (Suc j) (digit_of p) else line_of N p),
      wr_pc := (if j < N - 1 then W_print (j + 1) else W_flush)\<rparr>) s"
    using st pc by (simp add: writer_step_def Let_def)
  show ?thesis unfolding writer_effect_def using q f pc t j
    by (intro exI [of _ "procs t p"] exI [of _ ls]) (auto simp: set_proc_def wproc_ok_def proc_rank_def)
qed

lemma flush_effect:
  assumes pc: "wr_pc (procs s p) = W_flush" and q: "wproc_ok N C fails ls (lock_owner s) p (procs s p)"
    and f: "at_end (wfile s)" "content (wfile s) = concat ls" and st: "writer_step V N C p bad s = Some t"
  shows "writer_effect N C fails ls p s t"
proof -
  have t: "t = set_proc p ((procs s p)\<lparr>w_buf := [], wr_pc := W_unlock\<rparr>) (s\<lparr>wfile := sys_write (line_of N p) (wfile s)\<rparr>)"
    using st pc q by (simp add: writer_step_def Let_def wproc_ok_def)
  show ?thesis unfolding writer_effect_def using q pc t sys_write_at_end [OF f(1), of "line_of N p"] f(2)
    by (intro exI [of _ "(procs s p)\<lparr>w_buf := [], wr_pc := W_unlock\<rparr>"] exI [of _ "ls @ [line_of N p]"])
      (auto simp: set_proc_def wproc_ok_def proc_rank_def)
qed

lemma unlock_effect:
  assumes pc: "wr_pc (procs s p) = W_unlock" and q: "wproc_ok N C fails ls (lock_owner s) p (procs s p)"
    and f: "at_end (wfile s)" "content (wfile s) = concat ls" and st: "writer_step V N C p bad s = Some t"
  shows "writer_effect N C fails ls p s t"
proof -
  obtain s' where s': "set_lock p F_UNLCK s = Some s'"
    "t = set_proc p ((procs s p)\<lparr>l_type := F_UNLCK, w_i := w_i (procs s p) + 1, wr_pc := W_lock\<rparr>) s'"
    using st pc by (auto simp: writer_step_def Let_def)
  have fr: "procs s' = procs s" "wfile s' = wfile s" "lock_owner s' \<noteq> Some p" "lock_owner s' = lock_owner s \<or> lock_owner s' = None"
    using s'(1) by (auto simp: set_lock_def split: if_splits)
  have i: "w_i (procs s p) < C" using q pc by (simp add: wproc_ok_def)
  show ?thesis unfolding writer_effect_def using q pc s'(2) f fr i
    by (intro exI [of _ "procs t p"] exI [of _ ls]) (auto simp: set_proc_def wproc_ok_def proc_rank_def)
qed

lemma writer_effect_step:
  assumes q: "wproc_ok N C fails ls (lock_owner s) p (procs s p)" "2 \<le> N" "N \<le> V" "bad \<longrightarrow> fails"
    and f: "at_end (wfile s)" "content (wfile s) = concat ls" and st: "writer_step V N C p bad s = Some t" and p: "p < NUM_PROCESSES"
  shows "writer_effect N C fails ls p s t"
proof (cases "wr_pc (procs s p)")
  case W_lock
  then show ?thesis using lock_effect q f st by blast
next
  case (W_print j)
  then show ?thesis using print_effect q f st p by blast
next
  case W_flush
  then show ?thesis using flush_effect q f st by blast
next
  case W_unlock
  then show ?thesis using unlock_effect q f st by blast
next
  case W_done
  then show ?thesis using st by (simp add: writer_step_def Let_def)
qed

definition writers_rank :: "nat \<Rightarrow> nat \<Rightarrow> wstate \<Rightarrow> nat" where
  "writers_rank N C s = (\<Sum>p < NUM_PROCESSES. proc_rank N C (procs s p))"

lemma writers_step_inv:
  assumes inv: "writers_inv V N C fails s" and st: "writers_step V N C fails s t"
  shows "writers_inv V N C fails t \<and> writers_rank N C t < writers_rank N C s"
proof -
  from inv obtain ls where n: "2 \<le> N" "N \<le> V" and f: "at_end (wfile s)" "content (wfile s) = concat ls"
    and o: "\<forall>p. lock_owner s = Some p \<longrightarrow> p < NUM_PROCESSES" and ls: "set ls \<subseteq> line_of N ` {..<NUM_PROCESSES}"
    and ok: "\<And>p. p < NUM_PROCESSES \<Longrightarrow> wproc_ok N C fails ls (lock_owner s) p (procs s p)"
    by (auto simp: writers_inv_def)
  from st obtain p bad where p: "p < NUM_PROCESSES" "bad \<longrightarrow> fails" "writer_step V N C p bad s = Some t"
    by (auto simp: writers_step_def)
  from writer_effect_step [OF ok [OF p(1)] n p(2) f p(3,1)] obtain q' ls' where
    e: "procs t = (procs s)(p := q')" "at_end (wfile t)" "content (wfile t) = concat ls'" "ls' = ls \<or> ls' = ls @ [line_of N p]"
      "lock_owner t = lock_owner s \<or> lock_owner t = Some p \<or> lock_owner t = None"
      "wproc_ok N C fails ls' (lock_owner t) p q'" "proc_rank N C q' < proc_rank N C (procs s p)"
    unfolding writer_effect_def by blast
  have other: "wproc_ok N C fails ls' (lock_owner t) r (procs t r)" if r: "r < NUM_PROCESSES" for r
  proof (cases "r = p")
    case False
    then have "line_of N p \<noteq> line_of N r" using line_of_inj [OF _ n(1) p(1) r] by blast
    then have "count_list ls' (line_of N r) = count_list ls (line_of N r)" using e(4) by auto
    moreover have "lock_owner t = Some r \<Longrightarrow> lock_owner s = Some r" using e(5) False by auto
    ultimately show ?thesis using wproc_frame [OF ok [OF r]] e(1) False by simp
  qed (use e in simp)
  have "set ls' \<subseteq> line_of N ` {..<NUM_PROCESSES}" using ls e(4) p(1) by auto
  moreover have "\<forall>r. lock_owner t = Some r \<longrightarrow> r < NUM_PROCESSES" using o e(5) p(1) by auto
  ultimately have "writers_inv V N C fails t" unfolding writers_inv_def using n e(2,3) other by blast
  moreover have "writers_rank N C t < writers_rank N C s" unfolding writers_rank_def
    by (rule sum_strict_mono_ex1) (use p(1) e(1,7) in auto)
  ultimately show ?thesis by blast
qed

lemma writers_progress:
  assumes inv: "writers_inv V N C fails s" and nd: "\<not> writers_done s"
  shows "\<exists>t. writers_step V N C fails s t"
proof -
  have ok: "\<exists>ls. wproc_ok N C fails ls (lock_owner s) p (procs s p)" if "p < NUM_PROCESSES" for p
    using inv that by (auto simp: writers_inv_def)
  have o: "lock_owner s = Some p \<Longrightarrow> p < NUM_PROCESSES" for p using inv by (simp add: writers_inv_def)
  have go: "\<exists>t. writers_step V N C fails s t" if h: "p < NUM_PROCESSES" "writer_step V N C p False s \<noteq> None" for p
  proof -
    obtain t where "writer_step V N C p False s = Some t" using h(2) by blast
    then have "writers_step V N C fails s t" unfolding writers_step_def using h(1) by (intro exI [of _ p] conjI exI [of _ False]) simp_all
    then show ?thesis by blast
  qed
  show ?thesis
  proof (cases "\<exists>p < NUM_PROCESSES. wr_pc (procs s p) \<noteq> W_lock \<and> wr_pc (procs s p) \<noteq> W_done")
    case True
    then obtain p where p: "p < NUM_PROCESSES" "wr_pc (procs s p) \<noteq> W_lock" "wr_pc (procs s p) \<noteq> W_done" by blast
    then have "writer_step V N C p False s \<noteq> None"
      by (cases "wr_pc (procs s p)") (auto simp: writer_step_def Let_def set_lock_def split: prod.split)
    then show ?thesis using go p(1) by blast
  next
    case False
    have "lock_owner s \<noteq> Some p" for p
    proof
      assume "lock_owner s = Some p"
      with ok [OF o [OF this]] False o [OF this] show False by (auto simp: wproc_ok_def)
    qed
    then have "lock_owner s = None" by (cases "lock_owner s") auto
    moreover obtain p where p: "p < NUM_PROCESSES" "wr_pc (procs s p) = W_lock" using nd False by (auto simp: writers_done_def)
    ultimately have "writer_step V N C p False s \<noteq> None"
      by (auto simp: writer_step_def Let_def set_lock_def split: lock_type.split)
    then show ?thesis using go p(1) by blast
  qed
qed

interpretation writers: terminating_system "writers_inv V N C fails" "writers_step V N C fails" "writers_inv V N C fails"
    writers_done "writers_rank N C" for V N C fails
  by unfold_locales (use writers_step_inv writers_progress in blast)+

lemma writers_start_inv:
  assumes "2 \<le> N" "N \<le> V" "writers_start s"
  shows "writers_inv V N C fails s" "writers_rank N C s = NUM_PROCESSES * (C * (N + 3) + 1)"
proof -
  show "writers_inv V N C fails s" unfolding writers_inv_def using assms
    by (intro conjI exI [of _ "[]"]) (auto simp: writers_start_def wproc_ok_def)
  have "writers_rank N C s = (\<Sum>p < NUM_PROCESSES. C * (N + 3) + 1)"
    unfolding writers_rank_def using assms(3) by (intro sum.cong) (auto simp: writers_start_def proc_rank_def)
  then show "writers_rank N C s = NUM_PROCESSES * (C * (N + 3) + 1)" by simp
qed

text \<open>C31. Ten processes write lines to one file. If a line fits into the buffer of the stream, then in any
  interleaving the file consists of whole lines of the processes, and every run ends after a bounded number of
  steps, can always be completed, and if no lock call fails leaves the same number of lines of each process. The
  lock plays no part in this: whoever holds it is writing its first line, all others are written without it.\<close>

theorem writers_lines:
  assumes n: "2 \<le> N" "N \<le> V" and s: "writers_start s" and run: "(writers_step V N C fails ^^ n) s t"
  shows "n \<le> NUM_PROCESSES * (C * (N + 3) + 1) \<and> (\<exists>u. (writers_step V N C fails)\<^sup>*\<^sup>* t u \<and> writers_done u) \<and>
    (\<exists>ls. content (wfile t) = concat ls \<and> set ls \<subseteq> line_of N ` {..<NUM_PROCESSES} \<and>
       (\<forall>p < NUM_PROCESSES. lock_owner t = Some p \<longrightarrow> count_list ls (line_of N p) \<le> 1) \<and>
       (\<forall>p < NUM_PROCESSES. writers_done t \<longrightarrow> \<not> fails \<longrightarrow> count_list ls (line_of N p) = C))"
proof -
  have inv: "writers_inv V N C fails s" "writers_rank N C s = NUM_PROCESSES * (C * (N + 3) + 1)"
    by (rule writers_start_inv [OF n s])+
  have t: "writers_inv V N C fails t" by (rule writers.steps_inv [OF relpowp_imp_rtranclp [OF run] inv(1)])
  have "n \<le> NUM_PROCESSES * (C * (N + 3) + 1)" using writers.run_bounded [OF run inv(1)] inv(2) by simp
  moreover from t obtain ls where ls: "content (wfile t) = concat ls" "set ls \<subseteq> line_of N ` {..<NUM_PROCESSES}"
    "\<forall>p < NUM_PROCESSES. wproc_ok N C fails ls (lock_owner t) p (procs t p)" by (auto simp: writers_inv_def)
  moreover have "count_list ls (line_of N p) \<le> 1" if "p < NUM_PROCESSES" "lock_owner t = Some p" for p
    using ls(3) that by (auto simp: wproc_ok_def split: if_splits)
  moreover have "count_list ls (line_of N p) = C" if "p < NUM_PROCESSES" "writers_done t" "\<not> fails" for p
    using ls(3) that by (auto simp: wproc_ok_def writers_done_def)
  ultimately show ?thesis using writers.completes [OF t] by blast
qed

theorem writers_lines_witness:
  "\<exists>s u. writers_start s \<and> (writers_step VBUF_SIZE MAX_WRITE_BYTES WRITE_COUNTS False)\<^sup>*\<^sup>* s u \<and> writers_done u"
proof -
  let ?s = "\<lparr>wfile = fresh_ofile, lock_owner = None, procs = (\<lambda>_. \<lparr>wr_pc = W_lock, w_i = 0, w_buf = [], l_type = F_WRLCK\<rparr>)\<rparr>"
  have s: "writers_start ?s" by (simp add: writers_start_def)
  have "2 \<le> MAX_WRITE_BYTES" "MAX_WRITE_BYTES \<le> VBUF_SIZE" by (simp_all add: MAX_WRITE_BYTES_def VBUF_SIZE_def)
  moreover have "(writers_step VBUF_SIZE MAX_WRITE_BYTES WRITE_COUNTS False ^^ 0) ?s ?s" by simp
  ultimately have "\<exists>u. (writers_step VBUF_SIZE MAX_WRITE_BYTES WRITE_COUNTS False)\<^sup>*\<^sup>* ?s u \<and> writers_done u"
    using writers_lines [OF _ _ s] by blast
  with s show ?thesis by blast
qed

end
