(* ===== verification/DirWalk.thy ===== *)
theory DirWalk
  imports CStrings ThreadPool
begin

text \<open>
  Two walks of a directory tree: counting files and directories
  (homework/wu-shixiong/recursive-iterator-directory.c), and adding up the sizes of files, one task
  of the thread pool for each entry (homework/po/lecture-4/exercise_1/thread/client.c).
\<close>

section \<open>Directories\<close>

text \<open>A directory (that can be opened or not) with the entries in the order \<open>readdir\<close> returns them, a regular
  file with its size, another object with its size; \<open>FSelf\<close> stands for the directory that is entered as \<open>.\<close>
  or \<open>..\<close>.\<close>

datatype fnode = FDir bool "(string \<times> fnode) list" | FReg nat | FOther nat | FSelf

definition dots :: "string set" where "dots = {''.'', ''..''}"

section \<open>Counting\<close>

definition MAX_PATH_LENGTH :: nat where "MAX_PATH_LENGTH = 4096"

definition join_path :: "string \<Rightarrow> string \<Rightarrow> string" where
  "join_path path name = path @ ''/'' @ name"

text \<open>The lines printed, the number of files and of directories. \<open>None\<close>: the path with its terminator does not
  fit into the buffer.\<close>

fun count_files :: "string \<Rightarrow> fnode \<Rightarrow> string list \<times> nat \<times> nat \<Rightarrow> (string list \<times> nat \<times> nat) option"
  and count_entries :: "string \<Rightarrow> (string \<times> fnode) list \<Rightarrow> string list \<times> nat \<times> nat \<Rightarrow> (string list \<times> nat \<times> nat) option" where
  "count_files path (FDir readable es) s = (if readable then count_entries path es s else Some s)"
| "count_files path (FReg n) s = Some s"
| "count_files path (FOther n) s = Some s"
| "count_files path FSelf s = Some s"
| "count_entries path [] s = Some s"
| "count_entries path ((name, e) # es) (out, f, d) =
     (if name = ''.'' \<or> name = ''..'' then count_entries path es (out, f, d)
      else let full = join_path path name in
      if MAX_PATH_LENGTH \<le> length full then None
      else case e of
          FDir r cs \<Rightarrow> do {
            s1 \<leftarrow> count_files full (FDir r cs) (out @ [''DIR: '' @ full], f, d + 1);
            count_entries path es s1 }
        | FReg n \<Rightarrow> count_entries path es (out @ [''FILE: '' @ full], f + 1, d)
        | _ \<Rightarrow> count_entries path es (out, f, d))"

text \<open>The result of \<open>main\<close> and the lines it prints.\<close>

definition count_main :: "string list \<Rightarrow> fnode \<Rightarrow> (int \<times> string list) option" where
  "count_main argv t =
     (case argv of
        [prog, path] \<Rightarrow>
          map_option (\<lambda>(out, f, d). (0, out @ [''Total Directories: '' @ dec_digits d, ''Total Files: '' @ dec_digits f]))
            (count_files path t ([], 0, 0))
      | prog # _ \<Rightarrow> Some (1, [''Usage: '' @ prog @ '' <dir>''])
      | [] \<Rightarrow> None)"

section \<open>Sizes\<close>

text \<open>\<open>strcmp\<close> is a parameter: the standard fixes only the sign of its result.\<close>

definition skips :: "(string \<Rightarrow> string \<Rightarrow> int) \<Rightarrow> string \<Rightarrow> bool" where
  "skips strcmp name \<longleftrightarrow> strcmp name ''.'' AND strcmp name ''..'' = 0"

text \<open>\<open>sz\<close> turns a size into the type of the sum. \<open>None\<close>: a directory that cannot be opened is read through a
  NULL pointer, or a directory is entered again and again. \<open>stat\<close> is taken to succeed on an entry.\<close>

fun get_dir_size :: "(string \<Rightarrow> string \<Rightarrow> int) \<Rightarrow> (nat \<Rightarrow> 'v::comm_monoid_add) \<Rightarrow> fnode \<Rightarrow> 'v option"
  and entries_size :: "(string \<Rightarrow> string \<Rightarrow> int) \<Rightarrow> (nat \<Rightarrow> 'v) \<Rightarrow> (string \<times> fnode) list \<Rightarrow> 'v \<Rightarrow> 'v option" where
  "get_dir_size strcmp sz (FDir readable es) = (if readable then entries_size strcmp sz es 0 else None)"
| "get_dir_size strcmp sz (FReg n) = Some (0 + sz n)"
| "get_dir_size strcmp sz (FOther n) = Some (0 + sz n)"
| "get_dir_size strcmp sz FSelf = None"
| "entries_size strcmp sz [] acc = Some acc"
| "entries_size strcmp sz ((name, e) # es) acc =
     (if skips strcmp name then entries_size strcmp sz es acc
      else do { n \<leftarrow> get_dir_size strcmp sz e; entries_size strcmp sz es (acc + n) })"

text \<open>\<open>submit_cal_dir_size_job\<close>: the entries that get a task. A \<open>Param\<close> is known by its number.\<close>

definition WORKER_FN :: procptr where "WORKER_FN = 1"

definition submit_cal_dir_size_job :: "(string \<Rightarrow> string \<Rightarrow> int) \<Rightarrow> fnode \<Rightarrow> (fnode list \<times> (procptr \<times> dword) list) option" where
  "submit_cal_dir_size_job strcmp dir =
     (case dir of
        FDir True es \<Rightarrow>
          (let params = map snd (filter (\<lambda>(name, e). \<not> skips strcmp name) es)
           in Some (params, map (\<lambda>i. (WORKER_FN, of_nat i)) [0..<length params]))
      | _ \<Rightarrow> None)"

text \<open>The value of the task function on the parameters of the jobs.\<close>

definition worker_fn :: "(string \<Rightarrow> string \<Rightarrow> int) \<Rightarrow> (nat \<Rightarrow> 'v::comm_monoid_add) \<Rightarrow> fnode list \<Rightarrow> procptr \<Rightarrow> dword \<Rightarrow> 'v" where
  "worker_fn strcmp sz params fn param =
     (case arr_get params (unat param) of
        None \<Rightarrow> 0
      | Some e \<Rightarrow> (case get_dir_size strcmp sz e of None \<Rightarrow> 0 | Some n \<Rightarrow> n))"

text \<open>\<open>strcmp\<close> as the difference of the first bytes that differ, and as a sign.\<close>

fun byte_strcmp :: "string \<Rightarrow> string \<Rightarrow> int" where
  "byte_strcmp [] [] = 0"
| "byte_strcmp [] (b # bs) = - int (of_char b)"
| "byte_strcmp (a # as) [] = int (of_char a)"
| "byte_strcmp (a # as) (b # bs) = (if a = b then byte_strcmp as bs else int (of_char a) - int (of_char b))"

definition sign_strcmp :: "string \<Rightarrow> string \<Rightarrow> int" where
  "sign_strcmp a b = sgn (byte_strcmp a b)"

end
