(* ===== verification/DirProps.thy ===== *)
theory DirProps
  imports DirWalk PoolProps
begin

text \<open>
  What the walks of a directory tree compute: the number of files and directories and the total size
  of the files, as sums over the paths of the tree; and the test for the entries to leave out.
\<close>

section \<open>Paths of a tree\<close>

text \<open>The object at a path, given by its names; nothing is reached through \<open>.\<close>, \<open>..\<close> or a directory that
  cannot be opened.\<close>

fun lookup :: "fnode \<Rightarrow> string list \<Rightarrow> fnode option" where
  "lookup t [] = Some t"
| "lookup (FDir True es) (n # ns) =
     (if n \<in> dots then None else case map_of es n of None \<Rightarrow> None | Some e \<Rightarrow> lookup e ns)"
| "lookup t (n # ns) = None"

definition paths :: "(fnode \<Rightarrow> bool) \<Rightarrow> fnode \<Rightarrow> string list set" where
  "paths Q t = {ps. \<exists>e. lookup t ps = Some e \<and> Q e}"

definition below :: "(fnode \<Rightarrow> bool) \<Rightarrow> fnode \<Rightarrow> string list set" where
  "below Q t = paths Q t - {[]}"

definition entry_paths :: "(fnode \<Rightarrow> bool) \<Rightarrow> (string \<times> fnode) list \<Rightarrow> string list set" where
  "entry_paths Q es = {ps. case ps of [] \<Rightarrow> False
     | n # qs \<Rightarrow> n \<notin> dots \<and> (\<exists>e. map_of es n = Some e \<and> qs \<in> paths Q e)}"

text \<open>The names of a directory are C strings that differ, and the dots stand for directories entered already.\<close>

fun tree_ok :: "fnode \<Rightarrow> bool" where
  "tree_ok (FDir r es) \<longleftrightarrow> distinct (map fst es) \<and>
     (\<forall>x \<in> set es. tree_ok (snd x) \<and> (snd x = FSelf \<longleftrightarrow> fst x \<in> dots) \<and> CHR 0x00 \<notin> set (fst x))"
| "tree_ok t \<longleftrightarrow> True"

lemma paths_below: "paths Q t = (if Q t then insert [] (below Q t) else below Q t)"
  by (auto simp: paths_def below_def)

lemma lookup_leaf [simp]:
  "lookup (FDir False es) ps = (if ps = [] then Some (FDir False es) else None)"
  "lookup (FReg n) ps = (if ps = [] then Some (FReg n) else None)"
  "lookup (FOther n) ps = (if ps = [] then Some (FOther n) else None)"
  "lookup FSelf ps = (if ps = [] then Some FSelf else None)"
  by (cases ps; simp)+

lemma below_simps [simp]:
  "below Q (FDir True es) = entry_paths Q es" "below Q (FDir False es) = {}"
  "below Q (FReg n) = {}" "below Q (FOther n) = {}" "below Q FSelf = {}"
proof -
  show "below Q (FDir True es) = entry_paths Q es"
  proof (rule set_eqI)
    fix ps
    show "ps \<in> below Q (FDir True es) \<longleftrightarrow> ps \<in> entry_paths Q es"
      by (cases ps) (auto simp: below_def paths_def entry_paths_def split: option.splits)
  qed
  show "below Q (FDir False es) = {}" "below Q (FReg n) = {}" "below Q (FOther n) = {}" "below Q FSelf = {}"
    by (simp_all add: below_def paths_def) auto
qed

lemma entry_paths_Nil [simp]: "entry_paths Q [] = {}"
  by (auto simp: entry_paths_def split: list.splits)

lemma entry_paths_Cons:
  assumes "n \<notin> fst ` set es"
  shows "entry_paths Q ((n, e) # es) = (if n \<in> dots then {} else (#) n ` paths Q e) \<union> entry_paths Q es"
    "(#) n ` A \<inter> entry_paths Q es = {}"
proof -
  have "map_of es n = None" using assms by (simp add: map_of_eq_None_iff)
  then show "entry_paths Q ((n, e) # es) = (if n \<in> dots then {} else (#) n ` paths Q e) \<union> entry_paths Q es"
    "(#) n ` A \<inter> entry_paths Q es = {}"
    by (auto simp: entry_paths_def split: list.splits if_splits)
qed

lemma finite_below: "tree_ok t \<Longrightarrow> finite (below Q t)"
proof (induction t)
  case (FDir r es)
  have "finite (entry_paths Q xs)" if "set xs \<subseteq> set es" "distinct (map fst xs)" for xs
    using that
  proof (induction xs)
    case (Cons x xs)
    obtain n e where x: "x = (n, e)" by (cases x)
    have "tree_ok e" using FDir.prems Cons.prems(1) by (auto simp: x)
    then have "finite (below Q e)" using FDir.IH [of x e] Cons.prems(1) by (simp add: x)
    then have "finite (paths Q e)" by (simp add: paths_below)
    moreover have "finite (entry_paths Q xs)" using Cons by auto
    ultimately show ?case using entry_paths_Cons(1) [of n xs Q e] Cons.prems(2) by (simp add: x)
  qed simp
  then show ?case using FDir.prems by (cases r) auto
qed simp_all

lemma finite_paths: "tree_ok t \<Longrightarrow> finite (paths Q t)"
  by (simp add: paths_below finite_below)

lemma finite_entry_paths: "tree_ok (FDir r es) \<Longrightarrow> finite (entry_paths Q es)"
  using finite_below [of "FDir True es" Q] by simp

text \<open>A sum over the paths, entry by entry.\<close>

lemma sum_entry_paths:
  fixes g :: "string list \<Rightarrow> 'v::comm_monoid_add"
  assumes "tree_ok (FDir r ((n, e) # es))"
  shows "sum g (entry_paths Q ((n, e) # es)) =
    (if n \<in> dots then 0 else sum (\<lambda>ps. g (n # ps)) (paths Q e)) + sum g (entry_paths Q es)"
proof -
  have n: "n \<notin> fst ` set es" and e: "tree_ok e" "tree_ok (FDir r es)" using assms by auto
  note c = entry_paths_Cons [OF n]
  have f: "finite (paths Q e)" "finite (entry_paths Q es)" using finite_paths finite_entry_paths e by blast+
  show ?thesis
  proof (cases "n \<in> dots")
    case False
    have "sum g ((#) n ` paths Q e \<union> entry_paths Q es) = sum g ((#) n ` paths Q e) + sum g (entry_paths Q es)"
      using f c(2) by (intro sum.union_disjoint) auto
    also have "sum g ((#) n ` paths Q e) = sum (\<lambda>ps. g (n # ps)) (paths Q e)" by (subst sum.reindex) auto
    finally show ?thesis using c(1) False by simp
  qed (use c(1) in simp)
qed

lemma card_entry_paths:
  assumes "tree_ok (FDir r ((n, e) # es))"
  shows "card (entry_paths Q ((n, e) # es)) = (if n \<in> dots then 0 else card (paths Q e)) + card (entry_paths Q es)"
  unfolding card_eq_sum by (rule sum_entry_paths [OF assms])

lemma card_paths: "tree_ok t \<Longrightarrow> card (paths Q t) = (if Q t then 1 else 0) + card (below Q t)"
proof -
  assume "tree_ok t"
  moreover have "[] \<notin> below Q t" by (simp add: below_def)
  ultimately show ?thesis by (simp add: paths_below finite_below card_insert_disjoint)
qed

section \<open>Counting\<close>

fun is_file :: "fnode \<Rightarrow> bool" where "is_file (FReg n) = True" | "is_file t = False"
fun is_dir :: "fnode \<Rightarrow> bool" where "is_dir (FDir r es) = True" | "is_dir t = False"

text \<open>The path of every object fits into the buffer.\<close>

definition path_fits :: "string \<Rightarrow> fnode \<Rightarrow> bool" where
  "path_fits path t \<longleftrightarrow> (\<forall>ps e. ps \<noteq> [] \<longrightarrow> lookup t ps = Some e \<longrightarrow> length (foldl join_path path ps) < MAX_PATH_LENGTH)"

definition entries_fit :: "string \<Rightarrow> (string \<times> fnode) list \<Rightarrow> bool" where
  "entries_fit path es \<longleftrightarrow> (\<forall>x \<in> set es. fst x \<notin> dots \<longrightarrow>
     length (join_path path (fst x)) < MAX_PATH_LENGTH \<and> path_fits (join_path path (fst x)) (snd x))"

lemma path_fits_entries:
  assumes "tree_ok (FDir True es)" "path_fits path (FDir True es)"
  shows "entries_fit path es"
  unfolding entries_fit_def
proof (intro ballI impI)
  fix x
  assume x: "x \<in> set es" "fst x \<notin> dots"
  then have m: "map_of es (fst x) = Some (snd x)" using assms(1) by simp
  have l: "length (foldl join_path (join_path path (fst x)) ps) < MAX_PATH_LENGTH" if "lookup (snd x) ps = Some e" for ps e
    using assms(2) [unfolded path_fits_def, rule_format, of "fst x # ps" e] that m x(2) by simp
  then show "length (join_path path (fst x)) < MAX_PATH_LENGTH \<and> path_fits (join_path path (fst x)) (snd x)"
    using l [of "[]"] by (auto simp: path_fits_def)
qed

lemma count_run:
  "tree_ok t \<Longrightarrow> path_fits path t \<Longrightarrow> \<exists>out. count_files path t s =
     Some (out, fst (snd s) + card (below is_file t), snd (snd s) + card (below is_dir t))"
  "tree_ok (FDir True es) \<Longrightarrow> entries_fit path es \<Longrightarrow> \<exists>out. count_entries path es s =
     Some (out, fst (snd s) + card (entry_paths is_file es), snd (snd s) + card (entry_paths is_dir es))"
proof (induction path t s and path es s rule: count_files_count_entries.induct)
  case (1 path readable es s)
  obtain a b c where s: "s = (a, b, c)" by (cases s)
  show ?case
  proof (cases readable)
    case True
    with 1 path_fits_entries show ?thesis by simp
  next
    case False
    then show ?thesis by (simp add: s)
  qed
next
  case (6 path name e es out f d)
  have t: "tree_ok (FDir True es)" "tree_ok e" and n: "e = FSelf \<longleftrightarrow> name \<in> dots" using "6.prems"(1) by auto
  have fit: "entries_fit path es" using "6.prems"(2) by (simp add: entries_fit_def)
  note c = card_entry_paths [OF "6.prems"(1)]
  show ?case
  proof (cases "name \<in> dots")
    case True
    then show ?thesis using "6.IH"(1) t(1) fit c by (auto simp: dots_def)
  next
    case nd: False
    then have nm: "\<not> (name = ''.'' \<or> name = ''..'')" by (simp add: dots_def)
    have len: "\<not> MAX_PATH_LENGTH \<le> length (join_path path name)" and pf: "path_fits (join_path path name) e"
      using "6.prems"(2) nd by (auto simp: entries_fit_def)
    note k = card_paths [OF t(2)]
    show ?thesis
    proof (cases e)
      case (FDir r cs)
      obtain out1 where "count_files (join_path path name) (FDir r cs) (out @ [''DIR: '' @ join_path path name], f, d + 1) =
          Some (out1, f + card (below is_file e), d + 1 + card (below is_dir e))" (is "?l = Some ?s1")
        using "6.IH"(2) [OF nm refl len FDir] t(2) pf by (auto simp: FDir)
      moreover from this obtain out2 where "count_entries path es ?s1 =
          Some (out2, f + card (below is_file e) + card (entry_paths is_file es), d + 1 + card (below is_dir e) + card (entry_paths is_dir es))"
        using "6.IH"(3) [OF nm refl len FDir] t(1) fit by auto
      ultimately show ?thesis using nm len nd c k by (simp add: FDir Let_def)
    next
      case (FReg n)
      then show ?thesis using "6.IH"(4) [OF nm refl len FReg] t(1) fit nm len nd c k by (auto simp: Let_def)
    next
      case (FOther n)
      then show ?thesis using "6.IH"(5) [OF nm refl len FOther] t(1) fit nm len nd c k by (auto simp: Let_def)
    next
      case FSelf
      then show ?thesis using n nd by simp
    qed
  qed
qed auto

text \<open>Counting. If every path fits into the buffer, the walk ends and counts every regular file and every
  directory below the starting point exactly once, whatever the order of the entries; a directory that cannot be
  opened counts without what is in it.\<close>

theorem count_files_counts:
  assumes "tree_ok t" "path_fits path t"
  shows "\<exists>out. count_files path t ([], 0, 0) = Some (out, card (below is_file t), card (below is_dir t))"
  using count_run(1) [OF assms, of "([], 0, 0)"] by simp

theorem count_files_counts_witness:
  "\<exists>out. count_files ''/d'' (FDir True [(''.'', FSelf), (''a'', FReg 3), (''s'', FDir True [(''b'', FReg 4)]), (''..'', FSelf)]) ([], 0, 0) =
     Some (out, 2, 1)"
proof -
  let ?s = "FDir True [(''b'', FReg 4)]"
  let ?es = "[(''.'', FSelf), (''a'', FReg 3), (''s'', ?s), (''..'', FSelf)]"
  have t: "tree_ok (FDir True ?es)" by (simp add: dots_def)
  have lp: "lookup (FDir True ?es) ps = Some e \<Longrightarrow> length (foldl join_path ''/d'' ps) \<le> 6" for ps e
    by (cases ps rule: lookup.cases [of "(FDir True ?es, ps)" for ps, simplified])
      (auto simp: dots_def join_path_def split: if_splits elim!: lookup.elims)
  have "path_fits ''/d'' (FDir True ?es)" unfolding path_fits_def using lp by (fastforce simp: MAX_PATH_LENGTH_def)
  note c = count_files_counts [OF t this]
  have "entry_paths Q [(''b'', FReg 4)] = (if Q (FReg 4) then {[''b'']} else {})" for Q
    using entry_paths_Cons(1) [of "''b''" "[]" Q "FReg 4"] by (simp add: dots_def paths_below)
  then have "card (below is_file (FDir True ?es)) = 2 \<and> card (below is_dir (FDir True ?es)) = 1"
    using card_entry_paths [where r = True] t by (simp add: card_paths dots_def)
  with c show ?thesis by simp
qed

section \<open>Sizes\<close>

fun is_leaf :: "fnode \<Rightarrow> bool" where
  "is_leaf (FReg n) = True" | "is_leaf (FOther n) = True" | "is_leaf t = False"

fun node_size :: "fnode \<Rightarrow> nat" where
  "node_size (FReg n) = n" | "node_size (FOther n) = n" | "node_size t = 0"

text \<open>The size of a tree: the sum over all paths that lead to something else than a directory.\<close>

definition tree_size :: "(nat \<Rightarrow> 'v::comm_monoid_add) \<Rightarrow> fnode \<Rightarrow> 'v" where
  "tree_size sz t = (\<Sum>ps \<in> paths is_leaf t. sz (node_size (the (lookup t ps))))"



lemma tree_size_leaf [simp]:
  "tree_size sz (FReg n) = sz n" "tree_size sz (FOther n) = sz n"
  by (simp_all add: tree_size_def paths_below)


definition tests_dots :: "(string \<Rightarrow> string \<Rightarrow> int) \<Rightarrow> bool" where
  "tests_dots strcmp \<longleftrightarrow> (\<forall>name. CHR 0x00 \<notin> set name \<longrightarrow> (skips strcmp name \<longleftrightarrow> name \<in> dots))"


section \<open>The test for the dots\<close>

lemma sgn_and_zero: "sgn (a :: int) AND sgn b = 0 \<longleftrightarrow> a = 0 \<or> b = 0"
proof -
  have "sgn x = -1 \<or> sgn x = 0 \<or> sgn x = 1" for x :: int by (auto simp: sgn_if)
  from this [of a] this [of b] show ?thesis by (auto simp: sgn_0_0)
qed

lemma byte_strcmp_eq: "CHR 0x00 \<notin> set a \<Longrightarrow> CHR 0x00 \<notin> set b \<Longrightarrow> byte_strcmp a b = 0 \<longleftrightarrow> a = b"
proof (induction a b rule: byte_strcmp.induct)
  case (2 b bs)
  then have "(of_char b :: nat) \<noteq> of_char (CHR 0x00)" by (subst of_char_eq_iff) auto
  then show ?case by simp
next
  case (3 a as)
  then have "(of_char a :: nat) \<noteq> of_char (CHR 0x00)" by (subst of_char_eq_iff) auto
  then show ?case by simp
qed auto

text \<open>Leaving out the dots. The test joins two results of \<open>strcmp\<close> with a bitwise \<open>&\<close>. If \<open>strcmp\<close> returns
  -1, 0 or 1 it leaves out exactly the two dot entries; if it returns the difference of the bytes, as common
  implementations do, every file whose name begins with \<open>.P\<close> or \<open>..A\<close> is left out as well, and the size of a
  directory does not depend on it.\<close>

theorem size_test_bitwise:
  "tests_dots sign_strcmp \<and>
   (name = ''.P'' @ rest \<or> name = ''..A'' @ rest \<longrightarrow> skips byte_strcmp name \<and>
     get_dir_size byte_strcmp sz (FDir True (es @ [(name, e)] @ es')) = get_dir_size byte_strcmp sz (FDir True (es @ es')))"
proof (rule conjI)
  show "tests_dots sign_strcmp"
    using byte_strcmp_eq [of _ "''.''"] byte_strcmp_eq [of _ "''..''"]
    by (auto simp: tests_dots_def skips_def sign_strcmp_def sgn_and_zero dots_def)
  have sk: "skips byte_strcmp name" if "name = ''.P'' @ rest \<or> name = ''..A'' @ rest" for name rest
    using that by (auto simp: skips_def)
  have "entries_size byte_strcmp sz (xs @ [(name, e)] @ es') acc = entries_size byte_strcmp sz (xs @ es') acc"
    if "skips byte_strcmp name" for xs acc
    using that by (induction xs arbitrary: acc) (auto split: bind_split)
  then show "name = ''.P'' @ rest \<or> name = ''..A'' @ rest \<longrightarrow> skips byte_strcmp name \<and>
     get_dir_size byte_strcmp sz (FDir True (es @ [(name, e)] @ es')) = get_dir_size byte_strcmp sz (FDir True (es @ es'))"
    using sk by (metis get_dir_size.simps(1))
qed

theorem size_test_bitwise_witness:
  "skips byte_strcmp ''.Profile'' \<and>
   get_dir_size byte_strcmp id (FDir True [(''a'', FReg 3), (''.Profile'', FReg 4)]) = Some 3"
  using size_test_bitwise [of "''.Profile''" "''rofile''" id "[(''a'', FReg 3)]" "FReg 4" "[]"]
  by (simp_all add: skips_def)

section \<open>The thread pool adds up a directory\<close>




end
