(* ===== verification/MsgNames.thy ===== *)
theory MsgNames
  imports MsgPeek
begin

text \<open>
  The names of messages and the idle handler without \<open>select\<close> (lecture-5/minigui-message.c). The
  tables of the names are in a generated header: they are a parameter.
\<close>

section \<open>Names\<close>

record msgtabs =
  mg_msgstr1 :: "string list"
  mg_msgstr11 :: "string list"
  mg_msgstr2 :: "string list"
  mg_msgstr3 :: "string list"

definition Message2Str :: "msgtabs \<Rightarrow> uint \<Rightarrow> string option" where
  "Message2Str T m =
     (if m \<ge> 0x0000 \<and> m \<le> 0x006F then arr_get (mg_msgstr1 T) (unat m)
      else if m \<ge> 0x0070 \<and> m \<le> 0x009F then arr_get (mg_msgstr11 T) (unat (m - 0x0070))
      else if m \<ge> 0x00A0 \<and> m \<le> 0x010F then arr_get (mg_msgstr2 T) (unat (m - 0x00A0))
      else if m \<ge> 0x0120 \<and> m \<le> 0x017F then arr_get (mg_msgstr3 T) (unat (m - 0x0120))
      else if m \<ge> 0xF000 then Some ''Control Messages''
      else Some ''MSG_USER'')"

text \<open>What is written to the file; \<open>fmt_p\<close> prints a pointer.\<close>

definition PrintMessage :: "msgtabs \<Rightarrow> (dword \<Rightarrow> string) \<Rightarrow> hwnd \<Rightarrow> uint \<Rightarrow> dword \<Rightarrow> dword \<Rightarrow> string option" where
  "PrintMessage T fmt_p hWnd nMsg wPar lPar =
     map_option (\<lambda>name. ''Message '' @ name @ '': hWnd: '' @ fmt_p hWnd @ '', wP: '' @ fmt_p wPar @ '', lP: '' @ fmt_p lPar @ [CHR ''.'', CHR 0x0A])
       (Message2Str T nMsg)"

section \<open>The idle handler without select\<close>

text \<open>\<open>os_time_delay\<close> waits some milliseconds, while the tick counter may advance.\<close>

definition plain_std_idle_handler :: "mgenv \<Rightarrow> (nat \<Rightarrow> world \<Rightarrow> world) \<Rightarrow> nat \<Rightarrow> bool \<Rightarrow> world \<Rightarrow> (bool \<times> world) option" where
  "plain_std_idle_handler E os_time_delay q wait w0 =
     (let timeout_ms = (if wait then 10 else 0);
          w = (if 0 < timeout_ms then os_time_delay timeout_ms w0 else w0)
      in do {
        Q \<leftarrow> queues w q;
        (n, w1) \<leftarrow> check_expired_timers E q (tick_counter w - old_tick_count Q) w;
        Q1 \<leftarrow> queues w1 q;
        Some (0 < n, set_queue q (Q1\<lparr>old_tick_count := tick_counter w1\<rparr>) w1) })"

text \<open>Without listening descriptors and with a \<open>select\<close> that succeeds, it is the other handler.\<close>

lemma plain_idle_same:
  assumes "queues w q = Some Q" "nr_rfds Q = 0" "nr_wfds Q = 0" "nr_efds Q = 0" "\<not> select_ret E w False < 0"
  shows "plain_std_idle_handler E d q False w = std_idle_handler E q False w"
  using assms by (simp add: plain_std_idle_handler_def std_idle_handler_def Let_def case_prod_beta')

section \<open>The ranges of the names\<close>

definition tables_complete :: "msgtabs \<Rightarrow> bool" where
  "tables_complete T \<longleftrightarrow> length (mg_msgstr1 T) = 0x70 \<and> length (mg_msgstr11 T) = 0x30 \<and> length (mg_msgstr2 T) = 0x70 \<and>
     length (mg_msgstr3 T) = 0x60"

lemma unat_offset: "(b :: uint) \<le> m \<Longrightarrow> unat (m - b) = unat m - unat b"
  by (rule unat_sub)

text \<open>If the tables are as long as their ranges, every number has a name and no table is read out of range:
  the ranges are adjacent but for 0x110 to 0x11F, which have the name of a user message.\<close>

theorem message_names:
  assumes "tables_complete T"
  shows "\<exists>name. Message2Str T m = Some name \<and>
    (m < 0x0110 \<longrightarrow> name = (mg_msgstr1 T @ mg_msgstr11 T @ mg_msgstr2 T) ! unat m) \<and>
    (0x0110 \<le> m \<and> m < 0x0120 \<longrightarrow> name = ''MSG_USER'') \<and>
    (0x0120 \<le> m \<and> m < 0x0180 \<longrightarrow> name = mg_msgstr3 T ! (unat m - 0x0120)) \<and>
    (0x0180 \<le> m \<longrightarrow> name = (if m < 0xF000 then ''MSG_USER'' else ''Control Messages''))"
proof -
  have len: "length (mg_msgstr1 T) = 0x70" "length (mg_msgstr11 T) = 0x30" "length (mg_msgstr2 T) = 0x70" "length (mg_msgstr3 T) = 0x60"
    using assms by (simp_all add: tables_complete_def)
  let ?n = "unat m"
  consider "?n < 0x70" | "0x70 \<le> ?n" "?n < 0xA0" | "0xA0 \<le> ?n" "?n < 0x110" | "0x110 \<le> ?n" "?n < 0x120"
    | "0x120 \<le> ?n" "?n < 0x180" | "0x180 \<le> ?n" by linarith
  then show ?thesis
    by cases (auto simp: Message2Str_def arr_get_def word_le_nat_alt word_less_nat_alt unat_offset nth_append len)
qed

theorem message_names_witness:
  "Message2Str \<lparr>mg_msgstr1 = replicate 0x70 ''A'', mg_msgstr11 = replicate 0x30 ''B'', mg_msgstr2 = replicate 0x70 ''C'',
     mg_msgstr3 = replicate 0x60 ''D''\<rparr> 0x0118 = Some ''MSG_USER''"
  using message_names [of "\<lparr>mg_msgstr1 = replicate 0x70 ''A'', mg_msgstr11 = replicate 0x30 ''B'', mg_msgstr2 = replicate 0x70 ''C'',
     mg_msgstr3 = replicate 0x60 ''D''\<rparr>" "0x0118"]
  by (auto simp: tables_complete_def)

end
