(* ===== verification/SysV.thy ===== *)
theory SysV
  imports Sock
begin

text \<open>
  The System V samples of lecture 4: the semaphore that orders drawing (systemv-semaphore.c), as an
  interleaving of processes that may end or be interrupted at any point, and the shared memory that
  hands the resources of the server to its clients (systemv-shared-memory.c).
\<close>

section \<open>The drawing semaphore\<close>

text \<open>Where a process is: outside, in \<open>lock_draw_sem\<close>, between the calls, in \<open>unlock_draw_sem\<close>, ended.\<close>

datatype sem_pc = Outside | Locking | Inside | Unlocking | Gone

text \<open>The values of the set, the adjustments that are undone at exit (of the first semaphore), whether the set was
  removed.\<close>

record semsys =
  sem_vals :: "int list"
  sem_adj :: "nat \<Rightarrow> int"
  sem_removed :: bool
  sem_pcs :: "nat \<Rightarrow> sem_pc"

text \<open>The creation: a key, an exclusive set, and the values (whose results are not looked at). \<open>None\<close>: \<open>goto error\<close>.\<close>

definition create_draw_sem :: "bool \<Rightarrow> bool \<Rightarrow> semsys option" where
  "create_draw_sem key_ok get_ok =
     (if \<not> key_ok \<or> \<not> get_ok then None
      else Some \<lparr>sem_vals = [1, 1, 0], sem_adj = (\<lambda>_. 0), sem_removed = False, sem_pcs = (\<lambda>_. Outside)\<rparr>)"

definition set_pc :: "nat \<Rightarrow> sem_pc \<Rightarrow> semsys \<Rightarrow> semsys" where
  "set_pc p c s = s\<lparr>sem_pcs := (sem_pcs s)(p := c)\<rparr>"

text \<open>\<open>semop\<close> with SEM_UNDO on the first semaphore: it fails when the set is gone, and waits (\<open>None\<close>) while the value
  would be negative.\<close>

definition semop :: "nat \<Rightarrow> int \<Rightarrow> semsys \<Rightarrow> (int \<times> semsys) option" where
  "semop p sem_op s =
     (if sem_removed s then Some (-1, s)
      else if sem_vals s ! 0 + sem_op < 0 then None
      else Some (0, s\<lparr>sem_vals := (sem_vals s)[0 := sem_vals s ! 0 + sem_op],
                      sem_adj := (sem_adj s)(p := sem_adj s p - sem_op)\<rparr>))"

text \<open>One turn of the loops: an interrupted call is repeated, and every other result ends the function.\<close>

definition lock_draw_sem :: "nat \<Rightarrow> bool \<Rightarrow> semsys \<Rightarrow> semsys option" where
  "lock_draw_sem p intr s = (if intr then Some s else map_option (\<lambda>(r, t). set_pc p Inside t) (semop p (-1) s))"

definition unlock_draw_sem :: "nat \<Rightarrow> bool \<Rightarrow> semsys \<Rightarrow> semsys option" where
  "unlock_draw_sem p intr s = (if intr then Some s else map_option (\<lambda>(r, t). set_pc p Outside t) (semop p 1 s))"

definition delete_sem :: "semsys \<Rightarrow> semsys" where
  "delete_sem s = s\<lparr>sem_removed := True\<rparr>"

text \<open>The kernel takes the adjustments of a process back when it ends.\<close>

definition sem_exit :: "nat \<Rightarrow> semsys \<Rightarrow> semsys" where
  "sem_exit p s = set_pc p Gone
     (if sem_removed s then s
      else s\<lparr>sem_vals := (sem_vals s)[0 := sem_vals s ! 0 + sem_adj s p], sem_adj := (sem_adj s)(p := 0)\<rparr>)"

inductive sem_step :: "semsys \<Rightarrow> semsys \<Rightarrow> bool" where
  enter: "sem_pcs s p = Outside \<Longrightarrow> sem_step s (set_pc p Locking s)"
| lock: "sem_pcs s p = Locking \<Longrightarrow> lock_draw_sem p intr s = Some t \<Longrightarrow> sem_step s t"
| leave: "sem_pcs s p = Inside \<Longrightarrow> sem_step s (set_pc p Unlocking s)"
| unlock: "sem_pcs s p = Unlocking \<Longrightarrow> unlock_draw_sem p intr s = Some t \<Longrightarrow> sem_step s t"
| exit: "sem_pcs s p \<noteq> Gone \<Longrightarrow> sem_step s (sem_exit p s)"
| remove: "sem_step s (delete_sem s)"

inductive_cases sem_stepE: "sem_step s t"

section \<open>Shared resources\<close>

text \<open>A segment with its bytes, the number of processes attached to it, and the mark that removes it with the last of
  them; the file for its identifier; the descriptors left open; what the stack holds. A script says what the calls do:
  they succeed, fail with -1, or (\<open>read\<close> and \<open>write\<close>) handle less than they should.\<close>

datatype io_res = IO_ok | IO_err | IO_short

record segment =
  seg_data :: "byte list"
  seg_nattch :: nat
  seg_dest :: bool

record shmworld =
  segs :: "int \<Rightarrow> segment option"
  next_shmid :: int
  lockfile :: "byte list option"
  open_fds :: nat
  stale_int :: int
  shm_script :: "io_res list"

definition shm_call :: "shmworld \<Rightarrow> io_res \<times> shmworld" where
  "shm_call w = (case shm_script w of [] \<Rightarrow> (IO_ok, w) | r # rs \<Rightarrow> (r, w\<lparr>shm_script := rs\<rparr>))"

text \<open>A call whose failure goes to the label \<open>error\<close>.\<close>

definition or_error :: "shmworld \<Rightarrow> (shmworld \<Rightarrow> 'a option \<times> shmworld) \<Rightarrow> 'a option \<times> shmworld" where
  "or_error w f = (case shm_call w of (r, w1) \<Rightarrow> if r = IO_err then (None, w1) else f w1)"

definition set_seg :: "int \<Rightarrow> segment option \<Rightarrow> shmworld \<Rightarrow> shmworld" where
  "set_seg i g w = w\<lparr>segs := (segs w)(i := g)\<rparr>"

text \<open>The last detach of a marked segment frees it.\<close>

definition detach :: "int \<Rightarrow> shmworld \<Rightarrow> shmworld option" where
  "detach i w = map_option (\<lambda>g. set_seg i
     (if seg_nattch g \<le> 1 \<and> seg_dest g then None else Some (g\<lparr>seg_nattch := seg_nattch g - 1\<rparr>)) w) (segs w i)"

text \<open>The server: the identifier if it gets to the end; \<open>None\<close> stands for \<open>goto error\<close>. The bytes of the resource
  replace what the new segment holds. The result of \<open>write\<close> is compared as an unsigned number, so that -1 is not less
  than the size of an \<open>int\<close>. The file is not closed.\<close>

definition export_resource :: "bool \<Rightarrow> byte list \<Rightarrow> shmworld \<Rightarrow> int option \<times> shmworld" where
  "export_resource key_ok res w0 =
     (if \<not> key_ok then (None, w0)
      else or_error w0 (\<lambda>w1.
        let shmid = next_shmid w1;
            g = \<lparr>seg_data = replicate (length res) 0, seg_nattch = 0, seg_dest = False\<rparr>;
            w2 = set_seg shmid (Some g) (w1\<lparr>next_shmid := shmid + 1\<rparr>)
        in or_error w2 (\<lambda>w3.
        let g1 = g\<lparr>seg_nattch := 1, seg_data := res\<rparr>;
            w4 = set_seg shmid (Some g1) w3
        in or_error w4 (\<lambda>w5.
        let w6 = set_seg shmid (Some (g1\<lparr>seg_dest := True\<rparr>)) w5
        in or_error w6 (\<lambda>w7.
        let w8 = w7\<lparr>lockfile := Some [], open_fds := open_fds w7 + 1\<rparr>
        in case shm_call w8 of (r, w9) \<Rightarrow>
          (case r of
             IO_ok \<Rightarrow> (Some shmid, w9\<lparr>lockfile := Some (put_int shmid)\<rparr>)
           | IO_err \<Rightarrow> (Some shmid, w9)
           | IO_short \<Rightarrow> (None, w9\<lparr>lockfile := Some (take 3 (put_int shmid))\<rparr>)))))))"

text \<open>A client: the segment it attached, or \<open>None\<close> for NULL. The result of \<open>read\<close> is compared in the same way: after a
  failure the identifier is what the stack held.\<close>

definition AttachSharedResource :: "shmworld \<Rightarrow> int option \<times> shmworld" where
  "AttachSharedResource w0 =
     or_error w0 (\<lambda>w1. case lockfile w1 of
        None \<Rightarrow> (None, w1)
      | Some bs \<Rightarrow>
         (let w2 = w1\<lparr>open_fds := open_fds w1 + 1\<rparr>
          in case shm_call w2 of (r, w3) \<Rightarrow>
            let shmid = (case r of IO_ok \<Rightarrow> rd_int 0 bs | IO_err \<Rightarrow> Some (stale_int w3) | IO_short \<Rightarrow> None)
            in case shmid of
              None \<Rightarrow> (None, w3)
            | Some i \<Rightarrow>
                or_error (w3\<lparr>open_fds := open_fds w3 - 1\<rparr>) (\<lambda>w4. case segs w4 i of
                   None \<Rightarrow> (None, w4)
                 | Some g \<Rightarrow> (Some i, set_seg i (Some (g\<lparr>seg_nattch := seg_nattch g + 1\<rparr>)) w4))))"

definition UnattachSharedResource :: "int \<Rightarrow> shmworld \<Rightarrow> shmworld" where
  "UnattachSharedResource memptr w = (case detach memptr w of None \<Rightarrow> w | Some w1 \<Rightarrow> w1)"

end
