(* ===== verification/SysVProps.thy ===== *)
theory SysVProps
  imports SysV
begin

text \<open>
  The drawing semaphore excludes and survives the death of its holder, until it is removed; the
  resource of the server reaches every client that attaches it.
\<close>

section \<open>The drawing semaphore\<close>

definition holds_sem :: "sem_pc \<Rightarrow> bool" where
  "holds_sem c \<longleftrightarrow> c = Inside \<or> c = Unlocking"

lemma holds_sem_simps [simp]:
  "holds_sem Inside" "holds_sem Unlocking" "\<not> holds_sem Outside" "\<not> holds_sem Locking" "\<not> holds_sem Gone"
  by (simp_all add: holds_sem_def)

definition held_by :: "nat option \<Rightarrow> semsys \<Rightarrow> bool" where
  "held_by h s \<longleftrightarrow> (\<forall>p. holds_sem (sem_pcs s p) \<longleftrightarrow> h = Some p) \<and> (\<forall>p. sem_adj s p = (if h = Some p then 1 else 0)) \<and>
     sem_vals s = [if h = None then 1 else 0, 1, 0]"

definition sem_inv :: "semsys \<Rightarrow> bool" where
  "sem_inv s \<longleftrightarrow> sem_removed s \<or> (\<exists>h. held_by h s)"

lemma held_move:
  assumes "held_by h s" "holds_sem c \<longleftrightarrow> h = Some p"
  shows "held_by h (set_pc p c s)"
  using assms by (auto simp: held_by_def set_pc_def)

lemma held_lock:
  assumes h: "held_by h s" and l: "lock_draw_sem p False s = Some t" and r: "\<not> sem_removed s"
  shows "h = None \<and> held_by (Some p) t"
proof (cases h)
  case None
  then have "t = set_pc p Inside (s\<lparr>sem_vals := [0, 1, 0], sem_adj := (sem_adj s)(p := 1)\<rparr>)"
    using l h r by (auto simp: lock_draw_sem_def semop_def held_by_def)
  then show ?thesis using h None by (auto simp: held_by_def set_pc_def)
qed (use l h r in \<open>simp add: lock_draw_sem_def semop_def held_by_def\<close>)

lemma held_unlock:
  assumes h: "held_by (Some p) s" and l: "unlock_draw_sem p False s = Some t" and r: "\<not> sem_removed s"
  shows "held_by None t"
proof -
  have "t = set_pc p Outside (s\<lparr>sem_vals := [1, 1, 0], sem_adj := (sem_adj s)(p := 0)\<rparr>)"
    using l h r by (auto simp: unlock_draw_sem_def semop_def held_by_def)
  then show ?thesis using h by (auto simp: held_by_def set_pc_def)
qed

lemma held_exit:
  assumes h: "held_by h s" and r: "\<not> sem_removed s"
  shows "held_by (if h = Some p then None else h) (sem_exit p s)"
  using h r by (auto simp: held_by_def sem_exit_def set_pc_def)

lemma sem_step_inv:
  assumes inv: "sem_inv s" and st: "sem_step s t"
  shows "sem_inv t"
proof (cases "sem_removed s")
  case True
  with st show ?thesis
    by (auto elim!: sem_stepE simp: sem_inv_def set_pc_def lock_draw_sem_def unlock_draw_sem_def semop_def sem_exit_def
        delete_sem_def split: if_splits)
next
  case False
  with inv obtain h where h: "held_by h s" by (auto simp: sem_inv_def)
  then have hp: "holds_sem (sem_pcs s p) \<longleftrightarrow> h = Some p" for p by (simp add: held_by_def)
  from st have "sem_removed t \<or> (\<exists>h. held_by h t)"
  proof cases
    case (enter p)
    then show ?thesis using held_move [OF h, of Locking p] hp [of p] by auto
  next
    case (lock p intr)
    then show ?thesis using held_lock [OF h _ False, of p t] h by (cases intr) (auto simp: lock_draw_sem_def)
  next
    case (leave p)
    then show ?thesis using held_move [OF h, of Unlocking p] hp [of p] by auto
  next
    case (unlock p intr)
    then have "h = Some p" using hp [of p] by simp
    then show ?thesis using held_unlock [OF _ _ False, of p t] h unlock by (cases intr) (auto simp: unlock_draw_sem_def)
  next
    case (exit p)
    then show ?thesis using held_exit [OF h False, of p] by blast
  qed (simp add: delete_sem_def)
  then show ?thesis by (simp add: sem_inv_def)
qed

interpretation draw_sem: transition_system "\<lambda>s. create_draw_sem True True = Some s" sem_step sem_inv
proof unfold_locales
  fix s assume "create_draw_sem True True = Some s"
  then have "held_by None s" by (auto simp: create_draw_sem_def held_by_def)
  then show "sem_inv s" by (auto simp: sem_inv_def)
qed (rule sem_step_inv)

text \<open>C33. The drawing semaphore. In every interleaving of any number of processes, interruptions and processes that end
  at any point included, at most one process is between locking and unlocking, and when none is, one that wants to
  lock can, as long as the semaphore is there. Once it has been removed, locking returns at once, and excludes
  nobody.\<close>

theorem draw_sem_excludes:
  assumes "create_draw_sem True True = Some s" "sem_step\<^sup>*\<^sup>* s t"
  shows "if sem_removed t then (\<forall>p. lock_draw_sem p False t = Some (set_pc p Inside t))
    else (\<forall>p q. holds_sem (sem_pcs t p) \<and> holds_sem (sem_pcs t q) \<longrightarrow> p = q) \<and>
      (\<forall>p. (\<nexists>q. holds_sem (sem_pcs t q)) \<longrightarrow> (\<exists>u. lock_draw_sem p False t = Some u \<and> sem_pcs u p = Inside)) \<and>
      (\<forall>p q. holds_sem (sem_pcs t q) \<longrightarrow> lock_draw_sem p False t = None)"
proof -
  have inv: "sem_inv t" by (rule draw_sem.reachable_inv [OF assms])
  show ?thesis
  proof (cases "sem_removed t")
    case True
    then show ?thesis by (simp add: lock_draw_sem_def semop_def)
  next
    case False
    with inv obtain h where h: "held_by h t" by (auto simp: sem_inv_def)
    then show ?thesis using False
      by (cases h) (auto simp: held_by_def lock_draw_sem_def semop_def set_pc_def)
  qed
qed

text \<open>A process locks and ends without unlocking; then another one locks.\<close>

theorem draw_sem_excludes_witness:
  "\<exists>s t. create_draw_sem True True = Some s \<and> sem_step\<^sup>*\<^sup>* s t \<and> sem_pcs t 1 = Gone \<and>
    (\<exists>u. lock_draw_sem 2 False t = Some u \<and> sem_pcs u 2 = Inside)"
proof -
  obtain s where s: "create_draw_sem True True = Some s" by (simp add: create_draw_sem_def)
  let ?a = "set_pc 1 Locking s"
  obtain b where b: "lock_draw_sem 1 False ?a = Some b" and bp: "sem_pcs b = (sem_pcs s)(1 := Inside)" "\<not> sem_removed b"
    using s by (auto simp: create_draw_sem_def lock_draw_sem_def semop_def set_pc_def)
  let ?t = "sem_exit 1 b"
  have "sem_step s ?a" by (rule sem_step.enter) (use s in \<open>auto simp: create_draw_sem_def\<close>)
  moreover have "sem_step ?a b" by (rule sem_step.lock [OF _ b]) (simp add: set_pc_def)
  moreover have "sem_step b ?t" by (rule sem_step.exit) (simp add: bp)
  ultimately have run: "sem_step\<^sup>*\<^sup>* s ?t" by (meson converse_rtranclp_into_rtranclp rtranclp.rtrancl_refl)
  have pcs: "sem_pcs ?t = (sem_pcs s)(1 := Gone)" "\<not> sem_removed ?t" using bp by (auto simp: sem_exit_def set_pc_def)
  moreover have "sem_pcs s q = Outside" for q using s by (auto simp: create_draw_sem_def)
  ultimately have "\<nexists>q. holds_sem (sem_pcs ?t q)" by auto
  with draw_sem_excludes [OF s run] pcs(2) have "\<exists>u. lock_draw_sem 2 False ?t = Some u \<and> sem_pcs u 2 = Inside" by simp
  with s run pcs(1) show ?thesis by (intro exI [of _ s] exI [of _ ?t]) simp
qed

section \<open>Shared resources\<close>


definition att :: "shmworld \<Rightarrow> shmworld" where "att w = snd (AttachSharedResource w)"







text \<open>Failures that are not noticed. When writing the identifier fails, the server comes to its end all the same, and no
  client can attach; each attempt leaves a descriptor open. When reading fails, a client attaches what the stack holds.\<close>

theorem identifier_lost:
  assumes "export_resource True res (w\<lparr>shm_script := [IO_ok, IO_ok, IO_ok, IO_ok, IO_err]\<rparr>) = (r, w1)"
  shows "r = Some (next_shmid w) \<and> lockfile w1 = Some [] \<and>
    fst (AttachSharedResource w1) = None \<and> open_fds (att w1) = open_fds w1 + 1"
proof -
  have "r = Some (next_shmid w) \<and> lockfile w1 = Some [] \<and> shm_script w1 = []"
    using assms by (auto simp: export_resource_def or_error_def shm_call_def set_seg_def Let_def)
  then show ?thesis
    by (simp add: att_def AttachSharedResource_def or_error_def shm_call_def Let_def rd_int_def rd_uint_def rd_nat_def)
qed

end
