(* ===== verification/Timers.thy ===== *)
theory Timers
  imports CStrings "HOL-Library.Signed_Division"
begin

text \<open>
  Timers that are read through a descriptor: the sample of lecture 3 (timerfd.c) and the timers of
  the exercise (\<open>set_timerfd_value\<close> of homework/wu-shixiong/fake_cron.c).
\<close>

section \<open>Times\<close>

record timespec =
  tv_sec :: int
  tv_nsec :: int

record itimerspec =
  it_value :: timespec
  it_interval :: timespec

text \<open>A long that is stored into an \<open>int\<close>; \<open>%d\<close> and \<open>%03d\<close>.\<close>

definition c_int :: "int \<Rightarrow> int" where "c_int i = signed_take_bit 31 i"

definition fmt_int :: "int \<Rightarrow> string" where
  "fmt_int i = (if i < 0 then CHR ''-'' # dec_digits (nat (- i)) else dec_digits (nat i))"

definition fmt03 :: "int \<Rightarrow> string" where
  "fmt03 i = (let ds = dec_digits (nat \<bar>i\<bar>)
     in if i < 0 then CHR ''-'' # replicate (2 - length ds) (CHR ''0'') @ ds else replicate (3 - length ds) (CHR ''0'') @ ds)"

section \<open>The elapsed time\<close>

text \<open>The static variables, the monotonic clock (what its readings return, and how many there were), and the output.\<close>

record tstate =
  first_call :: bool
  t_start :: timespec
  t_clock :: "nat \<Rightarrow> timespec option"
  t_readings :: nat
  t_out :: string

definition read_clock :: "tstate \<Rightarrow> timespec option \<times> tstate" where
  "read_clock s = (t_clock s (t_readings s), s\<lparr>t_readings := t_readings s + 1\<rparr>)"

definition print_text :: "string \<Rightarrow> tstate \<Rightarrow> tstate" where
  "print_text x s = s\<lparr>t_out := t_out s @ x\<rparr>"

definition elapsed_text :: "timespec \<Rightarrow> timespec \<Rightarrow> string" where
  "elapsed_text start current =
     (let secs = c_int (tv_sec current - tv_sec start);
          nsecs = c_int (tv_nsec current - tv_nsec start);
          (secs, nsecs) = (if nsecs < 0 then (secs - 1, nsecs + 1000000000) else (secs, nsecs))
      in fmt_int secs @ ''.'' @ fmt03 ((nsecs + 500000) sdiv 1000000) @ '': '')"

definition print_elapsed_time :: "tstate \<Rightarrow> tstate outcome" where
  "print_elapsed_time s =
     (case (if first_call s
            then (case read_clock s of (None, s1) \<Rightarrow> None | (Some t, s1) \<Rightarrow> Some (s1\<lparr>first_call := False, t_start := t\<rparr>))
            else Some s) of
        None \<Rightarrow> Exits
      | Some s1 \<Rightarrow>
         (case read_clock s1 of
            (None, s2) \<Rightarrow> Exits
          | (Some current, s2) \<Rightarrow> Returns (print_text (elapsed_text (t_start s2) current) s2)))"

section \<open>Arming a timer\<close>

text \<open>What the real-time clock returns, the new descriptor (-1 for none), and whether \<open>timerfd_settime\<close> takes a value.\<close>

record tfenv =
  now :: "timespec option"
  timerfd_create :: int
  timerfd_settime :: "itimerspec \<Rightarrow> bool"

text \<open>The value both programs set: an absolute time, and a period.\<close>

definition timer_value :: "timespec \<Rightarrow> int \<Rightarrow> int \<Rightarrow> itimerspec" where
  "timer_value t begin_secs interval_secs =
     \<lparr>it_value = \<lparr>tv_sec = tv_sec t + begin_secs, tv_nsec = tv_nsec t\<rparr>, it_interval = \<lparr>tv_sec = interval_secs, tv_nsec = 0\<rparr>\<rparr>"

definition set_timerfd_value :: "tfenv \<Rightarrow> int \<Rightarrow> int \<Rightarrow> int outcome" where
  "set_timerfd_value E begin_secs interval_secs =
     (case now E of
        None \<Rightarrow> Exits
      | Some t \<Rightarrow>
         (if timerfd_create E = -1 then Exits
          else if \<not> timerfd_settime E (timer_value t begin_secs interval_secs) then Exits
          else Returns (timerfd_create E)))"

section \<open>The sample\<close>

text \<open>The loop on the results of \<open>read\<close>: an expiration count, or a failure. \<open>max_exp\<close> is converted to an unsigned number
  of 64 bits for the comparison. \<open>None\<close>: it waits for ever.\<close>

fun timer_loop :: "int \<Rightarrow> dword option list \<Rightarrow> dword \<Rightarrow> tstate \<Rightarrow> tstate outcome option" where
  "timer_loop max_exp [] tot_exp s = (if tot_exp < word_of_int max_exp then None else Some (Returns s))"
| "timer_loop max_exp (r # rs) tot_exp s =
     (if tot_exp < word_of_int max_exp
      then case r of
          None \<Rightarrow> Some Exits
        | Some exp \<Rightarrow>
           (let tot_exp = tot_exp + exp
            in case print_elapsed_time s of
                Exits \<Rightarrow> Some Exits
              | Returns s1 \<Rightarrow> timer_loop max_exp rs tot_exp
                  (print_text (''read: '' @ dec_digits (unat exp) @ ''; total='' @ dec_digits (unat tot_exp) @ [CHR 0x0A]) s1))
      else Some (Returns s))"

definition timer_main :: "tfenv \<Rightarrow> string list \<Rightarrow> dword option list \<Rightarrow> tstate \<Rightarrow> tstate outcome option" where
  "timer_main E argv reads s =
     (if length argv \<noteq> 2 \<and> length argv \<noteq> 4 then Some Exits
      else case now E of
        None \<Rightarrow> Some Exits
      | Some t \<Rightarrow>
         (let (interval, max_exp) = (if length argv = 2 then (0, 1) else (atoi (argv ! 2), atoi (argv ! 3)))
          in if timerfd_create E = -1 then Some Exits
             else if \<not> timerfd_settime E (timer_value t (atoi (argv ! 1)) interval) then Some Exits
             else case print_elapsed_time s of
                 Exits \<Rightarrow> Some Exits
               | Returns s1 \<Rightarrow> timer_loop max_exp reads 0 (print_text (''timer started'' @ [CHR 0x0A]) s1)))"

section \<open>What is printed\<close>

definition normal_time :: "timespec \<Rightarrow> bool" where
  "normal_time t \<longleftrightarrow> 0 \<le> tv_nsec t \<and> tv_nsec t < 1000000000"

definition nanos :: "timespec \<Rightarrow> int" where "nanos t = 1000000000 * tv_sec t + tv_nsec t"

lemma c_int_id: "- (2 ^ 31) \<le> i \<Longrightarrow> i < 2 ^ 31 \<Longrightarrow> c_int i = i"
  by (simp add: c_int_def signed_take_bit_int_eq_self)

text \<open>The elapsed time. Between two readings of a clock that does not go back, less than 2^31 seconds apart, the text
  is the elapsed time rounded to milliseconds, in seconds and milliseconds; but when the last half of a millisecond of
  a second is rounded up the seconds do not take the carry, and the milliseconds are printed as 1000.\<close>

theorem elapsed_text_rounds:
  assumes t: "normal_time start" "normal_time current" "nanos start \<le> nanos current" "tv_sec current - tv_sec start < 2 ^ 31"
  shows "\<exists>secs ms. elapsed_text start current = dec_digits secs @ ''.'' @ fmt03 (int ms) @ '': '' \<and>
    1000 * int secs + int ms = (nanos current - nanos start + 500000) div 1000000 \<and>
    int secs = (nanos current - nanos start) div 1000000000 \<and> ms \<le> 1000 \<and>
    (ms = 1000 \<longleftrightarrow> 999500000 \<le> (nanos current - nanos start) mod 1000000000)"
proof -
  let ?s = "tv_sec current - tv_sec start" and ?n = "tv_nsec current - tv_nsec start" and ?e = "nanos current - nanos start"
  have n: "- 1000000000 < ?n" "?n < 1000000000" using t(1,2) by (auto simp: normal_time_def)
  have e: "?e = 1000000000 * ?s + ?n" by (simp add: nanos_def algebra_simps)
  define secs nsecs where "secs = (if ?n < 0 then ?s - 1 else ?s)" and "nsecs = (if ?n < 0 then ?n + 1000000000 else ?n)"
  have ns: "0 \<le> nsecs" "nsecs < 1000000000" "?e = 1000000000 * secs + nsecs"
    using n e by (auto simp: secs_def nsecs_def)
  then have q: "?e div 1000000000 = secs" "?e mod 1000000000 = nsecs" by (simp_all add: int_div_pos_eq int_mod_pos_eq)
  have s0: "0 \<le> secs" using ns t(3) by simp
  then have "0 \<le> ?s" by (auto simp: secs_def split: if_splits)
  then have c: "c_int ?s = ?s" "c_int ?n = ?n" using t(4) n by (simp_all add: c_int_id)
  have pair: "(if ?n < 0 then (?s - 1, ?n + 1000000000) else (?s, ?n)) = (secs, nsecs)"
    by (simp add: secs_def nsecs_def)
  have "(nsecs + 500000) sdiv 1000000 = (nsecs + 500000) div 1000000"
    using ns(1) by (simp add: signed_divide_int_def sgn_if)
  then have "elapsed_text start current = dec_digits (nat secs) @ ''.'' @ fmt03 ((nsecs + 500000) div 1000000) @ '': ''"
    using s0 unfolding elapsed_text_def c Let_def pair by (simp add: fmt_int_def)
  moreover have "1000 * secs + (nsecs + 500000) div 1000000 = (?e + 500000) div 1000000"
    using ns(3) by (simp add: algebra_simps)
  moreover have "(nsecs + 500000) div 1000000 \<le> 1000" "(nsecs + 500000) div 1000000 = 1000 \<longleftrightarrow> 999500000 \<le> nsecs"
    using ns by linarith+
  moreover obtain k where "secs = int k" using s0 nonneg_int_cases by blast
  moreover have "0 \<le> (nsecs + 500000) div 1000000" using ns(1) by simp
  then obtain ms where "(nsecs + 500000) div 1000000 = int ms" using nonneg_int_cases by blast
  ultimately show ?thesis unfolding q by (intro exI [of _ k] exI [of _ ms]) simp
qed

theorem elapsed_text_rounds_witness:
  "elapsed_text \<lparr>tv_sec = 5, tv_nsec = 100\<rparr> \<lparr>tv_sec = 6, tv_nsec = 999999999\<rparr> = ''1.1000: ''"
proof -
  have "dec_digits 1 = ''1''" "dec_digits 1000 = ''1000''"
    by (simp_all add: dec_digits.simps [of "Suc 0"] dec_digits.simps [of 1000] dec_digits.simps [of 100] dec_digits.simps [of 10] char_of_def bit_iff_odd)
  then show ?thesis
    using elapsed_text_rounds [of "\<lparr>tv_sec = 5, tv_nsec = 100\<rparr>" "\<lparr>tv_sec = 6, tv_nsec = 999999999\<rparr>"]
    by (auto simp: normal_time_def nanos_def fmt03_def)
qed

section \<open>When the loop ends\<close>

definition total :: "dword list \<Rightarrow> nat" where "total es = sum_list (map unat es)"

lemma total_simps [simp]: "total [] = 0" "total (e # es) = unat e + total es"
  by (simp_all add: total_def)

lemma print_elapsed_running:
  assumes "\<not> first_call s" "\<forall>i. t_clock s i \<noteq> None"
  obtains s1 where "print_elapsed_time s = Returns s1" "\<not> first_call s1" "t_clock s1 = t_clock s" "t_readings s1 = t_readings s + 1"
proof -
  obtain c where "t_clock s (t_readings s) = Some c" using assms(2) by blast
  then show thesis using assms(1)
    by (intro that [of "print_text (elapsed_text (t_start s) c) (s\<lparr>t_readings := t_readings s + 1\<rparr>)"])
      (simp_all add: print_elapsed_time_def read_clock_def print_text_def)
qed

lemma timer_loop_runs:
  assumes "\<not> first_call s" "\<forall>i. t_clock s i \<noteq> None" "unat tot + total es < 2 ^ 64"
  shows "if unat (word_of_int max_exp :: dword) \<le> unat tot + total es
    then \<exists>k s'. timer_loop max_exp (map Some es) tot s = Some (Returns s') \<and> k \<le> length es \<and>
      unat (word_of_int max_exp :: dword) \<le> unat tot + total (take k es) \<and>
      (\<forall>j < k. unat tot + total (take j es) < unat (word_of_int max_exp :: dword)) \<and> t_readings s' = t_readings s + k
    else timer_loop max_exp (map Some es) tot s = None"
  using assms
proof (induction es arbitrary: s tot)
  case Nil
  then show ?case by (auto simp: word_less_nat_alt)
next
  case (Cons e es)
  let ?m = "unat (word_of_int max_exp :: dword)"
  show ?case
  proof (cases "unat tot < ?m")
    case False
    then show ?thesis by (auto simp: word_less_nat_alt intro!: exI [of _ 0])
  next
    case True
    obtain s1 where s1: "print_elapsed_time s = Returns s1" "\<not> first_call s1" "t_clock s1 = t_clock s" "t_readings s1 = t_readings s + 1"
      using print_elapsed_running [OF Cons.prems(1,2)] .
    let ?t = "tot + e"
    let ?s = "print_text (''read: '' @ dec_digits (unat e) @ ''; total='' @ dec_digits (unat ?t) @ [CHR 0x0A]) s1"
    have u: "unat ?t = unat tot + unat e" using Cons.prems(3) by (simp add: unat_add_lem [THEN iffD1])
    have step: "timer_loop max_exp (map Some (e # es)) tot s = timer_loop max_exp (map Some es) ?t ?s"
      using True s1(1) by (simp add: word_less_nat_alt Let_def)
    have ih: "if ?m \<le> unat ?t + total es
      then \<exists>k s'. timer_loop max_exp (map Some es) ?t ?s = Some (Returns s') \<and> k \<le> length es \<and> ?m \<le> unat ?t + total (take k es) \<and>
        (\<forall>j < k. unat ?t + total (take j es) < ?m) \<and> t_readings s' = t_readings ?s + k
      else timer_loop max_exp (map Some es) ?t ?s = None"
      by (rule Cons.IH) (use Cons.prems s1 u in \<open>simp_all add: print_text_def\<close>)
    show ?thesis
    proof (cases "?m \<le> unat ?t + total es")
      case le: True
      with ih obtain k s' where k: "timer_loop max_exp (map Some es) ?t ?s = Some (Returns s')" "k \<le> length es"
        "?m \<le> unat ?t + total (take k es)" "\<forall>j < k. unat ?t + total (take j es) < ?m" "t_readings s' = t_readings ?s + k" by auto
      have "unat tot + total (take j (e # es)) < ?m" if "j < Suc k" for j
        using that k(4) True u by (cases j) auto
      then show ?thesis using le k step u s1(4)
        by (simp add: print_text_def)
    next
      case False
      then show ?thesis using ih step u by simp
    qed
  qed
qed

text \<open>The sample ends when the expirations it has read reach the number asked for, after the first read that brings
  them there, and goes on waiting as long as they do not. The number is an unsigned one of 64 bits: a negative argument
  asks for nearly 2^64 expirations.\<close>

theorem timer_counts:
  assumes "\<not> first_call s" "\<forall>i. t_clock s i \<noteq> None" "total es < 2 ^ 64" "- (2 ^ 31) \<le> max_exp" "max_exp < 2 ^ 31"
  shows "let needed = (if max_exp < 0 then 2 ^ 64 - nat (- max_exp) else nat max_exp) in
    if needed \<le> total es
    then \<exists>k s'. timer_loop max_exp (map Some es) 0 s = Some (Returns s') \<and> k \<le> length es \<and> needed \<le> total (take k es) \<and>
      (\<forall>j < k. total (take j es) < needed) \<and> t_readings s' = t_readings s + k
    else timer_loop max_exp (map Some es) 0 s = None"
proof -
  have "unat (word_of_int max_exp :: dword) = nat (max_exp mod 2 ^ 64)"
    by (simp add: unsigned_of_int take_bit_eq_mod)
  also have "\<dots> = (if max_exp < 0 then 2 ^ 64 - nat (- max_exp) else nat max_exp)"
  proof (cases "max_exp < 0")
    case True
    then have "max_exp mod 2 ^ 64 = max_exp + 2 ^ 64" using assms(4) by (intro int_mod_pos_eq [of _ _ "-1"]) auto
    then show ?thesis using True assms(4) by simp
  qed (use assms(5) in simp)
  finally have m: "unat (word_of_int max_exp :: dword) = (if max_exp < 0 then 2 ^ 64 - nat (- max_exp) else nat max_exp)" .
  have "unat (0 :: dword) + total es < 2 ^ 64" using assms(3) by simp
  from timer_loop_runs [OF assms(1,2) this, of max_exp] show ?thesis by (simp only: m Let_def unsigned_0 add_0)
qed

theorem timer_counts_witness:
  "\<exists>s'. timer_loop 3 (map Some [1, 1, 5, 1]) 0
    \<lparr>first_call = False, t_start = \<lparr>tv_sec = 5, tv_nsec = 0\<rparr>, t_clock = (\<lambda>i. Some \<lparr>tv_sec = 6, tv_nsec = 0\<rparr>), t_readings = 2, t_out = []\<rparr> =
      Some (Returns s') \<and> t_readings s' = 5"
proof -
  let ?s = "\<lparr>first_call = False, t_start = \<lparr>tv_sec = 5, tv_nsec = 0\<rparr>, t_clock = (\<lambda>i. Some \<lparr>tv_sec = 6, tv_nsec = 0\<rparr>), t_readings = 2, t_out = []\<rparr>"
  have "\<exists>k s'. timer_loop 3 (map Some [1, 1, 5, 1]) 0 ?s = Some (Returns s') \<and> k \<le> length [1, 1, 5, 1 :: dword] \<and> 3 \<le> total (take k [1, 1, 5, 1]) \<and>
      (\<forall>j < k. total (take j [1, 1, 5, 1]) < 3) \<and> t_readings s' = 2 + k"
    using timer_counts [of ?s "[1, 1, 5, 1]" 3] by (simp add: Let_def del: timer_loop.simps list.map)
  then obtain k s' where k: "timer_loop 3 (map Some [1, 1, 5, 1]) 0 ?s = Some (Returns s')"
    "k \<le> length [1, 1, 5, 1 :: dword]" "3 \<le> total (take k [1, 1, 5, 1])" "\<forall>j < k. total (take j [1, 1, 5, 1]) < 3" "t_readings s' = 2 + k" by blast
  have "\<not> k \<le> 2" using k(3) by (auto simp: le_Suc_eq numeral_2_eq_2 intro: gr0I)
  moreover have "\<not> 3 < k" using k(4) by auto
  ultimately show ?thesis using k(1,5) by (intro exI [of _ s']) simp
qed

end
