(* ===== verification/Daemon.thy ===== *)
theory Daemon
  imports Prelude
begin

text \<open>
  Becoming a daemon: \<open>srv_daemonize\<close> of lecture 3 (daemonize.c) and \<open>tobeDaemon\<close> of the exercise
  (homework/wu-shixiong/fake_cron.c), on the identifiers, the terminal, the descriptors, the umask and
  the directory of a process. A script says which calls fail.
\<close>

section \<open>A process\<close>

record procst =
  pid :: nat
  pgid :: nat
  sid :: nat
  next_pid :: nat
  ctty :: "string option"
  fds :: "string option list"
  umask :: nat
  cwd :: string
  call_fails :: "bool list"

text \<open>The process exits with a status, or the function returns a value in a process, which may be a child.\<close>

datatype daemon_res = Exit int | Ret int procst

definition take_fault :: "procst \<Rightarrow> bool \<times> procst" where
  "take_fault w = (case call_fails w of [] \<Rightarrow> (False, w) | b # bs \<Rightarrow> (b, w\<lparr>call_fails := bs\<rparr>))"

text \<open>The child that goes on after \<open>fork\<close>; its identifier is not in use.\<close>

definition child :: "procst \<Rightarrow> procst" where
  "child w = w\<lparr>pid := next_pid w, next_pid := next_pid w + 1\<rparr>"

text \<open>The leader of a group cannot make a session; a new session has no terminal.\<close>

definition setsid :: "procst \<Rightarrow> int \<times> procst" where
  "setsid w = (if pid w = pgid w then (-1, w) else (int (pid w), w\<lparr>sid := pid w, pgid := pid w, ctty := None\<rparr>))"

definition close_below :: "nat \<Rightarrow> procst \<Rightarrow> procst" where
  "close_below n w = w\<lparr>fds := map (\<lambda>f. if f < n then None else fds w ! f) [0..<length (fds w)]\<rparr>"

text \<open>\<open>open\<close> takes the lowest free descriptor. A terminal that is opened by the leader of a session without one becomes
  its terminal.\<close>

definition sys_open :: "string \<Rightarrow> procst \<Rightarrow> int \<times> procst" where
  "sys_open name w0 =
     (case take_fault w0 of (bad, w) \<Rightarrow>
        if bad then (-1, w)
        else case List.find (\<lambda>f. fds w ! f = None) [0..<length (fds w)] of
            None \<Rightarrow> (-1, w)
          | Some f \<Rightarrow> (int f, w\<lparr>fds := (fds w)[f := Some name]\<rparr>))"

definition open_tty :: "string \<Rightarrow> procst \<Rightarrow> procst" where
  "open_tty name w = (if sid w = pid w \<and> ctty w = None then w\<lparr>ctty := Some name\<rparr> else w)"

definition dup2 :: "nat \<Rightarrow> nat \<Rightarrow> procst \<Rightarrow> int \<times> procst" where
  "dup2 old new w0 =
     (case take_fault w0 of (bad, w) \<Rightarrow>
        if bad \<or> length (fds w) \<le> old \<or> length (fds w) \<le> new \<or> fds w ! old = None then (-1, w)
        else (int new, w\<lparr>fds := (fds w)[new := fds w ! old]\<rparr>))"

text \<open>The mode of a file the process creates.\<close>

definition mode :: "nat \<Rightarrow> nat \<Rightarrow> nat \<Rightarrow> nat" where
  "mode u g o' = 64 * u + 8 * g + o'"

definition created_mode :: "nat \<Rightarrow> procst \<Rightarrow> nat" where
  "created_mode m w = unat ((of_nat m :: uint) AND NOT (of_nat (umask w)))"

section \<open>srv_daemonize\<close>

text \<open>The results of \<open>setsid\<close>, \<open>close\<close> and \<open>chdir\<close> are not looked at.\<close>

definition srv_daemonize :: "nat \<Rightarrow> procst \<Rightarrow> daemon_res" where
  "srv_daemonize NOFILE w0 =
     (case take_fault w0 of (bad, w1) \<Rightarrow>
        if bad then Exit 1
        else case setsid (child w1) of (_, w2) \<Rightarrow>
          case take_fault w2 of (bad, w3) \<Rightarrow>
            if bad then Exit 1
            else Ret 0 ((close_below NOFILE (child w3))\<lparr>cwd := ''/'', umask := 0\<rparr>))"

section \<open>tobeDaemon\<close>

definition S_IRUSR :: nat where "S_IRUSR = 256"
definition S_IWUSR :: nat where "S_IWUSR = 128"
definition S_IRGRP :: nat where "S_IRGRP = 32"
definition S_IROTH :: nat where "S_IROTH = 4"

text \<open>Standard output and error become copies of the descriptor of standard input.\<close>

definition reopen_std :: "procst \<Rightarrow> daemon_res" where
  "reopen_std w0 =
     (case sys_open ''/dev/null'' w0 of (fd, w1) \<Rightarrow>
        if fd \<noteq> 0 then Ret (-1) w1
        else case dup2 (nat fd) 1 w1 of (r, w2) \<Rightarrow>
          if r \<noteq> 1 then Ret (-1) w2
          else case dup2 (nat fd) 2 w2 of (r, w3) \<Rightarrow> if r \<noteq> 2 then Ret (-1) w3 else Ret 0 w3)"

text \<open>\<open>open_max\<close> is what \<open>sysconf\<close> returns.\<close>

definition tobeDaemon :: "int \<Rightarrow> procst \<Rightarrow> daemon_res" where
  "tobeDaemon open_max w0 =
     (case take_fault w0 of (bad, w1) \<Rightarrow>
        if bad then Ret (-1) w1
        else case setsid (child w1) of (r, w2) \<Rightarrow>
          if r = -1 then Ret (-1) w2
          else case take_fault w2 of (bad, w3) \<Rightarrow>
            if bad then Ret (-1) w3
            else let w4 = (child w3)\<lparr>umask := S_IRUSR OR S_IWUSR OR S_IRGRP OR S_IROTH, cwd := ''/''\<rparr>;
                     maxfd = (if open_max = -1 then 8192 else open_max)
                 in reopen_std (close_below (nat maxfd) w4))"

section \<open>Detached\<close>

text \<open>The identifiers in use are below the next one.\<close>

definition ids_used :: "procst \<Rightarrow> bool" where
  "ids_used w \<longleftrightarrow> pid w < next_pid w \<and> pgid w < next_pid w \<and> sid w < next_pid w"

text \<open>A process that is in a new session without terminal which it does not lead, so that it never gets one.\<close>

definition detached :: "procst \<Rightarrow> procst \<Rightarrow> bool" where
  "detached w d \<longleftrightarrow> sid d \<noteq> sid w \<and> pgid d \<noteq> pgid w \<and> pid d \<noteq> sid d \<and> pid d \<noteq> pgid d \<and> cwd d = ''/'' \<and>
     ctty d = None \<and> (\<forall>name. ctty (open_tty name d) = None)"

lemma two_forks:
  assumes "ids_used w"
  shows "\<exists>w2. setsid (child w) = (int (next_pid w), w2) \<and> pid w2 = next_pid w \<and> sid w2 = next_pid w \<and> pgid w2 = next_pid w \<and>
    next_pid w2 = next_pid w + 1 \<and> ctty w2 = None \<and> fds w2 = fds w \<and> call_fails w2 = call_fails w"
  using assms by (auto simp: ids_used_def setsid_def child_def)

lemma open_lowest:
  assumes "call_fails w = []" "fds w = None # fs"
  shows "sys_open name w = (0, w\<lparr>fds := Some name # fs\<rparr>)"
  using assms by (simp add: sys_open_def take_fault_def upt_rec)

lemma closed_prefix:
  assumes "3 \<le> n" "3 \<le> length xs"
  shows "\<exists>fs. map (\<lambda>f. if f < n then None else xs ! f) [0..<length xs] = None # None # None # fs \<and>
    (\<forall>f. 3 \<le> f \<and> f < length xs \<longrightarrow> fs ! (f - 3) = (if f < n then None else xs ! f))"
proof -
  have "[0..<length xs] = 0 # 1 # 2 # [3..<length xs]"
    using upt_add_eq_append [of 0 3 "length xs - 3"] assms(2) by (auto simp: upt_rec numeral_3_eq_3 numeral_2_eq_2)
  then show ?thesis using assms by auto
qed

text \<open>Becoming a daemon. If no call fails, both functions return 0 in a process in a session of its own that it does
  not lead, without terminal, which it cannot get by opening one, and in the root directory. \<open>srv_daemonize\<close> leaves no
  descriptor below its bound open; \<open>tobeDaemon\<close> leaves the three standard ones, all on /dev/null. The mask of
  \<open>tobeDaemon\<close> takes from the files the daemon creates the permission of their owner to read and write.\<close>

theorem daemons_detach:
  assumes w: "ids_used w" "call_fails w = []" "3 \<le> length (fds w)" and m: "open_max = -1 \<or> 3 \<le> open_max"
  shows "(\<exists>d. srv_daemonize NOFILE w = Ret 0 d \<and> detached w d \<and> (\<forall>f < length (fds w). f < NOFILE \<longrightarrow> fds d ! f = None) \<and>
      created_mode (mode 6 6 6) d = mode 6 6 6) \<and>
    (\<exists>d. tobeDaemon open_max w = Ret 0 d \<and> detached w d \<and> (\<forall>f < 3. fds d ! f = Some ''/dev/null'') \<and>
      (\<forall>f < length (fds w). 3 \<le> f \<and> int f < (if open_max = -1 then 8192 else open_max) \<longrightarrow> fds d ! f = None) \<and>
      created_mode (mode 6 6 6) d = mode 0 2 2)"
proof -
  from two_forks [OF w(1)] obtain w2 where w2: "setsid (child w) = (int (next_pid w), w2)" "pid w2 = next_pid w" "sid w2 = next_pid w"
    "pgid w2 = next_pid w" "next_pid w2 = next_pid w + 1" "ctty w2 = None" "fds w2 = fds w" "call_fails w2 = []"
    using w(2) by auto
  have d: "detached w d" if "sid d = next_pid w" "pgid d = next_pid w" "pid d = next_pid w + 1" "cwd d = ''/''" "ctty d = None" for d
    using w(1) that by (auto simp: detached_def ids_used_def open_tty_def)
  have s: "\<exists>d. srv_daemonize NOFILE w = Ret 0 d \<and> detached w d \<and> (\<forall>f < length (fds w). f < NOFILE \<longrightarrow> fds d ! f = None) \<and>
      created_mode (mode 6 6 6) d = mode 6 6 6"
    using w(2) w2 by (simp add: srv_daemonize_def take_fault_def d child_def close_below_def created_mode_def mode_def)
  let ?max = "nat (if open_max = -1 then 8192 else open_max)"
  have "3 \<le> ?max" using m by auto
  from closed_prefix [OF this w(3)] obtain fs where fs:
    "map (\<lambda>f. if f < ?max then None else fds w ! f) [0..<length (fds w)] = None # None # None # fs"
    "\<forall>f. 3 \<le> f \<and> f < length (fds w) \<longrightarrow> fs ! (f - 3) = (if f < ?max then None else fds w ! f)" by auto
  let ?d = "(child w2)\<lparr>umask := 420, cwd := ''/'', fds := Some ''/dev/null'' # Some ''/dev/null'' # Some ''/dev/null'' # fs\<rparr>"
  have c: "close_below ?max v = v\<lparr>fds := None # None # None # fs\<rparr>" if "fds v = fds w" for v
    using fs(1) that by (simp only: close_below_def)
  have "S_IRUSR OR S_IWUSR OR S_IRGRP OR S_IROTH = 420"
    by (simp add: S_IRUSR_def S_IWUSR_def S_IRGRP_def S_IROTH_def)
  then have "tobeDaemon open_max w = reopen_std ((child w2)\<lparr>umask := 420, cwd := ''/'', fds := None # None # None # fs\<rparr>)"
    using w(2) w2 by (simp add: tobeDaemon_def take_fault_def child_def Let_def c [simplified] split del: if_split)
  also have "\<dots> = Ret 0 ?d"
    using w2(8) by (simp add: reopen_std_def child_def open_lowest dup2_def take_fault_def)
  finally have t: "tobeDaemon open_max w = Ret 0 ?d" .
  have "fds ?d ! f = Some ''/dev/null''" if "f < 3" for f
    using that by (auto simp: less_Suc_eq numeral_3_eq_3)
  moreover have "fds ?d ! f = None" if l: "f < length (fds w)" "3 \<le> f" "int f < (if open_max = -1 then 8192 else open_max)" for f
  proof -
    have "f < ?max" using l(3) by auto
    then have "fs ! (f - 3) = None" using fs(2) l by simp
    moreover have "fds ?d ! f = fs ! (f - 3)" using l(2) by (simp add: nth_Cons' numeral_3_eq_3)
    ultimately show ?thesis by simp
  qed
  moreover have "created_mode (mode 6 6 6) ?d = mode 0 2 2" by (simp add: created_mode_def mode_def)
  moreover have "detached w ?d" using w2 by (intro d) (simp_all add: child_def)
  ultimately show ?thesis using s t by blast
qed

theorem daemons_detach_witness:
  "\<exists>d. tobeDaemon 1024 \<lparr>pid = 5, pgid = 5, sid = 2, next_pid = 9, ctty = Some ''/dev/tty1'', fds = replicate 8 (Some ''/dev/tty1''),
     umask = 18, cwd = ''/home'', call_fails = []\<rparr> = Ret 0 d \<and> created_mode (mode 6 6 6) d = mode 0 2 2"
  using daemons_detach [of "\<lparr>pid = 5, pgid = 5, sid = 2, next_pid = 9, ctty = Some ''/dev/tty1'', fds = replicate 8 (Some ''/dev/tty1''),
     umask = 18, cwd = ''/home'', call_fails = []\<rparr>" 1024 0]
  by (auto simp: ids_used_def)

text \<open>A failed \<open>fork\<close> ends the process of \<open>srv_daemonize\<close>, while \<open>tobeDaemon\<close> returns -1 in it.\<close>

lemma fork_failures:
  "call_fails w = True # bs \<Longrightarrow> srv_daemonize n w = Exit 1 \<and> tobeDaemon m w = Ret (-1) (w\<lparr>call_fails := bs\<rparr>)"
  by (simp add: srv_daemonize_def tobeDaemon_def take_fault_def)

end
