(* ===== verification/Cron.thy ===== *)
theory Cron
  imports Timers Daemon
begin

text \<open>
  The exercise that runs commands at intervals (homework/wu-shixiong/fake_cron.c): reading the
  configuration with \<open>getline\<close> and \<open>sscanf\<close>, the timers, the signal handler and the loop around
  \<open>select\<close>. What the variables of a function hold before they are assigned is a parameter.
\<close>

section \<open>Data\<close>

definition CMD_MAX_BYTES :: nat where "CMD_MAX_BYTES = 128"

record mycmd =
  mc_cmd :: string
  mc_start :: int
  mc_period :: int
  mc_count :: int

record simple_cron =
  cmd1 :: mycmd
  cmd2 :: mycmd
  cmd3 :: mycmd

abbreviation NUL :: char where "NUL \<equiv> CHR 0x00"

definition c_str :: "string \<Rightarrow> string" where "c_str s = takeWhile (\<lambda>c. c \<noteq> NUL) s"

definition zero_cmd :: mycmd where
  "zero_cmd = \<lparr>mc_cmd = replicate CMD_MAX_BYTES NUL, mc_start = 0, mc_period = 0, mc_count = 0\<rparr>"

definition zero_cron :: simple_cron where
  "zero_cron = \<lparr>cmd1 = zero_cmd, cmd2 = zero_cmd, cmd3 = zero_cmd\<rparr>"

section \<open>The configuration\<close>

text \<open>\<open>%d\<close>: the number and the rest of the text.\<close>

definition scan_int :: "string \<Rightarrow> (int \<times> string) option" where
  "scan_int s =
     (let t = dropWhile is_space s;
          neg = (t \<noteq> [] \<and> hd t = CHR ''-'');
          ds = (if t \<noteq> [] \<and> (hd t = CHR ''-'' \<or> hd t = CHR ''+'') then tl t else t);
          v = digits_val (takeWhile is_digit ds)
      in if takeWhile is_digit ds = [] then None else Some (if neg then - v else v, dropWhile is_digit ds))"

text \<open>\<open>%[^\n]\<close> after white space: the text up to the end of the line.\<close>

definition scan_text :: "string \<Rightarrow> string option" where
  "scan_text s = (let t = takeWhile (\<lambda>c. c \<noteq> CHR 0x0A) (dropWhile is_space s) in if t = [] then None else Some t)"

definition in_int :: "int \<Rightarrow> bool" where "in_int i \<longleftrightarrow> - (2 ^ 31) \<le> i \<and> i < 2 ^ 31"

text \<open>A conversion stores its number, or ends the call and leaves the rest of the variables as they are. \<open>None\<close>: a number
  that is not an \<open>int\<close>.\<close>

definition conv_int :: "string \<Rightarrow> 'a \<Rightarrow> (int \<Rightarrow> string \<Rightarrow> 'a option) \<Rightarrow> 'a option" where
  "conv_int s keep cont =
     (case scan_int s of None \<Rightarrow> Some keep | Some (i, rest) \<Rightarrow> if in_int i then cont i rest else None)"

text \<open>The call of \<open>sscanf\<close> on a line, with the variables before it: start, period, count, and the text in the buffer, which
  is empty. \<open>None\<close> too when the text does not fit into the buffer.\<close>

definition scan_line :: "int \<times> int \<times> int \<Rightarrow> string \<Rightarrow> ((int \<times> int \<times> int) \<times> string) option" where
  "scan_line v line =
     (case v of (s0, p0, c0) \<Rightarrow>
      conv_int (c_str line) ((s0, p0, c0), []) (\<lambda>s r1.
      conv_int r1 ((s, p0, c0), []) (\<lambda>p r2.
      conv_int r2 ((s, p, c0), []) (\<lambda>c r3.
        case scan_text r3 of
          None \<Rightarrow> Some ((s, p, c), [])
        | Some t \<Rightarrow> if length t < CMD_MAX_BYTES then Some ((s, p, c), t) else None))))"

text \<open>\<open>strncpy\<close> with the length of the text: no terminator, and the rest of the array as it was.\<close>

definition make_cmd :: "mycmd \<Rightarrow> (int \<times> int \<times> int) \<times> string \<Rightarrow> mycmd" where
  "make_cmd stale r =
     (case r of ((s, p, c), buf) \<Rightarrow>
        \<lparr>mc_cmd = buf @ drop (length buf) (mc_cmd stale), mc_start = s, mc_period = p, mc_count = c\<rparr>)"

text \<open>The switch: a fourth command is dropped.\<close>

definition store_cmd :: "mycmd \<Rightarrow> simple_cron \<times> nat \<Rightarrow> simple_cron \<times> nat" where
  "store_cmd tmp st =
     (case st of (cron, cmd_count) \<Rightarrow>
        if cmd_count = 0 then (cron\<lparr>cmd1 := tmp\<rparr>, cmd_count + 1)
        else if cmd_count = 1 then (cron\<lparr>cmd2 := tmp\<rparr>, cmd_count + 1)
        else if cmd_count = 2 then (cron\<lparr>cmd3 := tmp\<rparr>, cmd_count + 1)
        else (cron, cmd_count))"

definition load_line :: "mycmd \<Rightarrow> string \<Rightarrow> simple_cron \<times> nat \<Rightarrow> (simple_cron \<times> nat) option" where
  "load_line stale line st =
     (if line \<noteq> [] \<and> hd line = CHR ''#'' then Some st
      else map_option (\<lambda>r. store_cmd (make_cmd stale r) st) (scan_line (mc_start stale, mc_period stale, mc_count stale) line))"

text \<open>\<open>stale n\<close>: what the variables hold at the line with number \<open>n\<close>.\<close>

fun load_lines :: "(nat \<Rightarrow> mycmd) \<Rightarrow> nat \<Rightarrow> string list \<Rightarrow> simple_cron \<times> nat \<Rightarrow> (simple_cron \<times> nat) option" where
  "load_lines stale n [] st = Some st"
| "load_lines stale n (l # ls) st = do { st1 \<leftarrow> load_line (stale n) l st; load_lines stale (n + 1) ls st1 }"

text \<open>The result, the configuration and the number of open streams: the file is not closed.\<close>

definition load_config :: "(nat \<Rightarrow> mycmd) \<Rightarrow> string list option \<Rightarrow> simple_cron \<times> nat \<Rightarrow> (int \<times> simple_cron \<times> nat) option" where
  "load_config stale file st =
     (case st of (cron, streams) \<Rightarrow>
        case file of
          None \<Rightarrow> Some (-1, cron, streams)
        | Some ls \<Rightarrow> map_option (\<lambda>(cron', _). (0, cron', streams + 1)) (load_lines stale 0 ls (cron, 0)))"

section \<open>Signals\<close>

definition SIGHUP :: nat where "SIGHUP = 1"
definition SIGTERM :: nat where "SIGTERM = 15"

definition signal_handler :: "(nat \<Rightarrow> mycmd) \<Rightarrow> string list option \<Rightarrow> nat \<Rightarrow> simple_cron \<times> nat \<Rightarrow> (simple_cron \<times> nat) option" where
  "signal_handler stale file signum st =
     (if signum = SIGTERM then Some st
      else if signum = SIGHUP then map_option snd (load_config stale file (zero_cron, snd st))
      else Some st)"

section \<open>The timers and the loop\<close>

text \<open>A descriptor is set for a command that is not empty; otherwise the variable keeps what it holds.\<close>

definition start_timer :: "tfenv \<Rightarrow> mycmd \<Rightarrow> int \<Rightarrow> int outcome" where
  "start_timer E c stale_fd = (if c_str (mc_cmd c) \<noteq> [] then set_timerfd_value E (mc_start c) (mc_period c) else Returns stale_fd)"

definition start_timers :: "(nat \<Rightarrow> tfenv) \<Rightarrow> simple_cron \<Rightarrow> int \<times> int \<times> int \<Rightarrow> int list outcome" where
  "start_timers E cron stale_fds =
     (case stale_fds of (g1, g2, g3) \<Rightarrow>
      case start_timer (E 1) (cmd1 cron) g1 of Exits \<Rightarrow> Exits | Returns fd1 \<Rightarrow>
      case start_timer (E 2) (cmd2 cron) g2 of Exits \<Rightarrow> Exits | Returns fd2 \<Rightarrow>
      case start_timer (E 3) (cmd3 cron) g3 of Exits \<Rightarrow> Exits | Returns fd3 \<Rightarrow> Returns [fd1, fd2, fd3])"

text \<open>\<open>main\<close> up to the loop; the results of \<open>tobeDaemon\<close> and \<open>load_config\<close> are not looked at. \<open>Inl\<close>: a status.\<close>

definition cron_main :: "bool \<Rightarrow> int \<Rightarrow> procst \<Rightarrow> (nat \<Rightarrow> mycmd) \<Rightarrow> string list option \<Rightarrow> (nat \<Rightarrow> tfenv) \<Rightarrow> int \<times> int \<times> int \<Rightarrow>
    (int + procst \<times> simple_cron \<times> int list) option" where
  "cron_main sigaction_ok open_max w stale file E stale_fds =
     (if \<not> sigaction_ok then Some (Inl (-1))
      else case tobeDaemon open_max w of
          Exit c \<Rightarrow> Some (Inl c)
        | Ret _ d \<Rightarrow> do {
            (_, cron, _) \<leftarrow> load_config stale file (zero_cron, 0);
            Some (case start_timers E cron stale_fds of Exits \<Rightarrow> Inl 1 | Returns tfds \<Rightarrow> Inr (d, cron, tfds)) })"

text \<open>What is served: \<open>nready\<close>, the expirations waiting at each descriptor, and what was read, in order.\<close>

record servest =
  nready :: int
  waiting :: "int \<Rightarrow> nat"
  served :: "(int \<times> nat) list"

definition serve_fd :: "int list \<Rightarrow> int \<Rightarrow> servest \<Rightarrow> servest option" where
  "serve_fd ready fd s =
     (if fd \<in> set ready
      then if waiting s fd = 0 then None
           else Some (s\<lparr>nready := nready s - 1, waiting := (waiting s)(fd := 0), served := served s @ [(fd, waiting s fd)]\<rparr>)
      else Some s)"

text \<open>The loop over the ready descriptors; \<open>None\<close>: it never ends, or a read waits for ever.\<close>

partial_function (option) serve_loop :: "int list \<Rightarrow> int list \<Rightarrow> servest \<Rightarrow> servest option" where
  "serve_loop tfds ready s =
     (if nready s = 0 then Some s else do { s1 \<leftarrow> foldm (serve_fd ready) tfds s; serve_loop tfds ready s1 })"

text \<open>What \<open>select\<close> returns: ready descriptors, or -1 because a signal was handled.\<close>

datatype sel_event = Ready "int list" | Interrupted nat

record cronst =
  mycron :: simple_cron
  streams :: nat
  servs :: servest

definition cron_step :: "(nat \<Rightarrow> mycmd) \<Rightarrow> string list option \<Rightarrow> int list \<Rightarrow> sel_event \<Rightarrow> cronst \<Rightarrow> cronst outcome option" where
  "cron_step stale file tfds ev s =
     (case ev of
        Ready ready \<Rightarrow>
          map_option (\<lambda>v. Returns (s\<lparr>servs := v\<rparr>)) (serve_loop tfds ready ((servs s)\<lparr>nready := int (length ready)\<rparr>))
      | Interrupted signum \<Rightarrow> do { _ \<leftarrow> signal_handler stale file signum (mycron s, streams s); Some Exits })"

end
