(* ===== verification/CronProps.thy ===== *)
theory CronProps
  imports Cron
begin

text \<open>
  Reading a configuration gives back what was written into it, up to the bytes behind a command; the
  loop serves every timer that is ready; a signal ends it.
\<close>

section \<open>Printing and scanning\<close>

lemma dec_digits_not_empty [simp]: "dec_digits n \<noteq> []"
  by (subst dec_digits.simps) simp

lemma digit_not:
  "is_digit c \<Longrightarrow> \<not> is_space c \<and> c \<noteq> CHR ''-'' \<and> c \<noteq> CHR ''+'' \<and> c \<noteq> NUL \<and> c \<noteq> CHR ''#'' \<and> c \<noteq> CHR 0x0A"
  by (auto simp: is_digit_def is_space_def)

lemma hd_dec_digits [simp]: "is_digit (hd (dec_digits n))"
  by (intro dec_digits_digit [of _ n]) simp

lemma scan_digits:
  assumes "rest = [] \<or> \<not> is_digit (hd rest)"
  shows "takeWhile is_digit (dec_digits n @ rest) = dec_digits n" "dropWhile is_digit (dec_digits n @ rest) = rest"
proof -
  have "takeWhile is_digit rest = []" "dropWhile is_digit rest = rest" using assms by (cases rest; simp)+
  then show "takeWhile is_digit (dec_digits n @ rest) = dec_digits n" "dropWhile is_digit (dec_digits n @ rest) = rest"
    using dec_digits_digit [of _ n] by (simp_all add: takeWhile_append2 dropWhile_append2)
qed

lemma skip_space: "xs \<noteq> [] \<Longrightarrow> \<not> is_space (hd xs) \<Longrightarrow> dropWhile is_space (xs @ ys) = xs @ ys"
  by (cases xs) simp_all

lemma is_space_blank [simp]: "is_space (CHR '' '')" "\<not> is_digit (CHR '' '')" "\<not> is_space (CHR ''-'')"
  by (simp_all add: is_space_def is_digit_def)

lemma fmt_int_hd: "fmt_int i \<noteq> [] \<and> \<not> is_space (hd (fmt_int i)) \<and> hd (fmt_int i) \<noteq> CHR ''#''"
  using digit_not [OF hd_dec_digits] by (simp add: fmt_int_def)

lemma fmt_int_chars: "c \<in> set (fmt_int i) \<Longrightarrow> c \<noteq> NUL"
  using digit_not dec_digits_digit by (auto simp: fmt_int_def split: if_splits)

lemma scan_int_fmt [simp]:
  assumes "rest = [] \<or> \<not> is_digit (hd rest)"
  shows "scan_int (fmt_int i @ rest) = Some (i, rest)"
proof (cases "i < 0")
  case True
  then show ?thesis using scan_digits [OF assms, of "nat (- i)"]
    by (simp add: scan_int_def fmt_int_def digits_val_dec)
next
  case False
  have "dropWhile is_space (dec_digits (nat i) @ rest) = dec_digits (nat i) @ rest"
    using digit_not [OF hd_dec_digits] by (intro skip_space) simp_all
  then show ?thesis using False scan_digits [OF assms, of "nat i"] digit_not [OF hd_dec_digits, of "nat i"]
    by (simp add: scan_int_def fmt_int_def digits_val_dec Let_def)
qed

lemma scan_int_blank [simp]: "scan_int (CHR '' '' # s) = scan_int s"
  by (simp add: scan_int_def)

section \<open>Lines\<close>

text \<open>A command as it is written into the file.\<close>

record entry =
  e_start :: int
  e_period :: int
  e_count :: int
  e_text :: string

definition entry_ok :: "entry \<Rightarrow> bool" where
  "entry_ok e \<longleftrightarrow> in_int (e_start e) \<and> in_int (e_period e) \<and> in_int (e_count e) \<and> e_text e \<noteq> [] \<and>
     length (e_text e) < CMD_MAX_BYTES \<and> CHR 0x0A \<notin> set (e_text e) \<and> NUL \<notin> set (e_text e) \<and> \<not> is_space (hd (e_text e))"

datatype cfg_line = Comment string | Entry entry

fun render :: "cfg_line \<Rightarrow> string" where
  "render (Comment x) = CHR ''#'' # x"
| "render (Entry e) = fmt_int (e_start e) @ CHR '' '' # fmt_int (e_period e) @ CHR '' '' # fmt_int (e_count e) @ CHR '' '' # e_text e @ [CHR 0x0A]"

lemma c_str_id: "NUL \<notin> set s \<Longrightarrow> c_str s = s"
  unfolding c_str_def by (simp add: takeWhile_eq_all_conv) blast


lemma scan_line_entry:
  assumes "entry_ok e"
  shows "scan_line v (render (Entry e)) = Some ((e_start e, e_period e, e_count e), e_text e)"
proof -
  have "NUL \<notin> set (render (Entry e))" using assms fmt_int_chars by (auto simp: entry_ok_def)
  then have c: "c_str (render (Entry e)) = render (Entry e)" by (rule c_str_id)
  have "scan_text (CHR '' '' # e_text e @ [CHR 0x0A]) = Some (e_text e)"
  proof -
    have "dropWhile is_space (e_text e @ [CHR 0x0A]) = e_text e @ [CHR 0x0A]"
      using assms by (intro skip_space) (simp_all add: entry_ok_def)
    moreover have "takeWhile (\<lambda>c. c \<noteq> CHR 0x0A) (e_text e @ [CHR 0x0A]) = e_text e"
      using assms by (subst takeWhile_append2) (auto simp: entry_ok_def)
    ultimately show ?thesis using assms by (simp add: scan_text_def entry_ok_def)
  qed
  then show ?thesis using assms unfolding scan_line_def c by (cases v) (simp add: conv_int_def entry_ok_def)
qed

lemma hd_render: "render (Entry e) \<noteq> [] \<and> hd (render (Entry e)) \<noteq> CHR ''#''"
  using fmt_int_hd by (simp add: hd_append)

text \<open>The commands of a file with the numbers of their lines, and what is stored for them.\<close>

fun entries :: "nat \<Rightarrow> cfg_line list \<Rightarrow> (nat \<times> entry) list" where
  "entries n [] = []"
| "entries n (Comment x # ls) = entries (n + 1) ls"
| "entries n (Entry e # ls) = (n, e) # entries (n + 1) ls"

definition stored :: "(nat \<Rightarrow> mycmd) \<Rightarrow> nat \<times> entry \<Rightarrow> mycmd" where
  "stored stale ne = make_cmd (stale (fst ne)) ((e_start (snd ne), e_period (snd ne), e_count (snd ne)), e_text (snd ne))"

definition slots :: "simple_cron \<Rightarrow> mycmd list" where
  "slots cron = [cmd1 cron, cmd2 cron, cmd3 cron]"

definition filled :: "nat \<Rightarrow> mycmd list \<Rightarrow> mycmd list \<Rightarrow> mycmd list" where
  "filled k xs ys = take k ys @ take (3 - k) xs @ drop (k + length xs) ys"

lemma store_cmd_filled:
  assumes "k \<le> 3"
  shows "\<exists>cron'. store_cmd c (cron, k) = (cron', min 3 (k + 1)) \<and> slots cron' = filled k [c] (slots cron)"
proof -
  consider "k = 0" | "k = 1" | "k = 2" | "k = 3" using assms by linarith
  then show ?thesis by cases (auto simp: store_cmd_def filled_def slots_def eval_nat_numeral)
qed

lemma length_slots [simp]: "length (slots cron) = 3" by (simp add: slots_def)

lemma filled_twice:
  assumes "k \<le> 3" "length ys = 3"
  shows "filled (min 3 (k + 1)) xs (filled k [x] ys) = filled k (x # xs) ys"
proof -
  obtain a b c where ys: "ys = [a, b, c]" using assms(2) by (auto simp: length_Suc_conv eval_nat_numeral)
  consider "k = 0" | "k = 1" | "k = 2" | "k = 3" using assms(1) by linarith
  then show ?thesis by cases (auto simp: filled_def ys eval_nat_numeral)
qed

lemma load_lines_entries:
  assumes "\<forall>e. Entry e \<in> set ls \<longrightarrow> entry_ok e" "k \<le> 3"
  shows "\<exists>cron'. load_lines stale n (map render ls) (cron, k) = Some (cron', min 3 (k + length (entries n ls))) \<and>
    slots cron' = filled k (map (stored stale) (entries n ls)) (slots cron)"
  using assms
proof (induction ls arbitrary: n cron k)
  case Nil
  then show ?case by (simp add: filled_def)
next
  case (Cons l ls)
  show ?case
  proof (cases l)
    case (Comment x)
    then show ?thesis using Cons.IH [of k "n + 1" cron] Cons.prems by (simp add: load_line_def)
  next
    case (Entry e)
    have e: "entry_ok e" using Cons.prems(1) Entry by simp
    obtain c1 where c1: "store_cmd (stored stale (n, e)) (cron, k) = (c1, min 3 (k + 1))"
      "slots c1 = filled k [stored stale (n, e)] (slots cron)" using store_cmd_filled [OF Cons.prems(2)] by blast
    have line: "load_line (stale n) (render l) (cron, k) = Some (c1, min 3 (k + 1))"
      using hd_render [of e] scan_line_entry [OF e] c1(1) unfolding load_line_def Entry by (simp add: stored_def del: render.simps)
    obtain c2 where c2: "load_lines stale (n + 1) (map render ls) (c1, min 3 (k + 1)) =
        Some (c2, min 3 (min 3 (k + 1) + length (entries (n + 1) ls)))"
      "slots c2 = filled (min 3 (k + 1)) (map (stored stale) (entries (n + 1) ls)) (slots c1)"
      using Cons.IH [of "min 3 (k + 1)" "n + 1" c1] Cons.prems(1) by auto
    have "slots c2 = filled k (map (stored stale) (entries n (l # ls))) (slots cron)"
      using c2(2) c1(2) filled_twice [OF Cons.prems(2), of "slots cron"] by (simp add: Entry)
    moreover have "min 3 (min 3 (k + 1) + length (entries (n + 1) ls)) = min 3 (k + length (entries n (l # ls)))"
      using Cons.prems(2) by (simp add: Entry)
    ultimately show ?thesis using line c2(1) by (intro exI [of _ c2]) (simp del: render.simps)
  qed
qed



section \<open>The loop\<close>

lemma serve_pass:
  assumes "distinct tfds" "\<forall>fd \<in> set tfds. fd \<in> set ready \<longrightarrow> 0 < waiting s fd"
  shows "foldm (serve_fd ready) tfds s =
    Some (s\<lparr>nready := nready s - int (length (filter (\<lambda>fd. fd \<in> set ready) tfds)),
            waiting := (\<lambda>fd. if fd \<in> set tfds \<and> fd \<in> set ready then 0 else waiting s fd),
            served := served s @ map (\<lambda>fd. (fd, waiting s fd)) (filter (\<lambda>fd. fd \<in> set ready) tfds)\<rparr>)"
  using assms
proof (induction tfds arbitrary: s)
  case (Cons fd fds)
  show ?case
  proof (cases "fd \<in> set ready")
    case True
    let ?s = "s\<lparr>nready := nready s - 1, waiting := (waiting s)(fd := 0), served := served s @ [(fd, waiting s fd)]\<rparr>"
    have "serve_fd ready fd s = Some ?s" using Cons.prems(2) True by (simp add: serve_fd_def)
    moreover have "map (\<lambda>f. (f, waiting ?s f)) (filter (\<lambda>f. f \<in> set ready) fds) = map (\<lambda>f. (f, waiting s f)) (filter (\<lambda>f. f \<in> set ready) fds)"
      using Cons.prems(1) by (intro map_cong) auto
    moreover have "(\<lambda>f. if f \<in> set fds \<and> f \<in> set ready then 0 else waiting ?s f) =
        (\<lambda>f. if f \<in> set (fd # fds) \<and> f \<in> set ready then 0 else waiting s f)"
      using True by auto
    moreover have "distinct fds" "\<forall>f \<in> set fds. f \<in> set ready \<longrightarrow> 0 < waiting ?s f" using Cons.prems by auto
    ultimately show ?thesis using Cons.IH [of ?s] True by simp
  next
    case False
    then have "(\<lambda>f. if f \<in> set fds \<and> f \<in> set ready then 0 else waiting s f) =
        (\<lambda>f. if f \<in> set (fd # fds) \<and> f \<in> set ready then 0 else waiting s f)" by auto
    then show ?thesis using Cons.IH [of s] Cons.prems False by (simp add: serve_fd_def)
  qed
qed simp

text \<open>The loop. When the three descriptors differ and \<open>select\<close> reports ready ones among them, each of those is read
  once, in the order of the commands, and the loop around them ends. When two variables hold the same descriptor, as
  they may if a command is missing, and it is ready, the loop never ends. A signal, the one to reload the
  configuration included, ends the program with an error, as \<open>select\<close> returns -1.\<close>

theorem cron_serves:
  assumes ready: "distinct ready" "ready \<noteq> []" "set ready \<subseteq> set [f1, f2, f3]" "\<forall>fd \<in> set ready. 0 < waiting (servs s) fd"
    and conf: "\<forall>e. Entry e \<in> set ls \<longrightarrow> entry_ok e"
  shows "(distinct [f1, f2, f3] \<longrightarrow> cron_step stale file [f1, f2, f3] (Ready ready) s =
      Some (Returns (s\<lparr>servs := \<lparr>nready = 0, waiting = (\<lambda>fd. if fd \<in> set ready then 0 else waiting (servs s) fd),
        served = served (servs s) @ map (\<lambda>fd. (fd, waiting (servs s) fd)) (filter (\<lambda>fd. fd \<in> set ready) [f1, f2, f3])\<rparr>\<rparr>))) \<and>
    (f1 = f2 \<and> f1 \<in> set ready \<longrightarrow> cron_step stale file [f1, f2, f3] (Ready ready) s = None) \<and>
    cron_step stale (Some (map render ls)) [f1, f2, f3] (Interrupted signum) s = Some Exits"
proof -
  let ?v = "(servs s)\<lparr>nready := int (length ready)\<rparr>"
  have nz: "nready ?v \<noteq> 0" using ready(2) by simp
  have "cron_step stale file [f1, f2, f3] (Ready ready) s =
      Some (Returns (s\<lparr>servs := \<lparr>nready = 0, waiting = (\<lambda>fd. if fd \<in> set ready then 0 else waiting (servs s) fd),
        served = served (servs s) @ map (\<lambda>fd. (fd, waiting (servs s) fd)) (filter (\<lambda>fd. fd \<in> set ready) [f1, f2, f3])\<rparr>\<rparr>))"
    if d: "distinct [f1, f2, f3]"
  proof -
    let ?fs = "filter (\<lambda>fd. fd \<in> set ready) [f1, f2, f3]"
    have "set ?fs = set ready" unfolding set_filter using ready(3) by blast
    then have "length ?fs = length ready" using distinct_filter [OF d] ready(1) by (metis distinct_card)
    then have "nready ?v - int (length ?fs) = 0" by (simp del: filter.simps)
    moreover have "(\<lambda>fd. if fd \<in> set [f1, f2, f3] \<and> fd \<in> set ready then 0 else waiting ?v fd) =
        (\<lambda>fd. if fd \<in> set ready then 0 else waiting (servs s) fd)" using ready(3) by (auto simp: fun_eq_iff)
    moreover have w: "\<forall>fd \<in> set [f1, f2, f3]. fd \<in> set ready \<longrightarrow> 0 < waiting ?v fd" using ready(4) by simp
    ultimately have "foldm (serve_fd ready) [f1, f2, f3] ?v = Some \<lparr>nready = 0, waiting = (\<lambda>fd. if fd \<in> set ready then 0 else waiting (servs s) fd),
        served = served (servs s) @ map (\<lambda>fd. (fd, waiting (servs s) fd)) ?fs\<rparr>"
      unfolding serve_pass [OF d w] by (simp del: filter.simps list.set)
    then show ?thesis using nz by (simp add: cron_step_def serve_loop.simps del: foldm.simps)
  qed
  moreover have "cron_step stale file [f1, f2, f3] (Ready ready) s = None" if "f1 = f2" "f1 \<in> set ready"
  proof -
    have "foldm (serve_fd ready) [f1, f2, f3] ?v = None" using that ready(4) by (simp add: serve_fd_def)
    then show ?thesis using nz by (simp add: cron_step_def serve_loop.simps del: foldm.simps)
  qed
  moreover have "cron_step stale (Some (map render ls)) [f1, f2, f3] (Interrupted signum) s = Some Exits"
  proof -
    obtain c where "load_lines stale 0 (map render ls) (zero_cron, 0) = Some c"
      using load_lines_entries [OF conf, of 0 stale 0 zero_cron] by blast
    then show ?thesis by (auto simp: cron_step_def signal_handler_def load_config_def)
  qed
  ultimately show ?thesis by (intro conjI impI) auto
qed

theorem cron_serves_witness:
  "cron_step (\<lambda>_. zero_cmd) None [4, 5, 6] (Ready [6, 4])
     \<lparr>mycron = zero_cron, streams = 1, servs = \<lparr>nready = 0, waiting = (\<lambda>_. 2), served = []\<rparr>\<rparr> =
   Some (Returns \<lparr>mycron = zero_cron, streams = 1, servs = \<lparr>nready = 0, waiting = (\<lambda>fd. if fd = 6 \<or> fd = 4 then 0 else 2), served = [(4, 2), (6, 2)]\<rparr>\<rparr>)"
  using cron_serves [of "[6, 4]" 4 5 6 "\<lparr>mycron = zero_cron, streams = 1, servs = \<lparr>nready = 0, waiting = (\<lambda>_. 2), served = []\<rparr>\<rparr>" "[]" "\<lambda>_. zero_cmd" None 15]
  by (simp cong: if_cong)

end
