(* ===== verification/EventFd.thy ===== *)
theory EventFd
  imports CStrings
begin

text \<open>
  Counters and signals that are read through a descriptor: the samples eventfd.c of lecture 4, as an
  interleaving of the child that writes numbers and the parent that reads, and signalfd.c of lecture 3.
\<close>

section \<open>Numbers in any base\<close>

definition digit_val :: "char \<Rightarrow> nat" where
  "digit_val c =
     (let n = of_char c :: nat in
      if 48 \<le> n \<and> n \<le> 57 then n - 48
      else if 97 \<le> n \<and> n \<le> 122 then n - 87
      else if 65 \<le> n \<and> n \<le> 90 then n - 55
      else 36)"

definition base_val :: "nat \<Rightarrow> string \<Rightarrow> nat" where
  "base_val b ds = foldl (\<lambda>v c. b * v + digit_val c) 0 (takeWhile (\<lambda>c. digit_val c < b) ds)"

text \<open>\<open>strtoull\<close> with base 0: white space, a sign, 0x or 0 for the bases 16 and 8; the result saturates, and a minus
  negates it.\<close>

definition strtoull :: "string \<Rightarrow> dword" where
  "strtoull s =
     (let t = dropWhile is_space s;
          neg = (t \<noteq> [] \<and> hd t = CHR ''-'');
          u = (if t \<noteq> [] \<and> (hd t = CHR ''-'' \<or> hd t = CHR ''+'') then tl t else t);
          v = (case u of
                 c # d # ds \<Rightarrow>
                   (if c = CHR ''0'' \<and> (d = CHR ''x'' \<or> d = CHR ''X'') \<and> ds \<noteq> [] \<and> digit_val (hd ds) < 16 then base_val 16 ds
                    else if c = CHR ''0'' then base_val 8 u
                    else base_val 10 u)
               | _ \<Rightarrow> base_val 10 u)
      in if 2 ^ 64 \<le> v then - 1 else if neg then - of_nat v else of_nat v)"

section \<open>eventfd\<close>

text \<open>The child writes its numbers and ends, with an error when a write fails; the parent sleeps, reads once and ends.\<close>

datatype ev_child = Writing "dword list" | Child_exit int

datatype ev_parent = Waiting | Parent_read dword

record evstate =
  ev_count :: dword
  ev_child :: ev_child
  ev_parent :: ev_parent

definition ev_init :: "string list \<Rightarrow> evstate" where
  "ev_init nums = \<lparr>ev_count = 0, ev_child = Writing (map strtoull nums), ev_parent = Waiting\<rparr>"

text \<open>A write of the greatest number fails; one that does not fit waits (\<open>None\<close>).\<close>

definition child_step :: "evstate \<Rightarrow> evstate option" where
  "child_step s =
     (case ev_child s of
        Writing [] \<Rightarrow> Some (s\<lparr>ev_child := Child_exit 0\<rparr>)
      | Writing (u # us) \<Rightarrow>
          (if u = -1 then Some (s\<lparr>ev_child := Child_exit 1\<rparr>)
           else if 2 ^ 64 - 2 < unat (ev_count s) + unat u then None
           else Some (s\<lparr>ev_count := ev_count s + u, ev_child := Writing us\<rparr>))
      | Child_exit c \<Rightarrow> None)"

text \<open>A read of zero waits.\<close>

definition parent_step :: "evstate \<Rightarrow> evstate option" where
  "parent_step s =
     (case ev_parent s of
        Waiting \<Rightarrow> if ev_count s = 0 then None else Some (s\<lparr>ev_count := 0, ev_parent := Parent_read (ev_count s)\<rparr>)
      | Parent_read v \<Rightarrow> None)"

inductive ev_step :: "evstate \<Rightarrow> evstate \<Rightarrow> bool" where
  child: "child_step s = Some t \<Longrightarrow> ev_step s t"
| parent: "parent_step s = Some t \<Longrightarrow> ev_step s t"

inductive_cases ev_stepE: "ev_step s t"

definition main_args :: "string list \<Rightarrow> bool \<Rightarrow> bool \<Rightarrow> evstate option" where
  "main_args argv eventfd_ok fork_ok = (if length argv < 2 \<or> \<not> eventfd_ok \<or> \<not> fork_ok then None else Some (ev_init (tl argv)))"

section \<open>What the parent reads\<close>

definition nums_total :: "dword list \<Rightarrow> nat" where "nums_total us = sum_list (map unat us)"

lemma nums_total_simps [simp]:
  "nums_total [] = 0" "nums_total (u # us) = unat u + nums_total us" "nums_total (us @ vs) = nums_total us + nums_total vs"
  by (simp_all add: nums_total_def)

definition read_val :: "evstate \<Rightarrow> nat" where
  "read_val s = (case ev_parent s of Waiting \<Rightarrow> 0 | Parent_read v \<Rightarrow> unat v)"

text \<open>The first \<open>k\<close> numbers are written; the counter and what was read make up their sum, and what was read is the sum of
  the first \<open>j\<close>.\<close>

definition ev_at :: "dword list \<Rightarrow> nat \<Rightarrow> nat \<Rightarrow> evstate \<Rightarrow> bool" where
  "ev_at us k j s \<longleftrightarrow> j \<le> k \<and> k \<le> length us \<and> unat (ev_count s) + read_val s = nums_total (take k us) \<and>
     (ev_parent s \<noteq> Waiting \<longrightarrow> read_val s = nums_total (take j us) \<and> 0 < read_val s) \<and> (\<forall>u \<in> set (take k us). u \<noteq> -1) \<and>
     (case ev_child s of
        Writing vs \<Rightarrow> vs = drop k us
      | Child_exit c \<Rightarrow> (c = 0 \<and> k = length us) \<or> (c = 1 \<and> k < length us \<and> us ! k = -1))"

definition ev_inv :: "dword list \<Rightarrow> evstate \<Rightarrow> bool" where
  "ev_inv us s \<longleftrightarrow> (\<exists>k j. ev_at us k j s)"

lemma drop_first_number: "drop k us = u # ws \<Longrightarrow> k < length us \<and> us ! k = u \<and> ws = drop (Suc k) us"
  by (metis Cons_nth_drop_Suc drop_eq_Nil linorder_not_le list.distinct(1) list.inject)

lemma ev_child_at:
  assumes at: "ev_at us k j s" and st: "child_step s = Some t"
  shows "ev_at us k j t \<or> ev_at us (Suc k) j t"
proof (cases "ev_child s")
  case (Writing vs)
  then have vs: "drop k us = vs" using at by (simp add: ev_at_def)
  show ?thesis
  proof (cases vs)
    case Nil
    then have "t = s\<lparr>ev_child := Child_exit 0\<rparr>" using st Writing by (simp add: child_step_def)
    then show ?thesis using at vs Nil Writing by (auto simp: ev_at_def read_val_def)
  next
    case (Cons u ws)
    note l = drop_first_number [OF vs [unfolded Cons]]
    show ?thesis
    proof (cases "u = -1")
      case True
      then have "t = s\<lparr>ev_child := Child_exit 1\<rparr>" using st Writing Cons by (simp add: child_step_def)
      then show ?thesis using at l True by (auto simp: ev_at_def read_val_def)
    next
      case False
      then have t: "t = s\<lparr>ev_count := ev_count s + u, ev_child := Writing ws\<rparr>" "unat (ev_count s) + unat u \<le> 2 ^ 64 - 2"
        using st Writing Cons by (auto simp: child_step_def split: if_splits)
      then have "unat (ev_count s + u) = unat (ev_count s) + unat u"
        by (intro unat_add_lem [THEN iffD1]) simp
      then have "ev_at us (Suc k) j t" using at l t(1) False
        by (auto simp: ev_at_def read_val_def take_Suc_conv_app_nth)
      then show ?thesis ..
    qed
  qed
qed (use st in \<open>simp add: child_step_def\<close>)

lemma ev_parent_at:
  assumes at: "ev_at us k j s" and st: "parent_step s = Some t"
  shows "ev_at us k k t"
proof -
  from st have t: "ev_parent s = Waiting" "ev_count s \<noteq> 0" "t = s\<lparr>ev_count := 0, ev_parent := Parent_read (ev_count s)\<rparr>"
    by (auto simp: parent_step_def split: ev_parent.splits if_splits)
  have "0 < unat (ev_count s)" using t(2) by (simp add: unat_gt_0)
  then show ?thesis using at t by (auto simp: ev_at_def read_val_def)
qed

interpretation evfd: transition_system "\<lambda>s. s = ev_init nums" ev_step "ev_inv (map strtoull nums)" for nums
proof unfold_locales
  fix s assume "s = ev_init nums"
  then have "ev_at (map strtoull nums) 0 0 s" by (simp add: ev_at_def ev_init_def read_val_def)
  then show "ev_inv (map strtoull nums) s" unfolding ev_inv_def by blast
next
  fix s t assume "ev_inv (map strtoull nums) s" "ev_step s t"
  then show "ev_inv (map strtoull nums) t" unfolding ev_inv_def by (blast elim: ev_stepE dest: ev_child_at ev_parent_at)
qed

text \<open>The event counter. Whatever the interleaving, what the parent reads is the sum of some of the first numbers of
  the child, and not zero; the numbers the child has written are all before the first that is the greatest of 64
  bits, on which the child ends with an error. When the parent has not read yet, it can as soon as the counter is not
  zero, so it waits for ever when the child has ended and all its numbers were zero.\<close>

theorem eventfd_sums:
  assumes "ev_step\<^sup>*\<^sup>* (ev_init nums) s"
  shows "\<exists>k \<le> length nums. (\<forall>u \<in> set (take k nums). strtoull u \<noteq> -1) \<and>
    (case ev_child s of
       Writing vs \<Rightarrow> vs = drop k (map strtoull nums)
     | Child_exit c \<Rightarrow> (c = 0 \<and> k = length nums) \<or> (c = 1 \<and> k < length nums \<and> strtoull (nums ! k) = -1)) \<and>
    (case ev_parent s of
       Parent_read v \<Rightarrow> 0 < v \<and> (\<exists>j \<le> k. unat v = nums_total (map strtoull (take j nums)))
     | Waiting \<Rightarrow> unat (ev_count s) = nums_total (map strtoull (take k nums)) \<and>
         ((\<exists>t. parent_step s = Some t) \<longleftrightarrow> nums_total (map strtoull (take k nums)) \<noteq> 0))"
proof -
  have "ev_inv (map strtoull nums) s" by (rule evfd.reachable_inv [OF refl assms])
  then obtain k j where k: "ev_at (map strtoull nums) k j s" unfolding ev_inv_def by blast
  show ?thesis
  proof (intro exI [of _ k] conjI)
    show "case ev_parent s of
       Parent_read v \<Rightarrow> 0 < v \<and> (\<exists>j \<le> k. unat v = nums_total (map strtoull (take j nums)))
     | Waiting \<Rightarrow> unat (ev_count s) = nums_total (map strtoull (take k nums)) \<and>
         ((\<exists>t. parent_step s = Some t) \<longleftrightarrow> nums_total (map strtoull (take k nums)) \<noteq> 0)"
    proof (cases "ev_parent s")
      case Waiting
      then have "unat (ev_count s) = nums_total (map strtoull (take k nums))" using k by (simp add: ev_at_def read_val_def take_map)
      moreover have "(\<exists>t. parent_step s = Some t) \<longleftrightarrow> unat (ev_count s) \<noteq> 0"
        using Waiting by (simp add: parent_step_def unat_eq_0)
      ultimately show ?thesis using Waiting by simp
    next
      case (Parent_read v)
      then show ?thesis using k by (auto simp: ev_at_def read_val_def take_map word_less_nat_alt)
    qed
  qed (use k in \<open>auto simp: ev_at_def take_map split: ev_child.splits\<close>)
qed

text \<open>The child writes 5 and 0x10; the parent reads after both.\<close>

theorem eventfd_sums_witness:
  "\<exists>s. ev_step\<^sup>*\<^sup>* (ev_init [''5'', ''0x10'']) s \<and> ev_parent s = Parent_read 21"
proof -
  let ?i = "ev_init [''5'', ''0x10'']"
  have n: "strtoull ''5'' = 5" "strtoull ''0x10'' = 16"
    by (simp_all add: strtoull_def Let_def is_space_def base_val_def digit_val_def)
  let ?a = "?i\<lparr>ev_count := 5, ev_child := Writing [16]\<rparr>" and ?b = "?i\<lparr>ev_count := 21, ev_child := Writing []\<rparr>"
  let ?c = "?b\<lparr>ev_count := 0, ev_parent := Parent_read 21\<rparr>"
  have "ev_step ?i ?a" by (rule ev_step.child) (simp add: ev_init_def child_step_def n)
  moreover have "ev_step ?a ?b" by (rule ev_step.child) (simp add: ev_init_def child_step_def)
  moreover have "ev_step ?b ?c" by (rule ev_step.parent) (simp add: ev_init_def parent_step_def)
  ultimately have run: "ev_step\<^sup>*\<^sup>* ?i ?c" by (meson converse_rtranclp_into_rtranclp rtranclp.rtrancl_refl)
  from eventfd_sums [OF run] run show ?thesis by (intro exI [of _ ?c]) simp
qed

section \<open>signalfd\<close>

text \<open>What a read of the descriptor returns: a record with a signal number, or something shorter.\<close>

definition SIGINT_no :: nat where "SIGINT_no = 2"
definition SIGQUIT_no :: nat where "SIGQUIT_no = 3"

text \<open>The status of the program and its output; \<open>None\<close>: it waits for a further signal.\<close>

fun signalfd_loop :: "nat option list \<Rightarrow> string list \<Rightarrow> (int \<times> string list) option" where
  "signalfd_loop [] out = None"
| "signalfd_loop (None # rs) out = Some (1, out)"
| "signalfd_loop (Some signo # rs) out =
     (if signo = SIGINT_no then signalfd_loop rs (out @ [''Got SIGINT''])
      else if signo = SIGQUIT_no then Some (0, out @ [''Got SIGQUIT''])
      else signalfd_loop rs (out @ [''Read unexpected signal'']))"

text \<open>Only the two signals are blocked and read. Their calls may fail.\<close>

definition signalfd_main :: "bool \<Rightarrow> bool \<Rightarrow> nat option list \<Rightarrow> (int \<times> string list) option" where
  "signalfd_main procmask_ok signalfd_ok reads =
     (if \<not> procmask_ok \<or> \<not> signalfd_ok then Some (1, []) else signalfd_loop reads [])"

lemma signalfd_quits:
  "signalfd_loop (replicate n (Some SIGINT_no) @ Some SIGQUIT_no # rs) out = Some (0, out @ replicate n ''Got SIGINT'' @ [''Got SIGQUIT''])"
  by (induction n arbitrary: out) (simp_all add: SIGINT_no_def SIGQUIT_no_def)

end
