(* ===== verification/Chat.thy ===== *)
theory Chat
  imports CStrings
begin

text \<open>
  The exercises that put the calculator bc behind a socket or a pipe
  (homework/po/lecture-4/exercise_2/server.c and client.c, homework/wu-shixiong/fake-bc-v3.c), the
  demonstration of cleanup handlers (lecture-5/pthread_cleanup.c) and that of \<open>aligned_alloc\<close>
  (homework/wu-shixiong/aligned_alloc.c).
\<close>

section \<open>Copying between descriptors\<close>

definition MAXLINE :: nat where "MAXLINE = 1024"

text \<open>What a read returns: at most MAXLINE bytes (none at the end), or a failure; what a write does: it takes all or some
  of the bytes, or fails.\<close>

datatype read_res = Bytes string | Read_failed

datatype write_res = Wrote nat | Write_failed

definition write_res_ok :: "string \<Rightarrow> write_res \<Rightarrow> bool" where
  "write_res_ok bs r = (case r of Wrote n \<Rightarrow> n \<le> length bs | Write_failed \<Rightarrow> True)"

text \<open>The loop of the parent of the client: a failed write ends it with -1 (\<open>True\<close>); a short one is taken as complete. The
  writes that are left are returned, and the bytes that went out. \<open>None\<close>: it waits for input.\<close>

fun copy_loop :: "read_res list \<Rightarrow> (string \<Rightarrow> nat \<Rightarrow> write_res) \<Rightarrow> nat \<Rightarrow> string \<Rightarrow> (bool \<times> string) option" where
  "copy_loop [] wr k out = None"
| "copy_loop (Read_failed # rs) wr k out = Some (False, out)"
| "copy_loop (Bytes bs # rs) wr k out =
     (if bs = [] then Some (False, out)
      else case wr bs k of
          Write_failed \<Rightarrow> Some (True, out)
        | Wrote n \<Rightarrow> copy_loop rs wr (k + 1) (out @ take n bs))"

text \<open>The loop of the child: the result of writing is not looked at.\<close>

fun print_loop :: "read_res list \<Rightarrow> (string \<Rightarrow> nat \<Rightarrow> write_res) \<Rightarrow> nat \<Rightarrow> string \<Rightarrow> string option" where
  "print_loop [] wr k out = None"
| "print_loop (Read_failed # rs) wr k out = Some out"
| "print_loop (Bytes bs # rs) wr k out =
     (if bs = [] then Some out
      else print_loop rs wr (k + 1) (out @ (case wr bs k of Write_failed \<Rightarrow> [] | Wrote n \<Rightarrow> take n bs)))"

section \<open>The client\<close>

text \<open>The result of \<open>conn\<close>, where it returns one, and the descriptors left open: on errors the socket stays open.\<close>

datatype conn_res = Conn_error int | Conn_copied string

definition conn :: "bool \<Rightarrow> bool \<Rightarrow> read_res list \<Rightarrow> (string \<Rightarrow> nat \<Rightarrow> write_res) \<Rightarrow> (conn_res \<times> nat) option" where
  "conn socket_ok connect_ok input wr =
     (if \<not> socket_ok then Some (Conn_error (-1), 0)
      else if \<not> connect_ok then Some (Conn_error (-1), 1)
      else map_option (\<lambda>(failed, out). (if failed then Conn_error (-1) else Conn_copied out, 1)) (copy_loop input wr 0 []))"

text \<open>When no write is short or fails, the bytes of the input go out up to its end.\<close>

lemma copy_loop_all:
  assumes "\<forall>bs \<in> set chunks. bs \<noteq> []" "\<forall>bs k. wr bs k = Wrote (length bs)"
  shows "copy_loop (map Bytes chunks @ Bytes [] # rs) wr k out = Some (False, out @ concat chunks)"
  using assms by (induction chunks arbitrary: k out) auto

theorem conn_copies:
  assumes "\<forall>bs \<in> set chunks. bs \<noteq> []" "\<forall>bs k. wr bs k = Wrote (length bs)"
  shows "conn True True (map Bytes chunks @ Bytes [] # rs) wr = Some (Conn_copied (concat chunks), 1)"
  using copy_loop_all [OF assms] by (simp add: conn_def)

text \<open>What goes out is lost in part when a write is short: nothing writes the rest.\<close>

lemma short_write_loses:
  "bs \<noteq> [] \<Longrightarrow> n < length bs \<Longrightarrow> wr bs 0 = Wrote n \<Longrightarrow> conn True True [Bytes bs, Bytes []] wr = Some (Conn_copied (take n bs), 1)"
  by (simp add: conn_def)

section \<open>The server\<close>

text \<open>The results of \<open>accept\<close>: a connection, an interruption, an error.\<close>

datatype accept_res = Accepted nat | Acc_EINTR | Acc_error

text \<open>The descriptors of the server, and the connections its children handle, with whether \<open>fork\<close> worked.\<close>

record chatst =
  open_set :: "nat set"
  handled :: "nat list"

definition serve_conn :: "bool \<Rightarrow> nat \<Rightarrow> chatst \<Rightarrow> chatst" where
  "serve_conn fork_ok conn_fd s =
     (let s1 = s\<lparr>open_set := insert conn_fd (open_set s)\<rparr>;
          s2 = (if fork_ok then s1\<lparr>handled := handled s1 @ [conn_fd]\<rparr> else s1)
      in s2\<lparr>open_set := open_set s2 - {conn_fd}\<rparr>)"

text \<open>The loop; \<open>None\<close>: it waits for a further connection.\<close>

fun accept_loop :: "(accept_res \<times> bool) list \<Rightarrow> chatst \<Rightarrow> (int \<times> chatst) option" where
  "accept_loop [] s = None"
| "accept_loop ((Acc_EINTR, _) # rs) s = accept_loop rs s"
| "accept_loop ((Acc_error, _) # rs) s = Some (-1, s)"
| "accept_loop ((Accepted fd, fork_ok) # rs) s = accept_loop rs (serve_conn fork_ok fd s)"

definition start_listen :: "bool \<Rightarrow> bool \<Rightarrow> bool \<Rightarrow> nat \<Rightarrow> (accept_res \<times> bool) list \<Rightarrow> (int \<times> chatst) option" where
  "start_listen socket_ok bind_ok listen_ok serv_fd accepts =
     (if \<not> socket_ok then Some (-1, \<lparr>open_set = {}, handled = []\<rparr>)
      else if \<not> bind_ok \<or> \<not> listen_ok then Some (-1, \<lparr>open_set = {serv_fd}, handled = []\<rparr>)
      else accept_loop accepts \<lparr>open_set = {serv_fd}, handled = []\<rparr>)"

fun accepted :: "(accept_res \<times> bool) list \<Rightarrow> nat list" where
  "accepted [] = []"
| "accepted ((Accepted fd, True) # rs) = fd # accepted rs"
| "accepted (_ # rs) = accepted rs"

fun acc_ok :: "nat set \<Rightarrow> accept_res \<Rightarrow> bool" where
  "acc_ok S (Accepted fd) \<longleftrightarrow> fd \<notin> S" | "acc_ok S Acc_EINTR \<longleftrightarrow> True" | "acc_ok S Acc_error \<longleftrightarrow> False"

text \<open>The server ends only when \<open>accept\<close> fails; then every connection had a child, and of its descriptors only the
  listening one is open.\<close>

lemma accept_loop_until:
  assumes "\<forall>r \<in> set rs. acc_ok (open_set s) (fst r)"
  shows "accept_loop (rs @ qs) s = accept_loop qs (s\<lparr>handled := handled s @ accepted rs\<rparr>)"
  using assms
proof (induction rs arbitrary: s)
  case (Cons r rs)
  obtain a b where r: "r = (a, b)" by (cases r)
  show ?case
  proof (cases a)
    case (Accepted fd)
    then have "serve_conn b fd s = s\<lparr>handled := handled s @ (if b then [fd] else [])\<rparr>"
      using Cons.prems r by (auto simp: serve_conn_def)
    then show ?thesis using Cons.IH [of "s\<lparr>handled := handled s @ (if b then [fd] else [])\<rparr>"] Cons.prems r Accepted
      by (cases b) simp_all
  qed (use Cons r in auto)
qed simp

theorem server_descriptors:
  assumes "\<forall>r \<in> set rs. acc_ok {serv_fd} (fst r)"
  shows "start_listen True True True serv_fd rs = None \<and>
    start_listen True True True serv_fd (rs @ [(Acc_error, b)]) = Some (-1, \<lparr>open_set = {serv_fd}, handled = accepted rs\<rparr>)"
proof -
  have "\<forall>r \<in> set rs. acc_ok (open_set \<lparr>open_set = {serv_fd}, handled = []\<rparr>) (fst r)" using assms by simp
  from accept_loop_until [OF this, of "[]"] accept_loop_until [OF this, of "[(Acc_error, b)]"] show ?thesis
    by (simp add: start_listen_def)
qed

section \<open>bc behind a pipe\<close>

definition PIPE_MAXLINE :: nat where "PIPE_MAXLINE = 64"

text \<open>The status of the parent and what bc finds on its standard input before the end. \<open>None\<close>: the line with its end and
  its terminator does not fit into the buffer.\<close>

definition fake_bc_main :: "string list \<Rightarrow> bool \<Rightarrow> bool \<Rightarrow> bool \<Rightarrow> (int \<times> string option) option" where
  "fake_bc_main argv pipe_ok fork_ok wait_ok =
     (case argv of
        [prog, expr] \<Rightarrow>
          (if \<not> pipe_ok then Some (-1, None)
           else if \<not> fork_ok then Some (-1, None)
           else let line = expr @ [CHR 0x0A] in
             if PIPE_MAXLINE \<le> length line then None
             else Some (if wait_ok then 0 else -1, Some line))
      | _ \<Rightarrow> Some (-1, None))"

lemma fake_bc_passes: "length expr < 63 \<Longrightarrow> fake_bc_main [prog, expr] True True True = Some (0, Some (expr @ [CHR 0x0A]))"
  by (simp add: fake_bc_main_def PIPE_MAXLINE_def)

section \<open>Cleanup handlers\<close>

text \<open>The thread: its counter, the handlers pushed, whether it was cancelled.\<close>

record cleanst =
  cnt :: int
  handlers :: "string list"
  called :: "string list"

definition cleanup_handler :: "cleanst \<Rightarrow> cleanst" where
  "cleanup_handler s = s\<lparr>cnt := 0, called := called s @ [''cleanup_handler'']\<rparr>"

definition pop_handler :: "bool \<Rightarrow> cleanst \<Rightarrow> cleanst" where
  "pop_handler execute s =
     (case handlers s of [] \<Rightarrow> s
      | h # hs \<Rightarrow> (if execute then cleanup_handler (s\<lparr>handlers := hs\<rparr>) else s\<lparr>handlers := hs\<rparr>))"

text \<open>At the head of the loop \<open>done\<close> is set; or the thread is cancelled in the turn, before it counts; or it makes a turn,
  in which a second has passed or not.\<close>

datatype turn = Is_done | Cancelled | Turn bool

text \<open>The value of the thread (\<open>True\<close>: PTHREAD_CANCELED) and its state; \<open>None\<close>: it goes on.\<close>

fun thread_loop :: "bool \<Rightarrow> turn list \<Rightarrow> cleanst \<Rightarrow> (bool \<times> cleanst) option" where
  "thread_loop pop_arg [] s = None"
| "thread_loop pop_arg (Is_done # ts) s = Some (False, pop_handler pop_arg s)"
| "thread_loop pop_arg (Cancelled # ts) s = Some (True, pop_handler True s)"
| "thread_loop pop_arg (Turn tick # ts) s = thread_loop pop_arg ts (if tick then s\<lparr>cnt := cnt s + 1\<rparr> else s)"

definition thread_start :: "bool \<Rightarrow> turn list \<Rightarrow> (bool \<times> cleanst) option" where
  "thread_start pop_arg ts = thread_loop pop_arg ts \<lparr>cnt = 0, handlers = [''cleanup_handler''], called = []\<rparr>"

text \<open>The handler runs exactly when the thread is cancelled or ends with a pop that executes it, and then the counter is
  zero; otherwise it has only grown.\<close>

lemma thread_loop_result:
  assumes "thread_loop pop_arg ts s = Some (c, t)" "handlers s = [''cleanup_handler'']" "called s = []"
  shows "handlers t = [] \<and> called t = (if c \<or> pop_arg then [''cleanup_handler''] else []) \<and> (c \<or> pop_arg \<longrightarrow> cnt t = 0) \<and>
    (\<not> c \<and> \<not> pop_arg \<longrightarrow> cnt t \<ge> cnt s)"
  using assms
proof (induction pop_arg ts s rule: thread_loop.induct)
  case (4 pop_arg tick ts s)
  then show ?case by (cases tick) force+
qed (auto simp: pop_handler_def cleanup_handler_def split: if_splits)

theorem cleanup_runs:
  assumes "thread_start pop_arg ts = Some (c, t)"
  shows "called t = (if c \<or> pop_arg then [''cleanup_handler''] else []) \<and> (c \<or> pop_arg \<longrightarrow> cnt t = 0)"
  using thread_loop_result [OF assms [unfolded thread_start_def]] by simp

text \<open>\<open>main\<close>: what the calls of the thread library return, the arguments, and what the thread does in its turns until
  \<open>done\<close> is set or it is cancelled. An error is reported with the name of the call.\<close>

datatype cleanup_end = Call_failed string | Was_canceled int | Terminated_normally int

definition cleanup_main :: "int \<Rightarrow> int \<Rightarrow> int \<Rightarrow> string list \<Rightarrow> bool list \<Rightarrow> cleanup_end option" where
  "cleanup_main created cancelled joined argv ticks =
     (if created \<noteq> 0 then Some (Call_failed ''pthread_create'')
      else let argc = length argv;
               cleanup_pop_arg = (if argc > 2 then atoi (argv ! 2) else 0)
           in if \<not> argc > 1 \<and> cancelled \<noteq> 0 then Some (Call_failed ''pthread_cancel'')
              else if joined \<noteq> 0 then Some (Call_failed ''pthread_join'')
              else map_option (\<lambda>(canceled, s). if canceled then Was_canceled (cnt s) else Terminated_normally (cnt s))
                     (thread_start (cleanup_pop_arg \<noteq> 0) (map Turn ticks @ [if argc > 1 then Is_done else Cancelled])))"

lemma thread_loop_turns:
  "thread_loop a (map Turn ticks @ ts) s = thread_loop a ts (s\<lparr>cnt := cnt s + int (length (filter id ticks))\<rparr>)"
  by (induction ticks arbitrary: s) (simp_all add: add.assoc)

text \<open>A cancelled thread reports zero; one that ends by itself reports its seconds, unless the pop runs the handler.\<close>

theorem cleanup_main_reports:
  "cleanup_main 0 0 0 argv ticks =
     Some (if length argv \<le> 1 then Was_canceled 0
           else Terminated_normally (if length argv > 2 \<and> atoi (argv ! 2) \<noteq> 0 then 0 else int (length (filter id ticks))))"
  by (auto simp: cleanup_main_def thread_start_def thread_loop_turns pop_handler_def cleanup_handler_def Let_def)

section \<open>Aligned blocks\<close>

text \<open>The requests of the loop: the alignments from 4 on, doubled while they are below 512, with the sizes; \<open>rnd\<close> are the
  results of \<open>random\<close>, which are divided by 2048.\<close>

function alignments :: "nat \<Rightarrow> nat list" where
  "alignments a = (if a < 512 \<and> 0 < a then a # alignments (2 * a) else [])"
  by pat_completeness auto

termination by (relation "measure (\<lambda>a. 512 - a)") auto

declare alignments.simps [simp del]

definition aligned_requests :: "(nat \<Rightarrow> nat) \<Rightarrow> (nat \<times> nat) list" where
  "aligned_requests rnd = map (\<lambda>i. (alignments 4 ! (i div 10), rnd i div 2048)) [0..<10 * length (alignments 4)]"

lemma alignments_four: "alignments 4 = [4, 8, 16, 32, 64, 128, 256]"
  by (simp add: alignments.simps)

text \<open>The comment speaks of sizes below 2048; they are below 2^20.\<close>

lemma aligned_sizes:
  "(\<And>i. rnd i < 2 ^ 31) \<Longrightarrow> (a, n) \<in> set (aligned_requests rnd) \<Longrightarrow> n < 2 ^ 20"
  by (auto simp: aligned_requests_def less_mult_imp_div_less)

end
