(* ===== verification/BcServer.thy ===== *)
theory BcServer
  imports Chat
begin

text \<open>
  How the server of homework/po/lecture-4/exercise_2/server.c connects bc with a client: on the socket itself
  (\<open>handle_using_dup2\<close>), or by a process that relays between the socket and two pipes
  (\<open>handle_using_pipe\<close>).
\<close>

section \<open>Descriptors, standard output and bc\<close>

text \<open>What a descriptor refers to: the two ends of \<open>pipeR\<close> and of \<open>pipeW\<close>, the socket, what was there before.\<close>

datatype endpoint = Elsewhere | Socket | R_read | R_write | W_read | W_write

text \<open>
  A process with its descriptors and the buffer of its standard output, which is written at the end of a
  line only when it is a terminal (\<open>tty\<close>); what has gone out to the socket and elsewhere; and the descriptors of
  each bc that was started.
\<close>

record bcproc =
  fdtab :: "nat \<Rightarrow> endpoint option"
  tty :: bool
  obuf :: string
  to_socket :: string
  to_elsewhere :: string
  bcs :: "(nat \<Rightarrow> endpoint option) list"

definition flush :: "bcproc \<Rightarrow> bcproc" where
  "flush p =
     (case fdtab p 1 of
        Some Socket \<Rightarrow> p\<lparr> to_socket := to_socket p @ obuf p, obuf := [] \<rparr>
      | Some Elsewhere \<Rightarrow> p\<lparr> to_elsewhere := to_elsewhere p @ obuf p, obuf := [] \<rparr>
      | _ \<Rightarrow> p\<lparr> obuf := [] \<rparr>)"

definition printf :: "string \<Rightarrow> bcproc \<Rightarrow> bcproc" where
  "printf t p = (let p = p\<lparr> obuf := obuf p @ t \<rparr> in if tty p then flush p else p)"

definition dup_onto :: "nat \<Rightarrow> nat \<Rightarrow> bcproc \<Rightarrow> bcproc" where
  "dup_onto old new p = (case fdtab p old of None \<Rightarrow> p | Some e \<Rightarrow> p\<lparr> fdtab := (fdtab p)(new \<mapsto> e) \<rparr>)"

definition close :: "nat \<Rightarrow> bcproc \<Rightarrow> bcproc" where
  "close fd p = p\<lparr> fdtab := (fdtab p)(fd := None) \<rparr>"

text \<open>\<open>posix_spawnp\<close>: bc gets the descriptors of its parent, or the number of an error is returned.\<close>

definition spawn_bc :: "nat \<Rightarrow> bcproc \<Rightarrow> bcproc" where
  "spawn_bc err p = (if err = 0 then p\<lparr> bcs := bcs p @ [fdtab p] \<rparr> else p)"

definition start_text :: string where
  "start_text = ''start handling bc input/output:'' @ [CHR 0x0A]"

definition spawn_error :: "nat \<Rightarrow> string" where
  "spawn_error err = ''spawn bc program error: '' @ dec_digits err @ [CHR 0x0A]"

text \<open>\<open>exit\<close> writes what is left of standard output; the results of the handlers say whether they end the process.\<close>

datatype handler_end = Back | Exit int

section \<open>bc on the socket\<close>

definition handle_using_dup2 :: "nat \<Rightarrow> nat \<Rightarrow> bcproc \<Rightarrow> handler_end \<times> bcproc" where
  "handle_using_dup2 err sockfd p =
     (let p = printf start_text p;
          p = dup_onto sockfd 0 p;
          p = dup_onto sockfd 1 p;
          p = spawn_bc err p
      in if err \<noteq> 0 then (Exit (-1), flush (printf (spawn_error err) p)) else (Back, p))"

text \<open>The child of the server: it closes the listening socket, handles the connection and exits with 0.\<close>

definition child_conn :: "nat \<Rightarrow> nat \<Rightarrow> nat \<Rightarrow> bcproc \<Rightarrow> int \<times> bcproc" where
  "child_conn err serv_fd conn_fd p =
     (case handle_using_dup2 err conn_fd (close serv_fd p) of
        (Back, p) \<Rightarrow> (0, flush p)
      | (Exit c, p) \<Rightarrow> (c, p))"

lemma dup_onto_Some: "fdtab p old = Some e \<Longrightarrow> dup_onto old new p = p\<lparr> fdtab := (fdtab p)(new \<mapsto> e) \<rparr>"
  by (simp add: dup_onto_def)

lemma flush_at:
  "fdtab p 1 = Some Socket \<Longrightarrow> flush p = p\<lparr> to_socket := to_socket p @ obuf p, obuf := [] \<rparr>"
  "fdtab p 1 = Some Elsewhere \<Longrightarrow> flush p = p\<lparr> to_elsewhere := to_elsewhere p @ obuf p, obuf := [] \<rparr>"
  by (simp_all add: flush_def)

lemma printf_at:
  "fdtab p 1 = Some Elsewhere \<Longrightarrow> printf t p =
     (if tty p then p\<lparr> to_elsewhere := to_elsewhere p @ obuf p @ t, obuf := [] \<rparr> else p\<lparr> obuf := obuf p @ t \<rparr>)"
  "fdtab p 1 = Some Socket \<Longrightarrow> printf t p =
     (if tty p then p\<lparr> to_socket := to_socket p @ obuf p @ t, obuf := [] \<rparr> else p\<lparr> obuf := obuf p @ t \<rparr>)"
  by (simp_all add: printf_def flush_at)

lemma child_started:
  assumes "fdtab p 1 = Some Elsewhere" "fdtab p conn_fd = Some Socket" "serv_fd \<notin> {0, 1, conn_fd}" "conn_fd \<notin> {0, 1}"
  shows "\<exists>q. spawn_bc err (dup_onto conn_fd 1 (dup_onto conn_fd 0 (printf start_text (close serv_fd p)))) = q \<and>
    fdtab q 0 = Some Socket \<and> fdtab q 1 = Some Socket \<and> fdtab q serv_fd = None \<and> tty q = tty p \<and>
    bcs q = bcs p @ (if err = 0 then [fdtab q] else []) \<and> to_socket q = to_socket p \<and>
    obuf q = (if tty p then [] else obuf p @ start_text) \<and>
    to_elsewhere q = to_elsewhere p @ (if tty p then obuf p @ start_text else [])"
proof -
  define p1 where "p1 = printf start_text (close serv_fd p)"
  have p1: "fdtab p1 = (fdtab p)(serv_fd := None)" "bcs p1 = bcs p" "tty p1 = tty p" "to_socket p1 = to_socket p"
      "obuf p1 = (if tty p then [] else obuf p @ start_text)"
      "to_elsewhere p1 = to_elsewhere p @ (if tty p then obuf p @ start_text else [])"
    using assms by (simp_all add: p1_def close_def printf_at)
  show ?thesis
    unfolding p1_def [symmetric] using assms by (simp add: dup_onto_def spawn_bc_def p1)
qed

text \<open>
  bc talks with the client on its standard input and output and does not have the listening socket. The
  server's own output stays off the socket only when it is a terminal: otherwise the text of the handler,
  after what the buffer held when the process was forked, is written to the client at the end.
\<close>

theorem child_conn_bc:
  assumes "fdtab p 1 = Some Elsewhere" "fdtab p conn_fd = Some Socket" "serv_fd \<notin> {0, 1, conn_fd}" "conn_fd \<notin> {0, 1}"
  shows "\<exists>q t. child_conn 0 serv_fd conn_fd p = (0, q) \<and> bcs q = bcs p @ [t] \<and> t 0 = Some Socket \<and> t 1 = Some Socket \<and>
    t serv_fd = None \<and>
    to_socket q = to_socket p @ (if tty p then [] else obuf p @ start_text) \<and>
    to_elsewhere q = to_elsewhere p @ (if tty p then obuf p @ start_text else [])"
  using child_started [OF assms, of 0] by (auto simp: child_conn_def handle_using_dup2_def Let_def flush_at)

text \<open>When bc cannot be started, the client gets the message instead.\<close>

theorem child_conn_no_bc:
  assumes "fdtab p 1 = Some Elsewhere" "fdtab p conn_fd = Some Socket" "serv_fd \<notin> {0, 1, conn_fd}" "conn_fd \<notin> {0, 1}"
    "err \<noteq> 0" "tty p"
  shows "\<exists>q. child_conn err serv_fd conn_fd p = (-1, q) \<and> bcs q = bcs p \<and> to_socket q = to_socket p @ spawn_error err"
  using child_started [OF assms(1-4), of err] assms(5-)
  by (auto simp: child_conn_def handle_using_dup2_def Let_def printf_at flush_at)

section \<open>bc behind two pipes\<close>

text \<open>\<open>pipe\<close> is not looked at; when it works it returns two descriptors for each pipe.\<close>

record pipes =
  pipeR_read :: nat
  pipeR_write :: nat
  pipeW_read :: nat
  pipeW_write :: nat

definition open_pipes :: "pipes \<Rightarrow> bcproc \<Rightarrow> bcproc" where
  "open_pipes P p =
     p\<lparr> fdtab := (fdtab p)(pipeR_read P \<mapsto> R_read, pipeR_write P \<mapsto> R_write, pipeW_read P \<mapsto> W_read, pipeW_write P \<mapsto> W_write) \<rparr>"

definition pipe_child :: "nat \<Rightarrow> pipes \<Rightarrow> bcproc \<Rightarrow> handler_end \<times> bcproc" where
  "pipe_child err P p =
     (let p = close (pipeW_write P) p;
          p = close (pipeR_read P) p;
          p = dup_onto (pipeW_read P) 0 p;
          p = dup_onto (pipeR_write P) 1 p;
          p = spawn_bc err p
      in if err \<noteq> 0 then (Exit (-1), flush (printf (spawn_error err) p))
         else (Back, close (pipeR_write P) (close (pipeW_read P) p)))"

text \<open>A turn of the relay: what the four calls of the loop's body return.\<close>

record relay_turn =
  from_socket :: read_res
  into_bc :: write_res
  from_bc :: read_res
  into_socket :: write_res

text \<open>The buffer of 1024 bytes; \<open>%s\<close> prints up to a zero byte, and is undefined when there is none.\<close>

definition fill :: "string \<Rightarrow> string \<Rightarrow> string" where
  "fill bs buf = bs @ drop (length bs) buf"

definition buf_text :: "string \<Rightarrow> string option" where
  "buf_text buf = (if CHR 0x00 \<in> set buf then Some (takeWhile (\<lambda>c. c \<noteq> CHR 0x00) buf) else None)"

definition sent :: "string \<Rightarrow> write_res \<Rightarrow> string" where
  "sent bs r = (case r of Wrote n \<Rightarrow> take n bs | Write_failed \<Rightarrow> [])"

text \<open>What has gone to bc and to the socket. \<open>Waits\<close>: there is no further input yet.\<close>

datatype relay = Waits string string | Ended handler_end string string

fun relay_loop :: "relay_turn list \<Rightarrow> string \<Rightarrow> string \<Rightarrow> string \<Rightarrow> relay option" where
  "relay_loop [] buf bc sk = Some (Waits bc sk)"
| "relay_loop (t # ts) buf bc sk =
     (case from_socket t of
        Read_failed \<Rightarrow> Some (Ended (Exit (-1)) bc sk)
      | Bytes bs \<Rightarrow>
          if bs = [] then Some (Ended Back bc sk)
          else do {
            _ \<leftarrow> buf_text (fill bs buf);
            let bc = bc @ sent bs (into_bc t);
            let buf = replicate MAXLINE (CHR 0x00);
            if into_bc t = Write_failed then Some (Ended (Exit (-1)) bc sk)
            else (case from_bc t of
                Read_failed \<Rightarrow> Some (Ended (Exit (-1)) bc sk)
              | Bytes rs \<Rightarrow> do {
                  _ \<leftarrow> buf_text (fill rs buf);
                  let sk = sk @ sent rs (into_socket t);
                  if into_socket t = Write_failed then Some (Ended (Exit (-1)) bc sk)
                  else relay_loop ts (fill rs buf) bc sk }) })"

text \<open>The parent: it keeps its ends of the pipes, relays, and closes them.\<close>

definition pipe_parent :: "pipes \<Rightarrow> relay_turn list \<Rightarrow> string \<Rightarrow> bcproc \<Rightarrow> (relay \<times> bcproc) option" where
  "pipe_parent P ts buf p =
     (let p = close (pipeR_write P) (close (pipeW_read P) p)
      in do { r \<leftarrow> relay_loop ts buf [] [];
              Some (r, case r of Ended Back _ _ \<Rightarrow> close (pipeR_read P) (close (pipeW_write P) p) | _ \<Rightarrow> p) })"

text \<open>\<open>fork\<close> returns 0 in the child; a failure is not noticed and takes the branch of the parent.\<close>

definition handle_using_pipe ::
    "int \<Rightarrow> nat \<Rightarrow> pipes \<Rightarrow> relay_turn list \<Rightarrow> string \<Rightarrow> bcproc \<Rightarrow> (handler_end option \<times> bcproc) option" where
  "handle_using_pipe child_pid err P ts buf p =
     (let p = open_pipes P (printf start_text p)
      in if child_pid = 0 then (case pipe_child err P p of (e, p) \<Rightarrow> Some (Some e, p))
         else do { (r, p) \<leftarrow> pipe_parent P ts buf p;
                   Some (case r of Waits _ _ \<Rightarrow> None | Ended e _ _ \<Rightarrow> Some e, p) })"

text \<open>The pipes are new descriptors, and nothing else refers to their ends.\<close>

definition pipes_ok :: "pipes \<Rightarrow> bcproc \<Rightarrow> bool" where
  "pipes_ok P p \<longleftrightarrow>
     distinct [0, 1, pipeR_read P, pipeR_write P, pipeW_read P, pipeW_write P] \<and> ran (fdtab p) \<subseteq> {Elsewhere, Socket}"

definition bc_table :: "pipes \<Rightarrow> bcproc \<Rightarrow> nat \<Rightarrow> endpoint option" where
  "bc_table P p =
     (fdtab p)(pipeR_read P := None, pipeR_write P \<mapsto> R_write, pipeW_read P \<mapsto> W_read, pipeW_write P := None,
       0 \<mapsto> W_read, 1 \<mapsto> R_write)"

lemma pipe_child_run:
  assumes "pipes_ok P p"
  shows "pipe_child 0 P (open_pipes P p) =
     (Back, close (pipeR_write P) (close (pipeW_read P) (p\<lparr> fdtab := bc_table P p, bcs := bcs p @ [bc_table P p] \<rparr>)))"
proof -
  have d: "distinct [0, 1, pipeR_read P, pipeR_write P, pipeW_read P, pipeW_write P]"
    using assms by (simp add: pipes_ok_def)
  define q where "q = close (pipeR_read P) (close (pipeW_write P) (open_pipes P p))"
  have q: "q = p\<lparr> fdtab := (fdtab p)(pipeR_read P := None, pipeR_write P \<mapsto> R_write, pipeW_read P \<mapsto> W_read, pipeW_write P := None) \<rparr>"
    using d by (auto simp: q_def close_def open_pipes_def fun_eq_iff)
  have "dup_onto (pipeW_read P) 0 q = q\<lparr> fdtab := (fdtab q)(0 \<mapsto> W_read) \<rparr>"
    using d by (intro dup_onto_Some) (auto simp: q)
  moreover have "dup_onto (pipeR_write P) 1 (q\<lparr> fdtab := (fdtab q)(0 \<mapsto> W_read) \<rparr>) = q\<lparr> fdtab := (fdtab q)(0 \<mapsto> W_read, 1 \<mapsto> R_write) \<rparr>"
    using d by (subst dup_onto_Some [of _ _ R_write]) (auto simp: q)
  ultimately show ?thesis
    by (simp add: pipe_child_def Let_def q_def [symmetric] spawn_bc_def) (simp add: q bc_table_def)
qed

text \<open>bc reads from one pipe and writes to the other, and no process but the parent has the ends the parent uses, so
  that bc sees the end of its input when the parent closes them.\<close>

theorem pipe_child_bc:
  assumes "pipes_ok P p"
  shows "\<exists>q t. handle_using_pipe 0 0 P ts buf p = Some (Some Back, q) \<and> bcs q = bcs p @ [t] \<and> t 0 = Some W_read \<and>
    t 1 = Some R_write \<and> W_write \<notin> ran t \<and> R_read \<notin> ran t \<and> W_write \<notin> ran (fdtab q) \<and> R_read \<notin> ran (fdtab q)"
proof -
  let ?p = "printf start_text p"
  have f: "fdtab ?p = fdtab p" "bcs ?p = bcs p"
    by (simp_all add: printf_def flush_def Let_def split: option.splits endpoint.splits)
  have P: "pipes_ok P ?p" using assms f by (simp add: pipes_ok_def)
  have r: "e \<notin> ran (bc_table P ?p)" if "e \<in> {W_write, R_read}" for e
    using P that by (auto simp: pipes_ok_def bc_table_def ran_def split: if_splits)
  have "e \<notin> ran ((bc_table P ?p)(x := None, y := None))" if "e \<in> {W_write, R_read}" for e x y
    using r [OF that] by (auto simp: ran_def)
  then show ?thesis
    using r f pipe_child_run [OF P] by (simp add: handle_using_pipe_def close_def) (simp add: bc_table_def)
qed

text \<open>With whole writes and lines that fit, the relay passes every line to bc and every answer to the client.\<close>

definition whole_turn :: "string \<times> string \<Rightarrow> relay_turn" where
  "whole_turn l =
     \<lparr> from_socket = Bytes (fst l), into_bc = Wrote (length (fst l)), from_bc = Bytes (snd l), into_socket = Wrote (length (snd l)) \<rparr>"

lemma buf_text_fill: "length bs < MAXLINE \<Longrightarrow> length buf = MAXLINE \<Longrightarrow> last buf = CHR 0x00 \<Longrightarrow> \<exists>t. buf_text (fill bs buf) = Some t"
  using last_in_set [of "drop (length bs) buf"] by (auto simp: buf_text_def fill_def MAXLINE_def)

theorem relay_passes:
  assumes "\<forall>l \<in> set ls. fst l \<noteq> [] \<and> length (fst l) < MAXLINE \<and> length (snd l) < MAXLINE" "length buf = MAXLINE" "last buf = CHR 0x00"
  shows "relay_loop (map whole_turn ls @ [t\<lparr> from_socket := Bytes [] \<rparr>]) buf bc sk =
     Some (Ended Back (bc @ concat (map fst ls)) (sk @ concat (map snd ls)))"
  using assms
proof (induction ls arbitrary: buf bc sk)
  case (Cons l ls)
  let ?z = "replicate MAXLINE (CHR 0x00)"
  obtain a where a: "buf_text (fill (fst l) buf) = Some a" using buf_text_fill [of "fst l" buf] Cons.prems by auto
  have z: "last ?z = CHR 0x00" by (simp add: MAXLINE_def)
  obtain b where b: "buf_text (fill (snd l) ?z) = Some b" using buf_text_fill [of "snd l" ?z] Cons.prems z by auto
  have "length (fill (snd l) ?z) = MAXLINE" "last (fill (snd l) ?z) = CHR 0x00"
    using Cons.prems z by (auto simp: fill_def)
  from Cons.IH [OF _ this] a b show ?case using Cons.prems by (simp add: whole_turn_def sent_def)
qed simp

text \<open>A line that fills the buffer is printed beyond its end.\<close>

theorem relay_full_buffer:
  assumes "length bs = MAXLINE" "CHR 0x00 \<notin> set bs" "from_socket t = Bytes bs" "length buf = MAXLINE"
  shows "relay_loop (t # ts) buf bc sk = None"
  using assms by (auto simp: buf_text_def fill_def MAXLINE_def)

end
