(* ===== verification/PlainWriters.thy ===== *)
theory PlainWriters
  imports FileProps
begin

text \<open>
  The other half of homework/wu-shixiong/multi-process-concurent-write-to-one-same-file.c: the writers
  without a lock and without a flush (\<open>writeToFile\<close>), and the check of the file by which \<open>main\<close> looks for
  damaged lines.
\<close>

section \<open>Writers without a lock\<close>








section \<open>Invariant\<close>













section \<open>Runs\<close>







section \<open>The check of the file\<close>

text \<open>
  \<open>getline\<close> keeps its buffer from line to line and makes it larger when a line with its terminator does not fit;
  \<open>grow\<close> is the size it takes then. The check compares that size, not the length of the line.
\<close>

definition getline_cap :: "(nat \<Rightarrow> nat \<Rightarrow> nat) \<Rightarrow> nat \<Rightarrow> string \<Rightarrow> nat" where
  "getline_cap grow cap line = (if length line + 1 \<le> cap then cap else grow cap (length line + 1))"

text \<open>The numbers of the lines that are reported.\<close>

fun check_lines :: "(nat \<Rightarrow> nat \<Rightarrow> nat) \<Rightarrow> nat \<Rightarrow> nat \<Rightarrow> string list \<Rightarrow> nat list" where
  "check_lines grow cap n [] = []"
| "check_lines grow cap n (l # ls) =
     (let cap = getline_cap grow cap l; n = n + 1
      in (if cap - 1 \<noteq> MAX_WRITE_BYTES then [n] else []) @ check_lines grow cap n ls)"

definition check_main :: "(nat \<Rightarrow> nat \<Rightarrow> nat) \<Rightarrow> string list \<Rightarrow> nat list" where
  "check_main grow ls = check_lines grow 0 0 ls"

text \<open>Once the buffer has the size that is expected, no line that is too short is reported.\<close>

lemma check_short: "\<forall>l \<in> set ls. length l \<le> MAX_WRITE_BYTES \<Longrightarrow> check_lines grow (MAX_WRITE_BYTES + 1) n ls = []"
  by (induction ls arbitrary: n) (auto simp: getline_cap_def Let_def)

theorem check_misses_short_lines:
  assumes "length l = MAX_WRITE_BYTES" "grow 0 (MAX_WRITE_BYTES + 1) = MAX_WRITE_BYTES + 1" "\<forall>l \<in> set ls. length l \<le> MAX_WRITE_BYTES"
  shows "check_main grow (l # ls) = []"
  using assms check_short [OF assms(3), of grow] by (simp add: check_main_def getline_cap_def Let_def)

text \<open>And once a line was too long, every line is reported.\<close>

lemma check_long: "MAX_WRITE_BYTES + 1 < cap \<Longrightarrow> \<forall>c n. n \<le> grow c n \<Longrightarrow> length (check_lines grow cap n ls) = length ls"
proof (induction ls arbitrary: cap n)
  case (Cons l ls)
  have "length l + 1 \<le> grow cap (length l + 1)" using Cons.prems(2) by blast
  then have "MAX_WRITE_BYTES + 1 < getline_cap grow cap l" using Cons.prems(1) by (simp add: getline_cap_def)
  moreover from this have "getline_cap grow cap l - 1 \<noteq> MAX_WRITE_BYTES" by linarith
  ultimately show ?case using Cons.IH [OF _ Cons.prems(2)] by (simp add: Let_def)
qed simp

end
