(* ===== verification/Fcgi.thy ===== *)
theory Fcgi
  imports CStrings
begin

text \<open>
  The FastCGI programs of homework/po/lecture-6: hexadecimal output through an \<open>ostream\<close> and the hash
  of sha256.h, the first server (main_v1.cpp) with its request object, its timer and its loop, and the
  server of one file (main_new.cpp). The FastCGI library is the parameter record \<open>fcgx\<close>, the digest of
  OpenSSL a function parameter.
\<close>

section \<open>Output streams\<close>

text \<open>
  What \<open>std::ostream\<close> keeps: the base of integers and the fill character stay until they are set
  again, the width is for the next item only. \<open><<\<close> of a negative \<open>int\<close> in hexadecimal prints its 32 bits.
\<close>

record ostream =
  os_hex :: bool
  os_fill :: char
  os_width :: nat
  os_text :: string

definition new_ostream :: ostream where
  "new_ostream = \<lparr> os_hex = False, os_fill = CHR '' '', os_width = 0, os_text = [] \<rparr>"

definition hex_digit :: "nat \<Rightarrow> char" where
  "hex_digit n = (if n < 10 then char_of (48 + n) else char_of (87 + n))"

fun hex_digits :: "nat \<Rightarrow> string" where
  "hex_digits n = (if n < 16 then [hex_digit n] else hex_digits (n div 16) @ [hex_digit (n mod 16)])"

declare hex_digits.simps [simp del]

definition set_hex :: "ostream \<Rightarrow> ostream" where
  "set_hex os = os\<lparr> os_hex := True \<rparr>"

definition setfill :: "char \<Rightarrow> ostream \<Rightarrow> ostream" where
  "setfill c os = os\<lparr> os_fill := c \<rparr>"

definition setw :: "nat \<Rightarrow> ostream \<Rightarrow> ostream" where
  "setw w os = os\<lparr> os_width := w \<rparr>"

definition put_str :: "string \<Rightarrow> ostream \<Rightarrow> ostream" where
  "put_str s os =
     os\<lparr> os_text := os_text os @ replicate (os_width os - length s) (os_fill os) @ s, os_width := 0 \<rparr>"

definition int_text :: "bool \<Rightarrow> int \<Rightarrow> string" where
  "int_text hx i =
     (if hx then hex_digits (unat (word_of_int i :: uint))
      else if i < 0 then CHR ''-'' # dec_digits (nat (- i))
      else dec_digits (nat i))"

definition put_int :: "int \<Rightarrow> ostream \<Rightarrow> ostream" where
  "put_int i os = put_str (int_text (os_hex os) i) os"

definition put_size :: "nat \<Rightarrow> ostream \<Rightarrow> ostream" where
  "put_size n os = put_str (if os_hex os then hex_digits n else dec_digits n) os"

definition put_endl :: "ostream \<Rightarrow> ostream" where
  "put_endl os = os\<lparr> os_text := os_text os @ [CHR 0x0A] \<rparr>"

section \<open>The hash in hexadecimal (sha256.h)\<close>

abbreviation sha256_digest_length :: nat where "sha256_digest_length \<equiv> 32"

text \<open>\<open>dig\<close> is \<open>SHA256_Init\<close>, \<open>SHA256_Update\<close> and \<open>SHA256_Final\<close>: the bytes of \<open>hash\<close>.\<close>

definition sha256 :: "(string \<Rightarrow> 8 word list) \<Rightarrow> string \<Rightarrow> string" where
  "sha256 dig str =
     os_text (fold (\<lambda>i ss. put_int (uint (dig str ! i)) (setfill (CHR ''0'') (setw 2 (set_hex ss))))
                [0 ..< sha256_digest_length] new_ostream)"

section \<open>Bits and bytes of a message (main_v1.cpp)\<close>

definition print_as_binary :: "'a::len word \<Rightarrow> ostream \<Rightarrow> ostream" where
  "print_as_binary v os =
     put_str (List.map (\<lambda>i. if bit v i then CHR ''1'' else CHR ''0'') (rev [0 ..< LENGTH('a)])) os"

text \<open>\<open>int(c)\<close> of a \<open>char\<close>, which is signed.\<close>

definition char_int :: "char \<Rightarrow> int" where
  "char_int c = (let n = int (of_char c) in if n < 128 then n else n - 256)"

definition print_hex_char :: "nat \<Rightarrow> char \<Rightarrow> ostream \<Rightarrow> ostream" where
  "print_hex_char x c os =
     (let os = put_str '' '' (put_int (char_int c) (setw 2 (setfill (CHR ''0'') (set_hex os))))
      in if (x + 1) mod 16 = 0 then put_endl (put_str ''<br />'' os) else os)"

fun print_hex_from :: "nat \<Rightarrow> string \<Rightarrow> ostream \<Rightarrow> ostream" where
  "print_hex_from x [] os = os"
| "print_hex_from x (c # cs) os = print_hex_from (Suc x) cs (print_hex_char x c os)"

definition print_as_hex :: "string \<Rightarrow> ostream \<Rightarrow> ostream" where
  "print_as_hex source_string os = print_hex_from 0 source_string os"

section \<open>The FastCGI library\<close>

text \<open>
  Its state \<open>'w\<close> covers the connection of the current request, its streams and the clock.
  \<open>fx_param\<close> is \<open>FCGX_GetParam\<close> (\<open>None\<close> is NULL), \<open>fx_getstr\<close> and \<open>fx_putstr\<close> read and write a stream,
  \<open>fx_printf\<close> is \<open>FCGX_FPrintF\<close> of a finished text and \<open>fx_time\<close> is \<open>gettimeofday\<close>.
\<close>

record 'w fcgx =
  fx_accept :: "'w \<Rightarrow> int \<times> 'w"
  fx_param :: "string \<Rightarrow> 'w \<Rightarrow> string option"
  fx_getstr :: "nat \<Rightarrow> 'w \<Rightarrow> string \<times> 'w"
  fx_printf :: "string \<Rightarrow> 'w \<Rightarrow> 'w"
  fx_putstr :: "string \<Rightarrow> int \<Rightarrow> 'w \<Rightarrow> int \<times> 'w"
  fx_finish :: "'w \<Rightarrow> 'w"
  fx_time :: "'w \<Rightarrow> (int \<times> int) \<times> 'w"

section \<open>The request object\<close>

abbreviation input_buffer_size :: nat where "input_buffer_size \<equiv> 10000"
abbreviation max_input_message_body :: nat where "max_input_message_body \<equiv> 100000000"
abbreviation max_body_text :: string where "max_body_text \<equiv> ''Max Body Length Reached''"

text \<open>The object keeps the parameters, a \<open>std::map\<close> in the order of its keys, and the message body.\<close>

record request =
  parameters :: "(string \<times> string) list"
  message_body :: string

fun str_less :: "string \<Rightarrow> string \<Rightarrow> bool" where
  "str_less xs [] = False"
| "str_less [] (y # ys) = True"
| "str_less (x # xs) (y # ys) =
     ((of_char x :: nat) < of_char y \<or> x = y \<and> str_less xs ys)"

fun map_assign :: "string \<Rightarrow> string \<Rightarrow> (string \<times> string) list \<Rightarrow> (string \<times> string) list" where
  "map_assign k v [] = [(k, v)]"
| "map_assign k v ((k', v') # ps) =
     (if k = k' then (k, v) # ps
      else if str_less k k' then (k, v) # (k', v') # ps
      else (k', v') # map_assign k v ps)"

definition param_names :: "string list" where
  "param_names =
     [''GATEWAY_INTERFACE'', ''SERVER_SOFTWARE'', ''QUERY_STRING'', ''REQUEST_METHOD'', ''CONTENT_TYPE'',
      ''CONTENT_LENGTH'', ''SCRIPT_FILENAME'', ''SCRIPT_NAME'', ''REQUEST_URI'', ''DOCUMENT_URI'',
      ''DOCUMENT_ROOT'', ''SERVER_PROTOCOL'', ''REMOTE_ADDR'', ''REMOTE_PORT'', ''SERVER_ADDR'',
      ''SERVER_PORT'', ''SERVER_NAME'']"

text \<open>
  \<open>loadInput\<close>: whole buffers until one is short. A string that is assigned from NULL has no defined
  value, and so has a buffer that the library overruns.
\<close>

function load_input_from :: "'w fcgx \<Rightarrow> nat \<Rightarrow> string \<Rightarrow> 'w \<Rightarrow> (string \<times> 'w) option" where
  "load_input_from E tot body w =
     (let (buf, w') = fx_getstr E input_buffer_size w; n = length buf
      in if input_buffer_size < n then None
         else if n = 0 then Some (body, w')
         else if max_input_message_body < tot + n then Some (body @ max_body_text, w')
         else if n = input_buffer_size then load_input_from E (tot + n) (body @ buf) w'
         else Some (body @ buf, w'))"
  by pat_completeness auto

termination by (relation "measure (\<lambda>(E, tot, body, w). Suc max_input_message_body - tot)") auto

declare load_input_from.simps [simp del]

definition loadInput :: "'w fcgx \<Rightarrow> 'w \<Rightarrow> (string \<times> 'w) option" where
  "loadInput E w = load_input_from E 0 [] w"

definition reload :: "'w fcgx \<Rightarrow> 'w \<Rightarrow> (request \<times> 'w) option" where
  "reload E w =
     do { ps \<leftarrow> foldm (\<lambda>n ps. do { v \<leftarrow> fx_param E n w; Some (map_assign n v ps) }) param_names [];
          (body, w) \<leftarrow> loadInput E w;
          Some (\<lparr> parameters = ps, message_body = body \<rparr>, w) }"

definition getParameterByName :: "'w fcgx \<Rightarrow> string \<Rightarrow> 'w \<Rightarrow> string option" where
  "getParameterByName E parameter_name w = fx_param E parameter_name w"

section \<open>The timer\<close>

text \<open>
  \<open>getComment\<close> computes \<open>(seconds * 1000 + useconds / 1000.0) + 0.5\<close> milliseconds and does not cut it
  to a whole number; \<open>elapsed\<close> is that value in thousandths. How a stream prints it is the parameter
  \<open>fmt\<close>.
\<close>

definition elapsed :: "int \<times> int \<Rightarrow> int \<times> int \<Rightarrow> int" where
  "elapsed t0 t1 =
     (let seconds = fst t1 - fst t0; useconds = snd t1 - snd t0
      in (seconds * 1000000 + useconds) + 500)"

definition getComment :: "(int \<Rightarrow> string) \<Rightarrow> int \<times> int \<Rightarrow> int \<times> int \<Rightarrow> string" where
  "getComment fmt t0 t1 = ''Elapsed time: '' @ fmt (elapsed t0 t1) @ '' milliseconds'' @ [CHR 0x0A]"

section \<open>The first server\<close>

text \<open>
  \<open>cout\<close> is one object for the whole program: its base and its fill stay, only its buffer is
  exchanged. \<open>v_live\<close>: that buffer exists. It is the buffer of the process at first; the loop
  puts one in its place that is a local of the loop's body, which ends with each iteration.
\<close>

record 'w server1 =
  v_world :: 'w
  v_x :: int
  v_cout :: ostream
  v_live :: bool
  v_stdout :: string
  v_pages :: "string list"

definition new_server1 :: "'w \<Rightarrow> 'w server1" where
  "new_server1 w = \<lparr> v_world = w, v_x = 0, v_cout = new_ostream, v_live = True, v_stdout = [], v_pages = [] \<rparr>"

abbreviation put_line :: "string \<Rightarrow> ostream \<Rightarrow> ostream" where
  "put_line s os \<equiv> put_str (s @ [CHR 0x0A]) os"

definition page_head :: "ostream \<Rightarrow> ostream" where
  "page_head os =
     (let os = put_str (''Content-type: text/html'' @ [CHR 0x0D, CHR 0x0A]) os;
          os = put_str [CHR 0x0D, CHR 0x0A] os;
          os = put_line ''<html>'' os;
          os = put_line ''  <head>'' os;
          os = put_line ''    <title>Hello, World!</title>'' os;
          os = put_line ''  </head>'' os;
          os = put_line ''  <body>'' os
      in put_line ''    <h1>Hello, World!</h1>'' os)"

definition put_param :: "string \<times> string \<Rightarrow> ostream \<Rightarrow> ostream" where
  "put_param p os = put_endl (put_str ''<br/>'' (put_str (snd p) (put_str '' => '' (put_str (fst p) os))))"

definition page_body :: "(string \<Rightarrow> 8 word list) \<Rightarrow> nat \<Rightarrow> int \<Rightarrow> request \<Rightarrow> ostream \<Rightarrow> ostream" where
  "page_body dig request_size x r os =
     (let os = put_endl (put_str (sha256 dig (message_body r)) os);
          os = put_endl os;
          os = put_endl (put_size request_size os);
          os = put_endl (put_str ''<br/>'' (put_int x os));
          os = fold put_param (parameters r) os
      in put_endl (put_str ''</body></html>'' os))"

text \<open>One iteration. The bytes of the page go to the request when its buffer is destroyed.\<close>

definition serve1 ::
    "'w fcgx \<Rightarrow> (string \<Rightarrow> 8 word list) \<Rightarrow> nat \<Rightarrow> (int \<Rightarrow> string) \<Rightarrow> 'w server1 \<Rightarrow> 'w server1 option" where
  "serve1 E dig request_size fmt s =
     (let x = v_x s + 1;
          (t0, w) = fx_time E (v_world s)
      in do { (r, w) \<leftarrow> reload E w;
              _ \<leftarrow> (if v_live s then Some () else None);
              (let os = put_endl (print_as_hex (message_body r) (v_cout s));
                   out = os_text os;
                   os = page_body dig request_size x r (page_head (os\<lparr> os_text := [] \<rparr>));
                   (t1, w) = fx_time E w;
                   os = put_endl (put_str (getComment fmt t0 t1) os)
               in Some (s\<lparr> v_world := w, v_x := x, v_cout := os\<lparr> os_text := [] \<rparr>, v_live := False,
                          v_stdout := v_stdout s @ out, v_pages := v_pages s @ [os_text os] \<rparr>)) })"

partial_function (option) main_v1_loop ::
    "'w fcgx \<Rightarrow> (string \<Rightarrow> 8 word list) \<Rightarrow> nat \<Rightarrow> (int \<Rightarrow> string) \<Rightarrow> 'w server1 \<Rightarrow> 'w server1 option" where
  "main_v1_loop E dig request_size fmt s =
     (let (rc, w) = fx_accept E (v_world s); s = s\<lparr> v_world := w \<rparr>
      in if rc = 0 then do { s \<leftarrow> serve1 E dig request_size fmt s; main_v1_loop E dig request_size fmt s }
         else Some s)"

definition main_v1 ::
    "'w fcgx \<Rightarrow> (string \<Rightarrow> 8 word list) \<Rightarrow> nat \<Rightarrow> (int \<Rightarrow> string) \<Rightarrow> 'w \<Rightarrow> (int \<times> 'w server1) option" where
  "main_v1 E dig request_size fmt w =
     do { s \<leftarrow> main_v1_loop E dig request_size fmt (new_server1 w); Some (0, s\<lparr> v_live := True \<rparr>) }"

section \<open>The server of one file (main_new.cpp)\<close>

abbreviation thread_count_new :: nat where "thread_count_new \<equiv> 30"

definition response_header :: string where
  "response_header =
     ''Content-Type: application/xml; charset=UTF-8'' @ [CHR 0x0D, CHR 0x0A] @
     ''Content-Encoding: gzip'' @ [CHR 0x0D, CHR 0x0A] @ [CHR 0x0D, CHR 0x0A]"

text \<open>The length of the contents is cut to an \<open>int\<close>.\<close>

definition contents_size :: "string \<Rightarrow> int" where
  "contents_size c = sint (word_of_nat (length c) :: 32 word)"

partial_function (option) doit_new :: "'w fcgx \<Rightarrow> string \<Rightarrow> 'w \<Rightarrow> 'w option" where
  "doit_new E served_contents w =
     (let (rc, w) = fx_accept E w
      in if rc < 0 then doit_new E served_contents w
         else (let w = fx_printf E response_header w;
                   (written, w) = fx_putstr E served_contents (contents_size served_contents) w
               in if written \<noteq> contents_size served_contents \<or> written = -1 then Some w
                  else doit_new E served_contents (fx_finish E w)))"

text \<open>
  The position at the end of a stream that could not be opened is -1, as a size the largest one, and
  a string of that length cannot be made.
\<close>

datatype cpp_exception = Length_error

definition file_to_string :: "(string \<Rightarrow> string option) \<Rightarrow> string \<Rightarrow> cpp_exception + string" where
  "file_to_string files filepath =
     (let size = (case files filepath of Some c \<Rightarrow> word_of_nat (length c) | None \<Rightarrow> (- 1 :: 64 word))
      in if size = - 1 then Inl Length_error
         else Inr (take (unat size) (case files filepath of Some c \<Rightarrow> c | None \<Rightarrow> [])))"

text \<open>
  What \<open>main\<close> does before it waits for its threads: it prints and returns, or it starts the threads with
  what they serve (each has a \<open>ThreadStore\<close> with its number).
\<close>

datatype new_start = Returned int string | Started string "nat list"

definition main_new :: "(cpp_exception \<Rightarrow> string) \<Rightarrow> (string \<Rightarrow> string option) \<Rightarrow> string list \<Rightarrow> new_start" where
  "main_new what files argv =
     (case argv of
        prog # filepath # _ \<Rightarrow>
          (case file_to_string files filepath of
             Inl e \<Rightarrow> Returned 1 (''exception caught: '' @ what e @ [CHR 0x0A])
           | Inr c \<Rightarrow> Started c [0 ..< thread_count_new])
      | prog # _ \<Rightarrow> Returned 1 (''usage: '' @ prog @ '' <file-to-serve>'' @ [CHR 0x0A])
      | [] \<Rightarrow> Returned 1 ''usage: '')"

end
