(* ===== verification/FcgiProps.thy ===== *)
theory FcgiProps
  imports Fcgi
begin

text \<open>
  What the FastCGI programs show: the hash in hexadecimal determines the digest, the body of a request
  is read whole or cut with a note, the first server answers one request and writes to a buffer that is
  gone at the next, the server of one file runs as long as its writes succeed.
\<close>

section \<open>Hexadecimal digits\<close>

lemma hex_digits_small: "n < 16 \<Longrightarrow> hex_digits n = [hex_digit n]"
  by (subst hex_digits.simps) simp

lemma hex_digits_step: "16 \<le> n \<Longrightarrow> hex_digits n = hex_digits (n div 16) @ [hex_digit (n mod 16)]"
  by (subst hex_digits.simps) simp

lemma hex_digit_0: "hex_digit 0 = CHR ''0''"
  by code_simp

lemma hex_two_digits:
  "n < 256 \<Longrightarrow> replicate (2 - length (hex_digits n)) (CHR ''0'') @ hex_digits n = [hex_digit (n div 16), hex_digit (n mod 16)]"
  using hex_digit_0 by (cases "n < 16") (simp_all add: hex_digits_small hex_digits_step less_mult_imp_div_less)

definition hex_val :: "char \<Rightarrow> nat" where
  "hex_val c = (if (of_char c :: nat) < 58 then of_char c - 48 else of_char c - 87)"

fun unhex :: "string \<Rightarrow> 8 word list" where
  "unhex (a # b # cs) = word_of_nat (16 * hex_val a + hex_val b) # unhex cs"
| "unhex _ = []"

lemma hex_val_digit: "n < 16 \<Longrightarrow> hex_val (hex_digit n) = n"
  by (simp add: hex_val_def hex_digit_def)

lemma hex_digit_in: "n < 16 \<Longrightarrow> hex_digit n \<in> set ''0123456789abcdef''"
proof -
  have "\<forall>n \<in> set [0..<16]. hex_digit n \<in> set ''0123456789abcdef''" by code_simp
  then show "n < 16 \<Longrightarrow> ?thesis" by simp
qed

definition hex_byte :: "8 word \<Rightarrow> string" where
  "hex_byte b = [hex_digit (unat b div 16), hex_digit (unat b mod 16)]"

lemma byte_less: "unat (b :: 8 word) < 256"
  using unsigned_less [of b] by simp

lemma hex_byte_digits: "set (hex_byte b) \<subseteq> set ''0123456789abcdef''"
proof -
  have "hex_digit (unat b div 16) \<in> set ''0123456789abcdef''"
    by (rule hex_digit_in) (simp add: less_mult_imp_div_less byte_less)
  moreover have "hex_digit (unat b mod 16) \<in> set ''0123456789abcdef''"
    by (rule hex_digit_in) simp
  ultimately show ?thesis by (auto simp: hex_byte_def)
qed

lemma unhex_bytes: "unhex (concat (List.map hex_byte bs)) = bs"
  by (induction bs) (simp_all add: hex_byte_def hex_val_digit less_mult_imp_div_less byte_less)

lemma int_text_byte: "int_text True (uint (b :: 8 word)) = hex_digits (unat b)"
proof -
  have "uint b < 256" using uint_lt2p [of b] by simp
  then have "uint (word_of_int (uint b) :: uint) = uint b"
    by (subst uint_word_of_int_eq) (simp add: take_bit_int_eq_self)
  then show ?thesis by (simp only: int_text_def if_True nat_uint_eq [symmetric])
qed

lemma put_byte:
  "put_int (uint (b :: 8 word)) (setfill (CHR ''0'') (setw 2 (set_hex os))) =
     os\<lparr> os_hex := True, os_fill := CHR ''0'', os_width := 0, os_text := os_text os @ hex_byte b \<rparr>"
  using hex_two_digits [OF byte_less [of b]]
  by (simp add: put_int_def put_str_def setfill_def setw_def set_hex_def int_text_byte hex_byte_def)

lemma put_bytes:
  "os_text (fold (\<lambda>i ss. put_int (uint (f i :: 8 word)) (setfill (CHR ''0'') (setw 2 (set_hex ss)))) is os) =
     os_text os @ concat (List.map (hex_byte \<circ> f) is)"
  by (induction "is" arbitrary: os) (simp_all add: put_byte)

lemma sha256_bytes: "length (dig s) = 32 \<Longrightarrow> sha256 dig s = concat (List.map hex_byte (dig s))"
  using map_nth [of "dig s"] by (simp add: sha256_def put_bytes new_ostream_def del: upt_rec flip: map_map)

lemma length_hex_bytes: "length (concat (List.map hex_byte bs)) = 2 * length bs"
  by (induction bs) (simp_all add: hex_byte_def)

text \<open>The text \<open>sha256\<close> returns has 64 digits, all of them hexadecimal and lower case, and two digits a
  byte give back the digest, so texts are equal only for equal digests.\<close>

theorem sha256_roundtrip:
  assumes "\<And>t. length (dig t) = 32"
  shows "length (sha256 dig s) = 64 \<and> set (sha256 dig s) \<subseteq> set ''0123456789abcdef'' \<and>
         unhex (sha256 dig s) = dig s \<and> (sha256 dig s = sha256 dig t) = (dig s = dig t)"
proof -
  have "set (concat (List.map hex_byte (dig s))) \<subseteq> set ''0123456789abcdef''"
    by (auto dest: subsetD [OF hex_byte_digits])
  then show ?thesis
    using unhex_bytes [of "dig s"] unhex_bytes [of "dig t"]
    by (metis sha256_bytes assms length_hex_bytes mult_2 numeral_Bit0)
qed

theorem sha256_roundtrip_witness:
  "unhex (sha256 (\<lambda>s. replicate 32 (word_of_nat (length s + 170))) ''ab'') = replicate 32 172"
  using sha256_roundtrip [of "\<lambda>s. replicate 32 (word_of_nat (length s + 170))" "''ab''" "[]"] by simp

section \<open>The body of a request\<close>

text \<open>The input of a request as a string that is consumed from the front.\<close>

definition fcgx_input :: "'w fcgx \<Rightarrow> ('w \<Rightarrow> string) \<Rightarrow> bool" where
  "fcgx_input E inp \<longleftrightarrow>
     (\<forall>n w. fst (fx_getstr E n w) = take n (inp w) \<and> inp (snd (fx_getstr E n w)) = drop n (inp w))"

definition body_of :: "nat \<Rightarrow> string \<Rightarrow> string" where
  "body_of room p = (if length p \<le> room then p else take room p @ max_body_text)"

lemma body_of_chunk:
  assumes "10000 \<le> length p" "10000 \<le> room"
  shows "take 10000 p @ body_of (room - 10000) (drop 10000 p) = body_of room p"
proof -
  have "take 10000 p @ take (room - 10000) (drop 10000 p) = take room p"
    using assms take_add [of 10000 "room - 10000" p] by simp
  then show ?thesis using assms by (auto simp: body_of_def simp flip: append_assoc)
qed

lemma load_input_from_body:
  assumes E: "fcgx_input E inp" and "tot \<le> max_input_message_body" "10000 dvd tot"
  shows "\<exists>w'. load_input_from E tot body w = Some (body @ body_of (max_input_message_body - tot) (inp w), w') \<and>
          inp w' = drop (max_input_message_body - tot + 10000) (inp w)"
  using assms(2-)
proof (induction "max_input_message_body - tot" arbitrary: tot body w rule: less_induct)
  case less
  obtain buf w1 where g: "fx_getstr E 10000 w = (buf, w1)" by force
  have buf: "buf = take 10000 (inp w)" and w1: "inp w1 = drop 10000 (inp w)"
    using E [unfolded fcgx_input_def, rule_format, of 10000 w] g by auto
  note step = load_input_from.simps [of E tot body w, unfolded g Let_def prod.case]
  have room: "max_input_message_body - tot = 0 \<or> 10000 \<le> max_input_message_body - tot"
    using less.prems by (auto simp: dvd_def)
  show ?case
  proof (cases "max_input_message_body < tot + length buf \<or> length buf < 10000")
    case True
    then show ?thesis
      using room less.prems(1) buf w1 by (subst step) (auto simp: body_of_def)
  next
    case False
    then have "10000 \<le> length (inp w)" "tot + 10000 \<le> max_input_message_body" "length buf = 10000"
      using buf by auto
    moreover from this have "max_input_message_body - (tot + 10000) < max_input_message_body - tot" by arith
    moreover from calculation less.hyps [of "tot + 10000" "body @ buf" w1, OF this] less.prems
    obtain w' where "load_input_from E (tot + 10000) (body @ buf) w1 =
          Some ((body @ buf) @ body_of (max_input_message_body - (tot + 10000)) (inp w1), w')"
        "inp w' = drop (max_input_message_body - (tot + 10000) + 10000) (inp w1)"
      by fastforce
    moreover have "buf @ body_of (max_input_message_body - (tot + 10000)) (inp w1) =
        body_of (max_input_message_body - tot) (inp w)"
      using body_of_chunk [of "inp w" "max_input_message_body - tot"] calculation(1,2) buf w1 by simp
    ultimately show ?thesis using w1 by (subst step) auto
  qed
qed

text \<open>C36. \<open>loadInput\<close> ends and leaves the whole input as the message body when it has at most 100000000
  bytes; of a longer input it keeps the first 100000000 and appends the note, and leaves unread what is
  behind the buffer in which the limit was passed.\<close>

theorem load_input_body:
  assumes "fcgx_input E inp"
  shows "\<exists>w'. loadInput E w =
           Some (if length (inp w) \<le> max_input_message_body then inp w
                 else take max_input_message_body (inp w) @ max_body_text, w') \<and>
          inp w' = drop (max_input_message_body + input_buffer_size) (inp w)"
  using load_input_from_body [OF assms, of 0 "[]" w] by (simp add: loadInput_def body_of_def)

definition echo_fcgx :: "string fcgx" where
  "echo_fcgx = \<lparr> fx_accept = \<lambda>w. (if w = [] then -1 else 0, w), fx_param = \<lambda>n w. Some ''v'',
     fx_getstr = \<lambda>n w. (take n w, drop n w), fx_printf = \<lambda>t w. w @ t,
     fx_putstr = \<lambda>t n w. (n, w @ t), fx_finish = \<lambda>w. w, fx_time = \<lambda>w. ((1, 2), w) \<rparr>"

lemma echo_input: "fcgx_input echo_fcgx (\<lambda>w. w)"
  by (simp add: fcgx_input_def echo_fcgx_def)

theorem load_input_body_witness:
  "\<exists>w'. loadInput echo_fcgx ''abc'' = Some (''abc'', w') \<and> w' = []"
  using load_input_body [OF echo_input, of "''abc''"] by simp

section \<open>The bytes of a message\<close>

lemma put_str_plain [simp]: "os_width os = 0 \<Longrightarrow> put_str t os = os\<lparr> os_text := os_text os @ t \<rparr>"
  by (simp add: put_str_def)

definition dump_char :: "nat \<Rightarrow> char \<Rightarrow> string" where
  "dump_char x c =
     (let t = int_text True (char_int c)
      in replicate (2 - length t) (CHR ''0'') @ t @ '' '' @ (if (x + 1) mod 16 = 0 then ''<br />'' @ [CHR 0x0A] else []))"

lemma print_hex_char_text:
  "print_hex_char x c os =
     os\<lparr> os_hex := True, os_fill := CHR ''0'', os_width := 0, os_text := os_text os @ dump_char x c \<rparr>"
  by (simp add: print_hex_char_def dump_char_def put_int_def set_hex_def setfill_def setw_def put_endl_def Let_def
      put_str_def)

fun dump :: "nat \<Rightarrow> string \<Rightarrow> string" where
  "dump x [] = []"
| "dump x (c # cs) = dump_char x c @ dump (Suc x) cs"

lemma print_hex_from_text:
  "print_hex_from x cs os =
     (if cs = [] then os
      else os\<lparr> os_hex := True, os_fill := CHR ''0'', os_width := 0, os_text := os_text os @ dump x cs \<rparr>)"
  by (induction x cs os rule: print_hex_from.induct) (simp_all add: print_hex_char_text)

text \<open>A byte below 128 is printed as two digits, any other as the eight digits of a negative \<open>int\<close>.\<close>

lemma hex_digits_last: "0 < q \<Longrightarrow> r < 16 \<Longrightarrow> hex_digits (16 * q + r) = hex_digits q @ [hex_digit r]"
  by (subst hex_digits_step) simp_all

lemma hex_digit_15: "hex_digit 15 = CHR ''f''"
  by code_simp

lemma hex_digits_f: "hex_digits 16777215 = ''ffffff''"
  by (simp add: hex_digits_step hex_digits_small hex_digit_15)

theorem print_as_hex_digits:
  "int_text True (char_int c) =
     (if (of_char c :: nat) < 128 then hex_digits (of_char c)
      else ''ffffff'' @ [hex_digit (of_char c div 16), hex_digit (of_char c mod 16)])"
proof (cases "(of_char c :: nat) < 128")
  case True
  have "unat (word_of_nat (of_char c) :: uint) = of_char c"
    using True by (simp add: unsigned_of_nat take_bit_nat_eq_self)
  then show ?thesis using True by (simp add: int_text_def char_int_def Let_def)
next
  case False
  define n :: nat where "n = of_char c"
  have n: "128 \<le> n" "n < 256" using False by (simp_all add: n_def)
  define a b where "a = n div 16" and "b = n mod 16"
  have ab: "n = 16 * a + b" "a < 16" "b < 16" using n by (simp_all add: a_def b_def less_mult_imp_div_less)
  have "unat (word_of_int (int n - 256) :: uint) = nat ((int n - 256) mod 4294967296)"
    by (subst nat_uint_eq [symmetric], subst uint_word_of_int_eq) (simp add: take_bit_eq_mod)
  also have "(int n - 256) mod 4294967296 = int n + 4294967040"
    using n by (simp add: mod_pos_neg_trivial flip: mod_add_self2 [of "int n - 256"])
  also have "nat (int n + 4294967040) = 16 * (16 * 16777215 + a) + b" using ab(1) by simp
  finally have "hex_digits (unat (word_of_int (int n - 256) :: uint)) = ''ffffff'' @ [hex_digit a, hex_digit b]"
    using ab hex_digits_last [of "16 * 16777215 + a" b] hex_digits_last [of 16777215 a] hex_digits_f by simp
  then show ?thesis
    using False by (simp add: int_text_def char_int_def Let_def a_def b_def n_def)
qed

section \<open>The parameters of a request\<close>

text \<open>\<open>reload\<close> has no defined result when a parameter is missing, and else the 17 parameters with their
  values, in the order of their names.\<close>

definition sorted_names :: "string list" where
  "sorted_names =
     [''CONTENT_LENGTH'', ''CONTENT_TYPE'', ''DOCUMENT_ROOT'', ''DOCUMENT_URI'', ''GATEWAY_INTERFACE'',
      ''QUERY_STRING'', ''REMOTE_ADDR'', ''REMOTE_PORT'', ''REQUEST_METHOD'', ''REQUEST_URI'',
      ''SCRIPT_FILENAME'', ''SCRIPT_NAME'', ''SERVER_ADDR'', ''SERVER_NAME'', ''SERVER_PORT'',
      ''SERVER_PROTOCOL'', ''SERVER_SOFTWARE'']"

lemma foldm_assign:
  "foldm (\<lambda>n ps. do { v \<leftarrow> g n; Some (map_assign n v ps) }) ns ps =
     (if \<forall>n \<in> set ns. g n \<noteq> None then Some (fold (\<lambda>n ps. map_assign n (the (g n)) ps) ns ps) else None)"
  by (induction ns arbitrary: ps) (auto split: bind_splits)

lemma assign_all: "fold (\<lambda>n ps. map_assign n (f n) ps) param_names [] = List.map (\<lambda>n. (n, f n)) sorted_names"
  by (simp add: param_names_def sorted_names_def)

lemma set_param_names: "set param_names = set sorted_names"
  by (auto simp: param_names_def sorted_names_def)

theorem reload_parameters:
  assumes "fcgx_input E inp" "length (inp w) \<le> max_input_message_body"
  shows "(\<exists>n \<in> set sorted_names. fx_param E n w = None) \<and> reload E w = None \<or>
         (\<exists>w'. reload E w = Some (\<lparr> parameters = List.map (\<lambda>n. (n, the (fx_param E n w))) sorted_names,
                                  message_body = inp w \<rparr>, w'))"
  using load_input_body [OF assms(1), of w] assms(2)
  by (auto simp: reload_def foldm_assign assign_all set_param_names)

section \<open>One request\<close>

definition crlf :: string where "crlf = [CHR 0x0D, CHR 0x0A]"
definition nl :: string where "nl = [CHR 0x0A]"

definition page_text :: "(string \<Rightarrow> 8 word list) \<Rightarrow> nat \<Rightarrow> (int \<Rightarrow> string) \<Rightarrow> request \<Rightarrow> int \<times> int \<Rightarrow> int \<times> int \<Rightarrow> string" where
  "page_text dig z fmt r t0 t1 =
     ''Content-type: text/html'' @ crlf @ crlf @ ''<html>'' @ nl @ ''  <head>'' @ nl @
     ''    <title>Hello, World!</title>'' @ nl @ ''  </head>'' @ nl @ ''  <body>'' @ nl @
     ''    <h1>Hello, World!</h1>'' @ nl @ sha256 dig (message_body r) @ nl @ nl @
     (if message_body r = [] then dec_digits z else hex_digits z) @ nl @ ''1<br/>'' @ nl @
     concat (List.map (\<lambda>(n, v). n @ '' => '' @ v @ ''<br/>'' @ nl) (parameters r)) @
     ''</body></html>'' @ nl @ getComment fmt t0 t1 @ nl"

lemma put_params:
  "os_width os = 0 \<Longrightarrow> fold put_param ps os =
     os\<lparr> os_text := os_text os @ concat (List.map (\<lambda>(n, v). n @ '' => '' @ v @ ''<br/>'' @ nl) ps) \<rparr>"
  by (induction ps arbitrary: os) (auto simp: put_param_def put_endl_def nl_def)

lemma dec_digits_1: "dec_digits (Suc 0) = ''1''"
  by code_simp

lemma hex_digits_1: "hex_digits (Suc 0) = ''1''"
  by code_simp

lemma page_head_text:
  "os_width os = 0 \<Longrightarrow> page_head os =
     os\<lparr> os_text := os_text os @ ''Content-type: text/html'' @ crlf @ crlf @ ''<html>'' @ nl @ ''  <head>'' @ nl @
       ''    <title>Hello, World!</title>'' @ nl @ ''  </head>'' @ nl @ ''  <body>'' @ nl @
       ''    <h1>Hello, World!</h1>'' @ nl \<rparr>"
  by (simp add: page_head_def crlf_def nl_def)

lemma page_body_text:
  "os_width os = 0 \<Longrightarrow> page_body dig z 1 r os =
     os\<lparr> os_text := os_text os @ sha256 dig (message_body r) @ nl @ nl @
       (if os_hex os then hex_digits z else dec_digits z) @ nl @ ''1<br/>'' @ nl @
       concat (List.map (\<lambda>(n, v). n @ '' => '' @ v @ ''<br/>'' @ nl) (parameters r)) @ ''</body></html>'' @ nl \<rparr>"
  by (cases os) (simp add: page_body_def put_endl_def put_int_def put_size_def put_params int_text_def nl_def
      dec_digits_1 hex_digits_1)

lemma serve1_first:
  assumes "fx_time E w = (t0, w1)" "reload E w1 = Some (r, w2)" "fx_time E w2 = (t1, w3)"
  shows "\<exists>s. serve1 E dig z fmt ((new_server1 w0)\<lparr> v_world := w \<rparr>) = Some s \<and> v_world s = w3 \<and> v_x s = 1 \<and>
             \<not> v_live s \<and> v_stdout s = dump 0 (message_body r) @ nl \<and> v_pages s = [page_text dig z fmt r t0 t1]"
  using assms
  by (simp add: serve1_def new_server1_def print_as_hex_def print_hex_from_text page_head_text page_body_text
      new_ostream_def put_endl_def page_text_def nl_def Let_def)

lemma serve1_gone: "\<not> v_live s \<Longrightarrow> serve1 E dig z fmt s = None"
  by (auto simp: serve1_def Let_def split: prod.splits bind_splits)

text \<open>C37. The first server answers its first request with the page of its body's hash and its parameters,
  in which the size of the request object is printed in hexadecimal unless the body is empty, and
  writes the bytes of the body to its own standard output. It ends when no second request comes; a
  second request makes it write to a buffer that no longer exists.\<close>

theorem first_server_one_request:
  assumes "fx_accept E w0 = (0, w)" "fx_time E w = (t0, w1)" "reload E w1 = Some (r, w2)"
    "fx_time E w2 = (t1, w3)"
  shows "if fst (fx_accept E w3) = 0 then main_v1 E dig z fmt w0 = None
         else \<exists>s. main_v1 E dig z fmt w0 = Some (0, s) \<and> v_pages s = [page_text dig z fmt r t0 t1] \<and>
                  v_stdout s = dump 0 (message_body r) @ nl"
proof -
  obtain s where s: "serve1 E dig z fmt ((new_server1 w0)\<lparr> v_world := w \<rparr>) = Some s" "v_world s = w3"
      "\<not> v_live s" "v_stdout s = dump 0 (message_body r) @ nl" "v_pages s = [page_text dig z fmt r t0 t1]"
    using serve1_first [OF assms(2-)] by blast
  have "main_v1_loop E dig z fmt (new_server1 w0) = main_v1_loop E dig z fmt s"
    using assms(1) s(1) by (subst main_v1_loop.simps) (simp add: new_server1_def)
  also have "\<dots> = (if fst (fx_accept E w3) = 0 then None else Some (s\<lparr> v_world := snd (fx_accept E w3) \<rparr>))"
    using s(2,3) by (subst main_v1_loop.simps) (simp add: serve1_gone Let_def split: prod.splits)
  finally show ?thesis using s by (simp add: main_v1_def)
qed

theorem first_server_one_request_witness:
  "main_v1 (echo_fcgx\<lparr> fx_accept := \<lambda>w. (0, w) \<rparr>) (\<lambda>s. replicate 32 0) 100 (\<lambda>i. ''0.5'') ''abc'' = None"
proof -
  let ?E = "echo_fcgx\<lparr> fx_accept := \<lambda>w. (0, w) \<rparr>"
  have "fcgx_input ?E (\<lambda>w. w)" by (simp add: fcgx_input_def echo_fcgx_def)
  from reload_parameters [OF this, of "''abc''"] obtain r w2 where r: "reload ?E ''abc'' = Some (r, w2)"
    by (auto simp: echo_fcgx_def)
  show ?thesis
    using first_server_one_request [of ?E "''abc''" "''abc''" "(1, 2)" "''abc''" r w2 "(1, 2)" w2] r
    by (simp add: echo_fcgx_def)
qed

section \<open>The server of one file\<close>

text \<open>A thread of the server ends only by a write that is not complete, whose request it does not finish;
  a failed \<open>FCGX_Accept_r\<close> is tried again at once.\<close>

theorem doit_new_ends:
  assumes "doit_new E c w = Some w'"
  shows "\<exists>u. fst (fx_putstr E c (contents_size c) u) \<in> - {contents_size c} \<union> {-1} \<and>
             w' = snd (fx_putstr E c (contents_size c) u)"
proof (rule doit_new.raw_induct [OF _ assms])
  fix f and E :: "'a fcgx" and c and w r :: 'a
  assume IH: "\<And>E c w r. f E c w = Some r \<Longrightarrow>
      \<exists>u. fst (fx_putstr E c (contents_size c) u) \<in> - {contents_size c} \<union> {-1} \<and> r = snd (fx_putstr E c (contents_size c) u)"
    and r: "(let (rc, w) = fx_accept E w
      in if rc < 0 then f E c w
         else (let w = fx_printf E response_header w; (written, w) = fx_putstr E c (contents_size c) w
               in if written \<noteq> contents_size c \<or> written = -1 then Some w else f E c (fx_finish E w))) = Some r"
  obtain rc w1 where a: "fx_accept E w = (rc, w1)" by force
  obtain k w2 where p: "fx_putstr E c (contents_size c) (fx_printf E response_header w1) = (k, w2)" by force
  show "\<exists>u. fst (fx_putstr E c (contents_size c) u) \<in> - {contents_size c} \<union> {-1} \<and> r = snd (fx_putstr E c (contents_size c) u)"
  proof (cases "rc < 0 \<or> k = contents_size c \<and> k \<noteq> -1")
    case True
    then show ?thesis using IH r a p by (auto simp: Let_def split: if_splits)
  next
    case False
    then show ?thesis
      using r a p by (intro exI [of _ "fx_printf E response_header w1"]) (auto simp: Let_def split: if_splits)
  qed
qed

theorem doit_new_never_ends:
  assumes "\<And>n w. fst (fx_putstr E c n w) = n" "contents_size c \<noteq> -1"
  shows "doit_new E c w = None"
  using doit_new_ends [of E c w] assms by (cases "doit_new E c w") auto

theorem doit_new_serves:
  assumes "fx_accept E w = (rc, w1)" "0 \<le> rc"
    "fx_putstr E c (contents_size c) (fx_printf E response_header w1) = (contents_size c, w2)" "contents_size c \<noteq> -1"
  shows "doit_new E c w = doit_new E c (fx_finish E w2)"
  using assms by (subst doit_new.simps) simp

text \<open>A file is served as it is; when it cannot be opened, \<open>main\<close> returns 1 before it starts a thread.\<close>

theorem file_to_string_reads:
  assumes "\<And>c. files p = Some c \<Longrightarrow> length c < 2 ^ 64 - 1"
  shows "main_new what files (prog # p # args) =
     (case files p of None \<Rightarrow> Returned 1 (''exception caught: '' @ what Length_error @ [CHR 0x0A])
      | Some c \<Rightarrow> Started c [0..<30])"
proof (cases "files p")
  case (Some c)
  have l: "unat (word_of_nat (length c) :: 64 word) = length c"
    using assms [OF Some] by (simp add: unsigned_of_nat take_bit_nat_eq_self)
  moreover have "unat (- 1 :: 64 word) = 2 ^ 64 - 1"
    by (simp add: unsigned_minus_1_eq_mask mask_eq_exp_minus_1)
  ultimately have "(word_of_nat (length c) :: 64 word) \<noteq> - 1"
    using assms [OF Some] by (metis less_irrefl)
  then show ?thesis using Some l by (simp add: main_new_def file_to_string_def Let_def)
qed (simp add: main_new_def file_to_string_def)

end
