(* ===== verification/FcgiThreads.thy ===== *)
theory FcgiThreads
  imports CStrings
begin

text \<open>
  The threaded FastCGI program (homework/po/lecture-6/main.cpp): one hundred threads that accept requests
  one after the other, each with its own counter, as an interleaving of steps. What the FastCGI
  library answers is left open: \<open>FCGX_Accept_r\<close> may return any number and any server name.
\<close>

section \<open>State\<close>

abbreviation THREAD_COUNT :: nat where "THREAD_COUNT \<equiv> 100"

text \<open>Where a thread is in \<open>doit\<close>; \<open>Unborn\<close> before it is created, or when its creation failed.\<close>

datatype pc = Unborn | Top | Accepting | Accepted int | Serving | Printed | Counting | Counted | Finishing | Ended

record threaded =
  t_created :: nat
  t_pc :: "nat \<Rightarrow> pc"
  accept_mutex :: "nat option"
  counts_mutex :: "nat option"
  t_counts :: "int list"
  t_i :: "nat \<Rightarrow> int"
  t_name :: "nat \<Rightarrow> string option"
  t_page :: "nat \<Rightarrow> string"
  t_pages :: "nat \<Rightarrow> string list"
  t_accepted :: nat

definition threaded_init :: threaded where
  "threaded_init =
     \<lparr> t_created = 1, t_pc = (\<lambda>_. Unborn), accept_mutex = None, counts_mutex = None,
       t_counts = replicate THREAD_COUNT 0, t_i = (\<lambda>_. 0), t_name = (\<lambda>_. None), t_page = (\<lambda>_. []),
       t_pages = (\<lambda>_. []), t_accepted = 0 \<rparr>"

section \<open>The page\<close>

definition fmt_d :: "int \<Rightarrow> string" where
  "fmt_d i = (if i < 0 then CHR ''-'' # dec_digits (nat (- i)) else dec_digits (nat i))"

definition fmt_5d :: "int \<Rightarrow> string" where
  "fmt_5d i = replicate (5 - length (fmt_d i)) (CHR '' '') @ fmt_d i @ '' ''"

definition page_header :: "int \<Rightarrow> nat \<Rightarrow> string option \<Rightarrow> string" where
  "page_header pid thread_id server_name =
     ''Content-type: text/html'' @ [CHR 0x0D, CHR 0x0A] @ [CHR 0x0D, CHR 0x0A] @
     ''<title>FastCGI Hello! (multi-threaded C, fcgiapp library)</title>'' @
     ''<h1>FastCGI Hello! (multi-threaded C, fcgiapp library)</h1>'' @
     ''Thread '' @ fmt_d (int thread_id) @ '', Process '' @ fmt_d pid @ ''<p>'' @
     ''Request counts for '' @ fmt_d (int THREAD_COUNT) @ '' threads running on host <i>'' @
     (case server_name of Some n \<Rightarrow> n | None \<Rightarrow> ''?'') @ ''</i><p><code>''"

section \<open>The statements of a thread\<close>

definition set_pc :: "nat \<Rightarrow> pc \<Rightarrow> threaded \<Rightarrow> threaded" where
  "set_pc t p s = s\<lparr> t_pc := (t_pc s)(t := p) \<rparr>"

definition do_lock_accept :: "nat \<Rightarrow> threaded \<Rightarrow> threaded" where
  "do_lock_accept t s = set_pc t Accepting (s\<lparr> accept_mutex := Some t \<rparr>)"

definition do_accept :: "int \<Rightarrow> string option \<Rightarrow> nat \<Rightarrow> threaded \<Rightarrow> threaded" where
  "do_accept rc name t s =
     set_pc t (Accepted rc)
       (s\<lparr> t_name := (t_name s)(t := name), t_accepted := t_accepted s + (if rc < 0 then 0 else 1) \<rparr>)"

definition do_unlock_accept :: "int \<Rightarrow> nat \<Rightarrow> threaded \<Rightarrow> threaded" where
  "do_unlock_accept rc t s = set_pc t (if rc < 0 then Ended else Serving) (s\<lparr> accept_mutex := None \<rparr>)"

definition do_header :: "int \<Rightarrow> nat \<Rightarrow> threaded \<Rightarrow> threaded" where
  "do_header pid t s = set_pc t Printed (s\<lparr> t_page := (t_page s)(t := page_header pid t (t_name s t)) \<rparr>)"

definition do_lock_counts :: "nat \<Rightarrow> threaded \<Rightarrow> threaded" where
  "do_lock_counts t s = set_pc t Counting (s\<lparr> counts_mutex := Some t \<rparr>)"

text \<open>An increment of an \<open>int\<close> that overflows has no defined result.\<close>

definition inc :: "int \<Rightarrow> int option" where
  "inc i = (if i < 2147483647 then Some (i + 1) else None)"

definition do_count :: "nat \<Rightarrow> threaded \<Rightarrow> threaded option" where
  "do_count t s =
     do { c \<leftarrow> arr_get (t_counts s) t;
          c \<leftarrow> inc c;
          cs \<leftarrow> arr_set (t_counts s) t c;
          i \<leftarrow> inc (t_i s t);
          Some (set_pc t Counted
            (s\<lparr> t_counts := cs, t_i := (t_i s)(t := i), t_page := (t_page s)(t := t_page s t @ fmt_5d i) \<rparr>)) }"

definition do_unlock_counts :: "nat \<Rightarrow> threaded \<Rightarrow> threaded" where
  "do_unlock_counts t s = set_pc t Finishing (s\<lparr> counts_mutex := None \<rparr>)"

definition do_finish :: "nat \<Rightarrow> threaded \<Rightarrow> threaded" where
  "do_finish t s = set_pc t Top (s\<lparr> t_pages := (t_pages s)(t := t_pages s t @ [t_page s t]) \<rparr>)"

text \<open>The loop of \<open>main\<close>, which ignores whether a creation fails, and its own call of \<open>doit\<close>.\<close>

definition do_create :: "bool \<Rightarrow> threaded \<Rightarrow> threaded" where
  "do_create ok s =
     set_pc (t_created s) (if ok then Top else Unborn) (s\<lparr> t_created := Suc (t_created s) \<rparr>)"

definition do_main_doit :: "threaded \<Rightarrow> threaded" where
  "do_main_doit s = set_pc 0 Top s"

section \<open>Interleaving\<close>

text \<open>\<open>main\<close> returns when its own call of \<open>doit\<close> does, and with it ends every thread.\<close>

definition returned :: "threaded \<Rightarrow> bool" where
  "returned s \<longleftrightarrow> t_pc s 0 = Ended"

inductive thread_step :: "int \<Rightarrow> threaded \<Rightarrow> threaded \<Rightarrow> bool" for pid where
  create: "\<not> returned s \<Longrightarrow> t_created s < THREAD_COUNT \<Longrightarrow> thread_step pid s (do_create ok s)"
| main_doit: "t_created s = THREAD_COUNT \<Longrightarrow> t_pc s 0 = Unborn \<Longrightarrow> thread_step pid s (do_main_doit s)"
| lock_accept: "\<not> returned s \<Longrightarrow> t_pc s t = Top \<Longrightarrow> accept_mutex s = None \<Longrightarrow> thread_step pid s (do_lock_accept t s)"
| accept: "\<not> returned s \<Longrightarrow> t_pc s t = Accepting \<Longrightarrow> thread_step pid s (do_accept rc name t s)"
| unlock_accept: "\<not> returned s \<Longrightarrow> t_pc s t = Accepted rc \<Longrightarrow> thread_step pid s (do_unlock_accept rc t s)"
| header: "\<not> returned s \<Longrightarrow> t_pc s t = Serving \<Longrightarrow> thread_step pid s (do_header pid t s)"
| lock_counts: "\<not> returned s \<Longrightarrow> t_pc s t = Printed \<Longrightarrow> counts_mutex s = None \<Longrightarrow> thread_step pid s (do_lock_counts t s)"
| count: "\<not> returned s \<Longrightarrow> t_pc s t = Counting \<Longrightarrow> do_count t s = Some s' \<Longrightarrow> thread_step pid s s'"
| unlock_counts: "\<not> returned s \<Longrightarrow> t_pc s t = Counted \<Longrightarrow> thread_step pid s (do_unlock_counts t s)"
| finish: "\<not> returned s \<Longrightarrow> t_pc s t = Finishing \<Longrightarrow> thread_step pid s (do_finish t s)"

section \<open>Invariant\<close>

fun in_accept :: "pc \<Rightarrow> bool" where
  "in_accept Accepting = True"
| "in_accept (Accepted rc) = True"
| "in_accept _ = False"

fun in_counts :: "pc \<Rightarrow> bool" where
  "in_counts p = (p = Counting \<or> p = Counted)"

text \<open>A request that is accepted and not counted, and one that is counted and not finished.\<close>

fun uncounted :: "pc \<Rightarrow> nat" where
  "uncounted (Accepted rc) = (if rc < 0 then 0 else 1)"
| "uncounted Serving = 1"
| "uncounted Printed = 1"
| "uncounted Counting = 1"
| "uncounted _ = 0"

fun unfinished :: "pc \<Rightarrow> nat" where
  "unfinished Counted = 1"
| "unfinished Finishing = 1"
| "unfinished _ = 0"

definition numbered :: "int \<Rightarrow> nat \<Rightarrow> nat \<Rightarrow> string \<Rightarrow> bool" where
  "numbered pid t k page \<longleftrightarrow> (\<exists>name. page = page_header pid t name @ fmt_5d (int k))"

definition thread_ok :: "int \<Rightarrow> threaded \<Rightarrow> nat \<Rightarrow> bool" where
  "thread_ok pid s t \<longleftrightarrow>
     in_accept (t_pc s t) = (accept_mutex s = Some t) \<and>
     in_counts (t_pc s t) = (counts_mutex s = Some t) \<and>
     (t_pc s t \<noteq> Unborn \<longrightarrow> t < THREAD_COUNT) \<and>
     t_i s t = int (length (t_pages s t) + unfinished (t_pc s t)) \<and>
     (t < THREAD_COUNT \<longrightarrow> t_counts s ! t = t_i s t) \<and>
     (\<forall>k < length (t_pages s t). numbered pid t (Suc k) (t_pages s t ! k)) \<and>
     (t_pc s t = Printed \<or> t_pc s t = Counting \<longrightarrow> (\<exists>name. t_page s t = page_header pid t name)) \<and>
     (unfinished (t_pc s t) = 1 \<longrightarrow> numbered pid t (Suc (length (t_pages s t))) (t_page s t))"

definition served :: "threaded \<Rightarrow> nat \<Rightarrow> nat" where
  "served s t = length (t_pages s t) + unfinished (t_pc s t) + uncounted (t_pc s t)"

definition threads_inv :: "int \<Rightarrow> threaded \<Rightarrow> bool" where
  "threads_inv pid s \<longleftrightarrow>
     (\<forall>t. thread_ok pid s t) \<and> length (t_counts s) = THREAD_COUNT \<and>
     (\<forall>t. t_created s \<le> t \<or> t = 0 \<and> t_created s < THREAD_COUNT \<longrightarrow> t_pc s t = Unborn) \<and>
     0 < t_created s \<and> t_created s \<le> THREAD_COUNT \<and>
     t_accepted s = (\<Sum>t < THREAD_COUNT. served s t)"

lemma sum_one_thread:
  fixes f g :: "nat \<Rightarrow> nat"
  assumes "t < n" "\<And>u. u \<noteq> t \<Longrightarrow> g u = f u"
  shows "sum g {..<n} + f t = sum f {..<n} + g t"
proof -
  have "sum h {..<n} = h t + sum h ({..<n} - {t})" for h :: "nat \<Rightarrow> nat"
    using assms(1) by (simp add: sum.remove)
  moreover have "sum g ({..<n} - {t}) = sum f ({..<n} - {t})"
    using assms(2) by (intro sum.cong) auto
  ultimately show ?thesis by (metis add.commute add.left_commute)
qed

lemmas step_defs =
  do_create_def do_main_doit_def do_lock_accept_def do_accept_def do_unlock_accept_def do_header_def
  do_lock_counts_def do_unlock_counts_def do_finish_def set_pc_def

lemmas local_defs = thread_ok_def served_def step_defs nth_append less_Suc_eq

lemma sum_served:
  assumes "threads_inv pid s" "t < THREAD_COUNT" "\<And>u. u \<noteq> t \<Longrightarrow> served s' u = served s u"
    "t_accepted s' + served s t = t_accepted s + served s' t"
  shows "t_accepted s' = (\<Sum>t < THREAD_COUNT. served s' t)"
  using sum_one_thread [OF assms(2), of "served s'" "served s"] assms(1,3,4) by (simp add: threads_inv_def)

lemma threads_inv_init: "threads_inv pid threaded_init"
  by (simp add: threads_inv_def threaded_init_def thread_ok_def served_def)

lemma inv_at: "threads_inv pid s \<Longrightarrow> thread_ok pid s t"
  by (simp add: threads_inv_def)

lemma not_unborn: "threads_inv pid s \<Longrightarrow> t_pc s t \<noteq> Unborn \<Longrightarrow> t < THREAD_COUNT"
  by (simp add: threads_inv_def thread_ok_def)

text \<open>A step of thread \<open>t\<close> that leaves the others and their locks alone needs a look at \<open>t\<close> only.\<close>

lemma inv_local:
  assumes "threads_inv pid s" "t_pc s t \<noteq> Unborn"
    "\<And>u. u \<noteq> t \<Longrightarrow> t_pc s' u = t_pc s u \<and> t_i s' u = t_i s u \<and> t_pages s' u = t_pages s u \<and> t_page s' u = t_page s u \<and>
       t_counts s' ! u = t_counts s ! u \<and> (accept_mutex s' = Some u) = (accept_mutex s = Some u) \<and>
       (counts_mutex s' = Some u) = (counts_mutex s = Some u)"
    "thread_ok pid s' t" "length (t_counts s') = length (t_counts s)" "t_created s' = t_created s"
    "t_accepted s' + served s t = t_accepted s + served s' t"
  shows "threads_inv pid s'"
proof -
  have "thread_ok pid s' u" for u
    using inv_at [OF assms(1), of u] assms(3) [of u] assms(4) by (cases "u = t") (simp_all add: thread_ok_def)
  moreover have "t_accepted s' = (\<Sum>t < THREAD_COUNT. served s' t)"
    using assms(3,7) by (intro sum_served [OF assms(1) not_unborn [OF assms(1,2)]]) (auto simp: served_def)
  moreover have "t_created s \<le> u \<or> u = 0 \<and> t_created s < THREAD_COUNT \<Longrightarrow> t_pc s' u = Unborn" for u
    using assms(1,2) assms(3) [of u] by (cases "u = t") (auto simp: threads_inv_def)
  ultimately show ?thesis using assms(1,5,6) by (simp add: threads_inv_def)
qed

lemma do_count_Some:
  assumes "do_count t s = Some s'"
  shows "t < length (t_counts s) \<and>
    s' = set_pc t Counted (s\<lparr> t_counts := (t_counts s)[t := t_counts s ! t + 1], t_i := (t_i s)(t := t_i s t + 1),
           t_page := (t_page s)(t := t_page s t @ fmt_5d (t_i s t + 1)) \<rparr>)"
  using assms by (auto simp: do_count_def arr_get_def arr_set_def inc_def split: if_splits bind_splits)

lemma inv_create:
  assumes I: "threads_inv pid s" and c: "t_created s < THREAD_COUNT"
  shows "threads_inv pid (do_create ok s)"
proof -
  let ?s = "do_create ok s" and ?t = "t_created s"
  have u: "t_pc s ?t = Unborn" using I by (simp add: threads_inv_def)
  have "thread_ok pid ?s u" for u
    using inv_at [OF I, of u] u c by (cases "u = ?t") (auto simp: thread_ok_def step_defs)
  moreover have "served ?s = served s" using u by (auto simp: served_def step_defs fun_eq_iff)
  ultimately show ?thesis using I c u by (auto simp: threads_inv_def step_defs)
qed

lemma inv_main_doit:
  assumes I: "threads_inv pid s" and c: "t_created s = THREAD_COUNT" "t_pc s 0 = Unborn"
  shows "threads_inv pid (do_main_doit s)"
proof -
  have "thread_ok pid (do_main_doit s) u" for u
    using inv_at [OF I, of u] c by (cases "u = 0") (auto simp: thread_ok_def step_defs)
  moreover have "served (do_main_doit s) = served s" using c by (auto simp: served_def step_defs fun_eq_iff)
  ultimately show ?thesis using I c by (auto simp: threads_inv_def step_defs)
qed

lemma threads_inv_step:
  assumes "thread_step pid s s'" "threads_inv pid s"
  shows "threads_inv pid s'"
  using assms(1)
proof cases
  case (create ok)
  then show ?thesis using inv_create [OF assms(2)] by simp
next
  case main_doit
  then show ?thesis using inv_main_doit [OF assms(2)] by simp
next
  case (lock_accept t)
  then show ?thesis
    using inv_at [OF assms(2), of t]
    by (intro inv_local [OF assms(2), of t]) (auto simp: local_defs)
next
  case (accept t rc name)
  then show ?thesis
    using inv_at [OF assms(2), of t]
    by (intro inv_local [OF assms(2), of t]) (auto simp: local_defs)
next
  case (unlock_accept t rc)
  then show ?thesis
    using inv_at [OF assms(2), of t]
    by (intro inv_local [OF assms(2), of t]) (auto simp: local_defs)
next
  case (header t)
  then show ?thesis
    using inv_at [OF assms(2), of t]
    by (intro inv_local [OF assms(2), of t]) (auto simp: local_defs)
next
  case (lock_counts t)
  then show ?thesis
    using inv_at [OF assms(2), of t]
    by (intro inv_local [OF assms(2), of t]) (auto simp: local_defs)
next
  case (count t)
  note s' = do_count_Some [OF count(3)]
  show ?thesis
    using count(2) s' inv_at [OF assms(2), of t]
    by (intro inv_local [OF assms(2), of t])
      (auto simp: thread_ok_def served_def set_pc_def numbered_def add.commute)
next
  case (unlock_counts t)
  then show ?thesis
    using inv_at [OF assms(2), of t]
    by (intro inv_local [OF assms(2), of t]) (auto simp: local_defs)
next
  case (finish t)
  then show ?thesis
    using inv_at [OF assms(2), of t]
    by (intro inv_local [OF assms(2), of t]) (auto simp: local_defs)
qed

interpretation threaded: transition_system "\<lambda>s. s = threaded_init" "thread_step pid" "threads_inv pid" for pid
  by unfold_locales (auto intro: threads_inv_init threads_inv_step)

section \<open>Properties\<close>

lemma count_defined:
  assumes "threads_inv pid s" "t < THREAD_COUNT" "t_counts s ! t < 2147483647"
  shows "\<exists>s'. do_count t s = Some s'"
  using assms inv_at [OF assms(1), of t]
  by (auto simp: do_count_def thread_ok_def threads_inv_def arr_get_def arr_set_def inc_def)

lemma never_stuck:
  assumes I: "threads_inv pid s" and r: "\<not> returned s" and c: "\<And>t. t < THREAD_COUNT \<Longrightarrow> t_counts s ! t < 2147483647"
  shows "\<exists>s'. thread_step pid s s'"
proof -
  consider t where "accept_mutex s = Some t" | t where "counts_mutex s = Some t"
    | "accept_mutex s = None" "counts_mutex s = None" by (meson option.exhaust)
  then show ?thesis
  proof cases
    case (1 t)
    then have "in_accept (t_pc s t)" using inv_at [OF I, of t] by (simp add: thread_ok_def)
    then show ?thesis using r by (cases "t_pc s t") (auto intro: thread_step.intros)
  next
    case (2 t)
    then have p: "in_counts (t_pc s t)" using inv_at [OF I, of t] by (simp add: thread_ok_def)
    then have "t < THREAD_COUNT" using not_unborn [OF I, of t] by auto
    with p show ?thesis using r count_defined [OF I] c by (fastforce intro: thread_step.intros)
  next
    case 3
    show ?thesis
    proof (cases "t_created s < THREAD_COUNT")
      case False
      then have "t_created s = THREAD_COUNT" using I by (simp add: threads_inv_def)
      moreover have "\<not> in_accept (t_pc s 0) \<and> \<not> in_counts (t_pc s 0) \<and> t_pc s 0 \<noteq> Ended"
        using r 3 inv_at [OF I, of 0] by (simp add: thread_ok_def returned_def)
      ultimately show ?thesis
        using r 3 by (cases "t_pc s 0") (auto intro: thread_step.intros)
    qed (use r in \<open>blast intro: thread_step.create\<close>)
  qed
qed

text \<open>C38. In every interleaving the counter of a thread is the number of its pages, and the k-th page of a
  thread shows k; the counters and the requests that are accepted and not counted yet add up to the
  accepted ones; at most one thread is in each of the two sections; and as long as \<open>main\<close> has not returned
  and no counter has reached its limit, some thread can go on.\<close>

theorem threaded_counts:
  assumes "(thread_step pid)\<^sup>*\<^sup>* threaded_init s"
  shows "(\<forall>t < THREAD_COUNT. t_counts s ! t = int (length (t_pages s t) + unfinished (t_pc s t)) \<and>
             (\<forall>k < length (t_pages s t). numbered pid t (Suc k) (t_pages s t ! k))) \<and>
         t_accepted s = (\<Sum>t < THREAD_COUNT. nat (t_counts s ! t) + uncounted (t_pc s t)) \<and>
         (\<forall>t u. in_accept (t_pc s t) \<and> in_accept (t_pc s u) \<or> in_counts (t_pc s t) \<and> in_counts (t_pc s u) \<longrightarrow> t = u) \<and>
         (\<not> returned s \<and> (\<forall>t < THREAD_COUNT. t_counts s ! t < 2147483647) \<longrightarrow> (\<exists>s'. thread_step pid s s'))"
proof -
  have I: "threads_inv pid s" by (rule threaded.reachable_inv [OF refl assms])
  note here = inv_at [OF I, unfolded thread_ok_def]
  have "served s t = nat (t_counts s ! t) + uncounted (t_pc s t)" if "t < THREAD_COUNT" for t
    using here [of t] that by (simp add: served_def nat_int_add)
  then have sum: "t_accepted s = (\<Sum>t < THREAD_COUNT. nat (t_counts s ! t) + uncounted (t_pc s t))"
    using I by (simp add: threads_inv_def)
  have "in_accept (t_pc s t) = (accept_mutex s = Some t)" "in_counts (t_pc s t) = (counts_mutex s = Some t)" for t
    using here [of t] by blast+
  then have excl: "in_accept (t_pc s t) \<and> in_accept (t_pc s u) \<or> in_counts (t_pc s t) \<and> in_counts (t_pc s u) \<longrightarrow> t = u" for t u
    by (simp del: in_counts.simps) auto
  have own: "t_counts s ! t = int (length (t_pages s t) + unfinished (t_pc s t)) \<and>
      (\<forall>k < length (t_pages s t). numbered pid t (Suc k) (t_pages s t ! k))" if "t < THREAD_COUNT" for t
    using here [of t] that by simp
  show ?thesis
    by (intro conjI sum allI [OF allI [OF excl]] allI [OF impI [OF own]] impI never_stuck [OF I]) auto
qed

theorem threaded_counts_witness:
  "t_accepted (do_create True threaded_init) = 0 \<and> (\<exists>s. thread_step 7 (do_create True threaded_init) s)"
proof -
  have s: "(thread_step 7)\<^sup>*\<^sup>* threaded_init (do_create True threaded_init)"
    by (rule r_into_rtranclp, rule thread_step.create) (simp_all add: returned_def threaded_init_def)
  show ?thesis
    using threaded_counts [OF s] by (simp add: step_defs threaded_init_def returned_def)
qed

end
