(* ===== verification/TlsWin.thy ===== *)
theory TlsWin
  imports Prelude
begin

text \<open>
  The thread-local objects of PurC on Windows (lecture-5/purc-tls.h, the variant for MinGW): the double
  test around the allocation of the index, as an interleaving of the accesses to the shared
  variables, one step each. \<open>volatile\<close> is read as sequentially consistent.
\<close>

section \<open>State\<close>

abbreviation out_of_indexes :: uint where "out_of_indexes \<equiv> 0xFFFFFFFF"

text \<open>Where a thread is in the getter; \<open>Idle\<close> between two calls.\<close>

datatype tls_pc =
    Idle | TestMutex | Create | Exchange nat | CloseIt nat | Wait | TestAgain | AllocIndex | SetInit
  | Release | TestIndex | GetValue | Calloc | SetValue dword | Done dword

text \<open>
  The statics of the macro (\<open>0\<close> is NULL), the open handles with the thread that owns the mutex, the
  indices \<open>TlsAlloc\<close> has returned, the slots of the threads, the blocks in use and what each thread has got.
\<close>

record wtls =
  w_init :: bool
  w_mutex :: nat
  w_index :: uint
  w_open :: "nat set"
  w_owner :: "nat \<Rightarrow> nat option"
  w_allocs :: "uint list"
  w_slots :: "nat \<Rightarrow> uint \<Rightarrow> dword"
  w_blocks :: "dword set"
  w_pc :: "nat \<Rightarrow> tls_pc"
  w_got :: "nat \<Rightarrow> dword list"

definition wtls_init :: wtls where
  "wtls_init =
     \<lparr> w_init = False, w_mutex = 0, w_index = 0, w_open = {}, w_owner = (\<lambda>_. None), w_allocs = [],
       w_slots = (\<lambda>_ _. 0), w_blocks = {}, w_pc = (\<lambda>_. Idle), w_got = (\<lambda>_. []) \<rparr>"

definition at :: "nat \<Rightarrow> tls_pc \<Rightarrow> wtls \<Rightarrow> wtls" where
  "at t p s = s\<lparr> w_pc := (w_pc s)(t := p) \<rparr>"

section \<open>The statements of the getter\<close>

definition test_init :: "nat \<Rightarrow> wtls \<Rightarrow> wtls" where
  "test_init t s = at t (if w_init s then TestIndex else TestMutex) s"

definition test_mutex :: "nat \<Rightarrow> wtls \<Rightarrow> wtls" where
  "test_mutex t s = at t (if w_mutex s = 0 then Create else Wait) s"

definition create_mutex :: "nat \<Rightarrow> nat \<Rightarrow> wtls \<Rightarrow> wtls" where
  "create_mutex h t s = at t (Exchange h) (s\<lparr> w_open := (if h = 0 then {} else {h}) \<union> w_open s \<rparr>)"

definition exchange :: "nat \<Rightarrow> nat \<Rightarrow> wtls \<Rightarrow> wtls" where
  "exchange h t s =
     (if w_mutex s \<noteq> 0 then at t (CloseIt h) s else at t Wait (s\<lparr> w_mutex := h \<rparr>))"

definition close_handle :: "nat \<Rightarrow> nat \<Rightarrow> wtls \<Rightarrow> wtls" where
  "close_handle h t s = at t Wait (s\<lparr> w_open := w_open s - {h} \<rparr>)"

text \<open>A wait for a handle that is not one fails at once, which the code does not look at; a release by a
  thread that is not the owner fails.\<close>

definition wait_mutex :: "nat \<Rightarrow> wtls \<Rightarrow> wtls option" where
  "wait_mutex t s =
     (if w_mutex s \<notin> w_open s then Some (at t TestAgain s)
      else if w_owner s (w_mutex s) = None
        then Some (at t TestAgain (s\<lparr> w_owner := (w_owner s)(w_mutex s \<mapsto> t) \<rparr>))
      else None)"

definition test_again :: "nat \<Rightarrow> wtls \<Rightarrow> wtls" where
  "test_again t s = at t (if w_init s then Release else AllocIndex) s"

definition alloc_index :: "uint \<Rightarrow> nat \<Rightarrow> wtls \<Rightarrow> wtls" where
  "alloc_index i t s = at t SetInit (s\<lparr> w_index := i, w_allocs := w_allocs s @ [i] \<rparr>)"

definition set_init :: "nat \<Rightarrow> wtls \<Rightarrow> wtls" where
  "set_init t s = at t Release (s\<lparr> w_init := True \<rparr>)"

definition release_mutex :: "nat \<Rightarrow> wtls \<Rightarrow> wtls" where
  "release_mutex t s =
     at t TestIndex
       (if w_owner s (w_mutex s) = Some t then s\<lparr> w_owner := (w_owner s)(w_mutex s := None) \<rparr> else s)"

definition test_index :: "nat \<Rightarrow> wtls \<Rightarrow> wtls" where
  "test_index t s = at t (if w_index s = out_of_indexes then Done 0 else GetValue) s"

definition get_value :: "nat \<Rightarrow> wtls \<Rightarrow> wtls" where
  "get_value t s =
     at t (if w_slots s t (w_index s) \<noteq> 0 then Done (w_slots s t (w_index s)) else Calloc) s"

definition calloc_value :: "dword \<Rightarrow> nat \<Rightarrow> wtls \<Rightarrow> wtls" where
  "calloc_value v t s =
     (if v \<noteq> 0 then at t (SetValue v) (s\<lparr> w_blocks := insert v (w_blocks s) \<rparr>) else at t (Done 0) s)"

definition set_value :: "dword \<Rightarrow> nat \<Rightarrow> wtls \<Rightarrow> wtls" where
  "set_value v t s =
     at t (Done v) (s\<lparr> w_slots := (w_slots s)(t := (w_slots s t)(w_index s := v)) \<rparr>)"

definition return_value :: "dword \<Rightarrow> nat \<Rightarrow> wtls \<Rightarrow> wtls" where
  "return_value v t s = at t Idle (s\<lparr> w_got := (w_got s)(t := w_got s t @ [v]) \<rparr>)"

section \<open>Interleaving\<close>

text \<open>
  \<open>CreateMutexA\<close> returns a new handle, or NULL when creation may fail (\<open>f\<close>); \<open>TlsAlloc\<close> an index that
  is not in use, or \<open>TLS_OUT_OF_INDEXES\<close>; \<open>calloc\<close> a block that is not in use, or NULL.
\<close>

inductive wtls_step :: "bool \<Rightarrow> wtls \<Rightarrow> wtls \<Rightarrow> bool" for f where
  test_init: "w_pc s t = Idle \<Longrightarrow> wtls_step f s (test_init t s)"
| test_mutex: "w_pc s t = TestMutex \<Longrightarrow> wtls_step f s (test_mutex t s)"
| create_mutex: "w_pc s t = Create \<Longrightarrow> (if h = 0 then f else h \<notin> w_open s) \<Longrightarrow> wtls_step f s (create_mutex h t s)"
| exchange: "w_pc s t = Exchange h \<Longrightarrow> wtls_step f s (exchange h t s)"
| close_handle: "w_pc s t = CloseIt h \<Longrightarrow> wtls_step f s (close_handle h t s)"
| wait_mutex: "w_pc s t = Wait \<Longrightarrow> wait_mutex t s = Some s' \<Longrightarrow> wtls_step f s s'"
| test_again: "w_pc s t = TestAgain \<Longrightarrow> wtls_step f s (test_again t s)"
| alloc_index: "w_pc s t = AllocIndex \<Longrightarrow> i \<notin> set (w_allocs s) \<or> i = out_of_indexes \<Longrightarrow> wtls_step f s (alloc_index i t s)"
| set_init: "w_pc s t = SetInit \<Longrightarrow> wtls_step f s (set_init t s)"
| release_mutex: "w_pc s t = Release \<Longrightarrow> wtls_step f s (release_mutex t s)"
| test_index: "w_pc s t = TestIndex \<Longrightarrow> wtls_step f s (test_index t s)"
| get_value: "w_pc s t = GetValue \<Longrightarrow> wtls_step f s (get_value t s)"
| calloc_value: "w_pc s t = Calloc \<Longrightarrow> v \<notin> w_blocks s \<Longrightarrow> wtls_step f s (calloc_value v t s)"
| set_value: "w_pc s t = SetValue v \<Longrightarrow> wtls_step f s (set_value v t s)"
| return_value: "w_pc s t = Done v \<Longrightarrow> wtls_step f s (return_value v t s)"

section \<open>Invariant, when the creation of a mutex does not fail\<close>

fun in_section :: "tls_pc \<Rightarrow> bool" where
  "in_section TestAgain = True"
| "in_section AllocIndex = True"
| "in_section SetInit = True"
| "in_section Release = True"
| "in_section _ = False"

text \<open>The handle a thread has created and not given away, and the object it has made or stored.\<close>

fun held :: "tls_pc \<Rightarrow> nat" where
  "held (Exchange h) = h"
| "held (CloseIt h) = h"
| "held _ = 0"

fun object :: "tls_pc \<Rightarrow> dword \<Rightarrow> dword" where
  "object (SetValue v) x = v"
| "object _ x = x"

definition slot :: "wtls \<Rightarrow> nat \<Rightarrow> dword" where
  "slot s t = w_slots s t (w_index s)"

fun pc_ok :: "wtls \<Rightarrow> nat \<Rightarrow> tls_pc \<Rightarrow> bool" where
  "pc_ok s t (Exchange h) = (h \<noteq> 0 \<and> h \<in> w_open s \<and> h \<noteq> w_mutex s)"
| "pc_ok s t (CloseIt h) = (h \<noteq> 0 \<and> h \<in> w_open s \<and> h \<noteq> w_mutex s \<and> w_mutex s \<noteq> 0)"
| "pc_ok s t Wait = (w_mutex s \<noteq> 0)"
| "pc_ok s t AllocIndex = (w_allocs s = [] \<and> \<not> w_init s)"
| "pc_ok s t SetInit = (w_allocs s = [w_index s] \<and> \<not> w_init s)"
| "pc_ok s t Release = w_init s"
| "pc_ok s t TestIndex = w_init s"
| "pc_ok s t GetValue = w_init s"
| "pc_ok s t Calloc = (w_init s \<and> slot s t = 0)"
| "pc_ok s t (SetValue v) = (w_init s \<and> v \<noteq> 0 \<and> v \<in> w_blocks s \<and> slot s t = 0)"
| "pc_ok s t (Done v) = (w_init s \<and> (v = 0 \<or> v = slot s t))"
| "pc_ok s t _ = True"

definition wthread_ok :: "wtls \<Rightarrow> nat \<Rightarrow> bool" where
  "wthread_ok s t \<longleftrightarrow>
     pc_ok s t (w_pc s t) \<and>
     in_section (w_pc s t) = (w_mutex s \<noteq> 0 \<and> w_owner s (w_mutex s) = Some t) \<and>
     (\<forall>v \<in> set (w_got s t). v = 0 \<or> v = slot s t) \<and>
     (\<forall>i. w_slots s t i \<noteq> 0 \<longrightarrow> i \<in> set (w_allocs s) \<and> w_slots s t i \<in> w_blocks s)"

definition wglobal :: "wtls \<Rightarrow> bool" where
  "wglobal s \<longleftrightarrow>
     (w_mutex s \<noteq> 0 \<longrightarrow> w_mutex s \<in> w_open s) \<and> 0 \<notin> w_open s \<and>
     (\<forall>h. w_owner s h \<noteq> None \<longrightarrow> h = w_mutex s \<and> h \<noteq> 0)"

definition init_ok :: "wtls \<Rightarrow> bool" where
  "init_ok s \<longleftrightarrow>
     (w_init s \<longrightarrow> w_allocs s = [w_index s]) \<and>
     (\<not> w_init s \<and> w_allocs s \<noteq> [] \<longrightarrow> (\<exists>t. w_pc s t = SetInit))"

definition wtls_inv :: "wtls \<Rightarrow> bool" where
  "wtls_inv s \<longleftrightarrow>
     (\<forall>t. wthread_ok s t) \<and> wglobal s \<and> init_ok s \<and>
     (\<forall>t u. t \<noteq> u \<longrightarrow> held (w_pc s t) \<noteq> 0 \<longrightarrow> held (w_pc s t) \<noteq> held (w_pc s u)) \<and>
     (\<forall>t u. t \<noteq> u \<longrightarrow> object (w_pc s t) (slot s t) \<noteq> 0 \<longrightarrow>
        object (w_pc s t) (slot s t) \<noteq> object (w_pc s u) (slot s u))"

lemma wtls_inv_init: "wtls_inv wtls_init"
  by (simp add: wtls_inv_def wtls_init_def wthread_ok_def wglobal_def init_ok_def slot_def)

lemma wtls_at: "wtls_inv s \<Longrightarrow> wthread_ok s t"
  by (simp add: wtls_inv_def)

lemma one_in_section: "wtls_inv s \<Longrightarrow> in_section (w_pc s t) \<Longrightarrow> in_section (w_pc s u) \<Longrightarrow> u = t"
  using wtls_at [of s t] wtls_at [of s u] by (simp add: wthread_ok_def)

lemma held_open: "wthread_ok s t \<Longrightarrow> held (w_pc s t) \<noteq> 0 \<Longrightarrow> held (w_pc s t) \<in> w_open s"
  by (cases "w_pc s t") (simp_all add: wthread_ok_def)

lemma object_block:
  "wthread_ok s t \<Longrightarrow> object (w_pc s t) (slot s t) \<noteq> 0 \<Longrightarrow> object (w_pc s t) (slot s t) \<in> w_blocks s"
  by (cases "w_pc s t") (simp_all add: wthread_ok_def slot_def)

text \<open>A step changes the place and the slot of one thread; what it holds is what it held, or new.\<close>

lemma inv_change:
  assumes I: "wtls_inv s" and pc: "w_pc s' = (w_pc s)(t := p)" and x: "slot s' = (slot s)(t := x)"
    and others: "\<And>u. u \<noteq> t \<Longrightarrow> wthread_ok s u \<Longrightarrow> wthread_ok s' u" and own: "wthread_ok s' t"
    and h: "held p = 0 \<or> held p = held (w_pc s t) \<or> held p \<notin> w_open s"
    and o: "object p x = object (w_pc s t) (slot s t) \<or> object p x = 0 \<or> object p x \<notin> w_blocks s"
    and g: "wglobal s'" "init_ok s'"
  shows "wtls_inv s'"
proof -
  have ok: "wthread_ok s u" for u using wtls_at [OF I] .
  have apart: "u \<noteq> v \<Longrightarrow> held (w_pc s u) \<noteq> 0 \<Longrightarrow> held (w_pc s u) \<noteq> held (w_pc s v)"
    "u \<noteq> v \<Longrightarrow> object (w_pc s u) (slot s u) \<noteq> 0 \<Longrightarrow> object (w_pc s u) (slot s u) \<noteq> object (w_pc s v) (slot s v)"
    for u v using I by (simp_all add: wtls_inv_def)
  have "wthread_ok s' u" for u using others own ok by (cases "u = t") auto
  moreover have "held (w_pc s' u) \<noteq> held (w_pc s' v)" if "u \<noteq> v" "held (w_pc s' u) \<noteq> 0" for u v
    using apart(1) [of u v] apart(1) [of v u] that h held_open [OF ok, of u] held_open [OF ok, of v] unfolding pc
    by (cases "u = t"; cases "v = t") auto
  moreover have "object (w_pc s' u) (slot s' u) \<noteq> object (w_pc s' v) (slot s' v)"
    if "u \<noteq> v" "object (w_pc s' u) (slot s' u) \<noteq> 0" for u v
    using apart(2) [of u v] apart(2) [of v u] that o object_block [OF ok, of u] object_block [OF ok, of v] unfolding pc x
    by (cases "u = t"; cases "v = t") auto
  ultimately show ?thesis using g by (simp add: wtls_inv_def)
qed

lemmas wtls_ops =
  at_def test_init_def test_mutex_def create_mutex_def exchange_def close_handle_def test_again_def
  alloc_index_def set_init_def release_mutex_def test_index_def get_value_def calloc_value_def
  set_value_def return_value_def

lemma slot_same:
  "w_slots s' = w_slots s \<Longrightarrow> w_index s' = w_index s \<Longrightarrow> slot s' = (slot s)(t := slot s t)"
  by (simp add: slot_def fun_eq_iff)

lemma init_ok_keep:
  assumes "wtls_inv s" "w_pc s' = (w_pc s)(t := p)" "w_pc s t \<noteq> SetInit" "w_init s' = w_init s"
    "w_allocs s' = w_allocs s" "w_index s' = w_index s"
  shows "init_ok s'"
proof -
  have "init_ok s" using assms(1) by (simp add: wtls_inv_def)
  moreover have "w_pc s u = SetInit \<Longrightarrow> w_pc s' u = SetInit" for u using assms(2,3) by auto
  ultimately show ?thesis using assms(4-) by (auto simp: init_ok_def)
qed

end
