(* ===== verification/WinApi.thy ===== *)
theory WinApi
  imports Prelude
begin

text \<open>
  The functions of lecture-5/minigui-window.h that are defined in the header: shorter forms of functions of
  the library, which are the parameters here. Pointers that are only passed on are words (0 is NULL).
\<close>

section \<open>The library\<close>

record 'w winlib =
  RegisterEventHookFunc :: "uint \<Rightarrow> procptr \<Rightarrow> dword \<Rightarrow> 'w \<Rightarrow> procptr \<times> 'w"
  CreateThreadForMessaging :: "dword \<Rightarrow> procptr \<Rightarrow> dword \<Rightarrow> bool \<Rightarrow> nat \<Rightarrow> 'w \<Rightarrow> (int \<times> nat option) \<times> 'w"
  GetThreadByWindow :: "hwnd \<Rightarrow> 'w \<Rightarrow> dword option"
  MainWindowCleanup :: "hwnd \<Rightarrow> 'w \<Rightarrow> bool \<times> 'w"
  CreateMainWindowEx2 :: "dword \<Rightarrow> dword \<Rightarrow> dword \<Rightarrow> dword \<Rightarrow> uint \<Rightarrow> dword \<Rightarrow> int \<Rightarrow> dword \<Rightarrow> 'w \<Rightarrow> hwnd \<times> 'w"
  ChildWindowFromPointEx :: "hwnd \<Rightarrow> int \<times> int \<Rightarrow> uint \<Rightarrow> 'w \<Rightarrow> hwnd"
  WindowFromPointEx :: "int \<times> int \<Rightarrow> bool \<Rightarrow> 'w \<Rightarrow> hwnd"
  ScrollWindowEx :: "hwnd \<Rightarrow> int \<Rightarrow> int \<Rightarrow> dword \<Rightarrow> dword \<Rightarrow> dword \<Rightarrow> dword \<Rightarrow> uint \<Rightarrow> 'w \<Rightarrow> 'w"
  GetSystemBitmapEx2 :: "dword \<Rightarrow> dword \<Rightarrow> dword \<Rightarrow> 'w \<Rightarrow> dword"
  CreateWindowEx2 :: "dword \<Rightarrow> dword \<Rightarrow> dword \<Rightarrow> dword \<Rightarrow> dword \<Rightarrow> int \<times> int \<times> int \<times> int \<Rightarrow> hwnd \<Rightarrow>
      dword \<Rightarrow> dword \<Rightarrow> dword \<Rightarrow> 'w \<Rightarrow> hwnd \<times> 'w"
  SetTimerEx :: "hwnd \<Rightarrow> dword \<Rightarrow> dword \<Rightarrow> procptr \<Rightarrow> 'w \<Rightarrow> bool \<times> 'w"
  ResetTimerEx :: "hwnd \<Rightarrow> dword \<Rightarrow> dword \<Rightarrow> procptr \<Rightarrow> 'w \<Rightarrow> bool \<times> 'w"
  HideCaretEx :: "hwnd \<Rightarrow> bool \<Rightarrow> 'w \<Rightarrow> bool \<times> 'w"
  ShowCaretEx :: "hwnd \<Rightarrow> bool \<Rightarrow> 'w \<Rightarrow> bool \<times> 'w"
  CreateMainWindowIndirectParamEx :: "dword \<Rightarrow> hwnd \<Rightarrow> procptr \<Rightarrow> dword \<Rightarrow> dword \<Rightarrow> dword \<Rightarrow> dword \<Rightarrow> dword \<Rightarrow> 'w \<Rightarrow> hwnd \<times> 'w"
  DialogBoxIndirectParamEx :: "dword \<Rightarrow> hwnd \<Rightarrow> procptr \<Rightarrow> dword \<Rightarrow> dword \<Rightarrow> dword \<Rightarrow> dword \<Rightarrow> dword \<Rightarrow> 'w \<Rightarrow> int \<times> 'w"
  ClientWidthToWindowWidthEx :: "dword \<Rightarrow> int \<Rightarrow> int \<Rightarrow> int"
  ClientHeightToWindowHeightEx :: "dword \<Rightarrow> int \<Rightarrow> int \<Rightarrow> bool \<Rightarrow> int"

section \<open>Constants\<close>

abbreviation HOOK_EVENT_KEY :: uint where "HOOK_EVENT_KEY \<equiv> 0x0100"
abbreviation HOOK_EVENT_MOUSE :: uint where "HOOK_EVENT_MOUSE \<equiv> 0x0200"
abbreviation WS_EX_NONE :: dword where "WS_EX_NONE \<equiv> 0"
abbreviation ST_DEFAULT :: uint where "ST_DEFAULT \<equiv> 0"
abbreviation CT_OPAQUE :: int where "CT_OPAQUE \<equiv> 0"
abbreviation CWP_ALL :: uint where "CWP_ALL \<equiv> 0"
abbreviation SW_INVALIDATE :: uint where "SW_INVALIDATE \<equiv> 0x01"
abbreviation SW_ERASE :: uint where "SW_ERASE \<equiv> 0x02"
abbreviation SW_SCROLLCHILDREN :: uint where "SW_SCROLLCHILDREN \<equiv> 0x04"
abbreviation LFRDR_WINTYPE_MAINWIN :: int where "LFRDR_WINTYPE_MAINWIN \<equiv> 2"

section \<open>Hooks and threads\<close>

definition RegisterKeyMsgHook :: "'w winlib \<Rightarrow> dword \<Rightarrow> procptr \<Rightarrow> 'w \<Rightarrow> procptr \<times> 'w" where
  "RegisterKeyMsgHook L context hook = RegisterEventHookFunc L HOOK_EVENT_KEY hook context"

definition RegisterMouseMsgHook :: "'w winlib \<Rightarrow> dword \<Rightarrow> procptr \<Rightarrow> 'w \<Rightarrow> procptr \<times> 'w" where
  "RegisterMouseMsgHook L context hook = RegisterEventHookFunc L HOOK_EVENT_MOUSE hook context"

text \<open>The thread it stores is \<open>None\<close> when it stores none; the stack is given in kilobytes.\<close>

definition CreateThreadForMainWindow ::
    "'w winlib \<Rightarrow> dword \<Rightarrow> procptr \<Rightarrow> dword \<Rightarrow> 'w \<Rightarrow> (int \<times> nat option) \<times> 'w" where
  "CreateThreadForMainWindow L attr start_routine arg =
     CreateThreadForMessaging L attr start_routine arg True 16"

text \<open>The result of the library is not looked at: 0 is returned when there is no thread.\<close>

definition GetMainWinThread :: "'w winlib \<Rightarrow> hwnd \<Rightarrow> 'w \<Rightarrow> dword" where
  "GetMainWinThread L hMainWnd w =
     (let ret = 0 in case GetThreadByWindow L hMainWnd w of Some th \<Rightarrow> th | None \<Rightarrow> ret)"

definition MainWindowThreadCleanup :: "'w winlib \<Rightarrow> hwnd \<Rightarrow> 'w \<Rightarrow> bool \<times> 'w" where
  "MainWindowThreadCleanup L hMainWnd = MainWindowCleanup L hMainWnd"

section \<open>Main windows\<close>

definition CreateMainWindowEx ::
    "'w winlib \<Rightarrow> dword \<Rightarrow> dword \<Rightarrow> dword \<Rightarrow> dword \<Rightarrow> dword \<Rightarrow> 'w \<Rightarrow> hwnd \<times> 'w" where
  "CreateMainWindowEx L pCreateInfo werdr_name we_attrs window_name layer_name =
     CreateMainWindowEx2 L pCreateInfo 0 werdr_name we_attrs ST_DEFAULT 0xFFFFFFFF CT_OPAQUE 0"

definition CreateMainWindow :: "'w winlib \<Rightarrow> dword \<Rightarrow> 'w \<Rightarrow> hwnd \<times> 'w" where
  "CreateMainWindow L pCreateInfo = CreateMainWindowEx L pCreateInfo 0 0 0 0"

definition CreateMainWindowIndirectParam :: "'w winlib \<Rightarrow> dword \<Rightarrow> hwnd \<Rightarrow> procptr \<Rightarrow> dword \<Rightarrow> 'w \<Rightarrow> hwnd \<times> 'w" where
  "CreateMainWindowIndirectParam L pDlgTemplate hOwner WndProc lParam =
     CreateMainWindowIndirectParamEx L pDlgTemplate hOwner WndProc lParam 0 0 0 0"

definition CreateMainWindowIndirect :: "'w winlib \<Rightarrow> dword \<Rightarrow> hwnd \<Rightarrow> procptr \<Rightarrow> 'w \<Rightarrow> hwnd \<times> 'w" where
  "CreateMainWindowIndirect L pDlgTemplate hOwner WndProc = CreateMainWindowIndirectParam L pDlgTemplate hOwner WndProc 0"

definition DialogBoxIndirectParam :: "'w winlib \<Rightarrow> dword \<Rightarrow> hwnd \<Rightarrow> procptr \<Rightarrow> dword \<Rightarrow> 'w \<Rightarrow> int \<times> 'w" where
  "DialogBoxIndirectParam L pDlgTemplate hOwner DlgProc lParam =
     DialogBoxIndirectParamEx L pDlgTemplate hOwner DlgProc lParam 0 0 0 0"

definition ClientWidthToWindowWidth :: "'w winlib \<Rightarrow> dword \<Rightarrow> int \<Rightarrow> int" where
  "ClientWidthToWindowWidth L dwStyle cw = ClientWidthToWindowWidthEx L dwStyle LFRDR_WINTYPE_MAINWIN cw"

definition ClientHeightToWindowHeight :: "'w winlib \<Rightarrow> dword \<Rightarrow> int \<Rightarrow> bool \<Rightarrow> int" where
  "ClientHeightToWindowHeight L dwStyle ch hasMenu = ClientHeightToWindowHeightEx L dwStyle LFRDR_WINTYPE_MAINWIN ch hasMenu"

section \<open>Child windows, timers and carets\<close>

text \<open>The rectangle of a window is \<open>(x, y, w, h)\<close>.\<close>

definition CreateWindowEx ::
    "'w winlib \<Rightarrow> dword \<Rightarrow> dword \<Rightarrow> dword \<Rightarrow> dword \<Rightarrow> dword \<Rightarrow> int \<times> int \<times> int \<times> int \<Rightarrow> hwnd \<Rightarrow> dword \<Rightarrow> 'w \<Rightarrow> hwnd \<times> 'w" where
  "CreateWindowEx L spClassName spCaption dwStyle dwExStyle i r hParentWnd dwAddData =
     CreateWindowEx2 L spClassName spCaption dwStyle dwExStyle i r hParentWnd 0 0 dwAddData"

definition CreateWindow ::
    "'w winlib \<Rightarrow> dword \<Rightarrow> dword \<Rightarrow> dword \<Rightarrow> dword \<Rightarrow> int \<times> int \<times> int \<times> int \<Rightarrow> hwnd \<Rightarrow> dword \<Rightarrow> 'w \<Rightarrow> hwnd \<times> 'w" where
  "CreateWindow L spClassName spCaption dwStyle i r hParentWnd dwAddData =
     CreateWindowEx2 L spClassName spCaption dwStyle WS_EX_NONE i r hParentWnd 0 0 dwAddData"

definition ChildWindowFromPoint :: "'w winlib \<Rightarrow> hwnd \<Rightarrow> int \<times> int \<Rightarrow> 'w \<Rightarrow> hwnd" where
  "ChildWindowFromPoint L hParent pt = ChildWindowFromPointEx L hParent pt CWP_ALL"

definition WindowFromPoint :: "'w winlib \<Rightarrow> int \<times> int \<Rightarrow> 'w \<Rightarrow> hwnd" where
  "WindowFromPoint L pt = WindowFromPointEx L pt True"

definition ScrollWindow :: "'w winlib \<Rightarrow> hwnd \<Rightarrow> int \<Rightarrow> int \<Rightarrow> dword \<Rightarrow> dword \<Rightarrow> 'w \<Rightarrow> 'w" where
  "ScrollWindow L hWnd dx dy prcScroll prcClip =
     ScrollWindowEx L hWnd dx dy prcScroll prcClip 0 0 (SW_ERASE OR SW_INVALIDATE OR SW_SCROLLCHILDREN)"

text \<open>The context of the screen is defined elsewhere.\<close>

definition GetSystemBitmapEx :: "dword \<Rightarrow> 'w winlib \<Rightarrow> dword \<Rightarrow> dword \<Rightarrow> 'w \<Rightarrow> dword" where
  "GetSystemBitmapEx HDC_SCREEN L rdr_name i = GetSystemBitmapEx2 L HDC_SCREEN rdr_name i"

definition SetTimer :: "'w winlib \<Rightarrow> hwnd \<Rightarrow> dword \<Rightarrow> dword \<Rightarrow> 'w \<Rightarrow> bool \<times> 'w" where
  "SetTimer L h i speed = SetTimerEx L h i speed 0"

text \<open>The procedure of a timer that is reset stays: it is passed an address that no procedure has.\<close>

definition ResetTimer :: "procptr \<Rightarrow> 'w winlib \<Rightarrow> hwnd \<Rightarrow> dword \<Rightarrow> dword \<Rightarrow> 'w \<Rightarrow> bool \<times> 'w" where
  "ResetTimer INV_PTR L h i speed = ResetTimerEx L h i speed INV_PTR"

definition HideCaret :: "'w winlib \<Rightarrow> hwnd \<Rightarrow> 'w \<Rightarrow> bool \<times> 'w" where
  "HideCaret L hWnd = HideCaretEx L hWnd True"

definition ShowCaret :: "'w winlib \<Rightarrow> hwnd \<Rightarrow> 'w \<Rightarrow> bool \<times> 'w" where
  "ShowCaret L hWnd = ShowCaretEx L hWnd True"

section \<open>How they relate\<close>

text \<open>The names of the window and of the layer have no effect: without a renderer, the long form of creating
  a main window is the short one.\<close>

lemma main_window_names_ignored:
  "CreateMainWindowEx L info 0 0 window_name layer_name = CreateMainWindow L info"
  by (simp add: CreateMainWindow_def CreateMainWindowEx_def)

lemma create_window_no_style: "CreateWindow L c t st i r p a = CreateWindowEx L c t st WS_EX_NONE i r p a"
  by (simp add: CreateWindow_def CreateWindowEx_def)

text \<open>A caller of \<open>GetMainWinThread\<close> cannot tell a window without a thread from thread 0.\<close>

lemma main_win_thread_zero:
  "GetMainWinThread L h w = 0 \<longleftrightarrow> GetThreadByWindow L h w = None \<or> GetThreadByWindow L h w = Some 0"
  by (auto simp: GetMainWinThread_def split: option.splits)

end
