(* ===== verification/Spec2Isabelle.thy ===== *)
theory Spec2Isabelle
  imports MsgProps TlsProps ReqProps PurcProps PoolProps LcdProps SockProps SignalProps SharedProps WinKinds FileProps DirProps MsgNames SysVProps
    CronProps EventFd BcServer PlainWriters FcgiProps FcgiThreads TlsWinProps WinApi
begin

text \<open>
  Verification of the example programs of APLE (src/source/aple): the message queues of MiniGUI, the VxWorks POSIX
  layer, the request protocol between MiniGUI's server and its clients, the instances of the PurC interpreter, the
  common LCD driver, the Unix-domain sockets and the signal functions, timers, daemons and System V samples of the
  lectures, and the thread pool, the shared files, the directory walks, the command scheduler and the FastCGI programs
  of the exercises.

  The parts and their theories.

  \<^item> The library: \<open>Prelude\<close> (array access as options, \<open>foldm\<close>, the locales
    \<open>transition_system\<close> and \<open>terminating_system\<close>), \<open>KeyedData\<close> (the locale of
    key-value stores with owners), \<open>RingBuffer\<close> (positions modulo a length), \<open>LinkedList\<close>
    (pointer chains on a heap), \<open>CyclicSearch\<close> (a cyclic search from a position, used for timer slots and
    thread slots).
  \<^item> MiniGUI messages (lecture-5/minigui-message.c, minigui-internals.h). \<open>MsgTypes\<close> holds the
    messages, queues, windows and the world; \<open>MsgQueue\<close> the posted ring and the life of a queue;
    \<open>MsgSend\<close> the senders, \<open>MsgSync\<close> synchronous messages; \<open>WinTree\<close> the walks
    of the window tree; \<open>WinKinds\<close> the other tests and helpers on window handles; \<open>MsgPeek\<close>
    the receivers, section by section; \<open>MsgThrow\<close> discarding; \<open>MsgNames\<close> the names of
    messages and the idle handler without \<open>select\<close>; \<open>MsgInv\<close> and \<open>MsgSteps\<close> the
    invariant of the heap over all calls; \<open>MsgProps\<close> the properties.
  \<^item> The VxWorks layer. \<open>VxSem\<close>: semaphores and mutexes (lecture-5/minigui-vxworks_sem.c, _mutex.c)
    over the laws of semLib. \<open>VxAttr\<close>, \<open>VxThread\<close>, \<open>VxLife\<close>: attributes, the
    thread table, creation, joining, exit, cancellation, keys (lecture-5/minigui-vxworks_pthread.c);
    \<open>VxTable\<close>, \<open>VxOps\<close>, \<open>VxSteps\<close>, \<open>VxKeys\<close>: the table as a map of
    slots and what every operation does to it; \<open>VxProps\<close>, \<open>VxLifeProps\<close>: the properties.
  \<^item> Requests (lecture-4/minigui-server.c, minigui-client.c, the request structures of minigui-internals.h).
    \<open>Sock\<close>: bytes, integers in memory order and the socket as a parameter with its laws;
    \<open>ReqTypes\<close>: the layouts of requests and replies and both worlds; \<open>GlobalRes\<close>: the list
    of resources a client holds; \<open>Server\<close>: the handlers and their table; \<open>Request\<close>: reading
    and dispatching a request (\<open>__mg_handle_request\<close>); \<open>ServerShared\<close>: the handlers of the
    other schemata and drivers; \<open>Client\<close>: sending a request and waiting for the reply
    (\<open>ClientRequestEx2\<close>); \<open>ClientOps\<close>: the idle handler and the operations on layers;
    \<open>ReqProps\<close>, \<open>SharedProps\<close>: the properties.
  \<^item> PurC instances (lecture-5/purc-instance.c, purc-instance.h): \<open>Purc\<close>, \<open>PurcProps\<close>.
  \<^item> The thread pool (homework/po/lecture-4/exercise_1/thread/threadpool.c): \<open>ThreadPool\<close> has the
    operations and the interleaving of the main thread with the workers, one step per section under the mutex;
    \<open>PoolProps\<close> the invariant, the rank and the property.
  \<^item> Thread-local objects (lecture-5/purc-tls.h, the thread key of minigui-internals.h):
    \<open>ThreadData\<close>, on the keys of the VxWorks layer; \<open>TlsProps\<close>. \<open>TlsWin\<close>,
    \<open>TlsWinProps\<close>: the variant for MinGW, whose double test around the allocation of the index is an
    interleaving of single accesses.
  \<^item> The LCD driver (lecture-5/minigui-commlcd.c): \<open>CommLcd\<close> has the device, the dirty rectangle
    and the update thread as a machine whose section under the lock is one step; \<open>LcdProps\<close> the invariant
    over all interleavings and the properties.
  \<^item> Sockets (lecture-4/unix-domain-socket-*.c): \<open>UnixSock\<close> has a world of files, descriptors and
    pending connections, the system calls on it and the four functions; \<open>SockProps\<close>.
  \<^item> Signals (lecture-3/system.c, sleep.c, sigset.c): \<open>Signals\<close> has the dispositions, the mask, the
    alarm and the children of a process; \<open>SignalProps\<close>.
  \<^item> Files (lecture-2/dup.c, fork.c, homework/wu-shixiong/multi-process-concurent-write-to-one-same-file.c):
    \<open>SharedFile\<close> has an open description with its offset, buffered streams and the ten processes as an
    interleaving of steps; \<open>FileProps\<close>. \<open>PlainWriters\<close>: the writers without a lock, and the
    check of the lines. Strings and numbers are in \<open>CStrings\<close>.
  \<^item> Directories (homework/wu-shixiong/recursive-iterator-directory.c,
    homework/po/lecture-4/exercise_1/thread/client.c): \<open>DirWalk\<close> has trees of entries, the walk that
    counts and the sum of sizes with its jobs for the pool; \<open>DirProps\<close>.
  \<^item> Samples of the system's interfaces. \<open>SysV\<close>, \<open>SysVProps\<close>: the drawing semaphore as
    an interleaving of processes and the shared resource (lecture-4/systemv-semaphore.c, systemv-shared-memory.c);
    \<open>EventFd\<close>: the event counter and the descriptor of signals (lecture-4/eventfd.c,
    lecture-3/signalfd.c); \<open>Timers\<close>: timers and elapsed times (lecture-3/timerfd.c);
    \<open>Daemon\<close>: becoming a daemon (lecture-3/daemonize.c, \<open>tobeDaemon\<close>); \<open>Cron\<close>,
    \<open>CronProps\<close>: the configuration and the loop of homework/wu-shixiong/fake_cron.c. \<open>Chat\<close>:
    the server and the client around bc, a line for bc, cleanup handlers, aligned blocks
    (homework/po/lecture-4/exercise_2, homework/wu-shixiong/fake-bc-v3.c, aligned_alloc.c,
    lecture-5/pthread_cleanup.c); \<open>BcServer\<close>: the two ways in which the server connects bc with a client.
  \<^item> FastCGI programs (homework/po/lecture-6). \<open>Fcgi\<close>: hexadecimal output, the hash of sha256.h,
    the request object and the loop of main_v1.cpp, the server of one file (main_new.cpp); \<open>FcgiProps\<close>.
    \<open>FcgiThreads\<close>: the hundred threads of main.cpp as an interleaving of steps.
  \<^item> \<open>WinApi\<close>: the functions that lecture-5/minigui-window.h defines itself.

  The model. A state is a record; a heap is a map from addresses; a fallible call returns an option, where
  \<open>None\<close> is a fault (a NULL or dangling pointer, an index out of range) or a call that never returns. The
  configuration is the one with virtual windows and threads; longs and pointers have 64 bits, \<open>UINT\<close> has
  32. Code that is not in the repository is a parameter: the window procedures, the timers and \<open>select\<close>
  of MiniGUI (record \<open>mgenv\<close>), the kernel of VxWorks (records \<open>semlib\<close>,
  \<open>vxkernel\<close>, \<open>tenv\<close>), sockets (\<open>sockio\<close>), the graphics code behind the
  handlers of the server and the client's environment (\<open>srvenv\<close>, \<open>hwenv\<close>,
  \<open>clienv\<close>), the other modules of PurC (\<open>purcenv\<close>), rectangles, the LCD and its memory
  (\<open>rectops\<close>, \<open>lcdenv\<close>), the library of FastCGI (\<open>fcgx\<close>), the digest of
  OpenSSL, the windows of MiniGUI behind the short forms (\<open>winlib\<close>). The calls of the system in lectures
  3 and 4 are modelled; a script in the world says which of them fail. What is relied on is a named hypothesis:
  \<open>semlib_ok\<close> for the semaphores, \<open>dead_reported\<close> for the status of a task that has ended,
  \<open>pure_handlers\<close> for callbacks, \<open>sockets_ok\<close> for sockets, \<open>modules_behave\<close>,
  \<open>strdup_ok\<close> and \<open>uomap_ok\<close> for PurC, \<open>tls_env_ok\<close> for the mutex of the
  threads and the allocation of thread-local objects, \<open>rects_ok\<close> for rectangles as sets of pixels,
  \<open>fcgx_input\<close> for the input of a request, \<open>cancel_enabled\<close> for the start of the update
  thread, \<open>blocks_apart\<close> for the addresses of blocks and of surfaces in video memory,
  \<open>tests_dots\<close> for the results of \<open>strcmp\<close>. Loops are \<open>partial_function
  (option)\<close> where they may not end, and where the code is claimed to return, the property says that the result
  is \<open>Some\<close>.

  The properties. Of the messages: the senders and \<open>PeekMessage\<close> implement a bounded list with coalescing
  and two priorities; timers, repaint and broadcast order; discarding is a filter; the heap invariant holds over all
  calls; where the code loses a synchronous message. Of the VxWorks layer: a semaphore is a counter, a mutex excludes;
  the thread table and its counters stay consistent over every sequence of calls; what creation, joining and ending
  do; where creation leaves the table, where cancellation blocks; keys and their data as a key-value store; handlers
  in last-in-first-out order; the exit of a thread ends; a thread-local object stays with its thread, on both systems.
  Of the requests: the server keeps exactly the resources a client holds and releases each once; a request with its
  data and a descriptor arrives at its handler and the reply at the client. Of PurC: the life cycle of an instance on
  every branch. Of the thread pool: every run ends after a bounded number of steps, none deadlocks, and each job is
  called exactly once. Of the LCD driver: an update pushes every damaged pixel, and no interleaving with the update
  thread loses one. Of the exercises: the lines of ten processes stay whole because of the size of the buffer, with
  the lock and without it; the pool adds up the size of a directory; what is read back from a configuration. Of the
  samples: the drawing semaphore excludes until it is removed, the shared resource reaches its clients. Of the FastCGI
  programs: which body of a request is read, that the first server answers one request only, that the counters of the
  threads agree with the pages in every interleaving. Of the lectures: a server learns the process and the user of a
  client from its name; the result of \<open>system\<close> is inverted. The other properties of an operation (sending
  with priority, emptying and destroying a queue, quit, a dispatch that leaves a sender waiting, thread attributes, a
  failed creation of a thread, a loaded cursor that is destroyed twice, the lost change of a layer, the round trip of
  a key's data, the table of exception atoms, the table of handlers as a key-value store, the tests on window handles,
  the record of a surface in video memory that is never found again, the descriptors that stay open on errors, the
  count of a walk, the end of the timer sample, what \<open>sleep\<close> returns, a detached thread that has ended,
  the names the bitwise test for the dots leaves out, the names of messages, the rounding of elapsed times, daemons,
  the event counter, the loop of the scheduler, the digits of a hash, the parameters of a request, the local data of
  an instance, bc on a socket and behind pipes, the object a thread loses on Windows without a mutex) are theorems
  beside these.

  Bounds. No fuel is used: loops are structural or have a measure, or are \<open>partial_function\<close> with a
  property that the result is \<open>Some\<close>. A run of the pool with j jobs and n workers has at most 6 j + 7 n +
  4 steps. The pool's sum is stated for an associative and commutative addition, which that of floats is only up to
  rounding. The update thread blocks after three steps for each token of its semaphore and two more. Signal numbers
  are below 32, so that the shifts of the sets are defined. A request body is read in buffers of 10000 bytes, so the
  loop ends after at most 10001 of them.

  Not modelled: drawing, carets and input methods; log output and the memory that is never freed; code that is
  compiled out; the samples with constant calls (ftok.c, lecture-3/fork.c); the end of main_new.cpp, which joins
  threads without shared state; the variants of purc-tls.h that are a keyword of the compiler; the headers of wtf,
  which are macros; of minigui-window.h the declarations and the documentation, which are nearly all of it.
\<close>

end
